(* ===== verification/Prelude.thy ===== *)
theory Prelude
  imports Complex_Main "HOL-Library.AList" "HOL-Library.Product_Lexorder" "HOL-Library.Sublist"
begin

text \<open>
  Shared vocabulary of the development: the fragment of Python and of its standard library
  that the modelled modules use (strings, integers, dictionaries, JSON values, exceptions,
  timestamps, UUIDs), and the relational primitives every database operation is built from
  (a table is the list of its rows in the order the server scans them).

  Conventions.
  \<^item> A Python \<open>str\<close> is a list of code points below 256; whitespace and lower-casing follow
    Python on that range.
  \<^item> A \<open>dict\<close> is an association list in insertion order; \<open>d[k] = v\<close> is the library's
    \<open>AList.update\<close>.
  \<^item> A \<open>datetime\<close> is the number of microseconds since the epoch (UTC), a \<open>timedelta\<close> a
    number of microseconds; a \<open>float\<close> is the rational its decimal rendering denotes.
  \<^item> An exception is a value of the sum type \<open>'a res\<close>, on the left.
\<close>

section \<open>Collections of rewrite rules\<close>

named_theorems py_simps \<open>unfolding rules for the Python primitives\<close>
named_theorems op_defs \<open>definitions of the database operations\<close>
named_theorems frame_simps \<open>what an operation leaves unchanged\<close>

section \<open>Exceptions\<close>

datatype py_error =
    ValueError string
  | TypeError string
  | AttributeError string
  | KeyError string
  | AssertionError
  | IntegrityError string
  | CompileError string
  | BackgroundJobClaimError string
  | DataError string
  | HTTPException int string
  | HTTPError string
  | MattermostAPIError string
  | SlackAPIError string
  | RuntimeError string
  | PatternError string
  | MultipleResultsFound
  | TimeoutError string
  | KnowledgeSourcePublicationError string
  | KnowledgeSourceError string
  | BundleCompatibilityError string
  | WorkflowRepoSyncError string
  | OSError string

type_synonym 'a res = "py_error + 'a"

definition bind_res :: "'a res \<Rightarrow> ('a \<Rightarrow> 'b res) \<Rightarrow> 'b res" where
  "bind_res r f = (case r of Inl e \<Rightarrow> Inl e | Inr x \<Rightarrow> f x)"

lemma bind_res_simps [simp]:
  "bind_res (Inl e) f = Inl e"
  "bind_res (Inr x) f = f x"
  by (simp_all add: bind_res_def)

lemma bind_res_Inr [simp]: "bind_res r Inr = r"
  by (simp add: bind_res_def split: sum.split)

lemma bind_res_Inr_iff: "bind_res r f = Inr y \<longleftrightarrow> (\<exists>x. r = Inr x \<and> f x = Inr y)"
  by (cases r) auto

section \<open>Strings\<close>

type_synonym str = string

definition py_isspace :: "char \<Rightarrow> bool" where
  "py_isspace c = (let n = (of_char c :: nat)
     in (9 \<le> n \<and> n \<le> 13) \<or> (28 \<le> n \<and> n \<le> 32) \<or> n = 133 \<or> n = 160)"

definition py_lower_char :: "char \<Rightarrow> char" where
  "py_lower_char c = (let n = (of_char c :: nat)
     in if (65 \<le> n \<and> n \<le> 90) \<or> (192 \<le> n \<and> n \<le> 222 \<and> n \<noteq> 215) then char_of (n + 32) else c)"

definition py_isdigit :: "char \<Rightarrow> bool" where
  "py_isdigit c = (let n = (of_char c :: nat) in 48 \<le> n \<and> n \<le> 57)"

definition py_lower :: "str \<Rightarrow> str" where
  "py_lower = map py_lower_char"

definition py_lstrip :: "str \<Rightarrow> str" where
  "py_lstrip = dropWhile py_isspace"

definition py_rstrip :: "str \<Rightarrow> str" where
  "py_rstrip s = rev (dropWhile py_isspace (rev s))"

definition py_strip :: "str \<Rightarrow> str" where
  "py_strip s = py_rstrip (py_lstrip s)"

lemma dropWhile_id: "xs = [] \<or> \<not> P (hd xs) \<Longrightarrow> dropWhile P xs = xs"
  by (cases xs) auto

lemma py_strip_idem [simp]: "py_strip (py_strip s) = py_strip s"
proof -
  let ?l = "dropWhile py_isspace s"
  let ?r = "rev (dropWhile py_isspace (rev ?l))"
  have "?l = ?r @ rev (takeWhile py_isspace (rev ?l))"
    by (metis rev_append rev_rev_ident takeWhile_dropWhile_id)
  then have "?r = [] \<or> \<not> py_isspace (hd ?r)"
    by (metis append_is_Nil_conv hd_append2 hd_dropWhile)
  then have "dropWhile py_isspace ?r = ?r" by (rule dropWhile_id)
  then show ?thesis
    by (simp add: py_strip_def py_rstrip_def py_lstrip_def)
qed

text \<open>The lower-case letters by their code, for evaluating \<open>py_lower\<close> on concrete text.\<close>

lemma char_of_letter:
  "char_of (97::nat) = CHR ''a''"
  "char_of (98::nat) = CHR ''b''"
  "char_of (99::nat) = CHR ''c''"
  "char_of (100::nat) = CHR ''d''"
  "char_of (101::nat) = CHR ''e''"
  "char_of (102::nat) = CHR ''f''"
  "char_of (103::nat) = CHR ''g''"
  "char_of (104::nat) = CHR ''h''"
  "char_of (105::nat) = CHR ''i''"
  "char_of (106::nat) = CHR ''j''"
  "char_of (107::nat) = CHR ''k''"
  "char_of (108::nat) = CHR ''l''"
  "char_of (109::nat) = CHR ''m''"
  "char_of (110::nat) = CHR ''n''"
  "char_of (111::nat) = CHR ''o''"
  "char_of (112::nat) = CHR ''p''"
  "char_of (113::nat) = CHR ''q''"
  "char_of (114::nat) = CHR ''r''"
  "char_of (115::nat) = CHR ''s''"
  "char_of (116::nat) = CHR ''t''"
  "char_of (117::nat) = CHR ''u''"
  "char_of (118::nat) = CHR ''v''"
  "char_of (119::nat) = CHR ''w''"
  "char_of (120::nat) = CHR ''x''"
  "char_of (121::nat) = CHR ''y''"
  "char_of (122::nat) = CHR ''z''"
  by code_simp+

definition strip_chars :: "char list \<Rightarrow> str \<Rightarrow> str" where
  "strip_chars cs s = rev (dropWhile (\<lambda>c. c \<in> set cs) (rev (dropWhile (\<lambda>c. c \<in> set cs) s)))"

definition rstrip_chars :: "char list \<Rightarrow> str \<Rightarrow> str" where
  "rstrip_chars cs s = rev (dropWhile (\<lambda>c. c \<in> set cs) (rev s))"

definition py_startswith :: "str \<Rightarrow> str \<Rightarrow> bool" where
  "py_startswith s p = (take (length p) s = p)"

definition py_endswith :: "str \<Rightarrow> str \<Rightarrow> bool" where
  "py_endswith s p = py_startswith (rev s) (rev p)"

fun py_contains :: "str \<Rightarrow> str \<Rightarrow> bool" where
  "py_contains [] p = (p = [])"
| "py_contains (c # s) p = (py_startswith (c # s) p \<or> py_contains s p)"

fun py_join :: "str \<Rightarrow> str list \<Rightarrow> str" where
  "py_join sep [] = []"
| "py_join sep [s] = s"
| "py_join sep (s # t # ss) = s @ sep @ py_join sep (t # ss)"

text \<open>\<open>s.split()\<close>: maximal runs of non-whitespace.\<close>

fun split_ws_aux :: "str \<Rightarrow> str \<Rightarrow> str list" where
  "split_ws_aux w [] = (if w = [] then [] else [rev w])"
| "split_ws_aux w (c # s) =
     (if py_isspace c then (if w = [] then split_ws_aux [] s else rev w # split_ws_aux [] s)
      else split_ws_aux (c # w) s)"

definition py_split :: "str \<Rightarrow> str list" where
  "py_split = split_ws_aux []"

text \<open>\<open>s.split(sep)\<close> for a one-character separator.\<close>

fun split_char_aux :: "char \<Rightarrow> str \<Rightarrow> str \<Rightarrow> str list" where
  "split_char_aux sep w [] = [rev w]"
| "split_char_aux sep w (c # s) =
     (if c = sep then rev w # split_char_aux sep [] s else split_char_aux sep (c # w) s)"

definition split_char :: "char \<Rightarrow> str \<Rightarrow> str list" where
  "split_char sep = split_char_aux sep []"

text \<open>\<open>s.replace(old, new)\<close> for a non-empty \<open>old\<close>, left to right, non-overlapping.\<close>

function py_replace :: "str \<Rightarrow> str \<Rightarrow> str \<Rightarrow> str" where
  "py_replace p q [] = []"
| "py_replace p q (c # s) =
     (if p \<noteq> [] \<and> py_startswith (c # s) p then q @ py_replace p q (drop (length p) (c # s))
      else c # py_replace p q s)"
  by pat_completeness auto
termination
  by (relation "measure (\<lambda>(p, q, s). length s)") (auto simp: neq_Nil_conv)

text \<open>Decimal rendering and parsing of integers.\<close>

definition digit_char :: "nat \<Rightarrow> char" where
  "digit_char n = char_of (48 + n)"

definition digit_val :: "char \<Rightarrow> nat" where
  "digit_val c = of_char c - 48"

fun str_of_nat :: "nat \<Rightarrow> str" where
  "str_of_nat n = (if n < 10 then [digit_char n] else str_of_nat (n div 10) @ [digit_char (n mod 10)])"

declare str_of_nat.simps [simp del]

definition str_of_int :: "int \<Rightarrow> str" where
  "str_of_int i = (if i < 0 then ''-'' @ str_of_nat (nat (- i)) else str_of_nat (nat i))"

definition nat_of_digits :: "str \<Rightarrow> nat" where
  "nat_of_digits = foldl (\<lambda>acc c. 10 * acc + digit_val c) 0"

text \<open>
  \<open>int(s)\<close> on a string: surrounding whitespace, a sign, digits with single underscores
  between them.
\<close>

fun digits_ok :: "str \<Rightarrow> bool" where
  "digits_ok [] = False"
| "digits_ok [c] = py_isdigit c"
| "digits_ok (c # d # s) =
     (py_isdigit c \<and> (if d = CHR ''_'' then digits_ok s else digits_ok (d # s)))"

definition nat_of_str :: "str \<Rightarrow> nat option" where
  "nat_of_str s = (if digits_ok s then Some (nat_of_digits (filter py_isdigit s)) else None)"

definition int_of_str :: "str \<Rightarrow> int option" where
  "int_of_str s0 =
     (let s = py_strip s0 in
      case s of
        [] \<Rightarrow> None
      | c # r \<Rightarrow>
          if c = CHR ''-'' then map_option (\<lambda>n. - int n) (nat_of_str r)
          else if c = CHR ''+'' then map_option int (nat_of_str r)
          else map_option int (nat_of_str s))"

lemma py_isdigit_digit_char [simp]: "n < 10 \<Longrightarrow> py_isdigit (digit_char n)"
  by (simp add: py_isdigit_def digit_char_def Let_def)

lemma digit_val_digit_char [simp]: "n < 10 \<Longrightarrow> digit_val (digit_char n) = n"
  by (simp add: digit_val_def digit_char_def)


lemma digits_ok_append:
  "s \<noteq> [] \<Longrightarrow> list_all py_isdigit s \<Longrightarrow> digits_ok s"
proof (induction s rule: digits_ok.induct)
  case (3 c d s)
  then show ?case by (auto simp: py_isdigit_def Let_def)
qed auto

lemma str_of_nat_digits: "list_all py_isdigit (str_of_nat n)"
proof (induction n rule: str_of_nat.induct)
  case (1 n)
  then show ?case by (subst str_of_nat.simps) simp
qed

lemma str_of_nat_not_Nil [simp]: "str_of_nat n \<noteq> []"
  by (subst str_of_nat.simps) simp

lemma nat_of_digits_snoc: "nat_of_digits (s @ [c]) = 10 * nat_of_digits s + digit_val c"
  by (simp add: nat_of_digits_def)

lemma nat_of_digits_str_of_nat: "nat_of_digits (str_of_nat n) = n"
proof (induction n rule: str_of_nat.induct)
  case (1 n)
  show ?case
  proof (cases "n < 10")
    case True
    then show ?thesis by (subst str_of_nat.simps) (simp add: nat_of_digits_def)
  next
    case False
    with 1 show ?thesis by (subst str_of_nat.simps) (simp add: nat_of_digits_snoc)
  qed
qed

lemma filter_list_all: "list_all P xs \<Longrightarrow> filter P xs = xs"
  by (induction xs) auto

lemma nat_of_str_str_of_nat: "nat_of_str (str_of_nat n) = Some n"
  using str_of_nat_digits [of n]
  by (simp add: nat_of_str_def digits_ok_append filter_list_all nat_of_digits_str_of_nat)

lemma str_of_nat_inject: "str_of_nat m = str_of_nat n \<Longrightarrow> m = n"
  using nat_of_digits_str_of_nat by metis

section \<open>JSON values and dictionaries\<close>

datatype json =
    JNull
  | JBool bool
  | JInt int
  | JFloat rat
  | JStr str
  | JList "json list"
  | JObj "(str \<times> json) list"

type_synonym dict = "(str \<times> json) list"

text \<open>Python truthiness, \<open>x or y\<close>, \<open>isinstance\<close> tests.\<close>

fun truthy :: "json \<Rightarrow> bool" where
  "truthy JNull = False"
| "truthy (JBool b) = b"
| "truthy (JInt n) = (n \<noteq> 0)"
| "truthy (JFloat q) = (q \<noteq> 0)"
| "truthy (JStr s) = (s \<noteq> [])"
| "truthy (JList xs) = (xs \<noteq> [])"
| "truthy (JObj d) = (d \<noteq> [])"

definition py_or :: "json \<Rightarrow> json \<Rightarrow> json" where
  "py_or a b = (if truthy a then a else b)"

definition opt_truthy :: "str option \<Rightarrow> bool" where
  "opt_truthy s = (case s of None \<Rightarrow> False | Some t \<Rightarrow> t \<noteq> [])"

text \<open>\<open>s or ""\<close> for an optional string.\<close>

definition opt_str :: "str option \<Rightarrow> str" where
  "opt_str s = (case s of None \<Rightarrow> [] | Some t \<Rightarrow> t)"

fun is_str :: "json \<Rightarrow> bool" where
  "is_str (JStr s) = True"
| "is_str v = False"

fun is_obj :: "json \<Rightarrow> bool" where
  "is_obj (JObj d) = True"
| "is_obj v = False"

fun is_list :: "json \<Rightarrow> bool" where
  "is_list (JList d) = True"
| "is_list v = False"

fun obj_or_empty :: "json \<Rightarrow> dict" where
  "obj_or_empty (JObj d) = d"
| "obj_or_empty v = []"

definition jopt :: "str option \<Rightarrow> json" where
  "jopt s = (case s of None \<Rightarrow> JNull | Some t \<Rightarrow> JStr t)"

text \<open>\<open>d.get(k, default)\<close>, \<open>d.get(k)\<close>, and \<open>.get\<close> on a value that may not be a dict.\<close>

definition get_default :: "dict \<Rightarrow> str \<Rightarrow> json \<Rightarrow> json" where
  "get_default d k v = (case map_of d k of None \<Rightarrow> v | Some w \<Rightarrow> w)"

definition dget :: "dict \<Rightarrow> str \<Rightarrow> json" where
  "dget d k = get_default d k JNull"

definition attr_get :: "json \<Rightarrow> str \<Rightarrow> json res" where
  "attr_get v k = (case v of JObj d \<Rightarrow> Inr (dget d k) | _ \<Rightarrow> Inl (AttributeError ''get''))"

abbreviation dset :: "str \<Rightarrow> json \<Rightarrow> dict \<Rightarrow> dict" where
  "dset k v d \<equiv> AList.update k v d"

text \<open>\<open>d.update(e)\<close> and \<open>{**d, **e}\<close>.\<close>

definition dmerge :: "dict \<Rightarrow> dict \<Rightarrow> dict" where
  "dmerge d e = fold (\<lambda>(k, v). AList.update k v) e d"

lemma map_of_dset [simp]: "map_of (dset k v d) = (map_of d)(k \<mapsto> v)"
  by (rule update_conv')

lemma dget_dset [simp]: "dget (dset k v d) k' = (if k' = k then v else dget d k')"
  by (simp add: dget_def get_default_def)

lemma get_default_dset [simp]:
  "get_default (dset k v d) k' w = (if k' = k then v else get_default d k' w)"
  by (simp add: get_default_def)

lemma dset_not_Nil [simp]: "dset k v d \<noteq> []"
  by (induction d) auto

lemma dmerge_Nil [simp]: "dmerge d [] = d"
  by (simp add: dmerge_def)

lemma dmerge_Cons [simp]: "dmerge d ((k, v) # e) = dmerge (dset k v d) e"
  by (simp add: dmerge_def)

lemma map_of_dmerge: "map_of (dmerge d e) k = (case map_of (rev e) k of None \<Rightarrow> map_of d k | Some v \<Rightarrow> Some v)"
proof (induction e arbitrary: d)
  case (Cons kv e)
  then show ?case by (cases kv) (auto split: option.splits)
qed simp

text \<open>
  \<open>str(v)\<close>. Floats are rendered positionally; the exponent notation Python uses from
  \<open>1e16\<close> up and below \<open>1e-4\<close> is not modelled. Containers are rendered by \<open>repr\<close>.
\<close>

fun frac_digits :: "nat \<Rightarrow> rat \<Rightarrow> str" where
  "frac_digits 0 q = []"
| "frac_digits (Suc n) q =
     (if q = 0 then []
      else let d = nat \<lfloor>q * 10\<rfloor> in digit_char d # frac_digits n (q * 10 - of_nat d))"

definition float_str :: "rat \<Rightarrow> str" where
  "float_str q =
     (let a = \<bar>q\<bar>; i = nat \<lfloor>a\<rfloor>; f = frac_digits 17 (a - of_nat i)
      in (if q < 0 then ''-'' else []) @ str_of_nat i @ ''.'' @ (if f = [] then ''0'' else f))"

definition repr_str :: "str \<Rightarrow> str" where
  "repr_str s =
     (let q = (if CHR 0x27 \<in> set s \<and> CHR 0x22 \<notin> set s then CHR 0x22 else CHR 0x27)
      in [q] @ concat (map (\<lambda>c. if c = q \<or> c = CHR 0x5C then [CHR 0x5C, c]
                                else if c = CHR 0x0A then [CHR 0x5C, CHR ''n'']
                                else if c = CHR 0x0D then [CHR 0x5C, CHR ''r'']
                                else if c = CHR 0x09 then [CHR 0x5C, CHR ''t''] else [c]) s) @ [q])"

fun py_repr :: "json \<Rightarrow> str" where
  "py_repr JNull = ''None''"
| "py_repr (JBool b) = (if b then ''True'' else ''False'')"
| "py_repr (JInt n) = str_of_int n"
| "py_repr (JFloat q) = float_str q"
| "py_repr (JStr s) = repr_str s"
| "py_repr (JList xs) = ''['' @ py_join '', '' (map py_repr xs) @ '']''"
| "py_repr (JObj d) =
     ''{'' @ py_join '', '' (map (\<lambda>(k, v). repr_str k @ '': '' @ py_repr v) d) @ ''}''"

definition py_str :: "json \<Rightarrow> str" where
  "py_str v = (case v of JStr s \<Rightarrow> s | _ \<Rightarrow> py_repr v)"

lemma py_str_simps [simp]:
  "py_str (JStr s) = s"
  "py_str JNull = ''None''"
  "py_str (JInt n) = str_of_int n"
  by (simp_all add: py_str_def)

text \<open>\<open>str(v or "")\<close>, the idiom most of the code reads optional JSON text with.\<close>

definition text_or_empty :: "json \<Rightarrow> str" where
  "text_or_empty v = py_str (py_or v (JStr []))"

lemma text_or_empty_simps [simp]:
  "text_or_empty (JStr s) = s"
  "text_or_empty JNull = []"
  by (simp_all add: text_or_empty_def py_or_def)

text \<open>\<open>int(v)\<close>.\<close>

definition trunc_rat :: "rat \<Rightarrow> int" where
  "trunc_rat q = (if q < 0 then - \<lfloor>- q\<rfloor> else \<lfloor>q\<rfloor>)"

fun py_int :: "json \<Rightarrow> int res" where
  "py_int (JInt n) = Inr n"
| "py_int (JBool b) = Inr (if b then 1 else 0)"
| "py_int (JFloat q) = Inr (trunc_rat q)"
| "py_int (JStr s) =
     (case int_of_str s of Some n \<Rightarrow> Inr n | None \<Rightarrow> Inl (ValueError ''invalid literal for int()''))"
| "py_int v = Inl (TypeError ''int() argument'')"

text \<open>\<open>list(v)\<close>, and the values a \<open>for\<close> loop over \<open>v\<close> sees.\<close>

fun py_list :: "json \<Rightarrow> json list res" where
  "py_list (JList xs) = Inr xs"
| "py_list (JStr s) = Inr (map (\<lambda>c. JStr [c]) s)"
| "py_list (JObj e) = Inr (map (\<lambda>(k, v). JStr k) e)"
| "py_list v = Inl (TypeError ''object is not iterable'')"

text \<open>\<open>json.dumps(v)\<close> with its default separators and \<open>ensure_ascii\<close>.\<close>

definition hex4 :: "nat \<Rightarrow> str" where
  "hex4 n = map (\<lambda>d. if d < 10 then char_of (48 + d) else char_of (87 + d))
     [n div 4096 mod 16, n div 256 mod 16, n div 16 mod 16, n mod 16]"

definition json_char :: "char \<Rightarrow> str" where
  "json_char c =
     (let n = (of_char c :: nat)
      in if c = CHR 0x22 \<or> c = CHR 0x5C then [CHR 0x5C, c]
         else if n = 8 then [CHR 0x5C, CHR ''b''] else if n = 9 then [CHR 0x5C, CHR ''t'']
         else if n = 10 then [CHR 0x5C, CHR ''n''] else if n = 12 then [CHR 0x5C, CHR ''f'']
         else if n = 13 then [CHR 0x5C, CHR ''r'']
         else if n < 32 \<or> 128 \<le> n then [CHR 0x5C, CHR ''u''] @ hex4 n else [c])"

definition json_string :: "str \<Rightarrow> str" where
  "json_string s = [CHR 0x22] @ concat (map json_char s) @ [CHR 0x22]"

fun json_dumps :: "json \<Rightarrow> str" where
  "json_dumps JNull = ''null''"
| "json_dumps (JBool b) = (if b then ''true'' else ''false'')"
| "json_dumps (JInt n) = str_of_int n"
| "json_dumps (JFloat q) = float_str q"
| "json_dumps (JStr s) = json_string s"
| "json_dumps (JList xs) = ''['' @ py_join '', '' (map json_dumps xs) @ '']''"
| "json_dumps (JObj d) =
     ''{'' @ py_join '', '' (map (\<lambda>(k, v). json_string k @ '': '' @ json_dumps v) d) @ ''}''"

section \<open>Time\<close>

type_synonym time = int

definition seconds :: "int \<Rightarrow> int" where
  "seconds n = n * 1000000"

definition days :: "int \<Rightarrow> int" where
  "days n = n * 86400000000"

definition total_seconds :: "int \<Rightarrow> rat" where
  "total_seconds d = of_int d / 1000000"

text \<open>\<open>isoformat()\<close> of a UTC datetime: civil date from the day number, then the time of day.\<close>

definition civil_from_days :: "int \<Rightarrow> int \<times> int \<times> int" where
  "civil_from_days z0 =
     (let z = z0 + 719468; era = z div 146097; doe = z - era * 146097;
          yoe = (doe - doe div 1460 + doe div 36524 - doe div 146096) div 365;
          doy = doe - (365 * yoe + yoe div 4 - yoe div 100);
          mp = (5 * doy + 2) div 153;
          d = doy - (153 * mp + 2) div 5 + 1;
          m = (if mp < 10 then mp + 3 else mp - 9)
      in (yoe + era * 400 + (if m \<le> 2 then 1 else 0), m, d))"

definition pad0 :: "nat \<Rightarrow> int \<Rightarrow> str" where
  "pad0 w n = (let s = str_of_nat (nat n) in replicate (w - length s) (CHR ''0'') @ s)"

definition isoformat :: "time \<Rightarrow> str" where
  "isoformat t =
     (let us = t mod 1000000; s = t div 1000000; tod = s mod 86400; (y, m, d) = civil_from_days (s div 86400)
      in pad0 4 y @ ''-'' @ pad0 2 m @ ''-'' @ pad0 2 d @ ''T'' @ pad0 2 (tod div 3600) @ '':''
         @ pad0 2 (tod div 60 mod 60) @ '':'' @ pad0 2 (tod mod 60)
         @ (if us = 0 then [] else ''.'' @ pad0 6 us) @ ''+00:00'')"

definition iso_opt :: "time option \<Rightarrow> json" where
  "iso_opt t = (case t of None \<Rightarrow> JNull | Some u \<Rightarrow> JStr (isoformat u))"

section \<open>UUIDs\<close>

text \<open>
  A UUID is its 128-bit value. \<open>str\<close> renders it in the 8-4-4-4-12 form; \<open>uuid.UUID(s)\<close>
  drops \<open>urn:\<close>, \<open>uuid:\<close>, surrounding braces and hyphens and reads the remaining 32
  characters as a base-16 integer.
\<close>

type_synonym uuid = nat

definition hex_digit :: "nat \<Rightarrow> char" where
  "hex_digit n = char_of (if n < 10 then 48 + n else 87 + n)"

fun hex_digits :: "nat \<Rightarrow> nat \<Rightarrow> str" where
  "hex_digits 0 n = []"
| "hex_digits (Suc w) n = hex_digits w (n div 16) @ [hex_digit (n mod 16)]"

definition uuid_str :: "uuid \<Rightarrow> str" where
  "uuid_str u =
     (let h = hex_digits 32 u
      in take 8 h @ ''-'' @ take 4 (drop 8 h) @ ''-'' @ take 4 (drop 12 h) @ ''-''
         @ take 4 (drop 16 h) @ ''-'' @ drop 20 h)"

definition hex_val :: "char \<Rightarrow> nat option" where
  "hex_val c = (let n = (of_char c :: nat)
     in if 48 \<le> n \<and> n \<le> 57 then Some (n - 48)
        else if 97 \<le> n \<and> n \<le> 102 then Some (n - 87)
        else if 65 \<le> n \<and> n \<le> 70 then Some (n - 55) else None)"

fun hex_nat :: "nat \<Rightarrow> str \<Rightarrow> nat option" where
  "hex_nat acc [] = Some acc"
| "hex_nat acc (c # s) = (case hex_val c of None \<Rightarrow> None | Some d \<Rightarrow> hex_nat (16 * acc + d) s)"

definition uuid_of_str :: "str \<Rightarrow> uuid option" where
  "uuid_of_str s =
     (let h = filter (\<lambda>c. c \<noteq> CHR ''-'')
                (strip_chars ''{}'' (py_replace ''uuid:'' [] (py_replace ''urn:'' [] s)))
      in if length h = 32 then hex_nat 0 h else None)"

text \<open>Rendering an identifier and parsing it back.\<close>

lemma py_startswith_hd: "py_startswith s (c # p) \<Longrightarrow> c \<in> set s"
  unfolding py_startswith_def by (metis in_set_takeD list.set_intros(1))

lemma py_replace_absent: "c \<notin> set s \<Longrightarrow> py_replace (c # p) q s = s"
proof (induction s)
  case (Cons x xs)
  then have "\<not> py_startswith (x # xs) (c # p)" using py_startswith_hd by fastforce
  with Cons show ?case by simp
qed simp

lemma dropWhile_absent: "\<forall>c \<in> set s. \<not> P c \<Longrightarrow> dropWhile P s = s"
  by (cases s) auto

lemma strip_chars_absent: "\<forall>c \<in> set s. c \<notin> set cs \<Longrightarrow> strip_chars cs s = s"
  by (simp add: strip_chars_def dropWhile_absent)

lemma hex_digit_neq: "n < 16 \<Longrightarrow> hex_digit n = c \<Longrightarrow> 48 \<le> (of_char c :: nat) \<and> (of_char c :: nat) \<le> 102 \<and> (of_char c :: nat) \<notin> {58..96}"
  by (auto simp: hex_digit_def split: if_splits)

lemma hex_val_hex_digit: "n < 16 \<Longrightarrow> hex_val (hex_digit n) = Some n"
  by (auto simp: hex_val_def hex_digit_def Let_def)

lemma set_hex_digits: "c \<in> set (hex_digits w n) \<Longrightarrow> \<exists>k < 16. c = hex_digit k"
  by (induction w arbitrary: n) (auto, metis mod_less_divisor zero_less_numeral)

lemma length_hex_digits [simp]: "length (hex_digits w n) = w"
  by (induction w arbitrary: n) auto

lemma hex_nat_append: "hex_nat acc (s @ t) = (case hex_nat acc s of None \<Rightarrow> None | Some a \<Rightarrow> hex_nat a t)"
  by (induction s arbitrary: acc) (auto split: option.split)

lemma hex_nat_hex_digits: "hex_nat acc (hex_digits w n) = Some (acc * 16 ^ w + n mod 16 ^ w)"
proof (induction w arbitrary: n)
  case (Suc w)
  have "n mod 16 ^ Suc w = 16 * (n div 16 mod 16 ^ w) + n mod 16"
    by (simp add: mod_mult2_eq)
  with Suc show ?case
    by (simp add: hex_nat_append hex_val_hex_digit algebra_simps)
qed simp

lemma set_uuid_str: "c \<in> set (uuid_str u) \<Longrightarrow> c = CHR ''-'' \<or> (\<exists>k < 16. c = hex_digit k)"
  by (auto simp: uuid_str_def Let_def dest!: in_set_takeD in_set_dropD intro: set_hex_digits)

lemma uuid_str_not_Nil: "uuid_str u \<noteq> []"
  by (simp add: uuid_str_def Let_def)

lemma uuid_chars:
  assumes "c \<in> set (uuid_str u)" shows "(of_char c :: nat) \<le> 102" "c \<noteq> CHR ''u''" "c \<notin> set ''{}''"
proof -
  from set_uuid_str [OF assms] show "(of_char c :: nat) \<le> 102"
    using hex_digit_neq by auto
  then show "c \<noteq> CHR ''u''" "c \<notin> set ''{}''" by auto
qed

lemma filter_hex_digits: "filter (\<lambda>c. c \<noteq> CHR ''-'') (hex_digits w n) = hex_digits w n"
proof -
  have "hex_digit k \<noteq> CHR ''-''" if "k < 16" for k
    using hex_digit_neq [OF that, of "CHR ''-''"] by auto
  then show ?thesis using set_hex_digits by (fastforce simp: filter_id_conv)
qed

lemma take_drop_join: "take b (drop a h) @ drop (a + b) h = drop a h"
  by (metis append_take_drop_id drop_drop add.commute)

lemma uuid_pieces: "take 8 h @ take 4 (drop 8 h) @ take 4 (drop 12 h) @ take 4 (drop 16 h) @ drop 20 h = h"
proof -
  have "take 4 (drop 16 h) @ drop 20 h = drop 16 h" using take_drop_join [of 4 16 h] by simp
  moreover have "take 4 (drop 12 h) @ drop 16 h = drop 12 h" using take_drop_join [of 4 12 h] by simp
  moreover have "take 4 (drop 8 h) @ drop 12 h = drop 8 h" using take_drop_join [of 4 8 h] by simp
  ultimately show ?thesis by (simp only: append_take_drop_id)
qed

lemma filter_pieces:
  assumes "filter P h = h" "filter P [c] = []"
  shows "filter P (take 8 h @ [c] @ take 4 (drop 8 h) @ [c] @ take 4 (drop 12 h) @ [c] @ take 4 (drop 16 h) @ [c] @ drop 20 h) = h"
proof -
  have f: "filter P s = s" if "set s \<subseteq> set h" for s
    using that assms(1) by (auto simp: filter_id_conv)
  have "filter P (take n h) = take n h" "filter P (drop n h) = drop n h" "filter P (take n (drop m h)) = take n (drop m h)" for n m
    by (rule f; meson in_set_takeD in_set_dropD subsetI)+
  with assms(2) show ?thesis by (simp only: filter_append uuid_pieces append_Nil)
qed

lemma filter_uuid_str: "filter (\<lambda>c. c \<noteq> CHR ''-'') (uuid_str u) = hex_digits 32 u"
  unfolding uuid_str_def Let_def by (rule filter_pieces) (simp_all add: filter_hex_digits)

lemma uuid_roundtrip: "u < 16 ^ 32 \<Longrightarrow> uuid_of_str (uuid_str u) = Some u"
proof -
  assume u: "u < 16 ^ 32"
  have abs: "CHR ''u'' \<notin> set (uuid_str u)" using uuid_chars(2) by blast
  have br: "\<forall>c \<in> set (uuid_str u). c \<notin> set ''{}''" using uuid_chars(3) by blast
  have "strip_chars ''{}'' (py_replace ''uuid:'' [] (py_replace ''urn:'' [] (uuid_str u))) = uuid_str u"
    by (simp only: py_replace_absent [OF abs] strip_chars_absent [OF br])
  then show ?thesis
    unfolding uuid_of_str_def Let_def using u by (simp only: filter_uuid_str length_hex_digits hex_nat_hex_digits) simp
qed

end
