(* ===== verification/Tables.thy ===== *)
theory Tables
  imports Prelude
begin

text \<open>
  Relational primitives and the three contracts the components share. A table is the list
  of its rows in scan order; \<open>ORDER BY\<close> is the library's stable \<open>sort_key\<close>, so rows with
  equal keys come in scan order, about which nothing is assumed. The locales state what a
  client relies on: rows that are swept once (\<open>row_sweep\<close>), work that is handed out to one
  claimant only (\<open>exclusive_claim\<close>), and a state invariant kept by every operation of a
  group (\<open>preserved\<close>). Each is interpreted on the model's own operations in the theory of
  the component that provides them.
\<close>

section \<open>Select, update, delete\<close>

definition update_where :: "('r \<Rightarrow> bool) \<Rightarrow> ('r \<Rightarrow> 'r) \<Rightarrow> 'r list \<Rightarrow> 'r list" where
  "update_where P f rows = map (\<lambda>r. if P r then f r else r) rows"

definition delete_where :: "('r \<Rightarrow> bool) \<Rightarrow> 'r list \<Rightarrow> 'r list" where
  "delete_where P rows = filter (\<lambda>r. \<not> P r) rows"

lemma length_update_where [simp]: "length (update_where P f rows) = length rows"
  by (simp add: update_where_def)

lemma update_where_Nil [simp]: "update_where P f [] = []"
  by (simp add: update_where_def)

lemma update_where_append [simp]:
  "update_where P f (xs @ ys) = update_where P f xs @ update_where P f ys"
  by (simp add: update_where_def)

lemma update_where_none: "\<forall>r \<in> set rows. \<not> P r \<Longrightarrow> update_where P f rows = rows"
  by (simp add: update_where_def map_idI)

lemma map_update_where:
  "(\<And>r. P r \<Longrightarrow> g (f r) = g r) \<Longrightarrow> map g (update_where P f rows) = map g rows"
  by (simp add: update_where_def)

lemma set_update_where:
  "set (update_where P f rows) = f ` {r \<in> set rows. P r} \<union> {r \<in> set rows. \<not> P r}"
  by (auto simp: update_where_def image_iff)

lemma in_update_where:
  "r' \<in> set (update_where P f rows) \<longleftrightarrow>
     (\<exists>r \<in> set rows. P r \<and> r' = f r) \<or> (r' \<in> set rows \<and> \<not> P r')"
  by (auto simp: set_update_where)

lemma update_where_id: "(\<And>r. r \<in> set rows \<Longrightarrow> P r \<Longrightarrow> f r = r) \<Longrightarrow> update_where P f rows = rows"
  by (induction rows) (auto simp: update_where_def)

lemma list_all_update_where:
  "list_all Q rows \<Longrightarrow> (\<And>r. Q r \<Longrightarrow> P r \<Longrightarrow> Q (f r)) \<Longrightarrow> list_all Q (update_where P f rows)"
  by (auto simp: update_where_def list_all_iff)

lemma find_update_where:
  assumes "\<And>r. P r \<Longrightarrow> key (f r) = key r"
  shows "find (\<lambda>r. key r = k) (update_where P f rows)
         = map_option (\<lambda>r. if P r then f r else r) (find (\<lambda>r. key r = k) rows)"
  using assms by (induction rows) (auto simp: update_where_def)

lemma filter_update_where_count:
  assumes "distinct (map key rows)" "r \<in> set rows" "Q (f r)" "\<not> Q r"
  shows "length (filter Q (update_where (\<lambda>x. key x = key r) f rows)) = Suc (length (filter Q rows))"
  using assms
proof (induction rows)
  case (Cons x xs)
  show ?case
  proof (cases "x = r")
    case True
    with Cons.prems(1) have "key r \<notin> key ` set xs" by simp
    then have "update_where (\<lambda>y. key y = key r) f xs = xs"
      by (intro update_where_none) (metis imageI)
    with True Cons.prems show ?thesis by (simp add: update_where_def)
  next
    case False
    with Cons.prems have "r \<in> set xs" "key x \<noteq> key r" by auto
    with Cons show ?thesis by (simp add: update_where_def)
  qed
qed simp

lemma filter_update_where_same:
  assumes "\<And>x. x \<in> set rows \<Longrightarrow> P x \<Longrightarrow> Q (f x) = Q x"
  shows "length (filter Q (update_where P f rows)) = length (filter Q rows)"
  using assms by (induction rows) (auto simp: update_where_def)

lemma filter_update_where_other:
  "(\<And>r. r \<in> set rows \<Longrightarrow> P r \<Longrightarrow> \<not> Q r \<and> \<not> Q (f r)) \<Longrightarrow> filter Q (update_where P f rows) = filter Q rows"
  by (induction rows) (auto simp: update_where_def)

lemma distinct_key_eq: "distinct (map key rows) \<Longrightarrow> x \<in> set rows \<Longrightarrow> y \<in> set rows \<Longrightarrow> key x = key y \<Longrightarrow> x = y"
  by (auto simp: distinct_map inj_on_def)

lemma find_distinct_key:
  "distinct (map key rows) \<Longrightarrow> r \<in> set rows \<Longrightarrow> find (\<lambda>x. key x = key r) rows = Some r"
  by (induction rows) auto

lemma find_SomeD: "find P rows = Some r \<Longrightarrow> r \<in> set rows \<and> P r"
  by (induction rows) (auto split: if_splits)

lemma find_append_Some: "find P xs = Some x \<Longrightarrow> find P (xs @ ys) = Some x"
  by (induction xs) (auto split: if_splits)

text \<open>A loop that updates, row by row, the rows with the keys of a list.\<close>

lemma fold_keyed_updates:
  assumes "\<And>t r. key (f t r) = key r" "distinct (map key ts)"
  shows "fold (\<lambda>t rs. if due t then update_where (\<lambda>r. key r = key t) (f t) rs else rs) ts rows
     = map (\<lambda>r. case find (\<lambda>t. key t = key r \<and> due t) ts of None \<Rightarrow> r | Some t \<Rightarrow> f t r) rows"
  using assms(2)
proof (induction ts arbitrary: rows)
  case (Cons t ts)
  have none: "find (\<lambda>t'. key t' = key t \<and> due t') ts = None"
    using Cons.prems by (simp add: find_None_iff) (metis imageI)
  from Cons none show ?case
    by (auto simp: update_where_def assms(1))
qed simp

lemma find_own_row:
  assumes "distinct (map key rows)" "r \<in> set rows"
  shows "find (\<lambda>t. key t = key r \<and> due t) (filter P rows) = (if P r \<and> due r then Some r else None)"
  using assms
proof (induction rows)
  case (Cons x xs)
  show ?case
  proof (cases "x = r")
    case True
    with Cons.prems(1) have "find (\<lambda>t. key t = key r \<and> due t) (filter P xs) = None"
      using True by (simp add: find_None_iff) (metis imageI)
    with True show ?thesis by simp
  next
    case False
    with Cons.prems have "r \<in> set xs" "key x \<noteq> key r" by auto
    with Cons show ?thesis by simp
  qed
qed simp

lemma row_loop_refines:
  assumes "\<And>t r. key (f t r) = key r" "distinct (map key rows)"
  shows "fold (\<lambda>t rs. if due t then update_where (\<lambda>r. key r = key t) (f t) rs else rs) (filter P rows) rows
     = update_where (\<lambda>r. P r \<and> due r) (\<lambda>r. f r r) rows"
proof -
  have "distinct (map key (filter P rows))" using assms(2) by (rule distinct_map_filter)
  from fold_keyed_updates [OF assms(1) this] show ?thesis
    by (simp add: update_where_def find_own_row [OF assms(2)] cong: map_cong)
qed

section \<open>ORDER BY ... LIMIT 1\<close>

fun first_by :: "('r \<Rightarrow> 'k::linorder) \<Rightarrow> 'r list \<Rightarrow> 'r option" where
  "first_by f [] = None"
| "first_by f (x # xs) =
     (case first_by f xs of None \<Rightarrow> Some x | Some y \<Rightarrow> if f x \<le> f y then Some x else Some y)"

lemma first_by_None [simp]: "first_by f xs = None \<longleftrightarrow> xs = []"
  by (cases xs) (auto split: option.splits)

lemma first_by_SomeD:
  "first_by f xs = Some x \<Longrightarrow> x \<in> set xs \<and> (\<forall>y \<in> set xs. f x \<le> f y)"
proof (induction xs arbitrary: x)
  case (Cons a xs)
  show ?case
  proof (cases "first_by f xs")
    case None
    with Cons.prems show ?thesis by auto
  next
    case (Some y)
    with Cons.IH [OF Some] Cons.prems show ?thesis
      by (auto split: if_splits intro: order.trans)
  qed
qed simp

lemma insort_key_hd: "xs \<noteq> [] \<Longrightarrow> hd (insort_key f x xs) = (if f x \<le> f (hd xs) then x else hd xs)"
  by (cases xs) auto

text \<open>Taking the first row is what sorting the whole result and keeping one row gives.\<close>

lemma first_by_sort_key: "xs \<noteq> [] \<Longrightarrow> first_by f xs = Some (hd (sort_key f xs))"
proof (induction xs)
  case (Cons a xs)
  show ?case
  proof (cases "xs = []")
    case False
    then have "sort_key f xs \<noteq> []"
      by (metis length_0_conv length_sort)
    with Cons.IH [OF False] show ?thesis by (simp add: insort_key_hd)
  qed simp
qed simp

section \<open>Sweeps: rows that are due are marked once\<close>

locale row_sweep =
  fixes due :: "'r \<Rightarrow> bool"
    and mark :: "'r \<Rightarrow> 'r"
    and key :: "'r \<Rightarrow> 'k"
  assumes mark_not_due: "due r \<Longrightarrow> \<not> due (mark r)"
    and key_mark: "due r \<Longrightarrow> key (mark r) = key r"
begin

lemma sweep_none_due: "\<forall>r \<in> set (update_where due mark rows). \<not> due r"
  using mark_not_due by (auto simp: in_update_where)

lemma sweep_idem: "update_where due mark (update_where due mark rows) = update_where due mark rows"
  by (rule update_where_none) (rule sweep_none_due)

lemma second_sweep_empty: "map key (filter due (update_where due mark rows)) = []"
  using sweep_none_due [of rows] by (simp add: filter_empty_conv)

lemma sweep_keys: "map key (update_where due mark rows) = map key rows"
  by (rule map_update_where) (rule key_mark)

lemma sweep_untouched: "r \<in> set rows \<Longrightarrow> \<not> due r \<Longrightarrow> r \<in> set (update_where due mark rows)"
  by (auto simp: in_update_where)

end

section \<open>Exclusive claims: work is handed out once\<close>

fun run_claims :: "('a \<Rightarrow> 's \<Rightarrow> ('i \<times> 's) option) \<Rightarrow> 'a list \<Rightarrow> 's \<Rightarrow> 'i list \<times> 's" where
  "run_claims attempt [] s = ([], s)"
| "run_claims attempt (a # as) s =
     (case attempt a s of
        None \<Rightarrow> run_claims attempt as s
      | Some (i, s') \<Rightarrow> (case run_claims attempt as s' of (is, t) \<Rightarrow> (i # is, t)))"

locale exclusive_claim =
  fixes attempt :: "'a \<Rightarrow> 's \<Rightarrow> ('i \<times> 's) option"
    and claimable :: "'s \<Rightarrow> 'i set"
    and ok :: "'s \<Rightarrow> bool"
  assumes claim_takes: "ok s \<Longrightarrow> attempt a s = Some (i, s') \<Longrightarrow> i \<in> claimable s"
    and claim_removes: "ok s \<Longrightarrow> attempt a s = Some (i, s') \<Longrightarrow> claimable s' = claimable s - {i}"
    and claim_ok: "ok s \<Longrightarrow> attempt a s = Some (i, s') \<Longrightarrow> ok s'"
begin

lemma run_claims_spec:
  assumes "ok s" "run_claims attempt as s = (is, t)"
  shows "distinct is \<and> set is \<subseteq> claimable s \<and> claimable t = claimable s - set is"
  using assms
proof (induction as arbitrary: s "is" t)
  case (Cons a as)
  show ?case
  proof (cases "attempt a s")
    case None
    with Cons show ?thesis by simp
  next
    case (Some p)
    obtain i s' where p: "p = (i, s')" by (cases p)
    obtain js u where r: "run_claims attempt as s' = (js, u)" by (cases "run_claims attempt as s'")
    from Some p have at: "attempt a s = Some (i, s')" by simp
    have js: "distinct js" "set js \<subseteq> claimable s'" "claimable u = claimable s' - set js"
      using Cons.IH [OF claim_ok [OF Cons.prems(1) at] r] by simp_all
    have eq: "is = i # js" "t = u"
      using Cons.prems(2) at r by simp_all
    have i: "i \<in> claimable s" "claimable s' = claimable s - {i}"
      by (rule claim_takes [OF Cons.prems(1) at], rule claim_removes [OF Cons.prems(1) at])
    have "i \<notin> set js" using js(2) i(2) by blast
    with js i show ?thesis unfolding eq by auto
  qed
qed simp

end

section \<open>Invariants kept by a family of operations\<close>

fun run_ops :: "('a \<Rightarrow> 's \<Rightarrow> 's) \<Rightarrow> 'a list \<Rightarrow> 's \<Rightarrow> 's" where
  "run_ops op [] s = s"
| "run_ops op (a # as) s = run_ops op as (op a s)"

locale preserved =
  fixes op :: "'a \<Rightarrow> 's \<Rightarrow> 's"
    and inv :: "'s \<Rightarrow> bool"
  assumes op_inv: "inv s \<Longrightarrow> inv (op a s)"
begin

lemma run_ops_inv: "inv s \<Longrightarrow> inv (run_ops op as s)"
  by (induction as arbitrary: s) (auto intro: op_inv)

end

end
