(* ===== verification/Models.thy ===== *)
theory Models
  imports Tables
begin

text \<open>
  The ORM classes of \<open>shared/lib/models.py\<close> as records, one field per column (prefixed by
  the table), and the database as the record of its tables. The database also carries the
  two things a transaction takes from its environment: \<open>db_now\<close>, the server's \<open>now()\<close>
  for the transaction (server defaults and the \<open>tasks_updated_at\<close> trigger), and
  \<open>uuid_gen\<close>, the supply from which \<open>uuid4()\<close> draws identifiers that no row carries yet.
\<close>

section \<open>Task status\<close>

datatype task_status =
    queued | running | waiting_approval | waiting_user_input | resume_pending
  | succeeded | failed | lost | timed_out

fun status_str :: "task_status \<Rightarrow> str" where
  "status_str queued = ''queued''"
| "status_str running = ''running''"
| "status_str waiting_approval = ''waiting_approval''"
| "status_str waiting_user_input = ''waiting_user_input''"
| "status_str resume_pending = ''resume_pending''"
| "status_str succeeded = ''succeeded''"
| "status_str failed = ''failed''"
| "status_str lost = ''lost''"
| "status_str timed_out = ''timed_out''"

definition all_statuses :: "task_status list" where
  "all_statuses = [queued, running, waiting_approval, waiting_user_input, resume_pending,
     succeeded, failed, lost, timed_out]"

definition status_of_str :: "str \<Rightarrow> task_status option" where
  "status_of_str s = find (\<lambda>st. status_str st = s) all_statuses"

lemma status_of_str_roundtrip [simp]: "status_of_str (status_str st) = Some st"
  by (cases st) (simp_all add: status_of_str_def all_statuses_def)

text \<open>Postgres compares the values of an \<open>ENUM\<close> by their position in its declaration.\<close>

fun status_pos :: "task_status \<Rightarrow> nat" where
  "status_pos queued = 0"
| "status_pos running = 1"
| "status_pos waiting_approval = 2"
| "status_pos waiting_user_input = 3"
| "status_pos resume_pending = 4"
| "status_pos succeeded = 5"
| "status_pos failed = 6"
| "status_pos lost = 7"
| "status_pos timed_out = 8"

lemma status_pos_inj: "status_pos a = status_pos b \<Longrightarrow> a = b"
  by (cases a; cases b) simp_all

instantiation task_status :: linorder
begin

definition less_eq_task_status :: "task_status \<Rightarrow> task_status \<Rightarrow> bool" where
  "less_eq_task_status a b = (status_pos a \<le> status_pos b)"

definition less_task_status :: "task_status \<Rightarrow> task_status \<Rightarrow> bool" where
  "less_task_status a b = (status_pos a < status_pos b)"

instance
  by standard (auto simp: less_eq_task_status_def less_task_status_def intro: status_pos_inj)

end

section \<open>Rows\<close>

record task =
  t_id :: uuid
  t_workflow :: str
  t_status :: task_status
  t_prompt :: str
  t_metadata :: dict
  t_channel :: "str option"
  t_message_channel :: "str option"
  t_message_thread :: "str option"
  t_session_id :: "str option"
  t_container_id :: "str option"
  t_heartbeat :: "time option"
  t_wait_reason :: "str option"
  t_wait_deadline :: "time option"
  t_result :: "dict option"
  t_tokens_used :: int
  t_duration_sec :: json
  t_error :: "str option"
  t_coalesce_key :: "str option"
  t_archived_at :: "time option"
  t_created :: time
  t_updated :: time

record task_event =
  te_id :: uuid
  te_task_id :: uuid
  te_event_type :: str
  te_data :: dict
  te_created :: time

record agent =
  ag_id :: uuid
  ag_name :: str
  ag_description :: json
  ag_version :: json
  ag_config :: json
  ag_config_hash :: "str option"
  ag_repo_path :: "str option"
  ag_provisioned :: bool
  ag_paused :: bool
  ag_provisioned_at :: "time option"
  ag_created :: time
  ag_updated :: time

record connector_state =
  cs_connector_id :: str
  cs_paused :: bool
  cs_updated :: time

record sess =
  s_id :: uuid
  s_task_id :: "uuid option"
  s_agent_id :: "uuid option"
  s_container_id :: "str option"
  s_status :: str
  s_started :: time
  s_ended :: "time option"
  s_duration_sec :: json
  s_tokens_input :: int
  s_tokens_output :: int
  s_turns :: int
  s_tools_used :: "json list"
  s_subagents_used :: "json list"
  s_error :: "str option"
  s_archived_at :: "time option"

record session_event =
  se_id :: uuid
  se_task_id :: "uuid option"
  se_event_type :: str
  se_timestamp :: time
  se_data :: dict
  se_archived_at :: "time option"

record approval =
  a_id :: uuid
  a_task_id :: uuid
  a_workflow :: "str option"
  a_approval_kind :: str
  a_tool_name :: str
  a_status :: str
  a_request_preview :: "str option"
  a_reason :: "str option"
  a_metadata :: dict
  a_requested_at :: time
  a_resolved_at :: "time option"
  a_archived_at :: "time option"
  a_created_at :: time
  a_updated_at :: time

record schedule =
  sc_id :: uuid
  sc_agent_id :: uuid
  sc_name :: str
  sc_cron :: str
  sc_prompt :: "str option"
  sc_enabled :: bool
  sc_last_run :: "time option"
  sc_next_run :: "time option"
  sc_created :: time

record background_job_run =
  b_id :: uuid
  b_job_type :: str
  b_scope :: "str option"
  b_trigger :: "str option"
  b_knowledge_source_id :: "uuid option"
  b_knowledge_source_version_id :: "uuid option"
  b_status :: str
  b_started_at :: time
  b_heartbeat_at :: "time option"
  b_finished_at :: "time option"
  b_duration_sec :: "rat option"
  b_summary :: dict
  b_warnings :: "str list"
  b_error :: "str option"

record knowledge_source =
  ks_id :: uuid
  ks_canonical_alias :: str
  ks_repository_url :: str
  ks_default_ref :: str
  ks_include_paths :: "json list"
  ks_exclude_paths :: "json list"
  ks_credential_ref :: "str option"
  ks_sync_policy :: dict
  ks_enabled :: bool
  ks_current_successful_version_id :: "uuid option"
  ks_created_at :: time
  ks_updated_at :: time

record knowledge_source_version =
  kv_id :: uuid
  kv_source_id :: uuid
  kv_commit_sha :: str
  kv_status :: str
  kv_graphify_version :: str
  kv_extraction_config_hash :: str
  kv_artifact_keys :: dict
  kv_artifact_checksums :: dict
  kv_file_count :: int
  kv_node_count :: int
  kv_edge_count :: int
  kv_warnings :: "str list"
  kv_error :: "str option"
  kv_started_at :: "time option"
  kv_finished_at :: "time option"
  kv_created_at :: time

record workflow_repo_state =
  wr_pinned_ref :: "str option"
  wr_last_synced_ref :: "str option"
  wr_last_synced_commit :: "str option"
  wr_last_synced_at :: "time option"
  wr_last_sync_status :: "str option"
  wr_last_sync_error :: "str option"
  wr_discovered_workflows :: "str list"
  wr_bundle_errors :: "(str \<times> str) list"
  wr_updated :: time

section \<open>The database\<close>

record db =
  tasks :: "task list"
  task_events :: "task_event list"
  agents :: "agent list"
  connector_states :: "connector_state list"
  sessions :: "sess list"
  session_events :: "session_event list"
  approvals :: "approval list"
  schedules :: "schedule list"
  background_job_runs :: "background_job_run list"
  knowledge_sources :: "knowledge_source list"
  knowledge_source_versions :: "knowledge_source_version list"
  workflow_repo :: "workflow_repo_state option"
  uuid_gen :: uuid
  db_now :: time

definition empty_db :: "time \<Rightarrow> db" where
  "empty_db t = \<lparr>tasks = [], task_events = [], agents = [], connector_states = [], sessions = [],
     session_events = [], approvals = [], schedules = [], background_job_runs = [],
     knowledge_sources = [], knowledge_source_versions = [], workflow_repo = None,
     uuid_gen = 1, db_now = t\<rparr>"

text \<open>
  \<open>UPDATE task_queue.tasks SET ... WHERE ...\<close>, with the \<open>tasks_updated_at\<close> trigger that
  stamps every updated row.
\<close>

definition update_tasks :: "(task \<Rightarrow> bool) \<Rightarrow> (task \<Rightarrow> task) \<Rightarrow> db \<Rightarrow> db" where
  "update_tasks P f d = d\<lparr>tasks := update_where P (\<lambda>t. (f t)\<lparr>t_updated := db_now d\<rparr>) (tasks d)\<rparr>"

definition update_sessions :: "(sess \<Rightarrow> bool) \<Rightarrow> (sess \<Rightarrow> sess) \<Rightarrow> db \<Rightarrow> db" where
  "update_sessions P f d = d\<lparr>sessions := update_where P f (sessions d)\<rparr>"

text \<open>\<open>session.add(TaskEvent(...))\<close> and \<open>session.add(SessionEvent(...))\<close>.\<close>

definition add_task_event :: "uuid \<Rightarrow> str \<Rightarrow> dict \<Rightarrow> db \<Rightarrow> db" where
  "add_task_event tid ty data d = d\<lparr>task_events := task_events d @
     [\<lparr>te_id = uuid_gen d, te_task_id = tid, te_event_type = ty, te_data = data, te_created = db_now d\<rparr>],
     uuid_gen := Suc (uuid_gen d)\<rparr>"

definition add_session_event :: "uuid option \<Rightarrow> str \<Rightarrow> time \<Rightarrow> dict \<Rightarrow> db \<Rightarrow> db" where
  "add_session_event tid ty ts data d = d\<lparr>session_events := session_events d @
     [\<lparr>se_id = uuid_gen d, se_task_id = tid, se_event_type = ty, se_timestamp = ts, se_data = data,
       se_archived_at = None\<rparr>],
     uuid_gen := Suc (uuid_gen d)\<rparr>"

definition get_task :: "db \<Rightarrow> uuid \<Rightarrow> task option" where
  "get_task d tid = find (\<lambda>t. t_id t = tid) (tasks d)"

section \<open>Frame rules\<close>

lemma update_tasks_frame [simp, frame_simps]:
  "task_events (update_tasks P f d) = task_events d"
  "agents (update_tasks P f d) = agents d"
  "sessions (update_tasks P f d) = sessions d"
  "session_events (update_tasks P f d) = session_events d"
  "approvals (update_tasks P f d) = approvals d"
  "schedules (update_tasks P f d) = schedules d"
  "background_job_runs (update_tasks P f d) = background_job_runs d"
  "uuid_gen (update_tasks P f d) = uuid_gen d"
  "db_now (update_tasks P f d) = db_now d"
  by (simp_all add: update_tasks_def)

lemma update_sessions_frame [simp, frame_simps]:
  "tasks (update_sessions P f d) = tasks d"
  "task_events (update_sessions P f d) = task_events d"
  "approvals (update_sessions P f d) = approvals d"
  "session_events (update_sessions P f d) = session_events d"
  "uuid_gen (update_sessions P f d) = uuid_gen d"
  "db_now (update_sessions P f d) = db_now d"
  by (simp_all add: update_sessions_def)

lemma add_task_event_frame [simp, frame_simps]:
  "tasks (add_task_event tid ty x d) = tasks d"
  "agents (add_task_event tid ty x d) = agents d"
  "sessions (add_task_event tid ty x d) = sessions d"
  "session_events (add_task_event tid ty x d) = session_events d"
  "approvals (add_task_event tid ty x d) = approvals d"
  "schedules (add_task_event tid ty x d) = schedules d"
  "background_job_runs (add_task_event tid ty x d) = background_job_runs d"
  "uuid_gen (add_task_event tid ty x d) = Suc (uuid_gen d)"
  "db_now (add_task_event tid ty x d) = db_now d"
  by (simp_all add: add_task_event_def)

lemma add_session_event_frame [simp, frame_simps]:
  "tasks (add_session_event tid ty ts x d) = tasks d"
  "task_events (add_session_event tid ty ts x d) = task_events d"
  "agents (add_session_event tid ty ts x d) = agents d"
  "sessions (add_session_event tid ty ts x d) = sessions d"
  "approvals (add_session_event tid ty ts x d) = approvals d"
  "schedules (add_session_event tid ty ts x d) = schedules d"
  "background_job_runs (add_session_event tid ty ts x d) = background_job_runs d"
  "uuid_gen (add_session_event tid ty ts x d) = Suc (uuid_gen d)"
  "db_now (add_session_event tid ty ts x d) = db_now d"
  by (simp_all add: add_session_event_def)

lemma task_events_add_task_event [simp]:
  "task_events (add_task_event tid ty x d) = task_events d @
     [\<lparr>te_id = uuid_gen d, te_task_id = tid, te_event_type = ty, te_data = x, te_created = db_now d\<rparr>]"
  by (simp add: add_task_event_def)

lemma tasks_update_tasks:
  "tasks (update_tasks P f d) = update_where P (\<lambda>t. (f t)\<lparr>t_updated := db_now d\<rparr>) (tasks d)"
  by (simp add: update_tasks_def)

section \<open>Well-formed databases\<close>

text \<open>
  Primary keys are unique and older than the identifier supply, and every task event refers
  to a task that exists (the foreign key of \<open>task_events\<close>).
\<close>

definition task_ids :: "db \<Rightarrow> uuid list" where
  "task_ids d = map t_id (tasks d)"

definition wf_db :: "db \<Rightarrow> bool" where
  "wf_db d \<longleftrightarrow> distinct (task_ids d) \<and> list_all (\<lambda>i. i < uuid_gen d) (task_ids d)
     \<and> list_all (\<lambda>e. te_task_id e \<in> set (task_ids d)) (task_events d)
     \<and> distinct (map te_id (task_events d)) \<and> list_all (\<lambda>e. te_id e < uuid_gen d) (task_events d)"

lemma task_ids_update_tasks [simp]:
  "(\<And>t. t_id (f t) = t_id t) \<Longrightarrow> task_ids (update_tasks P f d) = task_ids d"
  by (simp add: task_ids_def tasks_update_tasks map_update_where)

lemma task_ids_frame [simp]:
  "task_ids (add_task_event tid ty x d) = task_ids d"
  "task_ids (add_session_event sid ty ts y d) = task_ids d"
  "task_ids (update_sessions P g d) = task_ids d"
  by (simp_all add: task_ids_def)

lemma wf_db_update_tasks:
  "wf_db d \<Longrightarrow> (\<And>t. t_id (f t) = t_id t) \<Longrightarrow> wf_db (update_tasks P f d)"
  by (simp add: wf_db_def)

lemma wf_db_update_sessions: "wf_db d \<Longrightarrow> wf_db (update_sessions P f d)"
  by (simp add: wf_db_def)

lemma wf_db_add_task_event: "wf_db d \<Longrightarrow> tid \<in> set (task_ids d) \<Longrightarrow> wf_db (add_task_event tid ty x d)"
  by (auto simp: wf_db_def list_all_iff less_Suc_eq)

lemma wf_db_add_session_event: "wf_db d \<Longrightarrow> wf_db (add_session_event tid ty ts x d)"
  by (auto simp: wf_db_def list_all_iff less_Suc_eq add_session_event_def task_ids_def)

lemmas wf_db_intros = wf_db_update_tasks wf_db_update_sessions wf_db_add_task_event wf_db_add_session_event

lemma wf_empty_db: "wf_db (empty_db t)"
  by (simp add: wf_db_def empty_db_def task_ids_def)

lemma get_task_SomeD: "get_task d tid = Some t \<Longrightarrow> t \<in> set (tasks d) \<and> t_id t = tid"
  unfolding get_task_def by (rule find_SomeD)

lemma get_task_in: "wf_db d \<Longrightarrow> t \<in> set (tasks d) \<Longrightarrow> get_task d (t_id t) = Some t"
  by (simp add: get_task_def wf_db_def task_ids_def find_distinct_key)

lemma get_task_update_tasks:
  "(\<And>t. t_id (f t) = t_id t) \<Longrightarrow> get_task (update_tasks P f d) tid
     = map_option (\<lambda>t. if P t then (f t)\<lparr>t_updated := db_now d\<rparr> else t) (get_task d tid)"
  unfolding get_task_def tasks_update_tasks by (rule find_update_where) simp

lemma get_task_frame [simp]:
  "get_task (add_task_event tid' ty x d) tid = get_task d tid"
  "get_task (add_session_event sid ty ts y d) tid = get_task d tid"
  "get_task (update_sessions Q g d) tid = get_task d tid"
  by (simp_all add: get_task_def)

end
