(* ===== verification/Task_Queue.thy ===== *)
theory Task_Queue
  imports Models "HOL-Library.Multiset"
begin

text \<open>
  \<open>shared/lib/task_queue.py\<close>: the Postgres-backed queue. Every operation is one transaction
  on the \<open>db\<close> record. \<open>now\<close> arguments are the \<open>datetime.now(UTC)\<close> readings of the Python
  process. \<open>pkg\<close> stands for the lookup of a workflow package in the configured roots
  (\<open>find_workflow_package\<close>), which reads the file system. In \<open>dequeue_task\<close> the argument
  \<open>locked\<close> says which rows other transactions hold when the \<open>k\<close>-th query of the loop runs
  (\<open>FOR UPDATE SKIP LOCKED\<close> passes over them); the two advisory locks serialise whole
  transactions and are represented by each operation being one atomic step.
\<close>

section \<open>Status groups\<close>

definition RUNNABLE_STATUSES :: "task_status list" where
  "RUNNABLE_STATUSES = [resume_pending, queued]"

definition WAITING_STATUSES :: "task_status list" where
  "WAITING_STATUSES = [waiting_approval, waiting_user_input]"

definition TERMINAL_STATUSES :: "task_status list" where
  "TERMINAL_STATUSES = [succeeded, failed, lost, timed_out]"

section \<open>Message routes of new tasks\<close>

definition message_channel_from_config :: "json \<Rightarrow> str" where
  "message_channel_from_config config =
     (let messaging = (case config of JObj c \<Rightarrow> dget c ''messaging'' | _ \<Rightarrow> JNull);
          channels = (case messaging of JObj m \<Rightarrow> dget m ''channels'' | _ \<Rightarrow> JNull)
      in case channels of
           JList cs \<Rightarrow> (case find (\<lambda>s. s \<noteq> []) (map (\<lambda>c. py_strip (py_str c)) cs) of
                         Some s \<Rightarrow> s | None \<Rightarrow> [])
         | _ \<Rightarrow> [])"

definition workflow_default_message_channel :: "(str \<Rightarrow> json option res) \<Rightarrow> str \<Rightarrow> db \<Rightarrow> str res" where
  "workflow_default_message_channel pkg workflow d =
     (let cfg = (case find (\<lambda>a. ag_name a = workflow) (agents d) of None \<Rightarrow> JNull | Some a \<Rightarrow> ag_config a);
          workflow_channel = message_channel_from_config cfg
      in if workflow_channel \<noteq> [] then Inr workflow_channel
         else bind_res (pkg workflow) (\<lambda>package.
           Inr (message_channel_from_config (case package of None \<Rightarrow> JNull | Some c \<Rightarrow> c))))"

definition normalize_message_route ::
  "(str \<Rightarrow> json option res) \<Rightarrow> str \<Rightarrow> str option \<Rightarrow> str option \<Rightarrow> dict option \<Rightarrow> db
     \<Rightarrow> (str option \<times> dict) res" where
  "normalize_message_route pkg workflow message_channel message_thread metadata d =
     (let normalized = (case metadata of None \<Rightarrow> [] | Some m \<Rightarrow> m)
      in if opt_truthy message_thread then Inr (message_channel, normalized)
         else bind_res (workflow_default_message_channel pkg workflow d) (\<lambda>workflow_channel.
           if workflow_channel = [] \<or> Some workflow_channel = message_channel
           then Inr (message_channel, normalized)
           else Inr (Some workflow_channel,
                fold AList.delete [''channel_id'', ''team_id'', ''team_name'', ''team_domain''] normalized)))"

section \<open>Creating tasks, with alert coalescing\<close>

definition alert_transition :: "dict \<Rightarrow> dict \<Rightarrow> json" where
  "alert_transition envelope metadata = JObj
     [(''state'', JStr (py_str (py_or (dget envelope ''state'') (JStr ''unknown'')))),
      (''message_id'', JStr (text_or_empty (dget metadata ''message_id'')))]"

definition coalesced_metadata :: "dict \<Rightarrow> dict \<Rightarrow> dict res" where
  "coalesced_metadata existing metadata =
     bind_res (py_list (get_default existing ''coalesced_alerts'' (JList []))) (\<lambda>alerts.
     bind_res (py_list (get_default existing ''alert_state_transitions'' (JList []))) (\<lambda>transitions.
     bind_res (py_int (get_default existing ''alert_occurrence_count'' (JInt 1))) (\<lambda>n.
     Inr (dset ''alert_state_transitions''
            (JList (transitions @ (case dget metadata ''alert_envelope'' of
                                     JObj envelope \<Rightarrow> [alert_transition envelope metadata]
                                   | _ \<Rightarrow> [])))
         (dset ''alert_occurrence_count'' (JInt (n + 1))
         (dset ''coalesced_alerts'' (JList (alerts @ [JObj metadata])) existing))))))"

definition coalesce_candidates :: "str \<Rightarrow> time \<Rightarrow> db \<Rightarrow> task list" where
  "coalesce_candidates key cutoff d =
     filter (\<lambda>t. t_coalesce_key t = Some key
               \<and> t_status t \<in> set ([queued, running, resume_pending] @ WAITING_STATUSES)
               \<and> t_created t \<ge> cutoff) (tasks d)"

definition new_task ::
  "db \<Rightarrow> str \<Rightarrow> str \<Rightarrow> dict \<Rightarrow> str option \<Rightarrow> str option \<Rightarrow> str option \<Rightarrow> str option \<Rightarrow> task" where
  "new_task d workflow prompt metadata channel message_channel message_thread coalesce_key =
     \<lparr>t_id = uuid_gen d, t_workflow = workflow, t_status = queued, t_prompt = prompt,
      t_metadata = metadata, t_channel = channel, t_message_channel = message_channel,
      t_message_thread = message_thread, t_session_id = None, t_container_id = None,
      t_heartbeat = None, t_wait_reason = None, t_wait_deadline = None, t_result = None,
      t_tokens_used = 0, t_duration_sec = JNull, t_error = None, t_coalesce_key = coalesce_key,
      t_archived_at = None, t_created = db_now d, t_updated = db_now d\<rparr>"

definition insert_task :: "task \<Rightarrow> db \<Rightarrow> db" where
  "insert_task t d = d\<lparr>tasks := tasks d @ [t], uuid_gen := Suc (uuid_gen d)\<rparr>"

definition create_task ::
  "(str \<Rightarrow> json option res) \<Rightarrow> time \<Rightarrow> str \<Rightarrow> str \<Rightarrow> str option \<Rightarrow> dict option \<Rightarrow> str option
     \<Rightarrow> str option \<Rightarrow> str option \<Rightarrow> int \<Rightarrow> db \<Rightarrow> (task \<times> db) res" where
  "create_task pkg now workflow prompt channel metadata0 message_channel0 message_thread
      coalesce_key coalesce_window_sec d =
     bind_res (normalize_message_route pkg workflow message_channel0 message_thread metadata0 d)
       (\<lambda>(message_channel, metadata).
        let existing = (if opt_truthy coalesce_key
              then first_by (\<lambda>t. - t_created t)
                     (coalesce_candidates (opt_str coalesce_key) (now - seconds coalesce_window_sec) d)
              else None)
        in case existing of
             Some et \<Rightarrow>
               bind_res (coalesced_metadata (t_metadata et) metadata) (\<lambda>m.
                 Inr (et\<lparr>t_metadata := m\<rparr>,
                   add_task_event (t_id et) ''alert_coalesced'' [(''new_metadata'', JObj metadata)]
                     (update_tasks (\<lambda>t. t_id t = t_id et) (\<lambda>t. t\<lparr>t_metadata := m\<rparr>) d)))
           | None \<Rightarrow>
               let t = new_task d workflow prompt metadata channel message_channel message_thread coalesce_key
               in Inr (t, add_task_event (t_id t) ''task_created''
                            [(''workflow'', JStr workflow), (''metadata'', JObj metadata)]
                            (insert_task t d)))"

section \<open>Dequeueing\<close>

record dequeue_args =
  dq_workflow :: "str option"
  dq_max_running :: "int option"
  dq_platform_max_running :: "int option"
  dq_workflow_limits :: "(str \<times> int) list option"
  dq_workflow_priorities :: "(str \<times> int) list option"

definition running_count :: "(task \<Rightarrow> bool) \<Rightarrow> db \<Rightarrow> int" where
  "running_count P d = int (length (filter (\<lambda>t. t_status t = running \<and> P t) (tasks d)))"

definition dequeue_candidates :: "dequeue_args \<Rightarrow> (uuid \<Rightarrow> bool) \<Rightarrow> str list \<Rightarrow> db \<Rightarrow> task list" where
  "dequeue_candidates a locked blocked d =
     filter (\<lambda>t. t_status t \<in> set RUNNABLE_STATUSES \<and> t_archived_at t = None
               \<and> \<not> locked (t_id t)
               \<and> (opt_truthy (dq_workflow a) \<longrightarrow> Some (t_workflow t) = dq_workflow a)
               \<and> (case dq_workflow_limits a of
                    None \<Rightarrow> True
                  | Some l \<Rightarrow> l \<noteq> [] \<longrightarrow> t_workflow t \<in> set (map fst l))
               \<and> t_workflow t \<notin> set blocked) (tasks d)"

definition priority_order :: "dequeue_args \<Rightarrow> str \<Rightarrow> int" where
  "priority_order a w =
     (case dq_workflow_priorities a of
        None \<Rightarrow> 1
      | Some ps \<Rightarrow> (case map_of ps w of None \<Rightarrow> 1 | Some p \<Rightarrow> p))"

definition dequeue_order :: "dequeue_args \<Rightarrow> task \<Rightarrow> int \<times> int \<times> time" where
  "dequeue_order a t =
     (if t_status t = resume_pending then 0 else 1, priority_order a (t_workflow t), t_created t)"

definition at_workflow_limit :: "dequeue_args \<Rightarrow> db \<Rightarrow> str \<Rightarrow> bool" where
  "at_workflow_limit a d w =
     (case dq_workflow_limits a of
        None \<Rightarrow> False
      | Some l \<Rightarrow> (case map_of l w of
                    None \<Rightarrow> False
                  | Some n \<Rightarrow> running_count (\<lambda>t. t_workflow t = w) d \<ge> n))"

text \<open>
  The \<open>while True\<close> loop: a candidate whose workflow is at its limit blocks that workflow and
  the query is run again without it. Each turn blocks a workflow that was not blocked, so
  the loop ends.
\<close>

function dequeue_loop ::
  "dequeue_args \<Rightarrow> (nat \<Rightarrow> uuid \<Rightarrow> bool) \<Rightarrow> nat \<Rightarrow> str list \<Rightarrow> db \<Rightarrow> task option" where
  "dequeue_loop a locked k blocked d =
     (case first_by (dequeue_order a) (dequeue_candidates a (locked k) blocked d) of
        None \<Rightarrow> None
      | Some t \<Rightarrow>
          if at_workflow_limit a d (t_workflow t)
          then dequeue_loop a locked (Suc k) (t_workflow t # blocked) d
          else Some t)"
  by pat_completeness auto
termination
proof (relation "measure (\<lambda>(a, locked, k, blocked, d). card (set (map t_workflow (tasks d)) - set blocked))")
  fix a :: dequeue_args and locked :: "nat \<Rightarrow> uuid \<Rightarrow> bool" and k blocked d t
  assume "first_by (dequeue_order a) (dequeue_candidates a (locked k) blocked d) = Some t"
  then have "t \<in> set (dequeue_candidates a (locked k) blocked d)"
    using first_by_SomeD by fast
  then have "t \<in> set (tasks d)" "t_workflow t \<notin> set blocked"
    by (simp_all add: dequeue_candidates_def)
  then have "card (set (map t_workflow (tasks d)) - set blocked - {t_workflow t})
             < card (set (map t_workflow (tasks d)) - set blocked)"
    by (intro card_Diff1_less) auto
  then show "((a, locked, Suc k, t_workflow t # blocked, d), a, locked, k, blocked, d)
     \<in> measure (\<lambda>(a, locked, k, blocked, d). card (set (map t_workflow (tasks d)) - set blocked))"
    by (simp add: Diff_insert [symmetric])
qed simp

declare dequeue_loop.simps [simp del]

definition claim_task :: "time \<Rightarrow> task \<Rightarrow> db \<Rightarrow> task \<times> db" where
  "claim_task now t d =
     (let f = (\<lambda>r. r\<lparr>t_status := running, t_heartbeat := Some now, t_wait_reason := None,
                     t_wait_deadline := None\<rparr>)
      in (f t, add_task_event (t_id t)
                 (if t_status t = resume_pending then ''task_resumed'' else ''task_dequeued'')
                 [(''previous_status'', JStr (status_str (t_status t))),
                  (''workflow'', JStr (t_workflow t))]
                 (update_tasks (\<lambda>r. t_id r = t_id t) f d)))"

definition dequeue_task ::
  "dequeue_args \<Rightarrow> (nat \<Rightarrow> uuid \<Rightarrow> bool) \<Rightarrow> time \<Rightarrow> db \<Rightarrow> (task \<times> db) option res" where
  "dequeue_task a locked now d =
     (if (case dq_platform_max_running a of Some m \<Rightarrow> m < 1 | None \<Rightarrow> False)
      then Inl (ValueError ''platform_max_running must be at least 1'')
      else if (case dq_platform_max_running a of
                 Some m \<Rightarrow> running_count (\<lambda>t. True) d \<ge> m | None \<Rightarrow> False)
      then Inr None
      else if (case dq_max_running a of
                 Some m \<Rightarrow> running_count (\<lambda>t. opt_truthy (dq_workflow a) \<longrightarrow>
                                            Some (t_workflow t) = dq_workflow a) d \<ge> m
               | None \<Rightarrow> False)
      then Inr None
      else if dq_workflow_limits a = Some [] then Inr None
      else Inr (map_option (\<lambda>t. claim_task now t d) (dequeue_loop a locked 0 [] d)))"


section \<open>Status changes\<close>

text \<open>
  A task event is inserted with its task's identifier as a foreign key: for an identifier
  no task has, the commit fails and the whole transaction is rolled back.
\<close>

definition commit_with_event :: "uuid \<Rightarrow> str \<Rightarrow> dict \<Rightarrow> db \<Rightarrow> db res" where
  "commit_with_event tid ty data d =
     (if tid \<in> set (task_ids d) then Inr (add_task_event tid ty data d)
      else Inl (IntegrityError ''task_events_task_id_fkey''))"

definition heartbeat :: "time \<Rightarrow> uuid \<Rightarrow> db \<Rightarrow> db" where
  "heartbeat now tid d = update_tasks (\<lambda>t. t_id t = tid) (\<lambda>t. t\<lparr>t_heartbeat := Some now\<rparr>) d"

definition mark_task_waiting ::
  "time \<Rightarrow> uuid \<Rightarrow> str \<Rightarrow> str \<Rightarrow> time option \<Rightarrow> str option \<Rightarrow> dict option \<Rightarrow> db \<Rightarrow> db res" where
  "mark_task_waiting now tid status reason deadline event_type data d =
     (case status_of_str status of
        Some st \<Rightarrow>
          if st \<in> set WAITING_STATUSES then
            commit_with_event tid
              (if opt_truthy event_type then opt_str event_type else status @ ''_started'')
              (dmerge [(''reason'', JStr reason), (''deadline'', iso_opt deadline)]
                 (case data of None \<Rightarrow> [] | Some e \<Rightarrow> e))
              (update_tasks (\<lambda>t. t_id t = tid)
                 (\<lambda>t. t\<lparr>t_status := st, t_wait_reason := Some reason, t_wait_deadline := deadline,
                        t_heartbeat := Some now\<rparr>) d)
          else Inl (ValueError (''Unsupported waiting status: '' @ status))
      | None \<Rightarrow> Inl (ValueError (''Unsupported waiting status: '' @ status)))"

definition mark_task_resume_pending ::
  "time \<Rightarrow> uuid \<Rightarrow> str \<Rightarrow> str \<Rightarrow> dict option \<Rightarrow> db \<Rightarrow> db res" where
  "mark_task_resume_pending now tid reason event_type data d =
     commit_with_event tid event_type
       (dmerge [(''reason'', JStr reason)] (case data of None \<Rightarrow> [] | Some e \<Rightarrow> e))
       (update_tasks (\<lambda>t. t_id t = tid)
          (\<lambda>t. t\<lparr>t_status := resume_pending, t_wait_reason := None, t_wait_deadline := None,
                 t_heartbeat := Some now\<rparr>) d)"

definition mark_task_running ::
  "time \<Rightarrow> uuid \<Rightarrow> str \<Rightarrow> str \<Rightarrow> dict option \<Rightarrow> db \<Rightarrow> db res" where
  "mark_task_running now tid reason event_type data d =
     commit_with_event tid event_type
       (dmerge [(''reason'', JStr reason)] (case data of None \<Rightarrow> [] | Some e \<Rightarrow> e))
       (update_tasks (\<lambda>t. t_id t = tid)
          (\<lambda>t. t\<lparr>t_status := running, t_wait_reason := None, t_wait_deadline := None,
                 t_heartbeat := Some now\<rparr>) d)"

definition jdict :: "dict option \<Rightarrow> json" where
  "jdict r = (case r of None \<Rightarrow> JNull | Some e \<Rightarrow> JObj e)"

definition complete_task ::
  "uuid \<Rightarrow> task_status \<Rightarrow> dict option \<Rightarrow> int \<Rightarrow> json \<Rightarrow> str option \<Rightarrow> db \<Rightarrow> db res" where
  "complete_task tid status result tokens_used duration_sec error d =
     commit_with_event tid (''task_'' @ status_str status)
       [(''result'', jdict result), (''tokens_used'', JInt tokens_used),
        (''duration_sec'', duration_sec), (''error'', jopt error)]
       (update_tasks (\<lambda>t. t_id t = tid)
          (\<lambda>t. t\<lparr>t_status := status, t_result := result, t_tokens_used := tokens_used,
                 t_duration_sec := duration_sec, t_error := error\<rparr>) d)"

section \<open>Sweeps\<close>

definition add_task_events :: "(uuid \<times> str \<times> dict) list \<Rightarrow> db \<Rightarrow> db" where
  "add_task_events es d = fold (\<lambda>(tid, ty, data). add_task_event tid ty data) es d"

definition lost_due :: "time \<Rightarrow> int \<Rightarrow> task \<Rightarrow> bool" where
  "lost_due now lost_timeout_sec t =
     (t_status t = running \<and>
      (case t_heartbeat t of None \<Rightarrow> False | Some h \<Rightarrow> h < now - seconds lost_timeout_sec))"

definition mark_lost :: "int \<Rightarrow> task \<Rightarrow> task" where
  "mark_lost lost_timeout_sec t =
     t\<lparr>t_status := lost,
       t_error := Some (''Heartbeat expired (>'' @ str_of_int lost_timeout_sec @ ''s without update)'')\<rparr>"

definition maintenance_sweep :: "time \<Rightarrow> int \<Rightarrow> db \<Rightarrow> uuid list \<times> db" where
  "maintenance_sweep now lost_timeout_sec d =
     (let lost_tasks = filter (lost_due now lost_timeout_sec) (tasks d)
      in (map t_id lost_tasks,
          add_task_events
            (map (\<lambda>t. (t_id t, ''task_lost'',
                       [(''timeout_sec'', JInt lost_timeout_sec), (''last_heartbeat'', iso_opt (t_heartbeat t))]))
               lost_tasks)
            (update_tasks (lost_due now lost_timeout_sec) (mark_lost lost_timeout_sec) d)))"

definition wait_expired :: "time \<Rightarrow> task \<Rightarrow> bool" where
  "wait_expired now t =
     (t_status t \<in> set WAITING_STATUSES \<and>
      (case t_wait_deadline t of None \<Rightarrow> False | Some w \<Rightarrow> w < now))"

text \<open>
  The sweep assigns the new status first and renders the error text afterwards, so
  \<open>task.wait_reason or task.status\<close> reads the status it has just written.
\<close>

definition mark_wait_timed_out :: "task \<Rightarrow> task" where
  "mark_wait_timed_out t0 =
     (let t = t0\<lparr>t_status := timed_out\<rparr>
      in t\<lparr>t_error := Some (''Waiting deadline expired for '' @
             (if opt_truthy (t_wait_reason t) then opt_str (t_wait_reason t) else status_str (t_status t)))\<rparr>)"

definition waiting_timeout_sweep :: "time \<Rightarrow> db \<Rightarrow> uuid list \<times> db" where
  "waiting_timeout_sweep now d =
     (let expired = filter (wait_expired now) (tasks d)
      in (map t_id expired,
          add_task_events
            (map (\<lambda>t. (t_id t, ''task_wait_timed_out'',
                       [(''wait_reason'', jopt (t_wait_reason t)), (''wait_deadline'', iso_opt (t_wait_deadline t))]))
               expired)
            (update_tasks (wait_expired now) mark_wait_timed_out d)))"

section \<open>Reading tasks\<close>

text \<open>SQL \<open>LIKE\<close> with the default escape character, and \<open>ILIKE\<close> of the pattern \<open>%search%\<close>.\<close>

fun like_match :: "str \<Rightarrow> str \<Rightarrow> bool" where
  "like_match [] s = (s = [])"
| "like_match (c # p) s =
     (if c = CHR ''%'' then list_ex (\<lambda>k. like_match p (drop k s)) [0..<Suc (length s)]
      else if c = CHR ''_'' then (case s of [] \<Rightarrow> False | x # r \<Rightarrow> like_match p r)
      else if c = CHR 0x5C
           then (case p of [] \<Rightarrow> False
                 | e # p' \<Rightarrow> (case s of [] \<Rightarrow> False | x # r \<Rightarrow> e = x \<and> like_match p' r))
      else (case s of [] \<Rightarrow> False | x # r \<Rightarrow> c = x \<and> like_match p r))"

definition ilike_contains :: "str \<Rightarrow> str \<Rightarrow> bool" where
  "ilike_contains search s = like_match (''%'' @ py_lower search @ ''%'') (py_lower s)"

record task_filter =
  f_workflow :: "str option"
  f_status :: "task_status option"
  f_channel :: "str option"
  f_search :: "str option"
  f_created_after :: "time option"
  f_created_before :: "time option"
  f_include_archived :: bool

definition task_matches :: "task_filter \<Rightarrow> task \<Rightarrow> bool" where
  "task_matches f t \<longleftrightarrow>
     (f_include_archived f \<or> t_archived_at t = None)
     \<and> (opt_truthy (f_workflow f) \<longrightarrow> Some (t_workflow t) = f_workflow f)
     \<and> (case f_status f of None \<Rightarrow> True | Some s \<Rightarrow> t_status t = s)
     \<and> (opt_truthy (f_channel f) \<longrightarrow> t_channel t = f_channel f)
     \<and> (case f_created_after f of None \<Rightarrow> True | Some c \<Rightarrow> t_created t \<ge> c)
     \<and> (case f_created_before f of None \<Rightarrow> True | Some c \<Rightarrow> t_created t \<le> c)
     \<and> (opt_truthy (f_search f) \<longrightarrow>
          ilike_contains (opt_str (f_search f)) (t_prompt t)
          \<or> ilike_contains (opt_str (f_search f)) (t_workflow t)
          \<or> (case t_error t of None \<Rightarrow> False | Some e \<Rightarrow> ilike_contains (opt_str (f_search f)) e))"

text \<open>\<open>collate\<close> is the rank the database's collation gives a text value.\<close>

definition sort_column :: "(str \<Rightarrow> int) \<Rightarrow> str \<Rightarrow> task \<Rightarrow> int" where
  "sort_column collate sort_by t =
     (if sort_by = ''updated'' then t_updated t
      else if sort_by = ''status'' then int (status_pos (t_status t))
      else if sort_by = ''workflow'' then collate (t_workflow t)
      else t_created t)"

definition list_tasks ::
  "(str \<Rightarrow> int) \<Rightarrow> task_filter \<Rightarrow> str \<Rightarrow> str \<Rightarrow> nat \<Rightarrow> nat \<Rightarrow> db \<Rightarrow> task list" where
  "list_tasks collate f sort_by sort_dir lmt ofs d =
     take lmt (drop ofs
       (sort_key (\<lambda>t. if py_lower sort_dir = ''asc'' then sort_column collate sort_by t
                      else - sort_column collate sort_by t)
         (filter (task_matches f) (tasks d))))"

definition count_tasks :: "task_filter \<Rightarrow> db \<Rightarrow> nat" where
  "count_tasks f d = length (filter (task_matches f) (tasks d))"

text \<open>
  \<open>archive_task\<close> updates \<open>archived_at\<close> on five tables. The mapped class \<open>TaskEvent\<close> has no
  such column, and SQLAlchemy rejects an \<open>UPDATE\<close> that names an unknown column when the
  statement is compiled, so the fourth statement raises and nothing is committed.
\<close>

definition task_event_columns :: "str list" where
  "task_event_columns = [''id'', ''task_id'', ''event_type'', ''data'', ''created'']"

definition archive_related :: "time option \<Rightarrow> uuid \<Rightarrow> db \<Rightarrow> db" where
  "archive_related stamp tid d =
     (let d1 = update_tasks (\<lambda>t. t_id t = tid) (\<lambda>t. t\<lparr>t_archived_at := stamp\<rparr>) d;
          d2 = update_sessions (\<lambda>s. s_task_id s = Some tid) (\<lambda>s. s\<lparr>s_archived_at := stamp\<rparr>) d1
      in d2\<lparr>approvals := update_where (\<lambda>a. a_task_id a = tid) (\<lambda>a. a\<lparr>a_archived_at := stamp\<rparr>) (approvals d2)\<rparr>)"

definition archive_task :: "time \<Rightarrow> uuid \<Rightarrow> bool \<Rightarrow> db \<Rightarrow> db res" where
  "archive_task now tid archived d =
     (let stamp = (if archived then Some now else None); d1 = archive_related stamp tid d
      in if ''archived_at'' \<notin> set task_event_columns
         then Inl (CompileError ''Unconsumed column names: archived_at'')
         else commit_with_event tid (if archived then ''task_archived'' else ''task_unarchived'')
                [(''archived_at'', iso_opt stamp)]
                (d1\<lparr>session_events := update_where (\<lambda>e. se_task_id e = Some tid)
                       (\<lambda>e. e\<lparr>se_archived_at := stamp\<rparr>) (session_events d1)\<rparr>))"


section \<open>Facts about the database steps\<close>

lemma add_task_events_frame [simp, frame_simps]:
  "tasks (add_task_events es d) = tasks d"
  "sessions (add_task_events es d) = sessions d"
  "approvals (add_task_events es d) = approvals d"
  "session_events (add_task_events es d) = session_events d"
  "db_now (add_task_events es d) = db_now d"
  by (induction es arbitrary: d) (auto simp: add_task_events_def)

lemma task_ids_add_task_events [simp]: "task_ids (add_task_events es d) = task_ids d"
  by (simp add: task_ids_def)

lemma get_task_add_task_events [simp]: "get_task (add_task_events es d) tid = get_task d tid"
  by (simp add: get_task_def)

lemma wf_db_add_task_events:
  "wf_db d \<Longrightarrow> \<forall>(tid, ty, x) \<in> set es. tid \<in> set (task_ids d) \<Longrightarrow> wf_db (add_task_events es d)"
proof (induction es arbitrary: d)
  case (Cons e es)
  obtain tid ty x where e: "e = (tid, ty, x)" by (cases e)
  have "wf_db (add_task_event tid ty x d)"
    using Cons.prems e by (auto intro: wf_db_add_task_event)
  then have "wf_db (add_task_events es (add_task_event tid ty x d))"
    using Cons.prems e by (intro Cons.IH) auto
  then show ?case by (simp add: add_task_events_def e)
qed (simp add: add_task_events_def)

lemma commit_with_event_Inr:
  "commit_with_event tid ty x d = Inr d' \<longleftrightarrow> tid \<in> set (task_ids d) \<and> d' = add_task_event tid ty x d"
  by (auto simp: commit_with_event_def)

lemma in_task_ids: "t \<in> set (tasks d) \<Longrightarrow> t_id t \<in> set (task_ids d)"
  by (simp add: task_ids_def)

section \<open>The dequeue loop computes the best eligible task\<close>

definition eligible :: "dequeue_args \<Rightarrow> (uuid \<Rightarrow> bool) \<Rightarrow> db \<Rightarrow> task list" where
  "eligible a L d =
     filter (\<lambda>t. \<not> at_workflow_limit a d (t_workflow t)) (dequeue_candidates a L [] d)"

lemma first_by_filter:
  "first_by f xs = Some x \<Longrightarrow> P x \<Longrightarrow> first_by f (filter P xs) = Some x"
proof (induction xs)
  case (Cons y ys)
  show ?case
  proof (cases "first_by f ys")
    case None
    with Cons.prems show ?thesis by simp
  next
    case (Some z)
    show ?thesis
    proof (cases "f y \<le> f z")
      case True
      with Some Cons.prems have x: "x = y" by simp
      have "\<forall>w \<in> set (filter P ys). f y \<le> f w"
        using first_by_SomeD [OF Some] True by (auto intro: order.trans)
      then have "\<And>w. first_by f (filter P ys) = Some w \<Longrightarrow> f y \<le> f w"
        using first_by_SomeD by fast
      with x Cons.prems(2) show ?thesis by (simp split: option.split)
    next
      case False
      with Some Cons.prems have "x = z" by simp
      with Cons.IH Some Cons.prems(2) have "first_by f (filter P ys) = Some x" by simp
      with False \<open>x = z\<close> show ?thesis by simp
    qed
  qed
qed simp

lemma dequeue_loop_refines:
  assumes "\<forall>w \<in> set blocked. at_workflow_limit a d w"
  shows "dequeue_loop a (\<lambda>_. L) k blocked d = first_by (dequeue_order a) (eligible a L d)"
  using assms
proof (induction a "\<lambda>_::nat. L" k blocked d rule: dequeue_loop.induct)
  case (1 a k blocked d)
  let ?c = "dequeue_candidates a L blocked d"
  have el: "eligible a L d = filter (\<lambda>t. \<not> at_workflow_limit a d (t_workflow t)) ?c"
    using "1.prems" unfolding eligible_def dequeue_candidates_def
    by (auto intro!: filter_cong)
  show ?case
  proof (cases "first_by (dequeue_order a) ?c")
    case None
    then have "?c = []" by simp
    with el None show ?thesis by (subst dequeue_loop.simps) simp
  next
    case (Some t)
    show ?thesis
    proof (cases "at_workflow_limit a d (t_workflow t)")
      case True
      with "1.hyps" [OF Some True] "1.prems" Some show ?thesis
        by (subst dequeue_loop.simps) simp
    next
      case False
      with Some el first_by_filter [OF Some, of "\<lambda>t. \<not> at_workflow_limit a d (t_workflow t)"]
      show ?thesis by (subst dequeue_loop.simps) simp
    qed
  qed
qed

text \<open>For locks that vary between the queries of one call, the choice is still a free candidate.\<close>

lemma dequeue_loop_sound:
  "dequeue_loop a locked k blocked d = Some t \<Longrightarrow>
     t \<in> set (tasks d) \<and> t_status t \<in> set RUNNABLE_STATUSES \<and> t_archived_at t = None
     \<and> \<not> at_workflow_limit a d (t_workflow t)
     \<and> (case dq_workflow_limits a of None \<Rightarrow> True | Some l \<Rightarrow> l \<noteq> [] \<longrightarrow> t_workflow t \<in> set (map fst l))"
proof (induction a locked k blocked d rule: dequeue_loop.induct)
  case (1 a locked k blocked d)
  obtain u where u: "first_by (dequeue_order a) (dequeue_candidates a (locked k) blocked d) = Some u"
    using "1.prems" by (subst (asm) dequeue_loop.simps) (auto split: option.splits)
  show ?case
  proof (cases "at_workflow_limit a d (t_workflow u)")
    case True
    with "1.IH" [OF u True] "1.prems" u show ?thesis by (subst (asm) (2) dequeue_loop.simps) simp
  next
    case False
    with "1.prems" u have "t = u" by (subst (asm) dequeue_loop.simps) simp
    with False first_by_SomeD [OF u] show ?thesis by (auto simp: dequeue_candidates_def)
  qed
qed

lemma dequeue_task_SomeE:
  assumes "dequeue_task a locked now d = Inr (Some (t', d'))"
  obtains t where "dequeue_loop a locked 0 [] d = Some t" and "(t', d') = claim_task now t d"
    and "\<forall>m. dq_platform_max_running a = Some m \<longrightarrow> running_count (\<lambda>t. True) d < m"
  using assms by (auto simp: dequeue_task_def split: if_splits option.splits)


section \<open>What a claim changes\<close>

lemma runnable_not_running: "t_status t \<in> set RUNNABLE_STATUSES \<Longrightarrow> t_status t \<noteq> running"
  by (auto simp: RUNNABLE_STATUSES_def)

lemma tasks_claim_task:
  "claim_task now t d = (t', d') \<Longrightarrow>
     tasks d' = update_where (\<lambda>r. t_id r = t_id t)
       (\<lambda>r. r\<lparr>t_status := running, t_heartbeat := Some now, t_wait_reason := None,
              t_wait_deadline := None, t_updated := db_now d\<rparr>) (tasks d)
     \<and> t' = t\<lparr>t_status := running, t_heartbeat := Some now, t_wait_reason := None,
              t_wait_deadline := None\<rparr>"
  by (auto simp: claim_task_def Let_def tasks_update_tasks)

lemma running_count_claim:
  assumes "wf_db d" "t \<in> set (tasks d)" "t_status t \<noteq> running" "claim_task now t d = (t', d')"
  shows "running_count (\<lambda>r. Q (t_workflow r)) d'
         = running_count (\<lambda>r. Q (t_workflow r)) d + (if Q (t_workflow t) then 1 else 0)"
proof (cases "Q (t_workflow t)")
  case True
  have "distinct (map t_id (tasks d))"
    using assms(1) by (simp add: wf_db_def task_ids_def)
  from filter_update_where_count [OF this assms(2),
      where Q = "\<lambda>r. t_status r = running \<and> Q (t_workflow r)" and
        f = "\<lambda>r. r\<lparr>t_status := running, t_heartbeat := Some now, t_wait_reason := None,
              t_wait_deadline := None, t_updated := db_now d\<rparr>"]
  show ?thesis using True assms(3) tasks_claim_task [OF assms(4)] by (simp add: running_count_def)
next
  case False
  have "length (filter (\<lambda>r. t_status r = running \<and> Q (t_workflow r)) (tasks d'))
        = length (filter (\<lambda>r. t_status r = running \<and> Q (t_workflow r)) (tasks d))"
    unfolding tasks_claim_task [OF assms(4), THEN conjunct1]
  proof (rule filter_update_where_same)
    fix x assume "x \<in> set (tasks d)" "t_id x = t_id t"
    then have "x = t"
      using assms(1,2) by (auto simp: wf_db_def task_ids_def intro: distinct_key_eq)
    with False show "(t_status (x\<lparr>t_status := running, t_heartbeat := Some now, t_wait_reason := None,
         t_wait_deadline := None, t_updated := db_now d\<rparr>) = running
       \<and> Q (t_workflow (x\<lparr>t_status := running, t_heartbeat := Some now, t_wait_reason := None,
         t_wait_deadline := None, t_updated := db_now d\<rparr>)))
      = (t_status x = running \<and> Q (t_workflow x))" by simp
  qed
  with False show ?thesis by (simp add: running_count_def)
qed

lemma wf_db_claim:
  assumes "wf_db d" "t \<in> set (tasks d)" "claim_task now t d = (t', d')"
  shows "wf_db d'"
proof -
  have "d' = snd (claim_task now t d)" using assms(3) by simp
  moreover have "wf_db (snd (claim_task now t d))"
    using assms(1,2) by (auto simp: claim_task_def Let_def in_task_ids intro!: wf_db_intros)
  ultimately show ?thesis by simp
qed

section \<open>Dequeued tasks are handed to one claimant only\<close>

definition claimable_ids :: "db \<Rightarrow> uuid set" where
  "claimable_ids d = {t_id t | t. t \<in> set (tasks d) \<and> t_status t \<in> set RUNNABLE_STATUSES \<and> t_archived_at t = None}"

definition dequeue_attempt ::
  "dequeue_args \<times> (nat \<Rightarrow> uuid \<Rightarrow> bool) \<times> time \<Rightarrow> db \<Rightarrow> (uuid \<times> db) option" where
  "dequeue_attempt x d =
     (case x of (a, locked, now) \<Rightarrow>
        (case dequeue_task a locked now d of
           Inr (Some (t, d')) \<Rightarrow> Some (t_id t, d')
         | _ \<Rightarrow> None))"

lemma dequeue_attempt_SomeE:
  assumes "dequeue_attempt x d = Some (i, d')"
  obtains t now t' where "t \<in> set (tasks d)" "t_status t \<in> set RUNNABLE_STATUSES" "t_archived_at t = None"
    "claim_task now t d = (t', d')" "i = t_id t"
proof -
  obtain a locked now where x: "x = (a, locked, now)" by (cases x)
  from assms obtain t' where dq: "dequeue_task a locked now d = Inr (Some (t', d'))" and i: "i = t_id t'"
    by (auto simp: dequeue_attempt_def x split: sum.splits option.splits)
  from dq obtain t where "dequeue_loop a locked 0 [] d = Some t" and cl: "(t', d') = claim_task now t d"
    by (rule dequeue_task_SomeE)
  then have "t \<in> set (tasks d)" "t_status t \<in> set RUNNABLE_STATUSES" "t_archived_at t = None"
    using dequeue_loop_sound by blast+
  moreover have "t_id t' = t_id t" using tasks_claim_task [OF cl [symmetric]] by simp
  ultimately show ?thesis using that cl i by metis
qed

lemma claimable_claim:
  assumes "wf_db d" "t \<in> set (tasks d)" "claim_task now t d = (t', d')"
  shows "claimable_ids d' = claimable_ids d - {t_id t}"
proof -
  have "claimable_ids d' = {t_id r | r. r \<in> set (tasks d) \<and> t_id r \<noteq> t_id t
      \<and> t_status r \<in> set RUNNABLE_STATUSES \<and> t_archived_at r = None}"
    unfolding claimable_ids_def tasks_claim_task [OF assms(3), THEN conjunct1] set_update_where
    by (auto simp: RUNNABLE_STATUSES_def)
  also have "\<dots> = claimable_ids d - {t_id t}"
    by (auto simp: claimable_ids_def)
  finally show ?thesis .
qed

interpretation dequeue_claims: exclusive_claim dequeue_attempt claimable_ids wf_db
proof unfold_locales
  fix s x i s' assume wf: "wf_db s" and at: "dequeue_attempt x s = Some (i, s')"
  from at obtain t now t' where t: "t \<in> set (tasks s)" "t_status t \<in> set RUNNABLE_STATUSES"
    "t_archived_at t = None" and cl: "claim_task now t s = (t', s')" and i: "i = t_id t"
    by (rule dequeue_attempt_SomeE)
  show "i \<in> claimable_ids s" using t i by (auto simp: claimable_ids_def)
  show "claimable_ids s' = claimable_ids s - {i}" using claimable_claim [OF wf t(1) cl] i by simp
  show "wf_db s'" by (rule wf_db_claim [OF wf t(1) cl])
qed

section \<open>Sweeps\<close>

interpretation maintenance: row_sweep "lost_due now n" "\<lambda>t. (mark_lost n t)\<lparr>t_updated := u\<rparr>" t_id
  by unfold_locales (auto simp: lost_due_def mark_lost_def)

interpretation waiting: row_sweep "wait_expired now" "\<lambda>t. (mark_wait_timed_out t)\<lparr>t_updated := u\<rparr>" t_id
  by unfold_locales (auto simp: wait_expired_def mark_wait_timed_out_def WAITING_STATUSES_def Let_def)

lemma mark_wait_timed_out_simps [simp]:
  "t_id (mark_wait_timed_out t) = t_id t"
  "t_status (mark_wait_timed_out t) = timed_out"
  by (simp_all add: mark_wait_timed_out_def Let_def)

lemma tasks_waiting_timeout_sweep:
  "tasks (snd (waiting_timeout_sweep now d))
     = update_where (wait_expired now) (\<lambda>t. (mark_wait_timed_out t)\<lparr>t_updated := db_now d\<rparr>) (tasks d)"
  by (simp add: waiting_timeout_sweep_def Let_def tasks_update_tasks)

lemma tasks_maintenance_sweep:
  "tasks (snd (maintenance_sweep now n d))
     = update_where (lost_due now n) (\<lambda>t. (mark_lost n t)\<lparr>t_updated := db_now d\<rparr>) (tasks d)"
  by (simp add: maintenance_sweep_def Let_def tasks_update_tasks)

lemma wf_db_sweep:
  assumes "wf_db d" "\<And>t. t_id (f t) = t_id t" "set ts \<subseteq> set (tasks d)"
  shows "wf_db (add_task_events (map (\<lambda>t. (t_id t, ty, g t)) ts) (update_tasks P f d))"
  using assms by (intro wf_db_add_task_events wf_db_update_tasks) (auto simp: in_task_ids subset_iff)

lemma wf_db_waiting_timeout_sweep: "wf_db d \<Longrightarrow> wf_db (snd (waiting_timeout_sweep now d))"
  unfolding waiting_timeout_sweep_def Let_def snd_conv
  by (rule wf_db_sweep) (auto simp: mark_wait_timed_out_def Let_def)

lemma wf_db_maintenance_sweep: "wf_db d \<Longrightarrow> wf_db (snd (maintenance_sweep now n d))"
  unfolding maintenance_sweep_def Let_def snd_conv
  by (rule wf_db_sweep) (auto simp: mark_lost_def)


section \<open>Creating tasks\<close>

lemma wf_db_insert_task:
  assumes "wf_db d" "t_id t = uuid_gen d"
  shows "wf_db (insert_task t d)"
proof -
  have "uuid_gen d \<notin> set (task_ids d)"
    using assms(1) by (auto simp: wf_db_def list_all_iff)
  then show ?thesis
    using assms by (auto simp: wf_db_def list_all_iff insert_task_def task_ids_def less_Suc_eq)
qed

lemma task_ids_insert_task [simp]: "task_ids (insert_task t d) = task_ids d @ [t_id t]"
  by (simp add: insert_task_def task_ids_def)

text \<open>The row a call of \<open>create_task\<close> merges its alert into, if there is one.\<close>

definition coalesce_target :: "time \<Rightarrow> str option \<Rightarrow> int \<Rightarrow> db \<Rightarrow> task option" where
  "coalesce_target now key win d =
     (if opt_truthy key
      then first_by (\<lambda>t. - t_created t) (coalesce_candidates (opt_str key) (now - seconds win) d)
      else None)"

lemma create_task_newI:
  assumes "create_task pkg now wfl prompt ch md mc mt key win d = Inr (t, d')"
    and "coalesce_target now key win d = None"
  obtains mc' md' where "normalize_message_route pkg wfl mc mt md d = Inr (mc', md')"
    and "t = new_task d wfl prompt md' ch mc' mt key"
    and "d' = add_task_event (t_id t) ''task_created'' [(''workflow'', JStr wfl), (''metadata'', JObj md')]
                (insert_task t d)"
  using assms
  by (auto simp: create_task_def coalesce_target_def bind_res_Inr_iff Let_def split: if_splits)

lemma create_task_mergeI:
  assumes "create_task pkg now wfl prompt ch md mc mt key win d = Inr (t, d')"
    and "coalesce_target now key win d = Some et"
  obtains mc' md' m where "normalize_message_route pkg wfl mc mt md d = Inr (mc', md')"
    and "coalesced_metadata (t_metadata et) md' = Inr m"
    and "t = et\<lparr>t_metadata := m\<rparr>"
    and "d' = add_task_event (t_id et) ''alert_coalesced'' [(''new_metadata'', JObj md')]
                (update_tasks (\<lambda>t. t_id t = t_id et) (\<lambda>t. t\<lparr>t_metadata := m\<rparr>) d)"
  using assms
  by (auto simp: create_task_def coalesce_target_def bind_res_Inr_iff Let_def split: if_splits)

lemma coalesce_target_SomeD:
  "coalesce_target now key win d = Some et \<Longrightarrow> et \<in> set (tasks d)
     \<and> et \<in> set (coalesce_candidates (opt_str key) (now - seconds win) d)
     \<and> (\<forall>u \<in> set (coalesce_candidates (opt_str key) (now - seconds win) d). t_created u \<le> t_created et)"
  by (auto simp: coalesce_target_def coalesce_candidates_def dest: first_by_SomeD split: if_splits)

lemma wf_db_create_task:
  assumes "wf_db d" "create_task pkg now wfl prompt ch md mc mt key win d = Inr (t, d')"
  shows "wf_db d'"
proof (cases "coalesce_target now key win d")
  case None
  from create_task_newI [OF assms(2) None] obtain md' mc' where
    t: "t = new_task d wfl prompt md' ch mc' mt key" and
    d': "d' = add_task_event (t_id t) ''task_created'' [(''workflow'', JStr wfl), (''metadata'', JObj md')]
           (insert_task t d)" .
  have "wf_db (insert_task t d)"
    by (rule wf_db_insert_task [OF assms(1)]) (simp add: t new_task_def)
  then show ?thesis unfolding d' by (rule wf_db_add_task_event) simp
next
  case (Some et)
  from create_task_mergeI [OF assms(2) Some] obtain md' m where
    d': "d' = add_task_event (t_id et) ''alert_coalesced'' [(''new_metadata'', JObj md')]
           (update_tasks (\<lambda>t. t_id t = t_id et) (\<lambda>t. t\<lparr>t_metadata := m\<rparr>) d)" .
  show ?thesis unfolding d'
    using assms(1) coalesce_target_SomeD [OF Some] by (auto simp: in_task_ids intro!: wf_db_intros)
qed

text \<open>A burst of alerts merged one after the other.\<close>

fun coalesce_all :: "dict \<Rightarrow> dict list \<Rightarrow> dict res" where
  "coalesce_all m [] = Inr m"
| "coalesce_all m (x # xs) = bind_res (coalesced_metadata m x) (\<lambda>m'. coalesce_all m' xs)"

lemma coalesced_metadata_step:
  assumes "get_default m ''coalesced_alerts'' (JList []) = JList as"
    and "get_default m ''alert_state_transitions'' (JList []) = JList tr"
    and "get_default m ''alert_occurrence_count'' (JInt 1) = JInt n"
  obtains m' tr' where "coalesced_metadata m x = Inr m'"
    and "get_default m' ''coalesced_alerts'' (JList []) = JList (as @ [JObj x])"
    and "get_default m' ''alert_state_transitions'' (JList []) = JList tr'"
    and "get_default m' ''alert_occurrence_count'' (JInt 1) = JInt (n + 1)"
    and "\<And>k. k \<notin> {''coalesced_alerts'', ''alert_state_transitions'', ''alert_occurrence_count''}
            \<Longrightarrow> dget m' k = dget m k"
proof -
  let ?tr = "tr @ (case dget x ''alert_envelope'' of JObj e \<Rightarrow> [alert_transition e x] | _ \<Rightarrow> [])"
  let ?m = "dset ''alert_state_transitions'' (JList ?tr) (dset ''alert_occurrence_count'' (JInt (n + 1))
    (dset ''coalesced_alerts'' (JList (as @ [JObj x])) m))"
  have "coalesced_metadata m x = Inr ?m" using assms by (simp add: coalesced_metadata_def)
  then show ?thesis by (rule that [of ?m ?tr]) simp_all
qed

lemma coalesce_all_counts:
  assumes "get_default m ''coalesced_alerts'' (JList []) = JList as"
    and "get_default m ''alert_state_transitions'' (JList []) = JList tr"
    and "get_default m ''alert_occurrence_count'' (JInt 1) = JInt n"
  shows "\<exists>m'. coalesce_all m xs = Inr m'
     \<and> get_default m' ''coalesced_alerts'' (JList []) = JList (as @ map JObj xs)
     \<and> get_default m' ''alert_occurrence_count'' (JInt 1) = JInt (n + int (length xs))"
  using assms
proof (induction xs arbitrary: m as tr n)
  case (Cons x xs)
  obtain m' tr' where m': "coalesced_metadata m x = Inr m'"
    "get_default m' ''coalesced_alerts'' (JList []) = JList (as @ [JObj x])"
    "get_default m' ''alert_state_transitions'' (JList []) = JList tr'"
    "get_default m' ''alert_occurrence_count'' (JInt 1) = JInt (n + 1)"
    by (rule coalesced_metadata_step [OF Cons.prems, of x])
  from Cons.IH [OF m'(2,3,4)] m'(1) show ?case by (auto simp: algebra_simps)
qed simp


section \<open>Properties of the queue\<close>

text \<open>A small database the witnesses are evaluated on.\<close>

definition demo_task :: "uuid \<Rightarrow> str \<Rightarrow> task_status \<Rightarrow> time \<Rightarrow> task" where
  "demo_task i w st c = (new_task (empty_db c) w ''investigate'' [] None None None (Some ''k''))
     \<lparr>t_id := i, t_status := st\<rparr>"

definition demo_db :: "task list \<Rightarrow> db" where
  "demo_db ts = (empty_db 1000)\<lparr>tasks := ts, uuid_gen := 100\<rparr>"

definition demo_args :: dequeue_args where
  "demo_args = \<lparr>dq_workflow = None, dq_max_running = None, dq_platform_max_running = Some 3,
     dq_workflow_limits = Some [(''a'', 1), (''b'', 1)], dq_workflow_priorities = Some [(''a'', 0), (''b'', 2)]\<rparr>"

lemmas demo_defs = demo_task_def demo_db_def demo_args_def empty_db_def new_task_def
lemmas dequeue_eval = dequeue_task_def dequeue_loop_refines eligible_def dequeue_candidates_def dequeue_order_def
  priority_order_def at_workflow_limit_def running_count_def RUNNABLE_STATUSES_def opt_truthy_def


lemma demo_dequeue:
  "dequeue_task demo_args (\<lambda>_ _. False) 7
     (demo_db [demo_task 11 ''a'' running 1, demo_task 12 ''a'' queued 2, demo_task 13 ''b'' queued 3])
   = Inr (Some (claim_task 7 (demo_task 13 ''b'' queued 3)
     (demo_db [demo_task 11 ''a'' running 1, demo_task 12 ''a'' queued 2, demo_task 13 ''b'' queued 3])))"
  by (simp add: dequeue_eval demo_defs)


text \<open>
  A dequeue comes back empty-handed exactly when the platform limit or the workflow limit
  asked for is reached, no workflow is enabled, or no task is eligible: saturated workflows and
  locked rows never stop it from serving another workflow's task.
\<close>

lemma dequeue_none_iff:
  "dequeue_task a (\<lambda>_. L) now d = Inr None \<longleftrightarrow>
     (case dq_platform_max_running a of None \<Rightarrow> True | Some m \<Rightarrow> 1 \<le> m) \<and>
     ((case dq_platform_max_running a of None \<Rightarrow> False | Some m \<Rightarrow> m \<le> running_count (\<lambda>t. True) d)
      \<or> (case dq_max_running a of None \<Rightarrow> False
         | Some m \<Rightarrow> m \<le> running_count (\<lambda>t. opt_truthy (dq_workflow a) \<longrightarrow> Some (t_workflow t) = dq_workflow a) d)
      \<or> dq_workflow_limits a = Some [] \<or> eligible a L d = [])"
  by (auto simp: dequeue_task_def dequeue_loop_refines split: option.splits)

lemma dequeue_none_iff_witness:
  "dequeue_task demo_args (\<lambda>_ _. False) 7 (demo_db [demo_task 11 ''a'' running 1]) = Inr None"
  by (subst dequeue_none_iff [of demo_args "\<lambda>_. False"])
    (simp add: demo_args_def eligible_def dequeue_candidates_def demo_defs RUNNABLE_STATUSES_def)

text \<open>
  C3. Concurrency limits hold after every dequeue: one more task is running, the platform
  never exceeds \<open>platform_max_running\<close>, and the workflow of the claimed task never exceeds its
  own limit.
\<close>

theorem dequeue_respects_limits:
  assumes "wf_db d" "dequeue_task a locked now d = Inr (Some (t', d'))"
  shows "running_count (\<lambda>t. True) d' = running_count (\<lambda>t. True) d + 1
    \<and> (\<forall>m. dq_platform_max_running a = Some m \<longrightarrow> running_count (\<lambda>t. True) d' \<le> m)
    \<and> (\<forall>l n. dq_workflow_limits a = Some l \<and> map_of l (t_workflow t') = Some n \<longrightarrow>
           running_count (\<lambda>t. t_workflow t = t_workflow t') d' \<le> n)"
proof -
  from assms(2) obtain t where lp: "dequeue_loop a locked 0 [] d = Some t" and cl: "(t', d') = claim_task now t d"
    and pm: "\<forall>m. dq_platform_max_running a = Some m \<longrightarrow> running_count (\<lambda>t. True) d < m"
    by (rule dequeue_task_SomeE)
  from dequeue_loop_sound [OF lp] have t: "t \<in> set (tasks d)" "t_status t \<noteq> running"
    and lim: "\<not> at_workflow_limit a d (t_workflow t)"
    using runnable_not_running by blast+
  note count = running_count_claim [OF assms(1) t cl [symmetric]]
  have all: "running_count (\<lambda>t. True) d' = running_count (\<lambda>t. True) d + 1"
    using count [of "\<lambda>_. True"] by simp
  have w: "t_workflow t' = t_workflow t" using tasks_claim_task [OF cl [symmetric]] by simp
  have "running_count (\<lambda>t. t_workflow t = t_workflow t') d' \<le> n"
    if "dq_workflow_limits a = Some l" "map_of l (t_workflow t') = Some n" for l n
    using that lim count [of "\<lambda>x. x = t_workflow t"] by (simp add: w at_workflow_limit_def)
  with all pm show ?thesis by fastforce
qed

theorem dequeue_respects_limits_witness:
  "running_count (\<lambda>t. t_workflow t = ''b'') (snd (claim_task 7 (demo_task 13 ''b'' queued 3)
     (demo_db [demo_task 11 ''a'' running 1, demo_task 12 ''a'' queued 2, demo_task 13 ''b'' queued 3]))) \<le> 1"
proof -
  let ?d = "demo_db [demo_task 11 ''a'' running 1, demo_task 12 ''a'' queued 2, demo_task 13 ''b'' queued 3]"
  let ?p = "claim_task 7 (demo_task 13 ''b'' queued 3) ?d"
  have "wf_db ?d" by (simp add: wf_db_def task_ids_def demo_defs)
  moreover have "dequeue_task demo_args (\<lambda>_ _. False) 7 ?d = Inr (Some (fst ?p, snd ?p))"
    by (simp add: demo_dequeue)
  ultimately show ?thesis
    using dequeue_respects_limits [of ?d demo_args "\<lambda>_ _. False" 7 "fst ?p" "snd ?p"]
    by (simp add: claim_task_def Let_def demo_args_def demo_task_def new_task_def)
qed

text \<open>
  C4. Exclusive hand-out: however many session managers dequeue, with whatever limits and row
  locks, no task identifier is handed out twice, and every task handed out was claimable.
\<close>

theorem dequeue_exclusive:
  assumes "wf_db d" "run_claims dequeue_attempt xs d = (ids, d')"
  shows "distinct ids \<and> set ids \<subseteq> claimable_ids d \<and> claimable_ids d' = claimable_ids d - set ids"
  using assms by (rule dequeue_claims.run_claims_spec)

theorem dequeue_exclusive_witness:
  "distinct (fst (run_claims dequeue_attempt [(demo_args, \<lambda>_ _. False, 7), (demo_args, \<lambda>_ _. False, 8)]
     (demo_db [demo_task 11 ''a'' running 1, demo_task 12 ''a'' queued 2, demo_task 13 ''b'' queued 3])))"
proof -
  have "wf_db (demo_db [demo_task 11 ''a'' running 1, demo_task 12 ''a'' queued 2, demo_task 13 ''b'' queued 3])"
    by (simp add: wf_db_def task_ids_def demo_defs)
  then show ?thesis by (metis dequeue_exclusive prod.collapse)
qed




text \<open>
  Alert bookkeeping over a burst: merging \<open>k\<close> further alerts into a task whose metadata
  counts \<open>n\<close> occurrences never fails, records the alerts in order, and leaves the count at
  \<open>n + k\<close>.
\<close>

lemma coalesce_burst_counts:
  assumes "get_default m ''coalesced_alerts'' (JList []) = JList as"
    and "get_default m ''alert_state_transitions'' (JList []) = JList tr"
    and "get_default m ''alert_occurrence_count'' (JInt 1) = JInt n"
  shows "\<exists>m'. coalesce_all m xs = Inr m'
     \<and> get_default m' ''coalesced_alerts'' (JList []) = JList (as @ map JObj xs)
     \<and> get_default m' ''alert_occurrence_count'' (JInt 1) = JInt (n + int (length xs))"
  using assms by (rule coalesce_all_counts)

lemma coalesce_burst_counts_witness:
  "\<exists>m'. coalesce_all [(''source'', JStr ''aws'')] [[], [(''message_id'', JStr ''m2'')]] = Inr m'
     \<and> get_default m' ''alert_occurrence_count'' (JInt 1) = JInt 3"
  using coalesce_burst_counts [of "[(''source'', JStr ''aws'')]" "[]" "[]" 1
      "[[], [(''message_id'', JStr ''m2'')]]"]
  by (auto simp: get_default_def)

text \<open>
  The waiting-deadline sweep is precise and idempotent: it reports exactly the waiting
  tasks whose deadline has passed, turns them into timed-out tasks, leaves every other task
  as it was, and an immediate second sweep finds nothing and changes nothing.
\<close>

lemma waiting_timeout_sweep_exact:
  "fst (waiting_timeout_sweep now d) = map t_id (filter (wait_expired now) (tasks d))
   \<and> (\<forall>t' \<in> set (tasks (snd (waiting_timeout_sweep now d))).
        t' \<in> set (tasks d) \<and> \<not> wait_expired now t'
        \<or> (\<exists>t \<in> set (tasks d). wait_expired now t \<and> t_id t' = t_id t \<and> t_status t' = timed_out))
   \<and> waiting_timeout_sweep now (snd (waiting_timeout_sweep now d)) = ([], snd (waiting_timeout_sweep now d))"
proof -
  have none: "filter (wait_expired now) (tasks (snd (waiting_timeout_sweep now d))) = []"
    unfolding tasks_waiting_timeout_sweep filter_empty_conv by (rule waiting.sweep_none_due)
  then have "update_tasks (wait_expired now) mark_wait_timed_out (snd (waiting_timeout_sweep now d))
             = snd (waiting_timeout_sweep now d)"
    by (simp add: update_tasks_def update_where_none filter_empty_conv)
  with none have "waiting_timeout_sweep now (snd (waiting_timeout_sweep now d)) = ([], snd (waiting_timeout_sweep now d))"
    by (subst waiting_timeout_sweep_def) (simp add: add_task_events_def)
  moreover have "\<forall>t' \<in> set (tasks (snd (waiting_timeout_sweep now d))).
        t' \<in> set (tasks d) \<and> \<not> wait_expired now t'
        \<or> (\<exists>t \<in> set (tasks d). wait_expired now t \<and> t_id t' = t_id t \<and> t_status t' = timed_out)"
    unfolding tasks_waiting_timeout_sweep by (auto simp: in_update_where)
  moreover have "fst (waiting_timeout_sweep now d) = map t_id (filter (wait_expired now) (tasks d))"
    by (simp add: waiting_timeout_sweep_def Let_def)
  ultimately show ?thesis by (intro conjI)
qed

lemma waiting_timeout_sweep_exact_witness:
  "fst (waiting_timeout_sweep 50 (demo_db [(demo_task 11 ''a'' waiting_approval 1)\<lparr>t_wait_deadline := Some 9\<rparr>])) = [11]"
  using waiting_timeout_sweep_exact [of 50 "demo_db [(demo_task 11 ''a'' waiting_approval 1)\<lparr>t_wait_deadline := Some 9\<rparr>]"]
  by (simp add: demo_defs wait_expired_def WAITING_STATUSES_def)

text \<open>
  The error text of a task that timed out without a recorded wait reason names the new
  status, never the state the task was waiting in.
\<close>

lemma wait_timeout_error_text:
  assumes "\<not> opt_truthy (t_wait_reason t)"
  shows "t_error (mark_wait_timed_out t) = Some (''Waiting deadline expired for timed_out'')"
  using assms by (simp add: mark_wait_timed_out_def Let_def)

lemma wait_timeout_error_text_witness:
  "t_error (mark_wait_timed_out (demo_task 11 ''a'' waiting_approval 1)) = Some (''Waiting deadline expired for timed_out'')"
  by (rule wait_timeout_error_text) (simp add: demo_defs opt_truthy_def)

text \<open>
  Paging through the task list: two consecutive pages are the page of their joint size,
  asking for as many rows as \<open>count_tasks\<close> reports from the start returns exactly the matching
  tasks, and pages come in the requested order.
\<close>

lemma list_tasks_pages:
  "list_tasks c f sb sd n ofs d @ list_tasks c f sb sd m (ofs + n) d = list_tasks c f sb sd (n + m) ofs d
   \<and> mset (list_tasks c f sb sd (count_tasks f d) 0 d) = mset (filter (task_matches f) (tasks d))
   \<and> sorted (map (\<lambda>t. if py_lower sd = ''asc'' then sort_column c sb t else - sort_column c sb t)
        (list_tasks c f sb sd n ofs d))"
proof -
  let ?k = "\<lambda>t. if py_lower sd = ''asc'' then sort_column c sb t else - sort_column c sb t"
  let ?xs = "sort_key ?k (filter (task_matches f) (tasks d))"
  have "sorted (map ?k ?xs)" by simp
  then have "sorted (map ?k (take n (drop ofs ?xs)))"
    by (simp add: take_map [symmetric] drop_map [symmetric] sorted_wrt_take sorted_wrt_drop)
  moreover have "take n (drop ofs ?xs) @ take m (drop (ofs + n) ?xs) = take (n + m) (drop ofs ?xs)"
    by (simp add: take_add add.commute [of ofs n])
  ultimately show ?thesis
    by (simp add: list_tasks_def count_tasks_def)
qed


end
