(* ===== verification/Approvals.thy ===== *)
theory Approvals
  imports Task_Queue
begin

text \<open>
  Human approvals: \<open>shared/lib/approvals.py\<close> (approval records derived from session events),
  \<open>gateway/approval_broker.py\<close> (the prompt posted to the message provider and the recorded
  result) and \<open>gateway/message.py\<close> (the interactive button callback). The posting call
  (\<open>create_post\<close> of either provider, an HTTP request) is the argument \<open>post\<close>: it returns an
  error text or the provider's response.
\<close>

section \<open>Approval records from session events\<close>

definition merge_metadata :: "dict \<Rightarrow> dict \<Rightarrow> dict" where
  "merge_metadata existing updates = dmerge existing updates"

definition is_open :: "uuid \<Rightarrow> str \<Rightarrow> approval \<Rightarrow> bool" where
  "is_open tid tool a = (a_task_id a = tid \<and> a_tool_name a = tool \<and> a_status a = ''pending'')"

definition find_open_approval :: "db \<Rightarrow> uuid \<Rightarrow> str \<Rightarrow> approval option" where
  "find_open_approval d tid tool =
     first_by (\<lambda>a. (- a_requested_at a, - a_created_at a)) (filter (is_open tid tool) (approvals d))"

fun scan_request :: "str \<Rightarrow> approval list \<Rightarrow> approval option res" where
  "scan_request rid [] = Inr None"
| "scan_request rid (a # as) =
     bind_res (attr_get (get_default (a_metadata a) ''approval_requested'' (JObj [])) ''request_id'')
       (\<lambda>v. if text_or_empty v = rid then Inr (Some a) else scan_request rid as)"

definition find_approval_by_request :: "db \<Rightarrow> uuid \<Rightarrow> str \<Rightarrow> str \<Rightarrow> approval option res" where
  "find_approval_by_request d tid tool rid =
     scan_request rid (sort_key (\<lambda>a. (- a_requested_at a, - a_created_at a))
       (filter (\<lambda>a. a_task_id a = tid \<and> a_tool_name a = tool) (approvals d)))"

definition approval_status_from_result :: "dict \<Rightarrow> str" where
  "approval_status_from_result data = (if truthy (dget data ''approved'') then ''approved'' else ''rejected'')"

definition new_approval ::
  "db \<Rightarrow> task option \<Rightarrow> uuid \<Rightarrow> str \<Rightarrow> str \<Rightarrow> dict \<Rightarrow> time \<Rightarrow> approval" where
  "new_approval d t tid kind tool meta ts =
     \<lparr>a_id = uuid_gen d, a_task_id = tid, a_workflow = map_option t_workflow t, a_approval_kind = kind,
      a_tool_name = tool, a_status = ''pending'', a_request_preview = None, a_reason = None,
      a_metadata = meta, a_requested_at = ts, a_resolved_at = None, a_archived_at = None,
      a_created_at = db_now d, a_updated_at = ts\<rparr>"

definition insert_approval :: "approval \<Rightarrow> db \<Rightarrow> db" where
  "insert_approval a d = d\<lparr>approvals := approvals d @ [a], uuid_gen := Suc (uuid_gen d)\<rparr>"

definition store_approval :: "approval \<Rightarrow> db \<Rightarrow> db" where
  "store_approval a d = d\<lparr>approvals := update_where (\<lambda>b. a_id b = a_id a) (\<lambda>b. a) (approvals d)\<rparr>"

definition apply_permission_callback ::
  "db \<Rightarrow> task option \<Rightarrow> uuid \<Rightarrow> str \<Rightarrow> time \<Rightarrow> dict \<Rightarrow> approval option \<times> db" where
  "apply_permission_callback d t tid tool ts payload =
     (if dget payload ''kind'' \<noteq> JStr ''operator_approval'' then (None, d)
      else case find_open_approval d tid tool of
             None \<Rightarrow>
               let a = new_approval d t tid (py_str (py_or (dget payload ''kind'') (JStr ''operator_approval''))) tool
                         [(''permission_callback'', JObj payload)] ts
               in (Some a, insert_approval a d)
           | Some b \<Rightarrow>
               let a = b\<lparr>a_approval_kind := (if truthy (dget payload ''kind'')
                              then py_str (dget payload ''kind'') else a_approval_kind b),
                         a_metadata := merge_metadata (a_metadata b) [(''permission_callback'', JObj payload)],
                         a_updated_at := ts\<rparr>
               in (Some a, store_approval a d))"

definition apply_approval_requested ::
  "db \<Rightarrow> task option \<Rightarrow> uuid \<Rightarrow> str \<Rightarrow> time \<Rightarrow> dict \<Rightarrow> approval option \<times> db" where
  "apply_approval_requested d t tid tool ts payload =
     (let preview = dget payload ''tool_input_preview''
      in case find_open_approval d tid tool of
           None \<Rightarrow>
             let a = (new_approval d t tid ''operator_approval'' tool [(''approval_requested'', JObj payload)] ts)
                       \<lparr>a_request_preview := (if truthy preview then Some (py_str preview) else None)\<rparr>
             in (Some a, insert_approval a d)
         | Some b \<Rightarrow>
             let a = b\<lparr>a_request_preview := (if truthy preview then Some (py_str preview) else a_request_preview b),
                       a_metadata := merge_metadata (a_metadata b) [(''approval_requested'', JObj payload)],
                       a_updated_at := ts\<rparr>
             in (Some a, store_approval a d))"

definition reason_of :: "dict \<Rightarrow> str option" where
  "reason_of payload = (let r = text_or_empty (dget payload ''reason'') in if r = [] then None else Some r)"

definition apply_approval_result ::
  "db \<Rightarrow> task option \<Rightarrow> uuid \<Rightarrow> str \<Rightarrow> time \<Rightarrow> dict \<Rightarrow> approval option \<times> db" where
  "apply_approval_result d t tid tool ts payload =
     (case find_open_approval d tid tool of
        None \<Rightarrow>
          let a = (new_approval d t tid ''operator_approval'' tool [(''approval_result'', JObj payload)] ts)
                    \<lparr>a_status := approval_status_from_result payload, a_reason := reason_of payload,
                     a_resolved_at := Some ts\<rparr>
          in (Some a, insert_approval a d)
      | Some b \<Rightarrow>
          let a = b\<lparr>a_status := approval_status_from_result payload, a_reason := reason_of payload,
                    a_metadata := merge_metadata (a_metadata b) [(''approval_result'', JObj payload)],
                    a_resolved_at := Some ts, a_updated_at := ts\<rparr>
          in (Some a, store_approval a d))"

definition apply_approval_event ::
  "db \<Rightarrow> task option \<Rightarrow> uuid option \<Rightarrow> str \<Rightarrow> time \<Rightarrow> dict option \<Rightarrow> approval option \<times> db" where
  "apply_approval_event d t task_id event_type ts data =
     (case task_id of
        None \<Rightarrow> (None, d)
      | Some tid \<Rightarrow>
          let payload = (case data of None \<Rightarrow> [] | Some p \<Rightarrow> p);
              tool = py_strip (text_or_empty (dget payload ''tool_name''))
          in if tool = [] then (None, d)
             else if event_type = ''permission_callback'' then apply_permission_callback d t tid tool ts payload
             else if event_type = ''approval_requested'' then apply_approval_requested d t tid tool ts payload
             else if event_type = ''approval_result'' then apply_approval_result d t tid tool ts payload
             else (None, d))"

definition approval_events_of :: "uuid list \<Rightarrow> db \<Rightarrow> session_event list" where
  "approval_events_of ids d =
     sort_key (\<lambda>e. (case se_task_id e of None \<Rightarrow> 0 | Some i \<Rightarrow> i, se_timestamp e, se_id e))
       (filter (\<lambda>e. (case se_task_id e of None \<Rightarrow> False | Some i \<Rightarrow> i \<in> set ids)
                  \<and> se_event_type e \<in> set [''permission_callback'', ''approval_requested'', ''approval_result''])
          (session_events d))"

fun replay_approval_events :: "task list \<Rightarrow> session_event list \<Rightarrow> nat \<Rightarrow> db \<Rightarrow> nat \<times> db" where
  "replay_approval_events ts [] n d = (n, d)"
| "replay_approval_events ts (e # es) n d =
     (case apply_approval_event d
             (case se_task_id e of None \<Rightarrow> None | Some i \<Rightarrow> find (\<lambda>t. t_id t = i) ts)
             (se_task_id e) (se_event_type e) (se_timestamp e) (Some (se_data e)) of
        (None, d') \<Rightarrow> replay_approval_events ts es n d'
      | (Some a, d') \<Rightarrow> replay_approval_events ts es (Suc n) d')"

definition backfill_approvals_for_task_ids :: "uuid list \<Rightarrow> db \<Rightarrow> nat \<times> db" where
  "backfill_approvals_for_task_ids ids d =
     (if ids = [] then (0, d)
      else let ts = filter (\<lambda>t. t_id t \<in> set ids) (tasks d);
               d1 = d\<lparr>approvals := delete_where (\<lambda>a. a_task_id a \<in> set ids) (approvals d)\<rparr>
           in replay_approval_events ts (approval_events_of ids d1) 0 d1)"

section \<open>Gateway settings used here\<close>

record settings =
  gateway_public_base_url :: str
  gateway_port :: int
  control_plane_ui_url :: str
  mb_provider :: str
  mb_api_url :: str
  mb_bot_token :: str
  mb_app_token :: str
  mb_team_name :: str
  mb_action_callback_secret :: str

section \<open>The approval prompt\<close>

definition approval_callback_url :: "settings \<Rightarrow> str" where
  "approval_callback_url st =
     (let explicit = rstrip_chars ''/'' (py_strip (gateway_public_base_url st))
      in if explicit \<noteq> [] then explicit @ ''/webhooks/message/actions/approval''
         else ''http://gateway:'' @ str_of_int (gateway_port st) @ ''/webhooks/message/actions/approval'')"

definition session_details_url :: "settings \<Rightarrow> uuid \<Rightarrow> str option" where
  "session_details_url st tid =
     (let base = rstrip_chars ''/'' (py_strip (control_plane_ui_url st))
      in if base = [] then None else Some (base @ ''/sessions/'' @ uuid_str tid))"

definition approval_action_context :: "settings \<Rightarrow> approval \<Rightarrow> str \<Rightarrow> bool \<Rightarrow> dict res" where
  "approval_action_context st a decision include_callback_secret =
     bind_res (attr_get (get_default (a_metadata a) ''approval_requested'' (JObj [])) ''request_id'') (\<lambda>rid.
       Inr ([(''approval_id'', JStr (uuid_str (a_id a))), (''task_id'', JStr (uuid_str (a_task_id a))),
             (''tool_name'', JStr (a_tool_name a)), (''request_id'', JStr (text_or_empty rid)),
             (''decision'', JStr decision)]
            @ (if include_callback_secret then [(''token'', JStr (mb_action_callback_secret st))] else [])))"

definition nl :: str where
  "nl = [CHR 0x0A]"

definition approval_post_lines :: "settings \<Rightarrow> task \<Rightarrow> approval \<Rightarrow> str \<Rightarrow> str list" where
  "approval_post_lines st t a issue =
     (let action_desc = (if opt_truthy (a_request_preview a) then opt_str (a_request_preview a) else a_tool_name a)
      in ['':warning: **Approval Required** (Task `'' @ take 8 (uuid_str (t_id t)) @ ''`)'', [],
          ''**Tool**: `'' @ a_tool_name a @ ''`'']
         @ (if action_desc \<noteq> []
            then [[], ''**Request Preview**:'', ''```'' @ nl @ take 1200 action_desc @ nl @ ''```''] else [])
         @ (if opt_truthy (a_workflow a) then [''**Workflow**: `'' @ opt_str (a_workflow a) @ ''`''] else [])
         @ (if issue \<noteq> [] then [''**Issue**: '' @ issue] else [])
         @ (case session_details_url st (t_id t) of
              None \<Rightarrow> [] | Some u \<Rightarrow> [''**Session**: [Open details]('' @ u @ '')''])
         @ [[], ''Use the buttons below to approve or reject this action.''])"

definition approval_issue :: "task \<Rightarrow> approval \<Rightarrow> str res" where
  "approval_issue t a =
     bind_res (attr_get (get_default (a_metadata a) ''approval_requested'' (JObj [])) ''task_prompt_summary'') (\<lambda>v.
       Inr (if truthy v then py_str v else take 300 (t_prompt t)))"

definition button :: "str \<Rightarrow> str \<Rightarrow> str \<Rightarrow> str \<Rightarrow> dict \<Rightarrow> json" where
  "button bid name style url ctx = JObj
     [(''id'', JStr bid), (''type'', JStr ''button''), (''name'', JStr name), (''style'', JStr style),
      (''integration'', JObj [(''url'', JStr url), (''context'', JObj ctx)])]"

definition approval_post_payload :: "settings \<Rightarrow> task \<Rightarrow> approval \<Rightarrow> (str \<times> dict) res" where
  "approval_post_payload st t a =
     bind_res (approval_issue t a) (\<lambda>issue.
     bind_res (approval_action_context st a ''approve'' True) (\<lambda>yes.
     bind_res (approval_action_context st a ''reject'' True) (\<lambda>no.
       Inr (py_join nl (approval_post_lines st t a issue),
            [(''attachments'', JList [JObj
               [(''text'', JStr ''Approve or reject this tool execution.''),
                (''actions'', JList
                  [button ''approve'' ''Approve'' ''success'' (approval_callback_url st) yes,
                   button ''reject'' ''Reject'' ''danger'' (approval_callback_url st) no])]])]))))"

definition slack_button :: "str \<Rightarrow> str \<Rightarrow> dict \<Rightarrow> json" where
  "slack_button label style ctx = JObj
     [(''type'', JStr ''button''),
      (''text'', JObj [(''type'', JStr ''plain_text''), (''text'', JStr label)]),
      (''style'', JStr style), (''action_id'', JStr ''agentic_ops_approval''),
      (''value'', JStr (json_dumps (JObj ctx)))]"

definition slack_approval_post_payload :: "settings \<Rightarrow> task \<Rightarrow> approval \<Rightarrow> (str \<times> json list) res" where
  "slack_approval_post_payload st t a =
     bind_res (approval_post_payload st t a) (\<lambda>(text, props).
     bind_res (approval_action_context st a ''approve'' False) (\<lambda>yes.
     bind_res (approval_action_context st a ''reject'' False) (\<lambda>no.
       Inr (text,
         [JObj [(''type'', JStr ''section''),
                (''text'', JObj [(''type'', JStr ''mrkdwn''), (''text'', JStr text)])],
          JObj [(''type'', JStr ''actions''),
                (''elements'', JList [slack_button ''Approve'' ''primary'' yes,
                                      slack_button ''Reject'' ''danger'' no])]]))))"


section \<open>Posting the prompt\<close>

text \<open>
  \<open>approval.approval_metadata or {}\<close> is the loaded dictionary object itself when it is not
  empty. The code adds \<open>gateway_delivery\<close> to that object in place and assigns the same object
  back. The ORM compares the assigned value with the loaded one when it flushes; as both are
  one object they are equal and no change is written. Only when the loaded dictionary was
  empty is the assigned one a new object, and written.
\<close>

definition flush_mutated_metadata :: "dict \<Rightarrow> dict \<Rightarrow> dict" where
  "flush_mutated_metadata loaded assigned = (if loaded \<noteq> [] then loaded else assigned)"

definition set_delivery :: "time \<Rightarrow> dict \<Rightarrow> approval \<Rightarrow> db \<Rightarrow> approval \<times> db" where
  "set_delivery now delivery a d =
     (let m = dset ''gateway_delivery'' (JObj delivery) (a_metadata a)
      in (a\<lparr>a_metadata := m, a_updated_at := now\<rparr>,
          store_approval (a\<lparr>a_metadata := flush_mutated_metadata (a_metadata a) m, a_updated_at := now\<rparr>) d))"

record post_request =
  pr_text :: str
  pr_channel_id :: str
  pr_channel_name :: str
  pr_team_id :: str
  pr_team_name :: str
  pr_thread :: str
  pr_body :: json

definition deliver_prompt ::
  "settings \<Rightarrow> (post_request \<Rightarrow> str + dict) \<Rightarrow> task \<Rightarrow> approval \<Rightarrow> (str + dict) res" where
  "deliver_prompt st post t a =
     (let channel_id = text_or_empty (dget (t_metadata t) ''channel_id'');
          team_id = text_or_empty (dget (t_metadata t) ''team_id'');
          team_name = py_str (py_or (py_or (dget (t_metadata t) ''team_domain'') (JStr (mb_team_name st))) (JStr []))
      in if mb_provider st = ''slack''
         then bind_res (slack_approval_post_payload st t a) (\<lambda>(text, blocks).
                Inr (post \<lparr>pr_text = text,
                           pr_channel_id = (if channel_id \<noteq> [] then channel_id else opt_str (t_message_channel t)),
                           pr_channel_name = [], pr_team_id = [], pr_team_name = [],
                           pr_thread = opt_str (t_message_thread t), pr_body = JList blocks\<rparr>))
         else bind_res (approval_post_payload st t a) (\<lambda>(text, props).
                Inr (post \<lparr>pr_text = text, pr_channel_id = channel_id,
                           pr_channel_name = opt_str (t_message_channel t), pr_team_id = team_id,
                           pr_team_name = team_name, pr_thread = opt_str (t_message_thread t),
                           pr_body = JObj props\<rparr>)))"

definition delivery_record :: "time \<Rightarrow> task \<Rightarrow> str + dict \<Rightarrow> dict" where
  "delivery_record now t r =
     (case r of
        Inl err \<Rightarrow> [(''delivery_failed_at'', JStr (isoformat now)), (''error'', JStr err)]
      | Inr p \<Rightarrow>
          let channel_id = text_or_empty (dget (t_metadata t) ''channel_id'')
          in [(''post_id'', JStr (text_or_empty (py_or (dget p ''id'') (dget p ''ts'')))),
              (''root_id'', JStr (text_or_empty (py_or (dget p ''root_id'') (jopt (t_message_thread t))))),
              (''channel_id'', JStr (text_or_empty (py_or (py_or (dget p ''channel_id'') (JStr channel_id))
                                      (jopt (t_message_channel t))))),
              (''posted_at'', JStr (isoformat now))])"

definition record_delivery :: "time \<Rightarrow> dict \<Rightarrow> approval \<Rightarrow> db \<Rightarrow> approval option \<times> db" where
  "record_delivery now delivery a d = (Some (fst (set_delivery now delivery a d)), snd (set_delivery now delivery a d))"

definition has_message_route :: "task \<Rightarrow> bool" where
  "has_message_route t = (opt_truthy (t_message_channel t) \<or> opt_truthy (t_message_thread t)
     \<or> truthy (dget (t_metadata t) ''channel_id''))"

definition ensure_approval_prompt_posted ::
  "settings \<Rightarrow> (post_request \<Rightarrow> str + dict) \<Rightarrow> time \<Rightarrow> task option \<Rightarrow> approval option \<Rightarrow> db
     \<Rightarrow> (approval option \<times> db) res" where
  "ensure_approval_prompt_posted st post now t0 a0 d =
     (case (t0, a0) of
        (Some t, Some a) \<Rightarrow>
          if a_status a \<noteq> ''pending'' then Inr (a0, d)
          else bind_res (attr_get (py_or (dget (a_metadata a) ''gateway_delivery'') (JObj [])) ''post_id'') (\<lambda>pid.
            if truthy pid then Inr (a0, d)
            else if \<not> has_message_route t
            then Inr (record_delivery now
                   [(''delivery_failed_at'', JStr (isoformat now)),
                    (''error'', JStr ''Approval channel unavailable for this task'')] a d)
            else bind_res (deliver_prompt st post t a) (\<lambda>r. Inr (record_delivery now (delivery_record now t r) a d)))
      | _ \<Rightarrow> Inr (a0, d))"

section \<open>Recording a result\<close>

definition opt_entry :: "str \<Rightarrow> str option \<Rightarrow> dict" where
  "opt_entry k v = (if opt_truthy v then [(k, JStr (opt_str v))] else [])"

definition result_payload ::
  "str \<Rightarrow> bool \<Rightarrow> str \<Rightarrow> str option \<Rightarrow> str option \<Rightarrow> str option \<Rightarrow> str option \<Rightarrow> dict" where
  "result_payload tool approved source reason approved_by approved_by_user_id approval_reply =
     [(''tool_name'', JStr tool), (''approved'', JBool approved), (''source'', JStr source)]
     @ opt_entry ''reason'' reason @ opt_entry ''approved_by'' approved_by
     @ opt_entry ''approved_by_user_id'' approved_by_user_id @ opt_entry ''approval_reply'' approval_reply"

definition record_approval_result ::
  "time \<Rightarrow> task \<Rightarrow> approval \<Rightarrow> bool \<Rightarrow> str option \<Rightarrow> str option \<Rightarrow> str option \<Rightarrow> str option \<Rightarrow> str
     \<Rightarrow> db \<Rightarrow> (approval \<times> db) res" where
  "record_approval_result now t a approved reason approved_by approved_by_user_id approval_reply source d =
     (let payload = result_payload (a_tool_name a) approved source reason approved_by approved_by_user_id approval_reply;
          d1 = add_session_event (Some (t_id t)) ''approval_result'' now payload d;
          (resolved, d2) = apply_approval_event d1 (Some t) (Some (t_id t)) ''approval_result'' now (Some payload);
          d3 = (if t_status t = waiting_approval
                then add_session_event (Some (t_id t)) ''approval_wait_resolved'' now
                       [(''tool_name'', JStr (a_tool_name a)), (''approved'', JBool approved), (''source'', JStr source)] d2
                else d2)
      in case resolved of None \<Rightarrow> Inl AssertionError | Some r \<Rightarrow> Inr (r, d3))"

definition get_approval :: "db \<Rightarrow> uuid \<Rightarrow> approval option" where
  "get_approval d i = find (\<lambda>a. a_id a = i) (approvals d)"

section \<open>Interactive approval actions\<close>

definition verify_interactive_action_token :: "settings \<Rightarrow> str \<Rightarrow> bool res" where
  "verify_interactive_action_token st token =
     (let expected = mb_action_callback_secret st
      in if expected = [] then Inr False
         else if list_ex (\<lambda>c. 128 \<le> (of_char c :: nat)) (token @ expected)
         then Inl (TypeError ''comparing strings with non-ASCII characters is not supported'')
         else Inr (token = expected))"

definition interactive_error :: "str \<Rightarrow> json" where
  "interactive_error msg = JObj [(''error'', JObj [(''message'', JStr msg)])]"

record approval_resolution =
  r_approval_id :: uuid
  r_approved :: "bool option"
  r_status_message :: str

definition check_delivery :: "approval \<Rightarrow> str \<Rightarrow> str \<Rightarrow> unit res" where
  "check_delivery a post_id channel_id =
     (let delivery = get_default (a_metadata a) ''gateway_delivery'' (JObj [])
      in bind_res (attr_get delivery ''post_id'') (\<lambda>p.
         if text_or_empty p \<noteq> [] \<and> post_id \<noteq> [] \<and> text_or_empty p \<noteq> post_id
         then Inl (ValueError ''Approval action does not match the approval prompt'')
         else bind_res (attr_get delivery ''channel_id'') (\<lambda>c.
           if text_or_empty c \<noteq> [] \<and> channel_id \<noteq> [] \<and> text_or_empty c \<noteq> channel_id
           then Inl (ValueError ''Approval action does not match the approval channel'')
           else Inr ())))"

definition check_request :: "db \<Rightarrow> approval \<Rightarrow> str \<Rightarrow> unit res" where
  "check_request d a rid =
     (if rid = [] then Inr ()
      else bind_res (find_approval_by_request d (a_task_id a) (a_tool_name a) rid) (\<lambda>m.
        case m of
          None \<Rightarrow> Inl (ValueError ''Approval action no longer matches an open request'')
        | Some b \<Rightarrow> if a_id b \<noteq> a_id a
                    then Inl (ValueError ''Approval action no longer matches an open request'')
                    else Inr ()))"

definition resolve_pending ::
  "time \<Rightarrow> time \<Rightarrow> str \<Rightarrow> str \<Rightarrow> str \<Rightarrow> str \<Rightarrow> str \<Rightarrow> task \<Rightarrow> approval \<Rightarrow> db
     \<Rightarrow> (approval_resolution \<times> db) res" where
  "resolve_pending ts now decision user_id post_id channel_id source t a d =
     (let approved = (decision = ''approve''); who = (if user_id \<noteq> [] then user_id else ''operator'');
          ou = (if user_id \<noteq> [] then Some user_id else None);
          d1 = add_session_event (Some (t_id t)) ''approval_action'' ts
                 [(''approval_id'', JStr (uuid_str (a_id a))), (''tool_name'', JStr (a_tool_name a)),
                  (''decision'', JStr decision), (''user_id'', JStr user_id),
                  (''post_id'', JStr post_id), (''channel_id'', JStr channel_id)] d
      in bind_res (record_approval_result now t a approved
                     (if approved then None else Some (''Approval rejected in message provider by '' @ who))
                     ou ou (Some decision) source d1) (\<lambda>(r, d2).
           Inr (\<lparr>r_approval_id = a_id a, r_approved = Some approved,
                 r_status_message = '':white_check_mark: Approval **'' @ (if approved then ''approved'' else ''rejected'')
                   @ ''** for `'' @ a_tool_name a @ ''` by @'' @ who @ ''.''\<rparr>, d2)))"

definition resolve_approval_action ::
  "time \<Rightarrow> dict \<Rightarrow> str \<Rightarrow> str \<Rightarrow> str \<Rightarrow> str \<Rightarrow> db \<Rightarrow> (approval_resolution \<times> db) res" where
  "resolve_approval_action now context user_id post_id channel_id source d =
     (let decision = py_lower (py_strip (text_or_empty (dget context ''decision'')))
      in if decision \<notin> set [''approve'', ''reject''] then Inl (ValueError ''Unsupported approval action'')
         else case uuid_of_str (text_or_empty (dget context ''approval_id'')) of
                None \<Rightarrow> Inl (ValueError ''Invalid approval identifier'')
              | Some i \<Rightarrow> (case get_approval d i of
                  None \<Rightarrow> Inl (ValueError ''Approval not found'')
                | Some a \<Rightarrow> (case get_task d (a_task_id a) of
                    None \<Rightarrow> Inl (ValueError ''Associated task not found'')
                  | Some t \<Rightarrow>
                      bind_res (check_request d a (text_or_empty (dget context ''request_id''))) (\<lambda>_.
                      bind_res (check_delivery a post_id channel_id) (\<lambda>_.
                      if a_status a \<noteq> ''pending''
                      then Inr (\<lparr>r_approval_id = a_id a, r_approved = None,
                                 r_status_message = '':lock: Approval already resolved as **'' @ a_status a @ ''**.''\<rparr>, d)
                      else resolve_pending (db_now d) now decision user_id post_id channel_id source t a d)))))"

definition message_approval_action ::
  "settings \<Rightarrow> time \<Rightarrow> dict \<Rightarrow> str \<Rightarrow> str \<Rightarrow> str \<Rightarrow> db \<Rightarrow> (json \<times> db) res" where
  "message_approval_action st now context user_id post_id channel_id d =
     bind_res (verify_interactive_action_token st (text_or_empty (dget context ''token''))) (\<lambda>ok.
       if \<not> ok then Inr (interactive_error ''Invalid approval action token'', d)
       else case resolve_approval_action now context user_id post_id channel_id ''mattermost_interactive'' d of
              Inl (ValueError msg) \<Rightarrow> Inr (interactive_error msg, d)
            | Inl e \<Rightarrow> Inl e
            | Inr (r, d') \<Rightarrow>
                Inr (JObj [(''update'', JObj [(''message'', JStr (r_status_message r)), (''props'', JObj [])]),
                           (''ephemeral_text'', JStr
                              (case r_approved r of
                                 None \<Rightarrow> ''This approval is already '' @
                                   (case get_approval d' (r_approval_id r) of None \<Rightarrow> [] | Some a \<Rightarrow> a_status a) @ ''.''
                               | Some b \<Rightarrow> ''You '' @ (if b then ''approved'' else ''rejected'') @ '' this approval request.'')),
                           (''skip_slack_parsing'', JBool True)], d'))"

section \<open>The approval store stays well-formed\<close>

text \<open>
  Identifiers are unique, tool names are stripped and non-empty, and a task never has two
  open requests for one tool.
\<close>

definition open_unique :: "approval list \<Rightarrow> bool" where
  "open_unique as = list_all (\<lambda>a. list_all (\<lambda>b.
     a_status a = ''pending'' \<and> a_status b = ''pending'' \<and> a_task_id a = a_task_id b
       \<and> a_tool_name a = a_tool_name b \<longrightarrow> a_id a = a_id b) as) as"

definition tool_ok :: "approval \<Rightarrow> bool" where
  "tool_ok a = (a_tool_name a \<noteq> [] \<and> py_strip (a_tool_name a) = a_tool_name a)"

definition wf_approvals :: "db \<Rightarrow> bool" where
  "wf_approvals d \<longleftrightarrow> distinct (map a_id (approvals d)) \<and> list_all (\<lambda>a. a_id a < uuid_gen d) (approvals d)
     \<and> list_all tool_ok (approvals d) \<and> open_unique (approvals d)"

lemma find_open_NoneD: "find_open_approval d tid tool = None \<Longrightarrow> a \<in> set (approvals d) \<Longrightarrow> \<not> is_open tid tool a"
  by (auto simp: find_open_approval_def filter_empty_conv)

lemma find_open_SomeD:
  "find_open_approval d tid tool = Some a \<Longrightarrow>
     a \<in> set (approvals d) \<and> a_task_id a = tid \<and> a_tool_name a = tool \<and> a_status a = ''pending''"
  unfolding find_open_approval_def using first_by_SomeD by (fastforce simp: is_open_def)

lemma open_uniqueI:
  "(\<And>a b. a \<in> set as \<Longrightarrow> b \<in> set as \<Longrightarrow> a_status a = ''pending'' \<Longrightarrow> a_status b = ''pending'' \<Longrightarrow>
      a_task_id a = a_task_id b \<Longrightarrow> a_tool_name a = a_tool_name b \<Longrightarrow> a_id a = a_id b) \<Longrightarrow> open_unique as"
  unfolding open_unique_def list_all_iff by blast

lemma open_uniqueD:
  "open_unique as \<Longrightarrow> a \<in> set as \<Longrightarrow> b \<in> set as \<Longrightarrow> a_status a = ''pending'' \<Longrightarrow> a_status b = ''pending'' \<Longrightarrow>
      a_task_id a = a_task_id b \<Longrightarrow> a_tool_name a = a_tool_name b \<Longrightarrow> a_id a = a_id b"
  unfolding open_unique_def list_all_iff by blast

lemma find_open_the:
  assumes "wf_approvals d" "a \<in> set (approvals d)" "is_open tid tool a"
  shows "find_open_approval d tid tool = Some a"
proof (cases "find_open_approval d tid tool")
  case None
  from find_open_NoneD [OF None assms(2)] assms(3) show ?thesis by simp
next
  case (Some b)
  note b = find_open_SomeD [OF Some]
  have "a_id a = a_id b"
    by (rule open_uniqueD [of "approvals d"]) (use assms b in \<open>simp_all add: wf_approvals_def is_open_def\<close>)
  then have "a = b"
    using assms(1) b assms(2) by (auto simp: wf_approvals_def intro: distinct_key_eq [where key = a_id])
  with Some show ?thesis by simp
qed

lemma in_store_approval:
  "x \<in> set (approvals (store_approval a d)) \<Longrightarrow> x = a \<or> (x \<in> set (approvals d) \<and> a_id x \<noteq> a_id a)"
  by (auto simp: store_approval_def in_update_where)

lemma store_approval_frame [simp, frame_simps]:
  "tasks (store_approval a d) = tasks d"
  "task_events (store_approval a d) = task_events d"
  "session_events (store_approval a d) = session_events d"
  "uuid_gen (store_approval a d) = uuid_gen d"
  "db_now (store_approval a d) = db_now d"
  "map a_id (approvals (store_approval a d)) = map a_id (approvals d)"
  by (simp_all add: store_approval_def update_where_def comp_def if_distrib [of a_id] cong: if_cong)

lemma insert_approval_frame [simp, frame_simps]:
  "tasks (insert_approval a d) = tasks d"
  "task_events (insert_approval a d) = task_events d"
  "session_events (insert_approval a d) = session_events d"
  "uuid_gen (insert_approval a d) = Suc (uuid_gen d)"
  "db_now (insert_approval a d) = db_now d"
  "approvals (insert_approval a d) = approvals d @ [a]"
  by (simp_all add: insert_approval_def)

lemma wf_store_approval:
  assumes "wf_approvals d" "b \<in> set (approvals d)" "a_id a = a_id b" "a_task_id a = a_task_id b"
    "a_tool_name a = a_tool_name b" "a_status a = ''pending'' \<Longrightarrow> a_status b = ''pending''"
  shows "wf_approvals (store_approval a d)"
proof -
  have wfd: "list_all (\<lambda>x. a_id x < uuid_gen d) (approvals d)" "list_all tool_ok (approvals d)"
    "open_unique (approvals d)" using assms(1) by (simp_all add: wf_approvals_def)
  have "tool_ok x \<and> a_id x < uuid_gen d" if "x \<in> set (approvals (store_approval a d))" for x
    using in_store_approval [OF that] wfd(1,2) assms(2,3,5) by (auto simp: list_all_iff tool_ok_def)
  moreover have "open_unique (approvals (store_approval a d))"
  proof (rule open_uniqueI)
    fix x y assume x: "x \<in> set (approvals (store_approval a d))" and y: "y \<in> set (approvals (store_approval a d))"
      and p: "a_status x = ''pending''" "a_status y = ''pending''" "a_task_id x = a_task_id y" "a_tool_name x = a_tool_name y"
    define f where "f = (\<lambda>z. if z = a then b else z)"
    have f: "f z \<in> set (approvals d) \<and> a_id (f z) = a_id z \<and> a_task_id (f z) = a_task_id z
        \<and> a_tool_name (f z) = a_tool_name z \<and> (a_status z = ''pending'' \<longrightarrow> a_status (f z) = ''pending'')"
      if "z \<in> set (approvals (store_approval a d))" for z
      using in_store_approval [OF that] assms by (auto simp: f_def)
    have "a_id (f x) = a_id (f y)"
      by (rule open_uniqueD [OF wfd(3)]) (use f [OF x] f [OF y] p in simp_all)
    with f [OF x] f [OF y] show "a_id x = a_id y" by simp
  qed
  ultimately show ?thesis
    using assms(1) by (simp add: wf_approvals_def list_all_iff)
qed

lemma wf_insert_approval:
  assumes "wf_approvals d" "a_id a = uuid_gen d" "tool_ok a"
    "a_status a = ''pending'' \<Longrightarrow> find_open_approval d (a_task_id a) (a_tool_name a) = None"
  shows "wf_approvals (insert_approval a d)"
proof -
  have wfd: "list_all (\<lambda>x. a_id x < uuid_gen d) (approvals d)" "open_unique (approvals d)"
    using assms(1) by (simp_all add: wf_approvals_def)
  have no: False if "x \<in> set (approvals d)" "a_status a = ''pending''" "a_status x = ''pending''"
    "a_task_id x = a_task_id a" "a_tool_name x = a_tool_name a" for x
    using find_open_NoneD [OF assms(4) [OF that(2)] that(1)] that by (simp add: is_open_def)
  have "open_unique (approvals d @ [a])"
    by (rule open_uniqueI) (auto dest: no no [OF _ _ _ sym sym] intro: open_uniqueD [OF wfd(2)])
  then show ?thesis
    using assms(1-3) by (auto simp: wf_approvals_def list_all_iff less_Suc_eq)
qed

lemma wf_apply_requested:
  assumes "wf_approvals d" "tool \<noteq> []" "py_strip tool = tool"
  shows "wf_approvals (snd (apply_approval_requested d t tid tool ts payload))"
proof (cases "find_open_approval d tid tool")
  case None
  with assms show ?thesis
    by (auto simp: apply_approval_requested_def Let_def new_approval_def tool_ok_def intro: wf_insert_approval)
next
  case (Some b)
  with assms find_open_SomeD [OF Some] show ?thesis
    by (auto simp: apply_approval_requested_def Let_def intro: wf_store_approval)
qed

lemma wf_apply_permission:
  assumes "wf_approvals d" "tool \<noteq> []" "py_strip tool = tool"
  shows "wf_approvals (snd (apply_permission_callback d t tid tool ts payload))"
proof (cases "find_open_approval d tid tool")
  case None
  with assms show ?thesis
    by (auto simp: apply_permission_callback_def Let_def new_approval_def tool_ok_def intro: wf_insert_approval)
next
  case (Some b)
  with assms find_open_SomeD [OF Some] show ?thesis
    by (auto simp: apply_permission_callback_def Let_def intro: wf_store_approval)
qed

lemma result_not_pending [simp]: "approval_status_from_result p \<noteq> ''pending''"
  by (simp add: approval_status_from_result_def)

lemma wf_apply_result:
  assumes "wf_approvals d" "tool \<noteq> []" "py_strip tool = tool"
  shows "wf_approvals (snd (apply_approval_result d t tid tool ts payload))"
proof (cases "find_open_approval d tid tool")
  case None
  with assms show ?thesis
    by (auto simp: apply_approval_result_def Let_def new_approval_def tool_ok_def intro: wf_insert_approval)
next
  case (Some b)
  with assms find_open_SomeD [OF Some] show ?thesis
    by (auto simp: apply_approval_result_def Let_def intro: wf_store_approval)
qed

lemma wf_apply_approval_event:
  "wf_approvals d \<Longrightarrow> wf_approvals (snd (apply_approval_event d t tid ty ts p))"
  by (auto simp: apply_approval_event_def Let_def wf_apply_requested wf_apply_permission wf_apply_result
      split: option.split)

lemma wf_approvals_frame [simp]:
  "wf_approvals d \<Longrightarrow> wf_approvals (add_session_event sid ty ts x d)"
  by (auto simp: wf_approvals_def list_all_iff less_Suc_eq)

text \<open>Every operation on approvals keeps the store well-formed, in any order.\<close>

definition approval_op :: "task option \<times> uuid option \<times> str \<times> time \<times> dict option \<Rightarrow> db \<Rightarrow> db" where
  "approval_op a d = (case a of (t, tid, ty, ts, p) \<Rightarrow> snd (apply_approval_event d t tid ty ts p))"

interpretation approval_store: preserved approval_op wf_approvals
  by unfold_locales (auto simp: approval_op_def wf_apply_approval_event split: prod.split)

section \<open>Resolving an approval\<close>

lemma get_approval_SomeD: "get_approval d i = Some a \<Longrightarrow> a \<in> set (approvals d) \<and> a_id a = i"
  unfolding get_approval_def by (rule find_SomeD)

lemma get_approval_in: "wf_approvals d \<Longrightarrow> a \<in> set (approvals d) \<Longrightarrow> get_approval d (a_id a) = Some a"
  by (simp add: get_approval_def wf_approvals_def find_distinct_key)

lemma get_approval_store:
  "get_approval (store_approval a d) i
     = (if i = a_id a then map_option (\<lambda>_. a) (get_approval d i) else get_approval d i)"
proof -
  have "find (\<lambda>b. a_id b = i) (update_where (\<lambda>b. a_id b = a_id a) (\<lambda>b. a) as)
      = (if i = a_id a then map_option (\<lambda>_. a) (find (\<lambda>b. a_id b = i) as) else find (\<lambda>b. a_id b = i) as)" for as
    by (induction as) (auto simp: update_where_def)
  then show ?thesis by (simp add: get_approval_def store_approval_def)
qed

lemma get_approval_frame [simp]: "get_approval (add_session_event sid ty ts x d) i = get_approval d i"
  by (simp add: get_approval_def)

lemma find_open_frame [simp]:
  "find_open_approval (add_session_event sid ty ts x d) tid tool = find_open_approval d tid tool"
  by (simp add: find_open_approval_def)

text \<open>The row an approval becomes when a decision on it is recorded.\<close>

definition resolved_as :: "bool \<Rightarrow> time \<Rightarrow> approval \<Rightarrow> approval \<Rightarrow> bool" where
  "resolved_as approved ts a a' \<longleftrightarrow>
     a_status a' = (if approved then ''approved'' else ''rejected'') \<and> a_resolved_at a' = Some ts
     \<and> a_id a' = a_id a \<and> a_task_id a' = a_task_id a \<and> a_tool_name a' = a_tool_name a
     \<and> a_requested_at a' = a_requested_at a"

lemma result_payload_gets [simp]:
  "dget (result_payload tool b src r wh uid rep) ''tool_name'' = JStr tool"
  "dget (result_payload tool b src r wh uid rep) ''approved'' = JBool b"
  by (simp_all add: result_payload_def dget_def get_default_def)

lemma apply_result_event:
  assumes "wf_approvals d" "a \<in> set (approvals d)" "a_status a = ''pending''"
    "dget p ''tool_name'' = JStr (a_tool_name a)" "dget p ''approved'' = JBool b"
  shows "\<exists>a'. resolved_as b ts a a' \<and>
    apply_approval_event d t (Some (a_task_id a)) ''approval_result'' ts (Some p) = (Some a', store_approval a' d)"
proof -
  have o: "find_open_approval d (a_task_id a) (a_tool_name a) = Some a"
    using assms by (intro find_open_the) (simp_all add: is_open_def)
  have "a_tool_name a \<noteq> []" "py_strip (a_tool_name a) = a_tool_name a"
    using assms by (auto simp: wf_approvals_def list_all_iff tool_ok_def)
  with o assms(4,5) show ?thesis
    by (simp add: apply_approval_event_def Let_def apply_approval_result_def resolved_as_def
        approval_status_from_result_def)
qed

lemma record_result_pending:
  assumes "wf_approvals d" "a \<in> set (approvals d)" "a_status a = ''pending''" "t_id t = a_task_id a"
  shows "\<exists>a' d'. record_approval_result now t a b r w u rep src d = Inr (a', d') \<and> resolved_as b now a a'
     \<and> approvals d' = approvals (store_approval a' d) \<and> tasks d' = tasks d \<and> uuid_gen d \<le> uuid_gen d'"
proof -
  let ?p = "result_payload (a_tool_name a) b src r w u rep"
  let ?d = "add_session_event (Some (t_id t)) ''approval_result'' now ?p d"
  have "wf_approvals ?d" "a \<in> set (approvals ?d)" using assms by simp_all
  from apply_result_event [OF this assms(3), of ?p b now "Some t"] obtain a' where
    "resolved_as b now a a'"
    "apply_approval_event ?d (Some t) (Some (a_task_id a)) ''approval_result'' now (Some ?p) = (Some a', store_approval a' ?d)"
    by auto
  then show ?thesis
    by (simp add: record_approval_result_def Let_def assms(4) store_approval_def)
qed

lemma get_approval_cong: "approvals d = approvals e \<Longrightarrow> get_approval d i = get_approval e i"
  by (simp add: get_approval_def)

lemma wf_approvals_grow:
  "wf_approvals e \<Longrightarrow> approvals d = approvals e \<Longrightarrow> uuid_gen e \<le> uuid_gen d \<Longrightarrow> wf_approvals d"
  by (auto simp: wf_approvals_def list_all_iff)

lemma resolve_pending_spec:
  assumes "wf_approvals d" "a \<in> set (approvals d)" "a_status a = ''pending''" "t_id t = a_task_id a"
  shows "\<exists>r a' d'. resolve_pending ts now dec u p c src t a d = Inr (r, d')
     \<and> r_approved r = Some (dec = ''approve'') \<and> r_approval_id r = a_id a
     \<and> resolved_as (dec = ''approve'') now a a'
     \<and> approvals d' = approvals (store_approval a' d) \<and> tasks d' = tasks d \<and> wf_approvals d'"
proof -
  let ?b = "dec = ''approve''"
  let ?e = "add_session_event (Some (t_id t)) ''approval_action'' ts
     [(''approval_id'', JStr (uuid_str (a_id a))), (''tool_name'', JStr (a_tool_name a)),
      (''decision'', JStr dec), (''user_id'', JStr u), (''post_id'', JStr p), (''channel_id'', JStr c)] d"
  let ?who = "if u \<noteq> [] then u else ''operator''"
  let ?ou = "if u \<noteq> [] then Some u else None"
  have e: "wf_approvals ?e" "a \<in> set (approvals ?e)" using assms by simp_all
  from record_result_pending [OF e assms(3,4), of now ?b "if ?b then None else Some (''Approval rejected in message provider by '' @ ?who)"
      ?ou ?ou "Some dec" src]
  obtain a' d' where r: "record_approval_result now t a ?b (if ?b then None else Some (''Approval rejected in message provider by '' @ ?who))
      ?ou ?ou (Some dec) src ?e = Inr (a', d')" "resolved_as ?b now a a'"
      "approvals d' = approvals (store_approval a' ?e)" "tasks d' = tasks ?e" "uuid_gen ?e \<le> uuid_gen d'" by blast
  have "wf_approvals (store_approval a' ?e)"
    using r(2) by (intro wf_store_approval [OF e]) (auto simp: resolved_as_def split: if_splits)
  then have "wf_approvals d'" by (rule wf_approvals_grow) (use r(3,5) in simp_all)
  moreover have "approvals d' = approvals (store_approval a' d)" using r(3) by (simp add: store_approval_def)
  moreover have "tasks d' = tasks d" using r(4) by simp
  ultimately show ?thesis
    using r(2) unfolding resolve_pending_def Let_def r(1) bind_res_simps by auto
qed

lemma resolve_cases:
  assumes "resolve_approval_action now ctx u p c src d = Inr (r, d')"
    and "uuid_of_str (text_or_empty (dget ctx ''approval_id'')) = Some i" "get_approval d i = Some a"
  obtains (closed) "a_status a \<noteq> ''pending''" "d' = d" "r_approved r = None"
  | (opened) t where "a_status a = ''pending''" "get_task d (a_task_id a) = Some t"
      "check_request d a (text_or_empty (dget ctx ''request_id'')) = Inr ()"
      "resolve_pending (db_now d) now (py_lower (py_strip (text_or_empty (dget ctx ''decision'')))) u p c src t a d = Inr (r, d')"
proof -
  let ?rid = "text_or_empty (dget ctx ''request_id'')"
  let ?dec = "py_lower (py_strip (text_or_empty (dget ctx ''decision'')))"
  have dec: "(?dec \<notin> set [''approve'', ''reject'']) = False"
    using assms(1) unfolding resolve_approval_action_def Let_def by (metis Inr_not_Inl)
  note eq = assms(1) [unfolded resolve_approval_action_def Let_def dec assms(2) option.case assms(3) if_False]
  from eq obtain t where t: "get_task d (a_task_id a) = Some t"
    by (cases "get_task d (a_task_id a)") (simp_all only: option.case, simp)
  from eq have r: "bind_res (check_request d a ?rid) (\<lambda>_. bind_res (check_delivery a p c) (\<lambda>_.
      if a_status a \<noteq> ''pending''
      then Inr (\<lparr>r_approval_id = a_id a, r_approved = None,
                 r_status_message = '':lock: Approval already resolved as **'' @ a_status a @ ''**.''\<rparr>, d)
      else resolve_pending (db_now d) now ?dec u p c src t a d)) = Inr (r, d')"
    by (simp only: t option.case)
  then have ck: "check_request d a ?rid = Inr ()" "check_delivery a p c = Inr ()"
    by (simp_all only: bind_res_Inr_iff) auto
  show thesis
  proof (cases "a_status a = ''pending''")
    case True
    from r [unfolded ck bind_res_simps] True
    have "resolve_pending (db_now d) now ?dec u p c src t a d = Inr (r, d')" by simp
    then show thesis by (rule opened [OF True t ck(1)])
  next
    case False
    from r [unfolded ck bind_res_simps] False have "d' = d" "r_approved r = None"
      by (auto simp only: if_True not_False_eq_True sum.inject prod.inject approval_resolution.simps)
    then show thesis by (rule closed [OF False])
  qed
qed

section \<open>Properties\<close>

text \<open>
  C18. However many approval events arrive, in whatever order and with whatever payloads, the
  approval table keeps at most one pending approval per task and tool, unique identifiers, and
  stripped tool names.
\<close>

theorem approval_events_keep_one_open:
  assumes "wf_approvals d"
  shows "wf_approvals (run_ops approval_op evs d)"
  using assms by (rule approval_store.run_ops_inv)

theorem approval_events_keep_one_open_witness:
  "wf_approvals (run_ops approval_op
     [(None, Some 11, ''permission_callback'', 5, Some [(''tool_name'', JStr ''Bash''), (''kind'', JStr ''operator_approval'')]),
      (None, Some 11, ''approval_requested'', 6, Some [(''tool_name'', JStr '' Bash'')])] (empty_db 0))"
  by (rule approval_events_keep_one_open) (simp add: wf_approvals_def empty_db_def open_unique_def)

text \<open>
  C19. A successful action on a pending approval resolves that approval and no other: its row
  gets the decision and the resolution time, every other approval and every task is unchanged,
  and any further action on the same approval reports it as already resolved and changes
  nothing.
\<close>

theorem resolve_approval_action_once:
  assumes "wf_approvals d" "uuid_of_str (text_or_empty (dget ctx ''approval_id'')) = Some i"
    "get_approval d i = Some a" "a_status a = ''pending''"
    "resolve_approval_action now ctx u p c src d = Inr (r, d')"
  shows "\<exists>b a'. b = (py_lower (py_strip (text_or_empty (dget ctx ''decision''))) = ''approve'')
     \<and> r_approved r = Some b \<and> get_approval d' i = Some a' \<and> resolved_as b now a a'
     \<and> (\<forall>j. j \<noteq> i \<longrightarrow> get_approval d' j = get_approval d j) \<and> tasks d' = tasks d
     \<and> (\<forall>now2 ctx2 u2 p2 c2 src2 r2 d2. uuid_of_str (text_or_empty (dget ctx2 ''approval_id'')) = Some i
          \<longrightarrow> resolve_approval_action now2 ctx2 u2 p2 c2 src2 d' = Inr (r2, d2) \<longrightarrow> r_approved r2 = None \<and> d2 = d')"
proof -
  let ?dec = "py_lower (py_strip (text_or_empty (dget ctx ''decision'')))"
  from get_approval_SomeD [OF assms(3)] have a: "a \<in> set (approvals d)" "a_id a = i" by simp_all
  from assms(5,2,3) obtain t where t: "get_task d (a_task_id a) = Some t"
    and rp: "resolve_pending (db_now d) now ?dec u p c src t a d = Inr (r, d')"
    by (cases rule: resolve_cases) (use assms(4) in simp_all)
  from get_task_SomeD [OF t] have tid: "t_id t = a_task_id a" by simp
  from resolve_pending_spec [OF assms(1) a(1) assms(4) tid, of "db_now d" now ?dec u p c src] rp obtain a' where
    r: "r_approved r = Some (?dec = ''approve'')" "resolved_as (?dec = ''approve'') now a a'"
       "approvals d' = approvals (store_approval a' d)" "tasks d' = tasks d" by auto
  have id: "a_id a' = i" using r(2) a(2) by (simp add: resolved_as_def)
  have g: "get_approval d' j = (if j = i then Some a' else get_approval d j)" for j
    using get_approval_cong [OF r(3), of j] id assms(3) by (simp add: get_approval_store)
  have np: "a_status a' \<noteq> ''pending''" using r(2) by (auto simp: resolved_as_def split: if_splits)
  have "r_approved r2 = None \<and> d2 = d'"
    if "uuid_of_str (text_or_empty (dget ctx2 ''approval_id'')) = Some i"
      "resolve_approval_action now2 ctx2 u2 p2 c2 src2 d' = Inr (r2, d2)" for now2 ctx2 u2 p2 c2 src2 r2 d2
    using that(2,1) g [of i, simplified] by (cases rule: resolve_cases) (use np in simp_all)
  with r g show ?thesis by auto
qed

text \<open>A concrete store for the examples: one task waiting for one operator decision.\<close>

definition demo_approval :: approval where
  "demo_approval = \<lparr>a_id = 21, a_task_id = 11, a_workflow = Some ''a'', a_approval_kind = ''operator_approval'',
     a_tool_name = ''Bash'', a_status = ''pending'', a_request_preview = Some ''ls'', a_reason = None,
     a_metadata = [(''approval_requested'', JObj [(''request_id'', JStr ''r7'')])], a_requested_at = 5,
     a_resolved_at = None, a_archived_at = None, a_created_at = 5, a_updated_at = 5\<rparr>"

definition demo_approval_db :: db where
  "demo_approval_db = (demo_db [demo_task 11 ''a'' waiting_approval 1])\<lparr>approvals := [demo_approval]\<rparr>"

definition demo_settings :: settings where
  "demo_settings = \<lparr>gateway_public_base_url = [], gateway_port = 8080, control_plane_ui_url = [],
     mb_provider = ''mattermost'', mb_api_url = ''http://mm'', mb_bot_token = ''b'', mb_app_token = [],
     mb_team_name = ''ops'', mb_action_callback_secret = ''s3''\<rparr>"

definition demo_context :: dict where
  "demo_context = [(''approval_id'', JStr (uuid_str 21)), (''task_id'', JStr (uuid_str 11)),
     (''tool_name'', JStr ''Bash''), (''request_id'', JStr ''r7''), (''decision'', JStr ''approve''), (''token'', JStr ''s3'')]"

lemma demo_approval_facts:
  "wf_approvals demo_approval_db" "demo_approval \<in> set (approvals demo_approval_db)" "a_id demo_approval = 21"
  "a_status demo_approval = ''pending''" "a_task_id demo_approval = 11"
  "get_approval demo_approval_db 21 = Some demo_approval"
  "get_task demo_approval_db 11 = Some (demo_task 11 ''a'' waiting_approval 1)"
  "check_request demo_approval_db demo_approval ''r7'' = Inr ()"
  "check_delivery demo_approval [] [] = Inr ()"
  "uuid_of_str (text_or_empty (dget demo_context ''approval_id'')) = Some 21"
  "text_or_empty (dget demo_context ''request_id'') = ''r7''"
  "approval_action_context demo_settings demo_approval ''approve'' True = Inr demo_context"
proof -
  show "wf_approvals demo_approval_db" "demo_approval \<in> set (approvals demo_approval_db)" "a_id demo_approval = 21"
    "a_status demo_approval = ''pending''" "a_task_id demo_approval = 11"
    "get_approval demo_approval_db 21 = Some demo_approval"
    "get_task demo_approval_db 11 = Some (demo_task 11 ''a'' waiting_approval 1)"
    by (simp_all add: wf_approvals_def demo_approval_db_def demo_approval_def demo_defs open_unique_def tool_ok_def
        py_strip_def py_rstrip_def py_lstrip_def py_isspace_def get_approval_def get_task_def)
  show "check_request demo_approval_db demo_approval ''r7'' = Inr ()"
    by (simp add: check_request_def find_approval_by_request_def demo_approval_db_def demo_approval_def attr_get_def
        get_default_def dget_def)
  show "check_delivery demo_approval [] [] = Inr ()"
    by (simp add: check_delivery_def demo_approval_def attr_get_def get_default_def dget_def Let_def)
  show "uuid_of_str (text_or_empty (dget demo_context ''approval_id'')) = Some 21"
    by (simp add: demo_context_def dget_def get_default_def uuid_roundtrip)
  show "text_or_empty (dget demo_context ''request_id'') = ''r7''"
    by (simp add: demo_context_def dget_def get_default_def)
  show "approval_action_context demo_settings demo_approval ''approve'' True = Inr demo_context"
    by (simp add: approval_action_context_def demo_settings_def demo_approval_def demo_context_def attr_get_def
        get_default_def dget_def)
qed

lemma resolve_button:
  assumes "wf_approvals d" "a \<in> set (approvals d)" "a_status a = ''pending''" "a_id a < 16 ^ 32"
    "get_task d (a_task_id a) = Some t" "dec = ''approve'' \<or> dec = ''reject''"
    "dget ctx ''approval_id'' = JStr (uuid_str (a_id a))" "dget ctx ''decision'' = JStr dec"
    "check_request d a (text_or_empty (dget ctx ''request_id'')) = Inr ()" "check_delivery a p c = Inr ()"
  shows "\<exists>r d' a'. resolve_approval_action now ctx u p c src d = Inr (r, d')
     \<and> get_approval d' (a_id a) = Some a' \<and> resolved_as (dec = ''approve'') now a a'"
proof -
  have dec: "py_lower (py_strip dec) = dec"
    using assms(6) by (auto simp: py_lower_def py_strip_def py_rstrip_def py_lstrip_def py_isspace_def py_lower_char_def Let_def)
  from get_task_SomeD [OF assms(5)] have tid: "t_id t = a_task_id a" by simp
  from resolve_pending_spec [OF assms(1-3) tid, of "db_now d" now dec u p c src]
  obtain r a' d' where rp: "resolve_pending (db_now d) now dec u p c src t a d = Inr (r, d')"
    "resolved_as (dec = ''approve'') now a a'" "approvals d' = approvals (store_approval a' d)" by blast
  have "resolve_approval_action now ctx u p c src d = Inr (r, d')"
    using assms(2,3,5,6,9,10) rp(1) get_approval_in [OF assms(1,2)]
    by (auto simp: resolve_approval_action_def Let_def assms(7,8) dec uuid_roundtrip [OF assms(4)])
  moreover have "get_approval d' (a_id a) = Some a'"
    using get_approval_cong [OF rp(3)] get_approval_in [OF assms(1,2)] rp(2)
    by (simp add: get_approval_store resolved_as_def)
  ultimately show ?thesis using rp(2) by blast
qed

text \<open>
  The approval button works: the context the gateway attaches to a button of a pending
  approval, sent back by the message provider, is accepted and resolves that approval with the
  button's decision. The hypotheses are that a callback secret is configured, the request is
  still the current one for its task and tool, and post and channel are not contradicted by a
  recorded delivery.
\<close>

lemma approval_button_roundtrip:
  assumes "wf_approvals d" "a \<in> set (approvals d)" "a_status a = ''pending''" "a_id a < 16 ^ 32"
    "get_task d (a_task_id a) = Some t" "dec = ''approve'' \<or> dec = ''reject''"
    "approval_action_context st a dec True = Inr ctx"
    "mb_action_callback_secret st \<noteq> []" "list_all (\<lambda>c. (of_char c :: nat) < 128) (mb_action_callback_secret st)"
    "check_request d a (text_or_empty (dget ctx ''request_id'')) = Inr ()" "check_delivery a p c = Inr ()"
  shows "\<exists>body d' a'. message_approval_action st now ctx u p c d = Inr (body, d')
     \<and> get_approval d' (a_id a) = Some a' \<and> resolved_as (dec = ''approve'') now a a'"
proof -
  from assms(7) have ctx: "dget ctx ''approval_id'' = JStr (uuid_str (a_id a))" "dget ctx ''decision'' = JStr dec"
    "dget ctx ''token'' = JStr (mb_action_callback_secret st)"
    by (auto simp: approval_action_context_def bind_res_Inr_iff dget_def get_default_def)
  have tok: "verify_interactive_action_token st (text_or_empty (dget ctx ''token'')) = Inr True"
    using assms(8,9) by (auto simp: verify_interactive_action_token_def Let_def ctx list_all_iff list_ex_iff not_less)
  obtain r d' a' where "resolve_approval_action now ctx u p c ''mattermost_interactive'' d = Inr (r, d')"
    "get_approval d' (a_id a) = Some a'" "resolved_as (dec = ''approve'') now a a'"
    using resolve_button [OF assms(1-6) ctx(1,2) assms(10,11)] by blast
  then show ?thesis by (simp add: message_approval_action_def tok)
qed

lemma approval_button_roundtrip_witness:
  "\<exists>body d' a'. message_approval_action demo_settings 9 demo_context ''u1'' [] [] demo_approval_db = Inr (body, d')
     \<and> get_approval d' 21 = Some a' \<and> a_status a' = ''approved''"
proof -
  note f = demo_approval_facts
  have "\<exists>body d' a'. message_approval_action demo_settings 9 demo_context ''u1'' [] [] demo_approval_db = Inr (body, d')
     \<and> get_approval d' (a_id demo_approval) = Some a' \<and> resolved_as (''approve'' = ''approve'') 9 demo_approval a'"
    by (rule approval_button_roundtrip [OF f(1,2,4) _ f(7) [folded f(5)] _ f(12)])
      (simp_all add: f, simp_all add: demo_settings_def)
  then show ?thesis unfolding resolved_as_def f(3) by auto
qed

text \<open>
  Forged callbacks are inert: without a configured secret, or with a token that differs
  from it, the callback handler never changes the database.
\<close>

lemma forged_callback_inert:
  assumes "mb_action_callback_secret st = [] \<or> text_or_empty (dget ctx ''token'') \<noteq> mb_action_callback_secret st"
    and "message_approval_action st now ctx u p c d = Inr (body, d')"
  shows "d' = d \<and> body = interactive_error ''Invalid approval action token''"
  using assms
  by (auto simp: message_approval_action_def verify_interactive_action_token_def Let_def bind_res_Inr_iff split: if_splits)

lemma forged_callback_inert_witness:
  "\<exists>body. message_approval_action demo_settings 9 [(''token'', JStr ''x'')] [] [] [] demo_approval_db
     = Inr (body, demo_approval_db)"
  using forged_callback_inert [of demo_settings "[(''token'', JStr ''x'')]" 9 "[]" "[]" "[]" demo_approval_db]
  by (simp add: message_approval_action_def verify_interactive_action_token_def demo_settings_def dget_def
      get_default_def list_ex_iff)

theorem resolve_approval_action_once_witness:
  "\<exists>r d' a'. resolve_approval_action 9 demo_context ''u1'' [] [] ''slack'' demo_approval_db = Inr (r, d')
     \<and> r_approved r = Some True \<and> get_approval d' 21 = Some a' \<and> a_resolved_at a' = Some 9"
proof -
  note f = demo_approval_facts
  have dec: "py_lower (py_strip (text_or_empty (dget demo_context ''decision''))) = ''approve''"
    by (simp add: demo_context_def dget_def get_default_def py_lower_def py_strip_def py_rstrip_def py_lstrip_def
        py_isspace_def py_lower_char_def)
  have tid: "t_id (demo_task 11 ''a'' waiting_approval 1) = a_task_id demo_approval"
    by (simp add: demo_defs demo_approval_def)
  from resolve_pending_spec [OF f(1,2,4) tid, of "db_now demo_approval_db" 9 "''approve''" "''u1''" "[]" "[]" "''slack''"]
  obtain r d' where r: "resolve_approval_action 9 demo_context ''u1'' [] [] ''slack'' demo_approval_db = Inr (r, d')"
    by (auto simp: resolve_approval_action_def Let_def dec f)
  from resolve_approval_action_once [OF f(1) f(10) f(6) f(4) r] r show ?thesis
    unfolding dec resolved_as_def by auto
qed

text \<open>
  Where a prompt was delivered is not remembered: whatever the provider answers, posting the
  prompt of an approval that already has metadata leaves its stored metadata as it was, so the
  \<open>post_id\<close> guards of later calls find nothing.
\<close>

lemma prompt_delivery_not_persisted:
  assumes "wf_approvals d" "a \<in> set (approvals d)" "a_metadata a \<noteq> []"
    and "ensure_approval_prompt_posted st post now (Some t) (Some a) d = Inr (r, d')"
  shows "\<exists>b. get_approval d' (a_id a) = Some b \<and> a_metadata b = a_metadata a"
proof -
  have s: "\<exists>b. get_approval (snd (set_delivery now dl a d)) (a_id a) = Some b \<and> a_metadata b = a_metadata a" for dl
    using get_approval_in [OF assms(1,2)] assms(3)
    by (simp add: set_delivery_def Let_def get_approval_store flush_mutated_metadata_def)
  have g: "\<exists>b. get_approval d (a_id a) = Some b \<and> a_metadata b = a_metadata a"
    using get_approval_in [OF assms(1,2)] by simp
  show ?thesis
    using assms(4) s g
    unfolding ensure_approval_prompt_posted_def
    by (auto simp: bind_res_Inr_iff record_delivery_def split: if_splits)
qed

lemma prompt_delivery_not_persisted_witness:
  "\<exists>r d' b. ensure_approval_prompt_posted demo_settings (\<lambda>_. Inr [(''id'', JStr ''p1'')]) 9
       (Some ((demo_task 11 ''a'' waiting_approval 1)\<lparr>t_message_channel := Some ''ops''\<rparr>)) (Some demo_approval)
       demo_approval_db = Inr (r, d')
     \<and> get_approval d' 21 = Some b \<and> a_metadata b = a_metadata demo_approval"
proof -
  let ?e = "ensure_approval_prompt_posted demo_settings (\<lambda>_. Inr [(''id'', JStr ''p1'')]) 9
       (Some ((demo_task 11 ''a'' waiting_approval 1)\<lparr>t_message_channel := Some ''ops''\<rparr>)) (Some demo_approval) demo_approval_db"
  note f = demo_approval_facts
  have "\<exists>r d'. ?e = Inr (r, d')"
    by (simp add: ensure_approval_prompt_posted_def f(4) attr_get_def demo_approval_def dget_def get_default_def
        py_or_def deliver_prompt_def approval_post_payload_def approval_action_context_def approval_issue_def
        demo_settings_def Let_def split_beta record_delivery_def)
  then obtain r d' where e: "?e = Inr (r, d')" by blast
  have "a_metadata demo_approval \<noteq> []" by (simp add: demo_approval_def)
  from prompt_delivery_not_persisted [OF f(1,2) this e] e show ?thesis unfolding f(3) by blast
qed

end
