(* ===== verification/Heartbeat.thy ===== *)
theory Heartbeat
  imports Approvals
begin

text \<open>
  \<open>session-manager/heartbeat.py\<close> (lost-task and runtime-timeout sweeps with per-workflow timeouts,
  the notifications, one pass of the monitor loop) and \<open>session-manager/workflow_config.py\<close>. \<open>pkg\<close> is
  the lookup of a workflow package's configuration in the configured roots. Each sweep walks the
  running tasks one by one; the refinement lemmas show that the loop is one set-based update.
\<close>

section \<open>Workflow timeouts\<close>

definition DEFAULT_LOST_TIMEOUT_SEC :: int where
  "DEFAULT_LOST_TIMEOUT_SEC = 300"

definition load_agent_yaml :: "(str \<Rightarrow> json option res) \<Rightarrow> str \<Rightarrow> json res" where
  "load_agent_yaml pkg workflow =
     bind_res (pkg workflow) (\<lambda>package. Inr (case package of None \<Rightarrow> JObj [] | Some c \<Rightarrow> c))"

definition obj_get_default :: "json \<Rightarrow> str \<Rightarrow> json \<Rightarrow> json res" where
  "obj_get_default v k x = (case v of JObj d \<Rightarrow> Inr (get_default d k x) | _ \<Rightarrow> Inl (AttributeError ''get''))"

definition runtime_section :: "json \<Rightarrow> json" where
  "runtime_section config =
     (case py_or config (JObj []) of JObj c \<Rightarrow> get_default c ''runtime'' (JObj []) | _ \<Rightarrow> JObj [])"

definition int_or_default :: "json \<Rightarrow> int" where
  "int_or_default v = (case py_int v of Inr n \<Rightarrow> n | Inl e \<Rightarrow> DEFAULT_LOST_TIMEOUT_SEC)"

definition workflow_runtime_timeout_sec :: "(str \<Rightarrow> json option res) \<Rightarrow> str \<Rightarrow> int res" where
  "workflow_runtime_timeout_sec pkg workflow =
     bind_res (load_agent_yaml pkg workflow) (\<lambda>config.
     bind_res (obj_get_default (runtime_section config) ''lost_task_timeout_sec'' (JInt DEFAULT_LOST_TIMEOUT_SEC)) (\<lambda>fallback.
     bind_res (obj_get_default (runtime_section config) ''runtime_timeout_sec'' fallback) (\<lambda>v. Inr (int_or_default v))))"

definition workflow_lost_timeout_sec :: "(str \<Rightarrow> json option res) \<Rightarrow> str \<Rightarrow> int res" where
  "workflow_lost_timeout_sec pkg workflow =
     bind_res (load_agent_yaml pkg workflow) (\<lambda>config.
     bind_res (obj_get_default (runtime_section config) ''lost_task_timeout_sec'' (JInt DEFAULT_LOST_TIMEOUT_SEC)) (\<lambda>v.
       Inr (int_or_default v)))"

section \<open>The sweeps\<close>

definition latest_task_session :: "db \<Rightarrow> uuid \<Rightarrow> sess option" where
  "latest_task_session d tid = first_by (\<lambda>s. - s_started s) (filter (\<lambda>s. s_task_id s = Some tid) (sessions d))"

definition close_session :: "str \<Rightarrow> time \<Rightarrow> rat \<Rightarrow> str \<Rightarrow> sess option \<Rightarrow> db \<Rightarrow> db" where
  "close_session status now secs err x d =
     (case x of
        None \<Rightarrow> d
      | Some s \<Rightarrow>
          if s_ended s = None
          then update_sessions (\<lambda>r. s_id r = s_id s)
                 (\<lambda>r. r\<lparr>s_status := status, s_ended := Some now, s_duration_sec := JFloat secs, s_error := Some err\<rparr>) d
          else d)"

definition session_id_json :: "sess option \<Rightarrow> json" where
  "session_id_json x = (case x of None \<Rightarrow> JNull | Some s \<Rightarrow> JStr (uuid_str (s_id s)))"

definition lost_overdue :: "time \<Rightarrow> int \<Rightarrow> task \<Rightarrow> bool" where
  "lost_overdue now timeout t = (timeout > 0 \<and>
     (case t_heartbeat t of None \<Rightarrow> False | Some h \<Rightarrow> h < now - seconds timeout))"

definition lost_error :: "int \<Rightarrow> str" where
  "lost_error timeout = ''Heartbeat expired (>'' @ str_of_int timeout @ ''s without update)''"

definition mark_one_lost :: "time \<Rightarrow> int \<Rightarrow> task \<Rightarrow> db \<Rightarrow> db" where
  "mark_one_lost now timeout t d =
     (let x = latest_task_session d (t_id t);
          secs = (case x of None \<Rightarrow> 0 | Some s \<Rightarrow> total_seconds (now - s_started s));
          d1 = update_tasks (\<lambda>r. t_id r = t_id t) (\<lambda>r. r\<lparr>t_status := lost, t_error := Some (lost_error timeout)\<rparr>) d
      in add_task_event (t_id t) ''task_lost''
           [(''timeout_sec'', JInt timeout), (''last_heartbeat'', iso_opt (t_heartbeat t)),
            (''session_id'', session_id_json x)]
           (close_session ''lost'' now secs (lost_error timeout) x d1))"

fun lost_loop :: "(str \<Rightarrow> json option res) \<Rightarrow> time \<Rightarrow> task list \<Rightarrow> db \<Rightarrow> (uuid list \<times> db) res" where
  "lost_loop pkg now [] d = Inr ([], d)"
| "lost_loop pkg now (t # ts) d =
     bind_res (workflow_lost_timeout_sec pkg (t_workflow t)) (\<lambda>timeout.
       if \<not> lost_overdue now timeout t then lost_loop pkg now ts d
       else bind_res (lost_loop pkg now ts (mark_one_lost now timeout t d)) (\<lambda>(ids, d'). Inr (t_id t # ids, d')))"

definition lost_task_sweep :: "(str \<Rightarrow> json option res) \<Rightarrow> time \<Rightarrow> db \<Rightarrow> (uuid list \<times> db) res" where
  "lost_task_sweep pkg now d = lost_loop pkg now (filter (\<lambda>t. t_status t = running) (tasks d)) d"

definition started_at :: "task \<Rightarrow> sess option \<Rightarrow> time" where
  "started_at t x = (case x of None \<Rightarrow> t_created t | Some s \<Rightarrow> s_started s)"

definition runtime_sec :: "time \<Rightarrow> task \<Rightarrow> sess option \<Rightarrow> rat" where
  "runtime_sec now t x = total_seconds (now - started_at t x)"

definition runtime_overdue :: "time \<Rightarrow> int \<Rightarrow> task \<Rightarrow> sess option \<Rightarrow> bool" where
  "runtime_overdue now timeout t x = (timeout > 0 \<and> runtime_sec now t x > of_int timeout)"

definition runtime_error :: "int \<Rightarrow> str" where
  "runtime_error timeout = ''Runtime exceeded configured timeout (>'' @ str_of_int timeout @ ''s)''"

definition mark_one_timed_out :: "time \<Rightarrow> int \<Rightarrow> task \<Rightarrow> sess option \<Rightarrow> db \<Rightarrow> db" where
  "mark_one_timed_out now timeout t x d =
     (let secs = runtime_sec now t x;
          d1 = update_tasks (\<lambda>r. t_id r = t_id t)
                 (\<lambda>r. r\<lparr>t_status := timed_out, t_error := Some (runtime_error timeout), t_duration_sec := JFloat secs\<rparr>) d
      in add_task_event (t_id t) ''task_timed_out''
           [(''timeout_sec'', JInt timeout), (''runtime_sec'', JFloat secs),
            (''started_at'', JStr (isoformat (started_at t x))), (''session_id'', session_id_json x)]
           (close_session ''timed_out'' now secs (runtime_error timeout) x d1))"

fun timeout_loop :: "(str \<Rightarrow> json option res) \<Rightarrow> time \<Rightarrow> task list \<Rightarrow> db \<Rightarrow> (uuid list \<times> db) res" where
  "timeout_loop pkg now [] d = Inr ([], d)"
| "timeout_loop pkg now (t # ts) d =
     bind_res (workflow_runtime_timeout_sec pkg (t_workflow t)) (\<lambda>timeout.
       let x = latest_task_session d (t_id t)
       in if \<not> runtime_overdue now timeout t x then timeout_loop pkg now ts d
          else bind_res (timeout_loop pkg now ts (mark_one_timed_out now timeout t x d))
                 (\<lambda>(ids, d'). Inr (t_id t # ids, d')))"

definition runtime_timeout_sweep :: "(str \<Rightarrow> json option res) \<Rightarrow> time \<Rightarrow> db \<Rightarrow> (uuid list \<times> db) res" where
  "runtime_timeout_sweep pkg now d = timeout_loop pkg now (filter (\<lambda>t. t_status t = running) (tasks d)) d"

section \<open>Notifications\<close>

definition team_name_of :: "settings \<Rightarrow> dict \<Rightarrow> str" where
  "team_name_of st metadata =
     py_str (py_or (py_or (py_or (dget metadata ''team_domain'') (dget metadata ''team_name'')) (JStr (mb_team_name st))) (JStr []))"

definition channel_post :: "settings \<Rightarrow> task \<Rightarrow> str \<Rightarrow> post_request" where
  "channel_post st t text =
     \<lparr>pr_text = text, pr_channel_id = text_or_empty (dget (t_metadata t) ''channel_id''),
      pr_channel_name = opt_str (t_message_channel t), pr_team_id = text_or_empty (dget (t_metadata t) ''team_id''),
      pr_team_name = team_name_of st (t_metadata t), pr_thread = opt_str (t_message_thread t), pr_body = JNull\<rparr>"

definition notify_target :: "settings \<Rightarrow> uuid \<Rightarrow> db \<Rightarrow> task option" where
  "notify_target st tid d =
     (if mb_api_url st = [] then None
      else case get_task d tid of
             None \<Rightarrow> None
           | Some t \<Rightarrow> if \<not> opt_truthy (t_message_channel t) \<or> mb_bot_token st = [] then None else Some t)"

definition span_text :: "int \<Rightarrow> str" where
  "span_text n = str_of_int (if n \<ge> 60 then n div 60 else n) @ (if n \<ge> 60 then '' minutes'' else '' seconds'')"

text \<open>The em dash of the headline is outside the character range of the model and is written as \<open>--\<close>.\<close>

definition notify_lost_task ::
  "settings \<Rightarrow> (str \<Rightarrow> json option res) \<Rightarrow> uuid \<Rightarrow> db \<Rightarrow> post_request option res" where
  "notify_lost_task st pkg tid d =
     (case notify_target st tid d of
        None \<Rightarrow> Inr None
      | Some t \<Rightarrow>
          bind_res (workflow_lost_timeout_sec pkg (t_workflow t)) (\<lambda>n.
            Inr (Some (channel_post st t
              ('':warning: **Task Lost** -- `'' @ take 8 (uuid_str tid) @ ''`'' @ nl
               @ ''Investigation lost -- agent container did not respond within '' @ span_text n @ ''.'' @ nl
               @ ''Workflow: '' @ t_workflow t)))))"

definition notify_timed_out_task ::
  "settings \<Rightarrow> (str \<Rightarrow> json option res) \<Rightarrow> uuid \<Rightarrow> db \<Rightarrow> post_request option res" where
  "notify_timed_out_task st pkg tid d =
     (case notify_target st tid d of
        None \<Rightarrow> Inr None
      | Some t \<Rightarrow>
          bind_res (workflow_runtime_timeout_sec pkg (t_workflow t)) (\<lambda>n.
            Inr (Some (channel_post st t
              ('':warning: **Task Timed Out** -- `'' @ take 8 (uuid_str tid) @ ''`'' @ nl
               @ ''Investigation exceeded the configured runtime timeout of '' @ span_text n @ ''.'' @ nl
               @ ''Workflow: '' @ t_workflow t)))))"

section \<open>One pass of the monitor\<close>

text \<open>
  What a pass does outside the database: posts, and cancellations of runtimes. A notification that
  raises ends the pass, as the loop catches the exception at its outermost level.
\<close>

datatype monitor_action = Post post_request | Cancel uuid

fun notify_all ::
  "(uuid \<Rightarrow> post_request option res) \<Rightarrow> uuid list \<Rightarrow> bool \<times> monitor_action list" where
  "notify_all notify [] = (True, [])"
| "notify_all notify (i # is) =
     (case notify i of
        Inl e \<Rightarrow> (False, [])
      | Inr p \<Rightarrow>
          (case notify_all notify is of
             (ok, acts) \<Rightarrow> (ok, (case p of None \<Rightarrow> [] | Some q \<Rightarrow> [Post q]) @ [Cancel i] @ acts)))"

definition monitor_pass ::
  "settings \<Rightarrow> (str \<Rightarrow> json option res) \<Rightarrow> time \<Rightarrow> db \<Rightarrow> monitor_action list \<times> db" where
  "monitor_pass st pkg now d =
     (case lost_task_sweep pkg now d of
        Inl e \<Rightarrow> ([], d)
      | Inr (lost_ids, d1) \<Rightarrow>
          (case runtime_timeout_sweep pkg now d1 of
             Inl e \<Rightarrow> ([], d1)
           | Inr (timed_out_ids, d2) \<Rightarrow>
               let (waiting_ids, d3) = waiting_timeout_sweep now d2;
                   (ok1, a1) = notify_all (\<lambda>i. notify_lost_task st pkg i d3) lost_ids;
                   (ok2, a2) = (if ok1 then notify_all (\<lambda>i. notify_timed_out_task st pkg i d3) timed_out_ids else (False, []));
                   (ok3, a3) = (if ok2 then notify_all (\<lambda>i. notify_timed_out_task st pkg i d3) waiting_ids else (False, []))
               in (a1 @ a2 @ a3, d3)))"

section \<open>The loops as set-based sweeps\<close>

definition lost_timeout :: "(str \<Rightarrow> json option res) \<Rightarrow> task \<Rightarrow> int" where
  "lost_timeout pkg t = (case workflow_lost_timeout_sec pkg (t_workflow t) of Inr n \<Rightarrow> n | Inl e \<Rightarrow> 0)"

definition runtime_timeout :: "(str \<Rightarrow> json option res) \<Rightarrow> task \<Rightarrow> int" where
  "runtime_timeout pkg t = (case workflow_runtime_timeout_sec pkg (t_workflow t) of Inr n \<Rightarrow> n | Inl e \<Rightarrow> 0)"

definition lost_now :: "(str \<Rightarrow> json option res) \<Rightarrow> time \<Rightarrow> task \<Rightarrow> bool" where
  "lost_now pkg now t = lost_overdue now (lost_timeout pkg t) t"

definition runtime_expired :: "(str \<Rightarrow> json option res) \<Rightarrow> time \<Rightarrow> db \<Rightarrow> task \<Rightarrow> bool" where
  "runtime_expired pkg now d t = runtime_overdue now (runtime_timeout pkg t) t (latest_task_session d (t_id t))"

definition as_lost :: "(str \<Rightarrow> json option res) \<Rightarrow> time \<Rightarrow> task \<Rightarrow> task \<Rightarrow> task" where
  "as_lost pkg stamp t r = r\<lparr>t_status := lost, t_error := Some (lost_error (lost_timeout pkg t)), t_updated := stamp\<rparr>"

definition as_timed_out :: "(str \<Rightarrow> json option res) \<Rightarrow> time \<Rightarrow> (uuid \<Rightarrow> sess option) \<Rightarrow> time \<Rightarrow> task \<Rightarrow> task \<Rightarrow> task" where
  "as_timed_out pkg now L stamp t r = r\<lparr>t_status := timed_out, t_error := Some (runtime_error (runtime_timeout pkg t)),
     t_duration_sec := JFloat (runtime_sec now t (L (t_id t))), t_updated := stamp\<rparr>"

lemma mark_keys [simp]: "t_id (as_lost pkg s t r) = t_id r" "t_id (as_timed_out pkg now L s t r) = t_id r"
  by (simp_all add: as_lost_def as_timed_out_def)

lemma close_session_frame [simp]:
  "tasks (close_session st now q e x d) = tasks d" "task_events (close_session st now q e x d) = task_events d"
  "approvals (close_session st now q e x d) = approvals d" "session_events (close_session st now q e x d) = session_events d"
  "uuid_gen (close_session st now q e x d) = uuid_gen d" "db_now (close_session st now q e x d) = db_now d"
  by (simp_all add: close_session_def split: option.split)

lemma close_session_ids [simp]: "map s_id (sessions (close_session st now q e x d)) = map s_id (sessions d)"
  by (simp add: close_session_def update_sessions_def map_update_where split: option.split)

lemma mark_one_lost_frame:
  "tasks (mark_one_lost now n t d) = update_where (\<lambda>r. t_id r = t_id t)
     (\<lambda>r. r\<lparr>t_status := lost, t_error := Some (lost_error n), t_updated := db_now d\<rparr>) (tasks d)"
  "map te_task_id (task_events (mark_one_lost now n t d)) = map te_task_id (task_events d) @ [t_id t]"
  "db_now (mark_one_lost now n t d) = db_now d"
  by (simp_all add: mark_one_lost_def Let_def tasks_update_tasks)

lemma mark_one_timed_out_frame:
  "tasks (mark_one_timed_out now n t x d) = update_where (\<lambda>r. t_id r = t_id t)
     (\<lambda>r. r\<lparr>t_status := timed_out, t_error := Some (runtime_error n), t_duration_sec := JFloat (runtime_sec now t x),
            t_updated := db_now d\<rparr>) (tasks d)"
  "map te_task_id (task_events (mark_one_timed_out now n t x d)) = map te_task_id (task_events d) @ [t_id t]"
  "db_now (mark_one_timed_out now n t x d) = db_now d"
  "map s_id (sessions (mark_one_timed_out now n t x d)) = map s_id (sessions d)"
  by (simp_all add: mark_one_timed_out_def Let_def tasks_update_tasks)

lemma lost_loop_refines:
  "lost_loop pkg now ts d = Inr (ids, d') \<Longrightarrow>
     tasks d' = fold (\<lambda>t rs. if lost_now pkg now t
       then update_where (\<lambda>r. t_id r = t_id t) (as_lost pkg (db_now d) t) rs else rs) ts (tasks d)
     \<and> ids = map t_id (filter (lost_now pkg now) ts) \<and> db_now d' = db_now d
     \<and> map te_task_id (task_events d') = map te_task_id (task_events d) @ ids
     \<and> (\<forall>t \<in> set ts. \<exists>n. workflow_lost_timeout_sec pkg (t_workflow t) = Inr n)"
proof (induction ts arbitrary: d ids d')
  case (Cons t ts)
  from Cons.prems obtain n where n: "workflow_lost_timeout_sec pkg (t_workflow t) = Inr n"
    by (auto simp: bind_res_Inr_iff)
  then have tn: "lost_timeout pkg t = n" by (simp add: lost_timeout_def)
  show ?case
  proof (cases "lost_overdue now n t")
    case False
    with Cons n tn show ?thesis by (simp add: lost_now_def)
  next
    case True
    with Cons.prems n obtain jl where jf: "lost_loop pkg now ts (mark_one_lost now n t d) = Inr (jl, d')" "ids = t_id t # jl"
      by (auto simp: bind_res_Inr_iff)
    have "tasks (mark_one_lost now n t d) = update_where (\<lambda>r. t_id r = t_id t) (as_lost pkg (db_now d) t) (tasks d)"
      unfolding mark_one_lost_frame as_lost_def tn ..
    with Cons.IH [OF jf(1), unfolded mark_one_lost_frame(3)] jf(2) True n tn show ?thesis
      by (simp add: lost_now_def mark_one_lost_frame(2,3))
  qed
qed simp

lemma latest_close_other:
  assumes "distinct (map s_id (sessions d))" "x = latest_task_session d i" "j \<noteq> i"
  shows "latest_task_session (close_session st now q e x d) j = latest_task_session d j"
proof (cases x)
  case (Some s)
  have s: "s \<in> set (sessions d)" "s_task_id s = Some i"
    using first_by_SomeD [OF assms(2) [symmetric, unfolded Some latest_task_session_def]] by auto
  have "filter (\<lambda>r. s_task_id r = Some j) (update_where (\<lambda>r. s_id r = s_id s) f (sessions d))
      = filter (\<lambda>r. s_task_id r = Some j) (sessions d)" if "\<And>r. s_task_id (f r) = s_task_id r" for f
  proof (rule filter_update_where_other)
    fix r assume "r \<in> set (sessions d)" "s_id r = s_id s"
    then have "r = s" using s(1) by (intro distinct_key_eq [OF assms(1)])
    with s(2) assms(3) that show "s_task_id r \<noteq> Some j \<and> s_task_id (f r) \<noteq> Some j" by simp
  qed
  then show ?thesis
    by (simp add: Some close_session_def latest_task_session_def update_sessions_def)
qed (simp add: close_session_def)

lemma latest_mark_other:
  assumes "distinct (map s_id (sessions d))" "j \<noteq> t_id t"
  shows "latest_task_session (mark_one_timed_out now n t (latest_task_session d (t_id t)) d) j = latest_task_session d j"
proof -
  have cong: "latest_task_session a k = latest_task_session b k" if "sessions a = sessions b" for a b k
    using that by (simp add: latest_task_session_def)
  let ?d1 = "update_tasks (\<lambda>r. t_id r = t_id t) (\<lambda>r. r\<lparr>t_status := timed_out, t_error := Some (runtime_error n),
     t_duration_sec := JFloat (runtime_sec now t (latest_task_session d (t_id t)))\<rparr>) d"
  have "latest_task_session d (t_id t) = latest_task_session ?d1 (t_id t)" by (rule cong) simp
  from latest_close_other [OF _ this assms(2)] assms(1) show ?thesis
    unfolding mark_one_timed_out_def Let_def by (simp add: cong [of "add_task_event a b c e" e for a b c e] cong [of ?d1 d])
qed

lemma timeout_loop_refines:
  assumes "timeout_loop pkg now ts d = Inr (ids, d')" "distinct (map s_id (sessions d))" "distinct (map t_id ts)"
    and "\<forall>t \<in> set ts. latest_task_session d (t_id t) = L (t_id t)"
  shows "tasks d' = fold (\<lambda>t rs. if runtime_overdue now (runtime_timeout pkg t) t (L (t_id t))
       then update_where (\<lambda>r. t_id r = t_id t) (as_timed_out pkg now L (db_now d) t) rs else rs) ts (tasks d)
     \<and> ids = map t_id (filter (\<lambda>t. runtime_overdue now (runtime_timeout pkg t) t (L (t_id t))) ts) \<and> db_now d' = db_now d
     \<and> map te_task_id (task_events d') = map te_task_id (task_events d) @ ids"
  using assms
proof (induction ts arbitrary: d ids d')
  case (Cons t ts)
  from Cons.prems(1) obtain n where n: "workflow_runtime_timeout_sec pkg (t_workflow t) = Inr n"
    by (auto simp: bind_res_Inr_iff)
  then have tn: "runtime_timeout pkg t = n" by (simp add: runtime_timeout_def)
  have L: "latest_task_session d (t_id t) = L (t_id t)" using Cons.prems(4) by simp
  show ?case
  proof (cases "runtime_overdue now n t (L (t_id t))")
    case False
    with Cons n tn L show ?thesis by simp
  next
    case True
    let ?m = "mark_one_timed_out now n t (L (t_id t)) d"
    from True Cons.prems(1) n L obtain jl where jf: "timeout_loop pkg now ts ?m = Inr (jl, d')" "ids = t_id t # jl"
      by (auto simp: bind_res_Inr_iff)
    have L': "\<forall>u \<in> set ts. latest_task_session ?m (t_id u) = L (t_id u)"
    proof
      fix u assume u: "u \<in> set ts"
      with Cons.prems(3) have "t_id u \<noteq> t_id t" by (metis distinct.simps(2) imageI list.simps(9) list.set_map)
      from latest_mark_other [OF Cons.prems(2) this, of now n] Cons.prems(4) u L
      show "latest_task_session ?m (t_id u) = L (t_id u)" by simp
    qed
    have "tasks ?m = update_where (\<lambda>r. t_id r = t_id t) (as_timed_out pkg now L (db_now d) t) (tasks d)"
      unfolding mark_one_timed_out_frame as_timed_out_def tn ..
    with Cons.IH [OF jf(1) _ _ L', unfolded mark_one_timed_out_frame(3)] Cons.prems(2,3) jf(2) True n tn show ?thesis
      by (simp add: mark_one_timed_out_frame(2-4))
  qed
qed simp

lemma lost_loop_nothing:
  "\<forall>t \<in> set ts. (\<exists>n. workflow_lost_timeout_sec pkg (t_workflow t) = Inr n) \<and> \<not> lost_now pkg now t
     \<Longrightarrow> lost_loop pkg now ts d = Inr ([], d)"
  by (induction ts) (auto simp: lost_now_def lost_timeout_def)

lemma lost_sweep_tasks:
  assumes "wf_db d" "lost_task_sweep pkg now d = Inr (ids, d')"
  shows "tasks d' = update_where (\<lambda>t. t_status t = running \<and> lost_now pkg now t) (\<lambda>t. as_lost pkg (db_now d) t t) (tasks d)
    \<and> ids = map t_id (filter (\<lambda>t. t_status t = running \<and> lost_now pkg now t) (tasks d))
    \<and> map te_task_id (task_events d') = map te_task_id (task_events d) @ ids
    \<and> (\<forall>t \<in> set (tasks d). t_status t = running \<longrightarrow> (\<exists>n. workflow_lost_timeout_sec pkg (t_workflow t) = Inr n))"
proof -
  have dst: "distinct (map t_id (tasks d))" using assms(1) by (simp add: wf_db_def task_ids_def)
  note r = lost_loop_refines [OF assms(2) [unfolded lost_task_sweep_def]]
  have "tasks d' = update_where (\<lambda>t. t_status t = running \<and> lost_now pkg now t) (\<lambda>t. as_lost pkg (db_now d) t t) (tasks d)"
    using r row_loop_refines [where key = t_id and f = "as_lost pkg (db_now d)" and due = "lost_now pkg now"
        and P = "\<lambda>t. t_status t = running", OF _ dst] by simp
  with r show ?thesis by (auto simp: conj_commute)
qed

lemma runtime_sweep_tasks:
  assumes "wf_db d" "distinct (map s_id (sessions d))" "runtime_timeout_sweep pkg now d = Inr (ids, d')"
  shows "tasks d' = update_where (\<lambda>t. t_status t = running \<and> runtime_expired pkg now d t)
      (\<lambda>t. as_timed_out pkg now (latest_task_session d) (db_now d) t t) (tasks d)
    \<and> ids = map t_id (filter (\<lambda>t. t_status t = running \<and> runtime_expired pkg now d t) (tasks d))
    \<and> map te_task_id (task_events d') = map te_task_id (task_events d) @ ids"
proof -
  have dst: "distinct (map t_id (tasks d))" using assms(1) by (simp add: wf_db_def task_ids_def)
  then have dst': "distinct (map t_id (filter (\<lambda>t. t_status t = running) (tasks d)))" by (rule distinct_map_filter)
  note r = timeout_loop_refines [OF assms(3) [unfolded runtime_timeout_sweep_def] assms(2) dst',
      where L = "latest_task_session d", simplified]
  have "tasks d' = update_where (\<lambda>t. t_status t = running \<and> runtime_expired pkg now d t)
      (\<lambda>t. as_timed_out pkg now (latest_task_session d) (db_now d) t t) (tasks d)"
    using r row_loop_refines [where key = t_id and f = "as_timed_out pkg now (latest_task_session d) (db_now d)"
        and due = "runtime_expired pkg now d" and P = "\<lambda>t. t_status t = running", OF _ dst]
    by (simp add: runtime_expired_def)
  with r show ?thesis by (auto simp: conj_commute runtime_expired_def)
qed

section \<open>Properties\<close>

text \<open>
  The lost-task sweep is the set-based update it stands for: it reports exactly the running
  tasks whose heartbeat is older than their workflow's own timeout (a timeout of zero or less, or
  no heartbeat yet, exempts a task), marks exactly those rows lost, writes one task event for
  each, and an immediate second sweep finds nothing.
\<close>

lemma lost_sweep_exact:
  assumes "wf_db d" "lost_task_sweep pkg now d = Inr (ids, d')"
  shows "ids = map t_id (filter (\<lambda>t. t_status t = running \<and> lost_now pkg now t) (tasks d))
    \<and> tasks d' = update_where (\<lambda>t. t_status t = running \<and> lost_now pkg now t) (\<lambda>t. as_lost pkg (db_now d) t t) (tasks d)
    \<and> map te_task_id (task_events d') = map te_task_id (task_events d) @ ids
    \<and> lost_task_sweep pkg now d' = Inr ([], d')"
proof -
  note s = lost_sweep_tasks [OF assms]
  have "lost_task_sweep pkg now d' = Inr ([], d')"
    unfolding lost_task_sweep_def
  proof (rule lost_loop_nothing, rule ballI)
    fix t assume "t \<in> set (filter (\<lambda>t. t_status t = running) (tasks d'))"
    then have t: "t \<in> set (tasks d)" "t_status t = running" "\<not> lost_now pkg now t"
      using s by (auto simp: in_update_where as_lost_def)
    with s show "(\<exists>n. workflow_lost_timeout_sec pkg (t_workflow t) = Inr n) \<and> \<not> lost_now pkg now t" by blast
  qed
  with s show ?thesis by blast
qed

definition demo_running :: task where
  "demo_running = (demo_task 11 ''a'' running 1)\<lparr>t_heartbeat := Some 0\<rparr>"

lemma demo_timeouts:
  "workflow_lost_timeout_sec (\<lambda>_. Inr None) w = Inr 300" "workflow_runtime_timeout_sec (\<lambda>_. Inr None) w = Inr 300"
  by (simp_all add: workflow_lost_timeout_sec_def workflow_runtime_timeout_sec_def load_agent_yaml_def
      obj_get_default_def runtime_section_def py_or_def get_default_def int_or_default_def DEFAULT_LOST_TIMEOUT_SEC_def)

lemma demo_running_wf: "wf_db (demo_db [demo_running])" "distinct (map s_id (sessions (demo_db [demo_running])))"
  by (simp_all add: wf_db_def task_ids_def demo_running_def demo_defs)

lemma lost_sweep_exact_witness:
  "\<exists>ids d'. lost_task_sweep (\<lambda>_. Inr None) 400000000 (demo_db [demo_running]) = Inr (ids, d')
     \<and> ids = [11] \<and> map t_status (tasks d') = [lost]"
proof -
  let ?d = "demo_db [demo_running]"
  have t: "t_status demo_running = running" "t_id demo_running = 11" "tasks ?d = [demo_running]"
    by (simp_all add: demo_running_def demo_defs)
  have l: "lost_now (\<lambda>_. Inr None) 400000000 demo_running"
    by (simp add: lost_now_def lost_timeout_def demo_timeouts lost_overdue_def demo_running_def seconds_def)
  have "\<exists>ids d'. lost_task_sweep (\<lambda>_. Inr None) 400000000 ?d = Inr (ids, d')"
    using l by (simp add: lost_task_sweep_def t demo_timeouts lost_now_def lost_timeout_def)
  then obtain ids d' where s: "lost_task_sweep (\<lambda>_. Inr None) 400000000 ?d = Inr (ids, d')" by blast
  from lost_sweep_exact [OF demo_running_wf(1) s] s show ?thesis
    by (auto simp: t l update_where_def as_lost_def)
qed

text \<open>
  The runtime-timeout sweep is the set-based update it stands for: it reports and times out
  exactly the running tasks that, counted from the start of their latest session (or their
  creation), have run longer than their workflow allows, whether they heartbeat or not.
\<close>

lemma runtime_sweep_exact:
  assumes "wf_db d" "distinct (map s_id (sessions d))" "runtime_timeout_sweep pkg now d = Inr (ids, d')"
  shows "ids = map t_id (filter (\<lambda>t. t_status t = running \<and> runtime_expired pkg now d t) (tasks d))
    \<and> tasks d' = update_where (\<lambda>t. t_status t = running \<and> runtime_expired pkg now d t)
         (\<lambda>t. as_timed_out pkg now (latest_task_session d) (db_now d) t t) (tasks d)
    \<and> map te_task_id (task_events d') = map te_task_id (task_events d) @ ids"
  using runtime_sweep_tasks [OF assms] by blast

lemma runtime_sweep_exact_witness:
  "\<exists>ids d'. runtime_timeout_sweep (\<lambda>_. Inr None) 400000000 (demo_db [demo_running]) = Inr (ids, d')
     \<and> map t_status (tasks d') = [timed_out]"
proof -
  let ?d = "demo_db [demo_running]"
  have t: "t_status demo_running = running" "t_id demo_running = 11" "tasks ?d = [demo_running]"
    by (simp_all add: demo_running_def demo_defs)
  have l: "runtime_expired (\<lambda>_. Inr None) 400000000 ?d demo_running"
    by (simp add: runtime_expired_def runtime_timeout_def demo_timeouts runtime_overdue_def runtime_sec_def started_at_def
        latest_task_session_def total_seconds_def demo_running_def demo_defs)
  have "\<exists>ids d'. runtime_timeout_sweep (\<lambda>_. Inr None) 400000000 ?d = Inr (ids, d')"
    using l by (simp add: runtime_timeout_sweep_def t demo_timeouts runtime_expired_def runtime_timeout_def Let_def)
  then obtain ids d' where s: "runtime_timeout_sweep (\<lambda>_. Inr None) 400000000 ?d = Inr (ids, d')" by blast
  from runtime_sweep_exact [OF demo_running_wf s] s show ?thesis
    by (auto simp: t l update_where_def as_timed_out_def)
qed

end
