(* ===== verification/Json_Text.thy ===== *)
theory Json_Text
  imports Prelude
begin

text \<open>
  \<open>json.loads\<close> as a recursive-descent parser with fuel, and the part of \<open>ast.literal_eval\<close> that
  reads the renderings of JSON-like values (\<open>None\<close>, \<open>True\<close>, \<open>False\<close>, numbers, quoted strings, lists,
  tuples, dictionaries). Every recursive call consumes input, so the length of the text is enough
  fuel. Outside the model: the float constants \<open>NaN\<close> and \<open>Infinity\<close>, code points above 255, and the
  further literal forms of Python (bytes, sets, complex and prefixed numbers, string prefixes).
  The main result is the round trip \<open>json.loads(json.dumps(v)) == v\<close> for values without floats and with
  unique keys, with which a context put into a message comes back unchanged.
\<close>

section \<open>Lexical parts\<close>

definition json_ws :: "char \<Rightarrow> bool" where
  "json_ws c = (c \<in> {CHR '' '', CHR 0x09, CHR 0x0A, CHR 0x0D})"

definition skip_ws :: "str \<Rightarrow> str" where
  "skip_ws = dropWhile json_ws"

fun simple_escape :: "char \<Rightarrow> char option" where
  "simple_escape c =
     (if c \<in> {CHR 0x22, CHR 0x5C, CHR ''/''} then Some c
      else if c = CHR ''b'' then Some (CHR 0x08) else if c = CHR ''f'' then Some (CHR 0x0C)
      else if c = CHR ''n'' then Some (CHR 0x0A) else if c = CHR ''r'' then Some (CHR 0x0D)
      else if c = CHR ''t'' then Some (CHR 0x09) else None)"

definition cons_fst :: "'a \<Rightarrow> ('a list \<times> 'b) option \<Rightarrow> ('a list \<times> 'b) option" where
  "cons_fst x = map_option (\<lambda>(xs, r). (x # xs, r))"

fun json_chars :: "str \<Rightarrow> (str \<times> str) option" where
  "json_chars [] = None"
| "json_chars (c # s) =
     (if c = CHR 0x22 then Some ([], s)
      else if c = CHR 0x5C then
        (case s of
           [] \<Rightarrow> None
         | e # s' \<Rightarrow>
             if e = CHR ''u'' then
               (case s' of
                  h1 # h2 # h3 # h4 # s'' \<Rightarrow>
                    (case hex_nat 0 [h1, h2, h3, h4] of
                       Some n \<Rightarrow> if n < 256 then cons_fst (char_of n) (json_chars s'') else None
                     | None \<Rightarrow> None)
                | _ \<Rightarrow> None)
             else (case simple_escape e of Some x \<Rightarrow> cons_fst x (json_chars s') | None \<Rightarrow> None))
      else if (of_char c :: nat) < 32 then None
      else cons_fst c (json_chars s))"

definition scale10 :: "nat \<Rightarrow> int \<Rightarrow> rat" where
  "scale10 m e = (if e \<ge> 0 then of_nat m * 10 ^ nat e else of_nat m / 10 ^ nat (- e))"

definition int_part :: "str \<Rightarrow> str" where
  "int_part s = (case s of [] \<Rightarrow> [] | c # r \<Rightarrow> if c = CHR ''0'' then [c] else takeWhile py_isdigit s)"

definition frac_part :: "str \<Rightarrow> str" where
  "frac_part s = (case s of [] \<Rightarrow> [] | c # r \<Rightarrow> if c = CHR ''.'' then takeWhile py_isdigit r else [])"

definition exp_part :: "str \<Rightarrow> (int \<times> nat) option" where
  "exp_part s = (case s of [] \<Rightarrow> None | c # r \<Rightarrow>
     if c \<noteq> CHR ''e'' \<and> c \<noteq> CHR ''E'' then None
     else let (neg, sg, t) = (case r of [] \<Rightarrow> (False, 0, r)
                | x # r' \<Rightarrow> if x = CHR ''-'' then (True, 1, r') else if x = CHR ''+'' then (False, 1, r') else (False, 0, r));
              ds = takeWhile py_isdigit t
          in if ds = [] then None
             else Some (if neg then - int (nat_of_digits ds) else int (nat_of_digits ds), 1 + sg + length ds))"

definition json_number :: "str \<Rightarrow> (json \<times> str) option" where
  "json_number s0 =
     (let (neg, s) = (case s0 of [] \<Rightarrow> (False, s0) | c # r \<Rightarrow> if c = CHR ''-'' then (True, r) else (False, s0));
          ip = int_part s; r1 = drop (length ip) s;
          fp = frac_part r1; r2 = (if fp = [] then r1 else drop (1 + length fp) r1);
          ep = exp_part r2; r3 = (case ep of None \<Rightarrow> r2 | Some (e, n) \<Rightarrow> drop n r2)
      in if ip = [] \<or> \<not> py_isdigit (hd ip) then None
         else if fp = [] \<and> ep = None
         then Some (JInt (if neg then - int (nat_of_digits ip) else int (nat_of_digits ip)), r3)
         else let q = scale10 (nat_of_digits (ip @ fp)) ((case ep of None \<Rightarrow> 0 | Some (e, n) \<Rightarrow> e) - int (length fp))
              in Some (JFloat (if neg then - q else q), r3))"

section \<open>json.loads\<close>

fun json_value :: "nat \<Rightarrow> str \<Rightarrow> (json \<times> str) option"
and json_elems :: "nat \<Rightarrow> str \<Rightarrow> (json list \<times> str) option"
and json_members :: "nat \<Rightarrow> str \<Rightarrow> ((str \<times> json) list \<times> str) option" where
  "json_value 0 s = None"
| "json_value (Suc n) s =
     (if py_startswith s ''null'' then Some (JNull, drop 4 s)
      else if py_startswith s ''true'' then Some (JBool True, drop 4 s)
      else if py_startswith s ''false'' then Some (JBool False, drop 5 s)
      else case s of
        [] \<Rightarrow> None
      | c # r \<Rightarrow>
          if c = CHR 0x22 then map_option (\<lambda>(t, r'). (JStr t, r')) (json_chars r)
          else if c = CHR ''['' then
            (if py_startswith (skip_ws r) '']'' then Some (JList [], drop 1 (skip_ws r))
             else map_option (\<lambda>(xs, r'). (JList xs, r')) (json_elems n (skip_ws r)))
          else if c = CHR ''{'' then
            (if py_startswith (skip_ws r) ''}'' then Some (JObj [], drop 1 (skip_ws r))
             else map_option (\<lambda>(kvs, r'). (JObj (dmerge [] kvs), r')) (json_members n (skip_ws r)))
          else json_number s)"
| "json_elems 0 s = None"
| "json_elems (Suc n) s =
     (case json_value n s of
        None \<Rightarrow> None
      | Some (v, r0) \<Rightarrow>
          (case skip_ws r0 of
             [] \<Rightarrow> None
           | c # r \<Rightarrow>
               if c = CHR '']'' then Some ([v], r)
               else if c = CHR '','' then cons_fst v (json_elems n (skip_ws r))
               else None))"
| "json_members 0 s = None"
| "json_members (Suc n) s =
     (case s of
        [] \<Rightarrow> None
      | q # s' \<Rightarrow>
          if q \<noteq> CHR 0x22 then None
          else case json_chars s' of
            None \<Rightarrow> None
          | Some (k, r0) \<Rightarrow>
              (case skip_ws r0 of
                 [] \<Rightarrow> None
               | c # r1 \<Rightarrow>
                   if c \<noteq> CHR '':'' then None
                   else case json_value n (skip_ws r1) of
                     None \<Rightarrow> None
                   | Some (v, r2) \<Rightarrow>
                       (case skip_ws r2 of
                          [] \<Rightarrow> None
                        | c' # r \<Rightarrow>
                            if c' = CHR ''}'' then Some ([(k, v)], r)
                            else if c' = CHR '','' then cons_fst (k, v) (json_members n (skip_ws r))
                            else None)))"

definition json_loads :: "str \<Rightarrow> json option" where
  "json_loads s =
     (case json_value (2 * length s + 2) (skip_ws s) of
        None \<Rightarrow> None
      | Some (v, r) \<Rightarrow> if skip_ws r = [] then Some v else None)"

section \<open>ast.literal_eval\<close>

fun lit_chars :: "char \<Rightarrow> str \<Rightarrow> (str \<times> str) option" where
  "lit_chars q [] = None"
| "lit_chars q (c # s) =
     (if c = q then Some ([], s)
      else if c = CHR 0x5C then
        (case s of
           [] \<Rightarrow> None
         | e # s' \<Rightarrow>
             if e = CHR ''n'' then cons_fst (CHR 0x0A) (lit_chars q s')
             else if e = CHR ''r'' then cons_fst (CHR 0x0D) (lit_chars q s')
             else if e = CHR ''t'' then cons_fst (CHR 0x09) (lit_chars q s')
             else if e = CHR ''x'' then
               (case s' of
                  h1 # h2 # s'' \<Rightarrow>
                    (case hex_nat 0 [h1, h2] of Some n \<Rightarrow> cons_fst (char_of n) (lit_chars q s'') | None \<Rightarrow> None)
                | _ \<Rightarrow> None)
             else if e \<in> {CHR 0x27, CHR 0x22, CHR 0x5C} then cons_fst e (lit_chars q s')
             else None)
      else if c = CHR 0x0A then None
      else cons_fst c (lit_chars q s))"

fun lit_value :: "nat \<Rightarrow> str \<Rightarrow> (json \<times> str) option"
and lit_elems :: "nat \<Rightarrow> char \<Rightarrow> str \<Rightarrow> (json list \<times> str) option"
and lit_members :: "nat \<Rightarrow> str \<Rightarrow> ((json \<times> json) list \<times> str) option" where
  "lit_value 0 s = None"
| "lit_value (Suc n) s =
     (if py_startswith s ''None'' then Some (JNull, drop 4 s)
      else if py_startswith s ''True'' then Some (JBool True, drop 4 s)
      else if py_startswith s ''False'' then Some (JBool False, drop 5 s)
      else case s of
        [] \<Rightarrow> None
      | c # r \<Rightarrow>
          if c = CHR 0x22 \<or> c = CHR 0x27 then map_option (\<lambda>(t, r'). (JStr t, r')) (lit_chars c r)
          else if c = CHR ''['' then map_option (\<lambda>(xs, r'). (JList xs, r')) (lit_elems n (CHR '']'') (skip_ws r))
          else if c = CHR ''('' then map_option (\<lambda>(xs, r'). (JList xs, r')) (lit_elems n (CHR '')'') (skip_ws r))
          else if c = CHR ''{'' then
            map_option (\<lambda>(kvs, r'). (JObj (dmerge [] (List.map_filter
              (\<lambda>(k, v). case k of JStr t \<Rightarrow> Some (t, v) | _ \<Rightarrow> None) kvs)), r')) (lit_members n (skip_ws r))
          else json_number s)"
| "lit_elems 0 e s = None"
| "lit_elems (Suc n) e s =
     (if py_startswith s [e] then Some ([], drop 1 s)
      else case lit_value n s of
        None \<Rightarrow> None
      | Some (v, r0) \<Rightarrow>
          (case skip_ws r0 of
             [] \<Rightarrow> None
           | c # r \<Rightarrow>
               if c = e then Some ([v], r)
               else if c = CHR '','' then cons_fst v (lit_elems n e (skip_ws r))
               else None))"
| "lit_members 0 s = None"
| "lit_members (Suc n) s =
     (if py_startswith s ''}'' then Some ([], drop 1 s)
      else case lit_value n s of
        None \<Rightarrow> None
      | Some (k, r0) \<Rightarrow>
          (case skip_ws r0 of
             [] \<Rightarrow> None
           | c # r1 \<Rightarrow>
               if c \<noteq> CHR '':'' then None
               else case lit_value n (skip_ws r1) of
                 None \<Rightarrow> None
               | Some (v, r2) \<Rightarrow>
                   (case skip_ws r2 of
                      [] \<Rightarrow> None
                    | c' # r \<Rightarrow>
                        if c' = CHR ''}'' then Some ([(k, v)], r)
                        else if c' = CHR '','' then cons_fst (k, v) (lit_members n (skip_ws r))
                        else None)))"

definition literal_eval :: "str \<Rightarrow> json option" where
  "literal_eval s =
     (case lit_value (2 * length s + 2) (dropWhile (\<lambda>c. c = CHR '' '' \<or> c = CHR 0x09) s) of
        None \<Rightarrow> None
      | Some (v, r) \<Rightarrow> if skip_ws r = [] then Some v else None)"

section \<open>Parsed strings are shorter than their text\<close>

lemma cons_fst_Some: "cons_fst x m = Some (ys, r) \<longleftrightarrow> (\<exists>xs. m = Some (xs, r) \<and> ys = x # xs)"
  by (auto simp: cons_fst_def)

lemma cons_fst_simp [simp]: "cons_fst x (Some (xs, r)) = Some (x # xs, r)"
  by (simp add: cons_fst_def)

lemma json_chars_length: "json_chars s = Some (t, r) \<Longrightarrow> length t < length s"
proof (induction "length s" arbitrary: s t r rule: less_induct)
  case less
  then obtain c s1 where s: "s = c # s1" by (cases s) auto
  have IH: "length u < n" if "json_chars s' = Some (u, r')" "length s' \<le> length s1" "length s' \<le> n" for s' u r' n
    using less.hyps [OF _ that(1)] that(2,3) by (simp add: s)
  consider "c = CHR 0x22" | "c \<noteq> CHR 0x22" "c = CHR 0x5C" | "c \<noteq> CHR 0x22" "c \<noteq> CHR 0x5C" by blast
  then show ?case
  proof cases
    case 2
    with less.prems obtain e s' where s1: "s1 = e # s'" by (cases s1) (auto simp: s)
    show ?thesis
    proof (cases "e = CHR ''u''")
      case True
      with less.prems 2 obtain h1 h2 h3 h4 s'' x u where "s' = h1 # h2 # h3 # h4 # s''" "json_chars s'' = Some (u, r)" "t = x # u"
        by (auto simp: s s1 cons_fst_Some split: list.splits option.splits if_splits)
      with IH [of s'' u r "length s''"] show ?thesis by (simp add: s s1)
    next
      case False
      with less.prems 2 obtain x u where "json_chars s' = Some (u, r)" "t = x # u"
        by (auto simp: s s1 cons_fst_Some simp del: simple_escape.simps split: option.splits)
      with IH [of s' u r "length s'"] show ?thesis by (simp add: s s1)
    qed
  next
    case 3
    with less.prems obtain u where "json_chars s1 = Some (u, r)" "t = c # u"
      by (auto simp: s cons_fst_Some split: if_splits)
    with IH [of s1 u r "length s1"] show ?thesis by (simp add: s)
  qed (use less.prems in \<open>simp add: s\<close>)
qed

lemma lit_escape_step:
  assumes "lit_chars q (CHR 0x5C # s1) = Some (t, r)" "q \<noteq> CHR 0x5C"
  shows "\<exists>s2 x u. length s2 < length s1 \<and> lit_chars q s2 = Some (u, r) \<and> t = x # u"
proof -
  from assms obtain e s' where s1: "s1 = e # s'" by (cases s1) auto
  have "\<exists>s2 x u. length s2 \<le> length s' \<and> lit_chars q s2 = Some (u, r) \<and> t = x # u"
  proof (cases "e = CHR ''x''")
    case True
    with assms obtain h1 h2 s'' x u where "s' = h1 # h2 # s''" "lit_chars q s'' = Some (u, r)" "t = x # u"
      by (auto simp: s1 cons_fst_Some split: list.splits option.splits if_splits)
    then show ?thesis by (intro exI [of _ s'']) auto
  next
    case False
    with assms show ?thesis
      by (intro exI [of _ s']) (auto simp: s1 cons_fst_Some split: if_splits)
  qed
  then show ?thesis by (auto simp: s1 less_Suc_eq_le)
qed

lemma lit_chars_length:
  assumes "q \<noteq> CHR 0x5C"
  shows "lit_chars q s = Some (t, r) \<Longrightarrow> length t < length s"
proof (induction "length s" arbitrary: s t r rule: less_induct)
  case less
  then obtain c s1 where s: "s = c # s1" by (cases s) auto
  show ?case
  proof (cases "c = CHR 0x5C")
    case True
    from lit_escape_step [OF less.prems [unfolded s True] assms] obtain s2 x u where
      "length s2 < length s1" "lit_chars q s2 = Some (u, r)" "t = x # u" by blast
    moreover from this less.hyps [of s2 u r] have "length u < length s2" by (simp add: s)
    ultimately show ?thesis by (simp add: s)
  next
    case False
    show ?thesis
    proof (cases "c = q")
      case False
      with \<open>c \<noteq> CHR 0x5C\<close> less.prems obtain u where "lit_chars q s1 = Some (u, r)" "t = c # u"
        by (auto simp: s cons_fst_Some split: if_splits)
      with less.hyps [of s1 u r] show ?thesis by (simp add: s)
    qed (use less.prems in \<open>simp add: s\<close>)
  qed
qed

section \<open>Round trip\<close>

lemma hex4_eq: "hex4 n = hex_digits 4 n"
proof -
  have f: "(\<lambda>d. if d < 10 then char_of (48 + d) else char_of (87 + d)) = hex_digit"
    by (auto simp: hex_digit_def)
  have e: "(4::nat) = Suc (Suc (Suc (Suc 0)))" by simp
  have "n div 16 div 16 div 16 = n div 4096" "n div 16 div 16 = n div 256"
    by (simp_all add: div_mult2_eq [symmetric])
  then show ?thesis
    unfolding hex4_def f e hex_digits.simps by (simp only: list.map append.simps)
qed

lemma hex4_val: "n < 256 \<Longrightarrow> hex_nat 0 (hex4 n) = Some n"
  unfolding hex4_eq hex_nat_hex_digits by simp

lemma char_of_eqs: "char_of (8::nat) = CHR 0x08" "char_of (9::nat) = CHR 0x09" "char_of (10::nat) = CHR 0x0A"
  "char_of (12::nat) = CHR 0x0C" "char_of (13::nat) = CHR 0x0D"
  by (simp_all add: char_of_def bit_Suc_0_iff)

lemma json_char_step: "json_chars (json_char c @ s) = cons_fst c (json_chars s)"
proof -
  let ?n = "of_char c :: nat"
  have c: "char_of ?n = c" "?n < 256" by simp_all
  consider "c = CHR 0x22 \<or> c = CHR 0x5C" | "?n \<in> {8, 9, 10, 12, 13}"
    | "c \<noteq> CHR 0x22" "c \<noteq> CHR 0x5C" "?n \<notin> {8, 9, 10, 12, 13}" "?n < 32 \<or> 128 \<le> ?n"
    | "c \<noteq> CHR 0x22" "c \<noteq> CHR 0x5C" "\<not> ?n < 32" "\<not> 128 \<le> ?n" by auto
  then show ?thesis
  proof cases
    case 1
    then show ?thesis by (auto simp: json_char_def)
  next
    case 2
    then have "c \<in> {CHR 0x08, CHR 0x09, CHR 0x0A, CHR 0x0C, CHR 0x0D}"
      using char_of_eqs c(1) by (metis insert_iff empty_iff)
    then show ?thesis by (auto simp: json_char_def)
  next
    case 3
    then have "json_char c = CHR 0x5C # CHR ''u'' # hex4 ?n" by (auto simp: json_char_def Let_def)
    moreover obtain h1 h2 h3 h4 where "hex4 ?n = [h1, h2, h3, h4]" by (simp add: hex4_def)
    ultimately show ?thesis using hex4_val [OF c(2)] c by simp
  next
    case 4
    then show ?thesis by (auto simp: json_char_def Let_def)
  qed
qed

lemma json_chars_string: "json_chars (concat (map json_char s) @ CHR 0x22 # r) = Some (s, r)"
  by (induction s) (simp_all add: json_char_step)

text \<open>Where a rendered number may end.\<close>

definition num_end :: "str \<Rightarrow> bool" where
  "num_end r = (case r of [] \<Rightarrow> True | c # t \<Rightarrow> \<not> py_isdigit c \<and> c \<notin> {CHR ''.'', CHR ''e'', CHR ''E''})"

lemma str_of_nat_hd:
  "\<exists>c t. str_of_nat n = c # t \<and> py_isdigit c \<and> (c = CHR ''0'' \<longrightarrow> t = [])"
proof (induction n rule: str_of_nat.induct)
  case (1 n)
  show ?case
  proof (cases "n < 10")
    case True
    then show ?thesis by (subst str_of_nat.simps) simp
  next
    case False
    with 1 obtain c t where ct: "str_of_nat (n div 10) = c # t" "py_isdigit c" "c = CHR ''0'' \<longrightarrow> t = []" by blast
    have "c \<noteq> CHR ''0''"
    proof
      assume "c = CHR ''0''"
      with ct have "str_of_nat (n div 10) = ''0''" by simp
      then have "nat_of_digits (str_of_nat (n div 10)) = nat_of_digits ''0''" by simp
      then have "n div 10 = 0" unfolding nat_of_digits_str_of_nat by (simp add: nat_of_digits_def digit_val_def)
      with False show False by simp
    qed
    with False ct show ?thesis by (subst str_of_nat.simps) simp
  qed
qed

lemma takeWhile_digits: "list_all py_isdigit ds \<Longrightarrow> num_end r \<Longrightarrow> takeWhile py_isdigit (ds @ r) = ds"
  by (induction ds) (auto simp: num_end_def split: list.splits)

lemma int_part_nat: "num_end r \<Longrightarrow> int_part (str_of_nat n @ r) = str_of_nat n"
proof -
  assume r: "num_end r"
  obtain c t where ct: "str_of_nat n = c # t" "c = CHR ''0'' \<longrightarrow> t = []" using str_of_nat_hd by blast
  have "takeWhile py_isdigit (str_of_nat n @ r) = str_of_nat n"
    by (rule takeWhile_digits [OF str_of_nat_digits r])
  with ct show ?thesis by (auto simp: int_part_def)
qed

lemma json_number_nat: "num_end r \<Longrightarrow> json_number (str_of_nat n @ r) = Some (JInt (int n), r)"
proof -
  assume r: "num_end r"
  obtain c t where ct: "str_of_nat n = c # t" "py_isdigit c" using str_of_nat_hd by blast
  then have c: "c \<noteq> CHR ''-''" by (auto simp: py_isdigit_def)
  have "frac_part r = []" "exp_part r = None" using r by (auto simp: frac_part_def exp_part_def num_end_def split: list.splits)
  with ct c int_part_nat [OF r, of n] nat_of_digits_str_of_nat [of n] show ?thesis
    by (simp add: json_number_def Let_def)
qed

lemma json_number_int: "num_end r \<Longrightarrow> json_number (str_of_int i @ r) = Some (JInt i, r)"
proof (cases "i < 0")
  case True
  assume r: "num_end r"
  let ?n = "nat (- i)"
  obtain c t where ct: "str_of_nat ?n = c # t" "py_isdigit c" using str_of_nat_hd by blast
  have "frac_part r = []" "exp_part r = None" using r by (auto simp: frac_part_def exp_part_def num_end_def split: list.splits)
  with True ct int_part_nat [OF r, of ?n] nat_of_digits_str_of_nat [of ?n] show ?thesis
    by (simp add: str_of_int_def json_number_def Let_def)
next
  case False
  assume "num_end r"
  from json_number_nat [OF this, of "nat i"] False show ?thesis by (simp add: str_of_int_def)
qed

fun plain_json :: "json \<Rightarrow> bool" where
  "plain_json (JFloat q) = False"
| "plain_json (JList xs) = list_all plain_json xs"
| "plain_json (JObj d) = (distinct (map fst d) \<and> list_all (\<lambda>(k, v). plain_json v) d)"
| "plain_json v = True"

text \<open>The first character of a rendering decides which branch of the parser runs.\<close>

definition starts_value :: "char \<Rightarrow> bool" where
  "starts_value c = (\<not> json_ws c \<and> c \<noteq> CHR '']'' \<and> c \<noteq> CHR ''}'')"

lemma digit_starts: "py_isdigit c \<Longrightarrow> starts_value c"
  by (auto simp: starts_value_def json_ws_def py_isdigit_def)

lemma json_dumps_hd: "plain_json v \<Longrightarrow> \<exists>c t. json_dumps v = c # t \<and> starts_value c"
proof (cases v)
  case (JInt n)
  obtain c t where "str_of_nat (nat \<bar>n\<bar>) = c # t" "py_isdigit c" using str_of_nat_hd by blast
  then show ?thesis using digit_starts JInt by (auto simp: str_of_int_def starts_value_def json_ws_def)
qed (auto simp: starts_value_def json_ws_def json_string_def)

lemma skip_ws_dumps [simp]: "plain_json v \<Longrightarrow> skip_ws (json_dumps v @ r) = json_dumps v @ r"
  using json_dumps_hd [of v] by (auto simp: skip_ws_def starts_value_def)

lemma skip_ws_simps [simp]:
  "skip_ws (CHR '' '' # s) = skip_ws s" "skip_ws (CHR '','' # s) = CHR '','' # s"
  "skip_ws (CHR '']'' # s) = CHR '']'' # s" "skip_ws (CHR ''}'' # s) = CHR ''}'' # s"
  "skip_ws (CHR '':'' # s) = CHR '':'' # s" "skip_ws (CHR 0x22 # s) = CHR 0x22 # s" "skip_ws [] = []"
  by (simp_all add: skip_ws_def json_ws_def)

lemma num_end_simps [simp]:
  "num_end (CHR '','' # s)" "num_end (CHR '']'' # s)" "num_end (CHR ''}'' # s)" "num_end []"
  by (simp_all add: num_end_def py_isdigit_def)

lemma json_value_int:
  assumes "num_end r" shows "json_value (Suc n) (str_of_int i @ r) = Some (JInt i, r)"
proof -
  obtain c t where ct: "str_of_nat (nat \<bar>i\<bar>) = c # t" "py_isdigit c" using str_of_nat_hd by blast
  obtain c' t' where s: "str_of_int i = c' # t'" "py_isdigit c' \<or> c' = CHR ''-''"
  proof (cases "i < 0")
    case True
    with that [of "CHR ''-''" "c # t"] ct show thesis by (simp add: str_of_int_def)
  next
    case False
    with that [of c t] ct show thesis by (simp add: str_of_int_def)
  qed
  from s(2) have "c' \<notin> {CHR ''n'', CHR ''t'', CHR ''f'', CHR 0x22, CHR ''['', CHR ''{''}" by (auto simp: py_isdigit_def)
  with s(1) json_number_int [OF assms, of i] show ?thesis by (simp add: py_startswith_def)
qed

lemma json_elems_dumps:
  assumes "xs \<noteq> []" "list_all plain_json xs"
    and "\<And>x n r. x \<in> set xs \<Longrightarrow> num_end r \<Longrightarrow> length (json_dumps x) \<le> n \<Longrightarrow> json_value n (json_dumps x @ r) = Some (x, r)"
    and "length (py_join '', '' (map json_dumps xs)) < n"
  shows "json_elems n (py_join '', '' (map json_dumps xs) @ '']'' @ r) = Some (xs, r)"
  using assms
proof (induction xs arbitrary: n)
  case (Cons x xs)
  then obtain m where n: "n = Suc m" by (cases n) auto
  show ?case
  proof (cases xs)
    case Nil
    with Cons.prems n show ?thesis by simp
  next
    case (Cons y ys)
    have "json_elems m (py_join '', '' (map json_dumps xs) @ '']'' @ r) = Some (xs, r)"
      using Cons.IH Cons.prems n Cons by simp
    moreover have "json_value m (json_dumps x @ '', '' @ py_join '', '' (map json_dumps xs) @ '']'' @ r)
       = Some (x, '', '' @ py_join '', '' (map json_dumps xs) @ '']'' @ r)"
      using Cons.prems(3) [of x] Cons.prems(4) n Cons by simp
    moreover have "skip_ws (py_join '', '' (map json_dumps xs) @ '']'' @ r) = py_join '', '' (map json_dumps xs) @ '']'' @ r"
      using Cons.prems(2) Cons by (cases ys) simp_all
    ultimately show ?thesis using n Cons by simp
  qed
qed simp

definition member_text :: "str \<times> json \<Rightarrow> str" where
  "member_text kv = json_string (fst kv) @ '': '' @ json_dumps (snd kv)"

lemma json_members_step:
  assumes "plain_json (snd kv)" "json_value m (json_dumps (snd kv) @ t) = Some (snd kv, t)"
  shows "json_members (Suc m) (member_text kv @ t) =
     (case skip_ws t of
        [] \<Rightarrow> None
      | c # r \<Rightarrow> if c = CHR ''}'' then Some ([kv], r)
                 else if c = CHR '','' then cons_fst kv (json_members m (skip_ws r)) else None)"
  using assms json_chars_string [of "fst kv" "'': '' @ json_dumps (snd kv) @ t"]
  by (cases kv) (simp add: member_text_def json_string_def split: list.split)

lemma skip_ws_member [simp]: "skip_ws (member_text kv @ t) = member_text kv @ t"
  by (simp add: member_text_def json_string_def)

lemma member_not_close: "\<not> py_startswith (member_text kv @ t) ''}''"
  by (simp add: member_text_def json_string_def py_startswith_def)

lemma json_members_dumps:
  assumes "d \<noteq> []" "list_all (\<lambda>kv. plain_json (snd kv)) d"
    and "\<And>kv n r. kv \<in> set d \<Longrightarrow> num_end r \<Longrightarrow> length (json_dumps (snd kv)) \<le> n
           \<Longrightarrow> json_value n (json_dumps (snd kv) @ r) = Some (snd kv, r)"
    and "length (py_join '', '' (map member_text d)) < n"
  shows "json_members n (py_join '', '' (map member_text d) @ ''}'' @ r) = Some (d, r)"
  using assms
proof (induction d arbitrary: n)
  case (Cons kv d)
  then obtain m where n: "n = Suc m" by (cases n) auto
  have val: "json_value m (json_dumps (snd kv) @ t) = Some (snd kv, t)" if "num_end t" for t
    using Cons.prems(3) [of kv t m] Cons.prems(4) that n by (cases d) (simp_all add: member_text_def)
  show ?case
  proof (cases d)
    case Nil
    with n json_members_step [OF _ val [of "''}'' @ r"]] Cons.prems(2) show ?thesis by simp
  next
    case (Cons y ys)
    let ?rest = "py_join '', '' (map member_text d) @ ''}'' @ r"
    have "json_members m ?rest = Some (d, r)"
      using Cons.IH Cons.prems n Cons by simp
    moreover have "skip_ws ?rest = ?rest"
      using Cons by (cases ys) simp_all
    moreover have "num_end ('', '' @ ?rest)" by simp
    ultimately show ?thesis
      using n Cons json_members_step [OF _ val [of "'', '' @ ?rest"]] Cons.prems(2) by simp
  qed
qed simp

lemma dmerge_fresh: "distinct (map fst (acc @ d)) \<Longrightarrow> dmerge acc d = acc @ d"
proof (induction d arbitrary: acc)
  case (Cons kv d)
  obtain k v where kv: "kv = (k, v)" by (cases kv)
  have "k \<notin> fst ` set acc" using Cons.prems kv by auto
  then have "dset k v acc = acc @ [(k, v)]"
    by (induction acc) auto
  with Cons kv show ?case by simp
qed simp

lemma json_dumps_obj: "json_dumps (JObj d) = ''{'' @ py_join '', '' (map member_text d) @ ''}''"
proof -
  have "member_text = (\<lambda>(k, v). json_string k @ '': '' @ json_dumps v)"
    by (auto simp: member_text_def)
  then show ?thesis by simp
qed

lemma json_value_dumps:
  "plain_json v \<Longrightarrow> num_end r \<Longrightarrow> length (json_dumps v) \<le> n \<Longrightarrow> json_value n (json_dumps v @ r) = Some (v, r)"
proof (induction v arbitrary: n r rule: json.induct)
  case (JStr s)
  then obtain m where "n = Suc m" by (cases n) (auto simp: json_string_def)
  with json_chars_string [of s r] show ?case by (simp add: json_string_def py_startswith_def)
next
  case (JInt i)
  then obtain m where "n = Suc m" by (cases n) (auto simp: str_of_int_def split: if_splits)
  with json_value_int [OF JInt.prems(2)] show ?case by simp
next
  case (JList xs)
  then obtain m where n: "n = Suc m" by (cases n) auto
  show ?case
  proof (cases "xs = []")
    case True
    with n show ?thesis by (simp add: py_startswith_def)
  next
    case False
    let ?j = "py_join '', '' (map json_dumps xs)"
    from False obtain y ys where xs: "xs = y # ys" by (cases xs) auto
    with JList.prems(1) json_dumps_hd [of y] obtain c t where c: "json_dumps y = c # t" "starts_value c" by auto
    have sk: "skip_ws (?j @ '']'' @ r) = ?j @ '']'' @ r" "\<not> py_startswith (?j @ '']'' @ r) '']''"
      using c xs by (cases ys; simp add: skip_ws_def starts_value_def py_startswith_def)+
    have "json_elems m (?j @ '']'' @ r) = Some (xs, r)"
      by (rule json_elems_dumps) (use JList False n in \<open>auto simp: list_all_iff\<close>)
    with n sk show ?thesis by (simp add: py_startswith_def)
  qed
next
  case (JObj d)
  then obtain m where n: "n = Suc m" by (cases n) auto
  show ?case
  proof (cases "d = []")
    case True
    with n show ?thesis by (simp add: py_startswith_def)
  next
    case False
    let ?j = "py_join '', '' (map member_text d)"
    from False obtain y ys where d: "d = y # ys" by (cases d) auto
    have sk: "skip_ws (?j @ ''}'' @ r) = ?j @ ''}'' @ r" "\<not> py_startswith (?j @ ''}'' @ r) ''}''"
      using d member_not_close by (cases ys; simp)+
    have "json_members m (?j @ ''}'' @ r) = Some (d, r)"
    proof (rule json_members_dumps [OF False])
      show "list_all (\<lambda>kv. plain_json (snd kv)) d" using JObj.prems(1) by (auto simp: list_all_iff)
      show "length ?j < m" using JObj.prems(3) n unfolding json_dumps_obj by simp
      fix kv n' r' assume kv: "kv \<in> set d" "num_end r'" "length (json_dumps (snd kv)) \<le> n'"
      have "snd kv \<in> Basic_BNFs.snds kv" by (simp add: snds.intros prod_set_simps surjective_pairing snds.simps)
      with JObj.IH [OF kv(1)] JObj.prems(1) kv show "json_value n' (json_dumps (snd kv) @ r') = Some (snd kv, r')"
        by (auto simp: list_all_iff)
    qed
    moreover have "dmerge [] d = d" using dmerge_fresh [of "[]" d] JObj.prems(1) by simp
    ultimately show ?thesis using n sk unfolding json_dumps_obj by (simp add: py_startswith_def)
  qed
qed (auto simp: py_startswith_def Suc_le_eq gr0_conv_Suc split: if_splits dest!: less_imp_Suc_add)

text \<open>
  Serialising a JSON value and parsing the text gives the value back, for every value
  without floats and with unique keys.
\<close>

lemma json_roundtrip: "plain_json v \<Longrightarrow> json_loads (json_dumps v) = Some v"
  using json_value_dumps [of v "[]" "2 * length (json_dumps v) + 2"] skip_ws_dumps [of v "[]"]
  by (simp add: json_loads_def del: json_value.simps)

end
