(* ===== verification/Event_Collector.thy ===== *)
theory Event_Collector
  imports Approvals Json_Text
begin

text \<open>
  \<open>gateway/event_collector.py\<close>: events posted by running sessions, the token accounting read from
  them, and the task transitions they cause. One call is one transaction; an exception leaves the
  database as it was. \<open>now\<close> is the \<open>datetime.now(UTC)\<close> reading of the call, \<open>post\<close> the provider call
  that posts an approval prompt.
\<close>

section \<open>Timestamps\<close>

text \<open>
  \<open>datetime.fromisoformat\<close> on the extended calendar form with a UTC offset. A timestamp without
  offset parses, but the driver refuses to store it in a column with time zone.
\<close>

definition fixed_digits :: "str \<Rightarrow> int option" where
  "fixed_digits s = (if s \<noteq> [] \<and> list_all py_isdigit s then Some (int (nat_of_digits s)) else None)"

definition days_from_civil :: "int \<Rightarrow> int \<Rightarrow> int \<Rightarrow> int" where
  "days_from_civil y0 m d =
     (let y = (if m \<le> 2 then y0 - 1 else y0); era = y div 400; yoe = y - era * 400;
          doy = (153 * (if m > 2 then m - 3 else m + 9) + 2) div 5 + d - 1;
          doe = yoe * 365 + yoe div 4 - yoe div 100 + doy
      in era * 146097 + doe - 719468)"

definition days_in_month :: "int \<Rightarrow> int \<Rightarrow> int" where
  "days_in_month y m =
     (if m = 2 then (if y mod 4 = 0 \<and> (y mod 100 \<noteq> 0 \<or> y mod 400 = 0) then 29 else 28)
      else if m \<in> {4, 6, 9, 11} then 30 else 31)"

definition parse_date :: "str \<Rightarrow> int option" where
  "parse_date s =
     (if length s = 10 \<and> s ! 4 = CHR ''-'' \<and> s ! 7 = CHR ''-''
      then case (fixed_digits (take 4 s), fixed_digits (take 2 (drop 5 s)), fixed_digits (drop 8 s)) of
             (Some y, Some m, Some d) \<Rightarrow>
               if 1 \<le> y \<and> 1 \<le> m \<and> m \<le> 12 \<and> 1 \<le> d \<and> d \<le> days_in_month y m
               then Some (days_from_civil y m d) else None
           | _ \<Rightarrow> None
      else None)"

definition parse_fraction :: "str \<Rightarrow> int option" where
  "parse_fraction s =
     (let ds = take 6 s
      in if list_all py_isdigit s then map_option (\<lambda>n. n * 10 ^ (6 - length ds)) (fixed_digits ds) else None)"

definition parse_clock :: "str \<Rightarrow> int option" where
  "parse_clock s =
     (let hms = split_char (CHR '':'') (takeWhile (\<lambda>c. c \<noteq> CHR ''.'') s);
          frac = dropWhile (\<lambda>c. c \<noteq> CHR ''.'') s
      in if list_all (\<lambda>p. length p = 2 \<and> list_all py_isdigit p) hms \<and> length hms \<le> 3
            \<and> (frac \<noteq> [] \<longrightarrow> length hms = 3)
         then let part = (\<lambda>i. if i < length hms then int (nat_of_digits (hms ! i)) else 0);
                  us = (if frac = [] then Some 0 else parse_fraction (drop 1 frac))
              in if part 0 < 24 \<and> part 1 < 60 \<and> part 2 < 60
                 then map_option (\<lambda>u. seconds (part 0 * 3600 + part 1 * 60 + part 2) + u) us
                 else None
         else None)"

definition parse_offset :: "str \<Rightarrow> int option" where
  "parse_offset s =
     (case s of
        [] \<Rightarrow> None
      | c # r \<Rightarrow>
          if c = CHR ''Z'' then (if r = [] then Some 0 else None)
          else if c = CHR ''+'' then parse_clock r
          else if c = CHR ''-'' then map_option uminus (parse_clock r)
          else None)"

definition fromisoformat :: "str \<Rightarrow> time res" where
  "fromisoformat s =
     (let bad = Inl (ValueError (''Invalid isoformat string: '' @ repr_str s));
          naive = Inl (TypeError ''can't subtract offset-naive and offset-aware datetimes'');
          zone = (\<lambda>c. c \<in> {CHR ''Z'', CHR ''+'', CHR ''-''});
          rest = drop 11 s; clock = takeWhile (\<lambda>c. \<not> zone c) rest; off = dropWhile (\<lambda>c. \<not> zone c) rest
      in case parse_date (take 10 s) of
           None \<Rightarrow> bad
         | Some day \<Rightarrow>
             if length s = 10 then naive
             else case parse_clock clock of
                    None \<Rightarrow> bad
                  | Some us \<Rightarrow>
                      if off = [] then naive
                      else case parse_offset off of
                             None \<Rightarrow> bad
                           | Some z \<Rightarrow> Inr (days day + us - z))"

section \<open>Token accounting\<close>

fun is_number :: "json \<Rightarrow> bool" where
  "is_number (JInt n) = True"
| "is_number (JFloat q) = True"
| "is_number (JBool b) = True"
| "is_number v = False"

definition int_or_zero :: "json \<Rightarrow> int res" where
  "int_or_zero v = py_int (py_or v (JInt 0))"

definition coerce_dict :: "dict \<Rightarrow> int option res" where
  "coerce_dict u =
     (let total = dget u ''total_tokens''; i = dget u ''input_tokens''; ou = dget u ''output_tokens''
      in if is_number total then bind_res (py_int total) (\<lambda>n. Inr (Some n))
         else if is_number i \<or> is_number ou
         then bind_res (int_or_zero i) (\<lambda>a. bind_res (int_or_zero ou) (\<lambda>b. Inr (Some (a + b))))
         else Inr None)"

text \<open>\<open>TOKEN_TOTAL_PATTERN\<close>: \<open>total_tokens['"]?\s*[:=]\s*(\d+)\<close>, leftmost match.\<close>

definition match_token_total :: "str \<Rightarrow> int option" where
  "match_token_total s =
     (if py_startswith s ''total_tokens'' then
        let r0 = drop 12 s;
            r1 = (case r0 of [] \<Rightarrow> [] | c # r \<Rightarrow> if c = CHR 0x27 \<or> c = CHR 0x22 then r else r0);
            r2 = dropWhile py_isspace r1
        in (case r2 of
              [] \<Rightarrow> None
            | c # r3 \<Rightarrow>
                if c = CHR '':'' \<or> c = CHR ''='' then
                  let ds = takeWhile py_isdigit (dropWhile py_isspace r3)
                  in if ds = [] then None else Some (int (nat_of_digits ds))
                else None)
      else None)"

fun search_token_total :: "str \<Rightarrow> int option" where
  "search_token_total [] = None"
| "search_token_total (c # s) =
     (case match_token_total (c # s) of Some n \<Rightarrow> Some n | None \<Rightarrow> search_token_total s)"

lemma json_number_not_str: "json_number s \<noteq> Some (JStr t, r)"
  by (auto simp: json_number_def Let_def split: prod.splits option.splits list.splits if_splits)

lemma json_value_str_length: "json_value n s = Some (JStr t, r) \<Longrightarrow> length t < length s"
proof (cases n)
  case (Suc m)
  assume "json_value n s = Some (JStr t, r)"
  with Suc obtain c s' where "s = c # s'" "json_chars s' = Some (t, r)"
    by (auto simp: json_number_not_str split: if_splits list.splits)
  with json_chars_length show ?thesis by fastforce
qed simp

lemma lit_value_str_length: "lit_value n s = Some (JStr t, r) \<Longrightarrow> length t < length s"
proof (cases n)
  case (Suc m)
  assume "lit_value n s = Some (JStr t, r)"
  with Suc obtain c s' where "s = c # s'" "c \<noteq> CHR 0x5C" "lit_chars c s' = Some (t, r)"
    by (auto simp: json_number_not_str split: if_splits list.splits)
  with lit_chars_length show ?thesis by fastforce
qed simp

lemma json_loads_shorter: "json_loads s = Some (JStr t) \<Longrightarrow> length t < length s"
  unfolding json_loads_def skip_ws_def
  by (auto split: option.splits prod.splits if_splits dest!: json_value_str_length simp del: json_value.simps
      intro: less_le_trans [OF _ length_dropWhile_le])

lemma literal_eval_shorter: "literal_eval s = Some (JStr t) \<Longrightarrow> length t < length s"
  unfolding literal_eval_def
  by (auto split: option.splits prod.splits if_splits dest!: lit_value_str_length simp del: lit_value.simps
      intro: less_le_trans [OF _ length_dropWhile_le])

definition usage_size :: "json \<Rightarrow> nat" where
  "usage_size v = (case v of JStr s \<Rightarrow> length s | _ \<Rightarrow> 0)"

lemma length_py_strip: "length (py_strip s) \<le> length s"
  unfolding py_strip_def py_rstrip_def py_lstrip_def
  by (metis length_dropWhile_le length_rev order.trans)

lemma parsed_smaller:
  assumes "json_loads (py_strip s) = Some p \<or> literal_eval (py_strip s) = Some p" "py_strip s \<noteq> []"
  shows "usage_size p < length s"
proof -
  have "usage_size p < length (py_strip s)"
    using assms json_loads_shorter literal_eval_shorter by (cases p) (auto simp: usage_size_def)
  with length_py_strip show ?thesis by (meson less_le_trans)
qed

function coerce_total_tokens :: "json \<Rightarrow> int option res" where
  "coerce_total_tokens usage =
     (case usage of
        JObj u \<Rightarrow> coerce_dict u
      | JStr s \<Rightarrow>
          if py_strip s = [] then Inr None
          else bind_res (case json_loads (py_strip s) of None \<Rightarrow> Inr None | Some p \<Rightarrow> coerce_total_tokens p) (\<lambda>r.
            case r of
              Some n \<Rightarrow> Inr (Some n)
            | None \<Rightarrow>
                bind_res (case literal_eval (py_strip s) of None \<Rightarrow> Inr None | Some p \<Rightarrow> coerce_total_tokens p) (\<lambda>r'.
                  case r' of Some n \<Rightarrow> Inr (Some n) | None \<Rightarrow> Inr (search_token_total (py_strip s))))
      | _ \<Rightarrow> Inr None)"
  by pat_completeness auto
termination
  by (relation "measure usage_size") (auto simp: usage_size_def [of "JStr s" for s] parsed_smaller)

declare coerce_total_tokens.simps [simp del]

text \<open>Membership in a set literal hashes its left operand: lists and dictionaries raise.\<close>

definition in_str_set :: "json \<Rightarrow> str list \<Rightarrow> bool res" where
  "in_str_set v ss = (if is_list v \<or> is_obj v then Inl (TypeError ''unhashable type'')
     else Inr (case v of JStr s \<Rightarrow> s \<in> set ss | _ \<Rightarrow> False))"

definition message_tokens :: "json \<Rightarrow> int option res" where
  "message_tokens message =
     (case message of
        JObj m \<Rightarrow>
          if dget m ''type'' = JStr ''result'' then coerce_total_tokens (dget m ''usage'')
          else if dget m ''type'' \<noteq> JStr ''system'' then Inr None
          else bind_res (in_str_set (dget m ''subtype'') [''task_progress'', ''task_notification'']) (\<lambda>ok.
            if \<not> ok then Inr None
            else case dget m ''data'' of
              JObj payload \<Rightarrow>
                bind_res (coerce_total_tokens (dget payload ''workflow_usage'')) (\<lambda>r.
                  case r of Some n \<Rightarrow> Inr (Some n) | None \<Rightarrow> coerce_total_tokens (dget payload ''usage''))
            | _ \<Rightarrow> Inr None)
      | _ \<Rightarrow> Inr None)"

fun latest_tokens :: "int option \<Rightarrow> json list \<Rightarrow> int option res" where
  "latest_tokens latest [] = Inr latest"
| "latest_tokens latest (m # ms) =
     bind_res (message_tokens m) (\<lambda>r.
       latest_tokens (case r of None \<Rightarrow> latest | Some n \<Rightarrow> Some n) ms)"

definition extract_incremental_tokens :: "dict \<Rightarrow> int option res" where
  "extract_incremental_tokens event_data =
     (case dget event_data ''messages'' of JList ms \<Rightarrow> latest_tokens None ms | _ \<Rightarrow> Inr None)"

definition monotonic_token_total :: "int \<Rightarrow> int \<Rightarrow> int" where
  "monotonic_token_total current observed = max current observed"

section \<open>Receiving an event\<close>

record event_payload =
  ev_task_id :: str
  ev_event_type :: str
  ev_timestamp :: str
  ev_data :: dict

definition can_deliver_approval_prompt :: "settings \<Rightarrow> task option \<Rightarrow> bool" where
  "can_deliver_approval_prompt st t =
     (case t of
        None \<Rightarrow> False
      | Some t \<Rightarrow> mb_api_url st \<noteq> [] \<and> mb_bot_token st \<noteq> []
          \<and> has_message_route t)"

definition event_tokens :: "dict \<Rightarrow> (int \<times> int) res" where
  "event_tokens data =
     bind_res (int_or_zero (get_default data ''input_tokens'' (JInt 0))) (\<lambda>i.
     bind_res (int_or_zero (get_default data ''output_tokens'' (JInt 0))) (\<lambda>out. Inr (i, out)))"

text \<open>
  The \<open>task_updates\<close> dictionary as a function on the task row. \<open>t\<close> is the row as it was locked,
  \<open>pending\<close> whether the event left its approval pending.
\<close>

definition wait_updates :: "time \<Rightarrow> str \<Rightarrow> bool \<Rightarrow> task \<Rightarrow> task" where
  "wait_updates now ty pending r =
     (if ty = ''approval_requested'' \<and> pending
      then r\<lparr>t_status := waiting_approval, t_wait_reason := Some ''operator_approval'',
             t_wait_deadline := Some (now + seconds 3600)\<rparr>
      else if ty \<in> set [''user_question_requested'', ''user_question_delivery_failed'']
      then r\<lparr>t_status := waiting_user_input,
             t_wait_reason := Some (if ty = ''user_question_delivery_failed''
                then ''ask_user_question_delivery_failed'' else ''ask_user_question''),
             t_wait_deadline := Some (now + seconds 3600)\<rparr>
      else if ty \<in> set [''user_question_resolved'', ''approval_wait_resolved'']
      then r\<lparr>t_status := resume_pending, t_wait_reason := None, t_wait_deadline := None\<rparr>
      else r)"

definition session_failure :: "task_status \<Rightarrow> str \<Rightarrow> dict \<Rightarrow> task \<Rightarrow> (task \<Rightarrow> task) res" where
  "session_failure st fallback data t =
     bind_res (event_tokens data) (\<lambda>(i, out).
       Inr (\<lambda>r. r\<lparr>t_status := st, t_result := Some data, t_duration_sec := dget data ''duration_sec'',
                  t_error := Some (py_str (py_or (dget data ''error'') (JStr fallback))),
                  t_tokens_used := (if i \<noteq> 0 \<or> out \<noteq> 0 then monotonic_token_total (t_tokens_used t) (i + out)
                                    else t_tokens_used r)\<rparr>))"

definition outcome_updates :: "str \<Rightarrow> dict \<Rightarrow> task \<Rightarrow> (task \<Rightarrow> task) res" where
  "outcome_updates ty data t =
     (if ty = ''conversation_batch'' then
        bind_res (extract_incremental_tokens data) (\<lambda>n.
          Inr (case n of None \<Rightarrow> id
               | Some k \<Rightarrow> (\<lambda>r. r\<lparr>t_tokens_used := monotonic_token_total (t_tokens_used t) k\<rparr>)))
      else if ty = ''session_complete'' \<and> t_status t \<notin> set WAITING_STATUSES then
        bind_res (event_tokens data) (\<lambda>(i, out).
          Inr (\<lambda>r. r\<lparr>t_status := succeeded, t_result := Some data,
                     t_tokens_used := monotonic_token_total (t_tokens_used t) (i + out),
                     t_duration_sec := dget data ''duration_sec'', t_error := None\<rparr>))
      else if ty = ''session_error'' then session_failure failed ''Session error'' data t
      else if ty = ''session_timeout'' then session_failure timed_out ''Session timed out'' data t
      else Inr id)"

text \<open>The column types: \<open>tokens_used\<close> is a 32-bit integer, \<open>duration_sec\<close> a float.\<close>

definition row_storable :: "task \<Rightarrow> bool" where
  "row_storable r = (- (2 ^ 31) \<le> t_tokens_used r \<and> t_tokens_used r < 2 ^ 31
     \<and> (t_duration_sec r = JNull \<or> is_number (t_duration_sec r)))"

definition approval_query_runs :: "str \<Rightarrow> dict \<Rightarrow> bool" where
  "approval_query_runs ty data =
     (py_strip (text_or_empty (dget data ''tool_name'')) \<noteq> []
      \<and> (ty = ''approval_requested'' \<or> ty = ''approval_result''
         \<or> (ty = ''permission_callback'' \<and> dget data ''kind'' = JStr ''operator_approval'')))"

text \<open>
  An event for an identifier no task has always fails: the pending insert of the event violates
  its foreign key at the first flush, unless the handler reads an attribute of the missing task
  before that.
\<close>

definition missing_task_error :: "str \<Rightarrow> dict \<Rightarrow> py_error" where
  "missing_task_error ty data =
     (let fk = IntegrityError ''session_events_task_id_fkey''
      in if approval_query_runs ty data then fk
         else if ty = ''conversation_batch'' then
           (case extract_incremental_tokens data of
              Inl e \<Rightarrow> e | Inr None \<Rightarrow> fk | Inr (Some n) \<Rightarrow> AttributeError ''tokens_used'')
         else if ty = ''session_complete'' then AttributeError ''status''
         else if ty = ''session_error'' \<or> ty = ''session_timeout'' then
           (case event_tokens data of
              Inl e \<Rightarrow> e | Inr (i, out) \<Rightarrow> if i \<noteq> 0 \<or> out \<noteq> 0 then AttributeError ''tokens_used'' else fk)
         else fk)"

definition task_uuid_of :: "event_payload \<Rightarrow> uuid option" where
  "task_uuid_of ev = (if ev_task_id ev = [] then None else uuid_of_str (ev_task_id ev))"

definition prompt_for_event ::
  "settings \<Rightarrow> (post_request \<Rightarrow> str + dict) \<Rightarrow> time \<Rightarrow> str \<Rightarrow> task \<Rightarrow> approval option \<Rightarrow> db
     \<Rightarrow> (approval option \<times> db) res" where
  "prompt_for_event st post now ty t ap d =
     (if ty = ''approval_requested'' \<and> can_deliver_approval_prompt st (Some t)
      then ensure_approval_prompt_posted st post now (Some t) ap d
      else Inr (ap, d))"

definition receive_task_event ::
  "settings \<Rightarrow> (post_request \<Rightarrow> str + dict) \<Rightarrow> time \<Rightarrow> time \<Rightarrow> str \<Rightarrow> dict \<Rightarrow> task \<Rightarrow> db \<Rightarrow> db res" where
  "receive_task_event st post now ts ty data t d =
     (let d1 = add_session_event (Some (t_id t)) ty ts data d;
          (ap0, d2) = apply_approval_event d1 (Some t) (Some (t_id t)) ty ts (Some data)
      in bind_res (prompt_for_event st post now ty t ap0 d2) (\<lambda>(ap, d3).
         bind_res (outcome_updates ty data t) (\<lambda>f.
           let pending = (case ap of None \<Rightarrow> False | Some a \<Rightarrow> a_status a = ''pending'');
               g = (\<lambda>r. f (wait_updates now ty pending (r\<lparr>t_heartbeat := Some now\<rparr>)))
           in if row_storable (g t) then Inr (update_tasks (\<lambda>r. t_id r = t_id t) g d3)
              else Inl (DataError ''invalid input for query argument''))))"

definition receive_event ::
  "settings \<Rightarrow> (post_request \<Rightarrow> str + dict) \<Rightarrow> time \<Rightarrow> event_payload \<Rightarrow> db \<Rightarrow> db res" where
  "receive_event st post now ev d =
     bind_res (fromisoformat (ev_timestamp ev)) (\<lambda>ts.
       case task_uuid_of ev of
         None \<Rightarrow> Inr (add_session_event None (ev_event_type ev) ts (ev_data ev) d)
       | Some tid \<Rightarrow>
           (case get_task d tid of
              None \<Rightarrow> Inl (missing_task_error (ev_event_type ev) (ev_data ev))
            | Some t \<Rightarrow> receive_task_event st post now ts (ev_event_type ev) (ev_data ev) t d))"

section \<open>What the parts of the handler leave unchanged\<close>

lemma apply_approval_event_frame [simp]:
  "tasks (snd (apply_approval_event d t tid ty ts p)) = tasks d"
  "task_events (snd (apply_approval_event d t tid ty ts p)) = task_events d"
  "session_events (snd (apply_approval_event d t tid ty ts p)) = session_events d"
  "db_now (snd (apply_approval_event d t tid ty ts p)) = db_now d"
  by (simp_all add: apply_approval_event_def apply_permission_callback_def apply_approval_requested_def
      apply_approval_result_def Let_def split: option.split)

lemma apply_approval_event_gen: "uuid_gen d \<le> uuid_gen (snd (apply_approval_event d t tid ty ts p))"
  by (simp add: apply_approval_event_def apply_permission_callback_def apply_approval_requested_def
      apply_approval_result_def Let_def split: option.split)

lemma apply_approval_event_row:
  "apply_approval_event d t tid ty ts p = (Some a, d') \<Longrightarrow> a \<in> set (approvals d')"
  by (auto simp: apply_approval_event_def apply_permission_callback_def apply_approval_requested_def
      apply_approval_result_def Let_def store_approval_def in_update_where dest!: find_open_SomeD
      split: option.splits if_splits)

lemma set_delivery_frame [simp]:
  "tasks (snd (set_delivery now dl a d)) = tasks d"
  "task_events (snd (set_delivery now dl a d)) = task_events d"
  "session_events (snd (set_delivery now dl a d)) = session_events d"
  "uuid_gen (snd (set_delivery now dl a d)) = uuid_gen d"
  "db_now (snd (set_delivery now dl a d)) = db_now d"
  by (simp_all add: set_delivery_def Let_def)

lemma wf_set_delivery:
  "wf_approvals d \<Longrightarrow> a \<in> set (approvals d) \<Longrightarrow> wf_approvals (snd (set_delivery now dl a d))"
  unfolding set_delivery_def Let_def snd_conv by (rule wf_store_approval [where b = a]) simp_all

lemma ensure_cases:
  assumes "ensure_approval_prompt_posted st post now (Some t) ap d = Inr (r, d')"
  shows "(r = ap \<and> d' = d) \<or> (\<exists>a dl. ap = Some a \<and> record_delivery now dl a d = (r, d'))"
proof (cases ap)
  case (Some a)
  with assms show ?thesis
    unfolding ensure_approval_prompt_posted_def by (auto simp: bind_res_Inr_iff split: if_splits)
qed (use assms in \<open>simp add: ensure_approval_prompt_posted_def\<close>)

lemma prompt_frame:
  assumes "prompt_for_event st post now ty t ap d = Inr (r, d')"
  shows "tasks d' = tasks d \<and> task_events d' = task_events d \<and> session_events d' = session_events d
     \<and> uuid_gen d' = uuid_gen d \<and> db_now d' = db_now d
     \<and> map_option a_status r = map_option a_status ap
     \<and> (wf_approvals d \<longrightarrow> (\<forall>a. ap = Some a \<longrightarrow> a \<in> set (approvals d)) \<longrightarrow> wf_approvals d')"
proof (cases "ty = ''approval_requested'' \<and> can_deliver_approval_prompt st (Some t)")
  case True
  with assms have "ensure_approval_prompt_posted st post now (Some t) ap d = Inr (r, d')"
    by (simp add: prompt_for_event_def)
  from ensure_cases [OF this] show ?thesis
  proof (elim disjE exE conjE)
    fix a dl assume "ap = Some a" "record_delivery now dl a d = (r, d')"
    then show ?thesis by (auto simp: wf_set_delivery record_delivery_def) (simp add: set_delivery_def Let_def)
  qed simp
next
  case False
  with assms show ?thesis by (auto simp: prompt_for_event_def)
qed

section \<open>The effect on the task row\<close>

definition next_status :: "str \<Rightarrow> bool \<Rightarrow> task_status \<Rightarrow> task_status" where
  "next_status ty pending s =
     (if ty = ''approval_requested'' then (if pending then waiting_approval else s)
      else if ty = ''user_question_requested'' \<or> ty = ''user_question_delivery_failed'' then waiting_user_input
      else if ty = ''user_question_resolved'' \<or> ty = ''approval_wait_resolved'' then resume_pending
      else if ty = ''session_complete'' then (if s \<in> set WAITING_STATUSES then s else succeeded)
      else if ty = ''session_error'' then failed
      else if ty = ''session_timeout'' then timed_out
      else s)"

lemma outcome_updates_spec:
  assumes "outcome_updates ty data t = Inr f"
  shows "t_id (f r) = t_id r \<and> t_heartbeat (f r) = t_heartbeat r \<and> t_workflow (f r) = t_workflow r
    \<and> t_wait_deadline (f r) = t_wait_deadline r \<and> t_wait_reason (f r) = t_wait_reason r
    \<and> (t_tokens_used r = t_tokens_used t \<longrightarrow> t_tokens_used t \<le> t_tokens_used (f r))
    \<and> t_status (f r) = (if ty = ''session_complete'' \<and> t_status t \<notin> set WAITING_STATUSES then succeeded
         else if ty = ''session_error'' then failed else if ty = ''session_timeout'' then timed_out else t_status r)"
  using assms
  by (auto simp: outcome_updates_def session_failure_def bind_res_Inr_iff monotonic_token_total_def split_beta
      split: if_splits option.splits)

lemma wait_updates_spec:
  "t_id (wait_updates now ty b r) = t_id r" "t_tokens_used (wait_updates now ty b r) = t_tokens_used r"
  "t_heartbeat (wait_updates now ty b r) = t_heartbeat r" "t_workflow (wait_updates now ty b r) = t_workflow r"
  by (simp_all add: wait_updates_def)

lemma receive_task_event_cases:
  assumes "receive_task_event st post now ts ty data t d = Inr d'"
  obtains ap0 d2 ap d3 f where
    "apply_approval_event (add_session_event (Some (t_id t)) ty ts data d) (Some t) (Some (t_id t)) ty ts (Some data) = (ap0, d2)"
    "prompt_for_event st post now ty t ap0 d2 = Inr (ap, d3)" "outcome_updates ty data t = Inr f"
    "d' = update_tasks (\<lambda>r. t_id r = t_id t)
       (\<lambda>r. f (wait_updates now ty (case ap of None \<Rightarrow> False | Some a \<Rightarrow> a_status a = ''pending'') (r\<lparr>t_heartbeat := Some now\<rparr>))) d3"
proof -
  obtain ap0 d2 where a: "apply_approval_event (add_session_event (Some (t_id t)) ty ts data d) (Some t) (Some (t_id t)) ty ts (Some data) = (ap0, d2)"
    by (cases "apply_approval_event (add_session_event (Some (t_id t)) ty ts data d) (Some t) (Some (t_id t)) ty ts (Some data)")
  from assms [unfolded receive_task_event_def Let_def a prod.case bind_res_Inr_iff]
  obtain ap d3 f where "prompt_for_event st post now ty t ap0 d2 = Inr (ap, d3)" "outcome_updates ty data t = Inr f"
    "d' = update_tasks (\<lambda>r. t_id r = t_id t)
       (\<lambda>r. f (wait_updates now ty (case ap of None \<Rightarrow> False | Some a \<Rightarrow> a_status a = ''pending'') (r\<lparr>t_heartbeat := Some now\<rparr>))) d3"
    by (auto simp: bind_res_Inr_iff split: if_splits)
  with a show thesis by (rule that)
qed

lemma wait_outcome_status:
  assumes "outcome_updates ty data t = Inr f"
  shows "t_status (f (wait_updates now ty pending (t\<lparr>t_heartbeat := Some now\<rparr>))) = next_status ty pending (t_status t)"
  using outcome_updates_spec [OF assms] by (simp add: wait_updates_def next_status_def)

text \<open>Whether an event leaves an approval waiting for a decision.\<close>

definition leaves_pending :: "task \<Rightarrow> str \<Rightarrow> time \<Rightarrow> dict \<Rightarrow> db \<Rightarrow> bool" where
  "leaves_pending t ty ts data d =
     (case fst (apply_approval_event (add_session_event (Some (t_id t)) ty ts data d) (Some t) (Some (t_id t)) ty ts (Some data)) of
        None \<Rightarrow> False | Some a \<Rightarrow> a_status a = ''pending'')"

definition event_row :: "db \<Rightarrow> uuid option \<Rightarrow> str \<Rightarrow> time \<Rightarrow> dict \<Rightarrow> session_event" where
  "event_row d tid ty ts data = \<lparr>se_id = uuid_gen d, se_task_id = tid, se_event_type = ty, se_timestamp = ts,
     se_data = data, se_archived_at = None\<rparr>"

lemma session_events_add [simp]:
  "session_events (add_session_event tid ty ts data d) = session_events d @ [event_row d tid ty ts data]"
  by (simp add: add_session_event_def event_row_def)

lemma wf_db_cong:
  "wf_db d \<Longrightarrow> tasks e = tasks d \<Longrightarrow> task_events e = task_events d \<Longrightarrow> uuid_gen d \<le> uuid_gen e \<Longrightarrow> wf_db e"
  by (auto simp: wf_db_def task_ids_def list_all_iff)

lemma receive_task_event_spec:
  assumes "wf_db d" "wf_approvals d" "get_task d (t_id t) = Some t"
    and "receive_task_event st post now ts ty data t d = Inr d'"
  shows "wf_db d' \<and> wf_approvals d' \<and> session_events d' = session_events d @ [event_row d (Some (t_id t)) ty ts data]
    \<and> task_events d' = task_events d \<and> (\<forall>i. i \<noteq> t_id t \<longrightarrow> get_task d' i = get_task d i)
    \<and> (\<exists>t'. get_task d' (t_id t) = Some t' \<and> t_status t' = next_status ty (leaves_pending t ty ts data d) (t_status t)
          \<and> t_heartbeat t' = Some now \<and> t_tokens_used t \<le> t_tokens_used t')"
proof -
  let ?d1 = "add_session_event (Some (t_id t)) ty ts data d"
  from assms(4) obtain ap0 d2 ap d3 f where
    a: "apply_approval_event ?d1 (Some t) (Some (t_id t)) ty ts (Some data) = (ap0, d2)" and
    p: "prompt_for_event st post now ty t ap0 d2 = Inr (ap, d3)" and
    u: "outcome_updates ty data t = Inr f" and
    d': "d' = update_tasks (\<lambda>r. t_id r = t_id t)
       (\<lambda>r. f (wait_updates now ty (case ap of None \<Rightarrow> False | Some a \<Rightarrow> a_status a = ''pending'') (r\<lparr>t_heartbeat := Some now\<rparr>))) d3"
    by (rule receive_task_event_cases)
  let ?b = "case ap of None \<Rightarrow> False | Some a \<Rightarrow> a_status a = ''pending''"
  let ?g = "\<lambda>r. f (wait_updates now ty ?b (r\<lparr>t_heartbeat := Some now\<rparr>))"
  note pf = prompt_frame [OF p]
  have d2: "d2 = snd (apply_approval_event ?d1 (Some t) (Some (t_id t)) ty ts (Some data))" using a by simp
  have tks: "tasks d3 = tasks d" "task_events d3 = task_events d" "db_now d3 = db_now d"
    and se: "session_events d3 = session_events d @ [event_row d (Some (t_id t)) ty ts data]"
    using pf by (simp_all add: d2)
  have gen: "uuid_gen d \<le> uuid_gen d3"
    using pf apply_approval_event_gen [of ?d1 "Some t" "Some (t_id t)" ty ts "Some data"] by (simp add: d2)
  have wfa: "wf_approvals d2" unfolding d2 using assms(2) by (intro wf_apply_approval_event) simp
  have "\<forall>x. ap0 = Some x \<longrightarrow> x \<in> set (approvals d2)" using a apply_approval_event_row by blast
  with pf wfa have wfa3: "wf_approvals d3" by blast
  have b: "?b = leaves_pending t ty ts data d"
    using pf a by (cases ap; cases ap0) (auto simp: leaves_pending_def)
  have gid: "t_id (?g r) = t_id r" for r
    using outcome_updates_spec [OF u] by (simp add: wait_updates_spec)
  have get3: "get_task d3 i = get_task d i" for i by (simp add: get_task_def tks)
  have "get_task d' i = get_task d i" if "i \<noteq> t_id t" for i
    using that get_task_SomeD [of d i] unfolding d'
    by (cases "get_task d i") (auto simp: get_task_update_tasks [OF gid] get3)
  moreover have "get_task d' (t_id t) = Some ((?g t)\<lparr>t_updated := db_now d3\<rparr>)"
    unfolding d' using assms(3) by (simp add: get_task_update_tasks [OF gid] get3)
  moreover have "t_status (?g t) = next_status ty (leaves_pending t ty ts data d) (t_status t)"
    using wait_outcome_status [OF u, of now ?b] by (simp only: b)
  moreover have "t_heartbeat (?g t) = Some now" "t_tokens_used t \<le> t_tokens_used (?g t)"
    using outcome_updates_spec [OF u] by (simp_all add: wait_updates_spec)
  moreover have "wf_db d3" using assms(1) tks(1,2) gen by (rule wf_db_cong)
  then have "wf_db d'" unfolding d' by (rule wf_db_update_tasks) (rule gid)
  moreover have "wf_approvals d'" unfolding d' using wfa3 by (rule wf_approvals_grow) simp_all
  moreover have "session_events d' = session_events d @ [event_row d (Some (t_id t)) ty ts data]"
    "task_events d' = task_events d" unfolding d' using se tks by simp_all
  ultimately show ?thesis by auto
qed

section \<open>Sequences of events\<close>

definition event_op ::
  "settings \<times> (post_request \<Rightarrow> str + dict) \<times> time \<times> event_payload \<Rightarrow> db \<Rightarrow> db" where
  "event_op a d = (case a of (st, post, now, ev) \<Rightarrow>
     (case receive_event st post now ev d of Inl e \<Rightarrow> d | Inr d' \<Rightarrow> d'))"

definition tokens_at_least :: "uuid \<Rightarrow> int \<Rightarrow> db \<Rightarrow> bool" where
  "tokens_at_least tid k d \<longleftrightarrow> wf_db d \<and> wf_approvals d \<and>
     (case get_task d tid of None \<Rightarrow> False | Some t \<Rightarrow> k \<le> t_tokens_used t)"

lemma event_op_tokens:
  assumes "tokens_at_least tid k d"
  shows "tokens_at_least tid k (event_op a d)"
proof -
  obtain st post now ev where a: "a = (st, post, now, ev)" by (cases a)
  from assms obtain t0 where w: "wf_db d" "wf_approvals d" "get_task d tid = Some t0" "k \<le> t_tokens_used t0"
    by (auto simp: tokens_at_least_def split: option.splits)
  show ?thesis
  proof (cases "receive_event st post now ev d")
    case (Inl e)
    with assms a show ?thesis by (simp add: event_op_def)
  next
    case (Inr d')
    then have e: "event_op a d = d'" by (simp add: event_op_def a)
    from Inr obtain ts where r: "(case task_uuid_of ev of
        None \<Rightarrow> Inr (add_session_event None (ev_event_type ev) ts (ev_data ev) d)
      | Some i \<Rightarrow> (case get_task d i of None \<Rightarrow> Inl (missing_task_error (ev_event_type ev) (ev_data ev))
          | Some t \<Rightarrow> receive_task_event st post now ts (ev_event_type ev) (ev_data ev) t d)) = Inr d'"
      by (auto simp: receive_event_def bind_res_Inr_iff)
    show ?thesis
    proof (cases "task_uuid_of ev")
      case None
      with r w show ?thesis unfolding e by (auto simp: tokens_at_least_def wf_db_add_session_event)
    next
      case (Some i)
      with r obtain t where t: "get_task d i = Some t"
        and rt: "receive_task_event st post now ts (ev_event_type ev) (ev_data ev) t d = Inr d'"
        by (cases "get_task d i") auto
      from get_task_SomeD [OF t] t have g: "get_task d (t_id t) = Some t" by simp
      from receive_task_event_spec [OF w(1,2) g rt] w(3,4) g show ?thesis
        unfolding e tokens_at_least_def by (cases "tid = t_id t") auto
    qed
  qed
qed

interpretation token_total: preserved event_op "tokens_at_least tid k" for tid k
  by unfold_locales (rule event_op_tokens)

section \<open>Properties\<close>


definition demo_event :: event_payload where
  "demo_event = \<lparr>ev_task_id = uuid_str 11, ev_event_type = ''session_complete'',
     ev_timestamp = ''2024-01-01T00:00:00+00:00'', ev_data = [(''input_tokens'', JInt 5)]\<rparr>"

lemma demo_event_time: "fromisoformat (ev_timestamp demo_event) = Inr 1704067200000000"
  by (simp add: demo_event_def fromisoformat_def parse_date_def fixed_digits_def py_isdigit_def nat_of_digits_def
      digit_val_def days_in_month_def days_from_civil_def parse_clock_def split_char_def parse_offset_def
      seconds_def days_def Let_def)

lemma demo_event_received:
  "\<exists>d'. receive_event demo_settings post 9 demo_event demo_approval_db = Inr d'"
proof -
  have "task_uuid_of demo_event = Some 11"
    by (simp add: task_uuid_of_def demo_event_def uuid_roundtrip uuid_str_not_Nil)
  moreover have "outcome_updates ''session_complete'' [(''input_tokens'', JInt 5)] (demo_task 11 ''a'' waiting_approval 1) = Inr id"
    by (simp add: outcome_updates_def WAITING_STATUSES_def demo_defs)
  ultimately show ?thesis
    using demo_event_time demo_approval_facts(7)
    by (simp add: receive_event_def)
      (simp add: demo_event_def receive_task_event_def Let_def split_beta prompt_for_event_def wait_updates_def
        row_storable_def demo_defs)
qed


text \<open>
  The token count of a task never decreases, whatever events arrive, in whatever order,
  duplicated or delayed.
\<close>

lemma tokens_never_decrease:
  assumes "wf_db d" "wf_approvals d" "get_task d tid = Some t"
  shows "\<exists>t'. get_task (run_ops event_op evs d) tid = Some t' \<and> t_tokens_used t \<le> t_tokens_used t'"
proof -
  have "tokens_at_least tid (t_tokens_used t) d" using assms by (simp add: tokens_at_least_def)
  from token_total.run_ops_inv [OF this, of evs] show ?thesis
    by (auto simp: tokens_at_least_def split: option.splits)
qed

lemma tokens_never_decrease_witness:
  "\<exists>t'. get_task (run_ops event_op [(demo_settings, \<lambda>_. Inl [], 9, demo_event), (demo_settings, \<lambda>_. Inl [], 8, demo_event)]
      demo_approval_db) 11 = Some t' \<and> 0 \<le> t_tokens_used t'"
proof -
  have w: "wf_db demo_approval_db"
    by (simp add: demo_approval_db_def wf_db_def task_ids_def demo_defs)
  have z: "t_tokens_used (demo_task 11 ''a'' waiting_approval 1) = 0" by (simp add: demo_defs)
  show ?thesis using tokens_never_decrease [OF w demo_approval_facts(1) demo_approval_facts(7)] unfolding z by blast
qed

text \<open>
  Usage reported as text counts like usage reported as an object: when a runtime sends the
  JSON rendering of a usage dictionary, the total is the one of the dictionary.
\<close>

lemma usage_text_like_object:
  assumes "plain_json (JObj u)" "coerce_total_tokens (JObj u) = Inr (Some n)"
  shows "coerce_total_tokens (JStr (json_dumps (JObj u))) = Inr (Some n)"
proof -
  have "py_strip (json_dumps (JObj u)) = json_dumps (JObj u)"
    by (simp add: py_strip_def py_rstrip_def py_lstrip_def py_isspace_def Let_def)
  with json_roundtrip [OF assms(1)] assms(2) show ?thesis
    by (subst coerce_total_tokens.simps) (simp del: json_dumps.simps, simp)
qed

lemma usage_text_like_object_witness:
  "coerce_total_tokens (JStr (json_dumps (JObj [(''input_tokens'', JInt 3), (''output_tokens'', JInt 4)]))) = Inr (Some 7)"
  by (rule usage_text_like_object)
    (simp_all add: coerce_total_tokens.simps coerce_dict_def dget_def get_default_def int_or_zero_def py_or_def)

end
