(* ===== verification/Lifecycle.thy ===== *)
theory Lifecycle
  imports Heartbeat Event_Collector
begin

text \<open>
  \<open>session-manager/container_lifecycle.py\<close> and \<open>session-manager/main.py\<close>: starting a runtime for a
  dequeued task, recording its exit, the completion message, and one pass of the queue consumer.
  The runtime launcher, the secret and platform configuration files and the bundle store are fields
  of \<open>spawn_env\<close>; \<open>discover\<close> lists the configured workflows.
\<close>

section \<open>Runtimes and events\<close>

record runtime_status =
  rs_id :: str
  rs_short_id :: str
  rs_task_id :: str
  rs_workflow :: str
  rs_status :: str
  rs_exit_code :: "int option"
  rs_logs :: str

definition has_live_runtime :: "runtime_status list \<Rightarrow> str \<Rightarrow> str option \<Rightarrow> bool" where
  "has_live_runtime statuses task_id container_id =
     list_ex (\<lambda>r. rs_task_id r = task_id \<and> (opt_truthy container_id \<longrightarrow> Some (rs_id r) = container_id)
                \<and> rs_status r = ''running'') statuses"

definition latest_event :: "session_event list \<Rightarrow> str list \<Rightarrow> session_event option" where
  "latest_event events types =
     first_by (\<lambda>e. - se_timestamp e) (filter (\<lambda>e. se_event_type e \<in> set types) events)"

section \<open>The environment of a session\<close>

type_synonym env = "(str \<times> str) list"

fun scalar_env :: "str \<times> json \<Rightarrow> (str \<times> str) option" where
  "scalar_env (k, JNull) = None"
| "scalar_env (k, JList xs) = None"
| "scalar_env (k, JObj d) = None"
| "scalar_env (k, v) = Some (k, py_str v)"

definition get_agent_env_vars :: "json \<Rightarrow> env res" where
  "get_agent_env_vars agent_config =
     bind_res (obj_get_default agent_config ''env'' (JObj [])) (\<lambda>env_config.
       Inr (case env_config of JObj e \<Rightarrow> List.map_filter scalar_env e | _ \<Rightarrow> []))"

definition apply_runtime_env_overrides :: "env \<Rightarrow> (str \<times> str option) list \<Rightarrow> env" where
  "apply_runtime_env_overrides environment overrides =
     fold (\<lambda>(k, v) e. case v of None \<Rightarrow> AList.delete k e | Some s \<Rightarrow> AList.update k s e) overrides environment"

definition env_update :: "env \<Rightarrow> env \<Rightarrow> env" where
  "env_update e f = fold (\<lambda>(k, v). AList.update k v) f e"

definition get_session_model_selector :: "json \<Rightarrow> str option res" where
  "get_session_model_selector agent_config =
     bind_res (obj_get_default agent_config ''session'' (JObj [])) (\<lambda>session_config.
       Inr (case session_config of
              JObj s \<Rightarrow>
                (if dget s ''model'' = JNull then None
                 else let selector = py_strip (py_str (dget s ''model''))
                      in if selector = [] then None else Some selector)
            | _ \<Rightarrow> None))"

definition load_active_release :: "str \<Rightarrow> (str \<Rightarrow> str option) \<Rightarrow> dict option res" where
  "load_active_release bucket download =
     (if py_strip bucket = [] then Inr None
      else case download ''releases/active.json'' of
        None \<Rightarrow> Inr None
      | Some pointer \<Rightarrow>
          (case json_loads pointer of
             None \<Rightarrow> Inr None
           | Some p \<Rightarrow>
               bind_res (attr_get p ''manifest_key'') (\<lambda>k.
                 let manifest_key = text_or_empty k;
                     manifest_bytes = (if manifest_key = [] then None else download manifest_key)
                 in case manifest_bytes of
                      None \<Rightarrow> Inr None
                    | Some b \<Rightarrow>
                        if b = [] then Inr None
                        else (case json_loads b of
                                Some (JObj manifest) \<Rightarrow>
                                  Inr (if truthy (dget manifest ''release_id'') then Some manifest else None)
                              | _ \<Rightarrow> Inr None))))"

record launch_spec =
  ls_task_id :: str
  ls_workflow :: str
  ls_image :: json
  ls_environment :: env
  ls_plugin_dir :: "str option"
  ls_shared_dir :: "str option"
  ls_bundle_path :: "str option"
  ls_bundle_uri :: "str option"
  ls_bundle_checksum :: "str option"
  ls_memory_volume_name :: str
  ls_container_name :: str
  ls_timeout_sec :: int

record spawn_env =
  sp_settings :: settings
  sp_event_url :: str
  sp_hindsight_url :: str
  sp_age_identity :: str
  sp_platform_config_env :: "env res"
  sp_platform_runtime_env :: "str option \<Rightarrow> (str \<times> str option) list res"
  sp_decrypt :: "json \<Rightarrow> env res"
  sp_bundle :: "str \<Rightarrow> (str option \<times> str option \<times> str option) res"
  sp_workflow_mount :: "str \<Rightarrow> str option"
  sp_shared_mount :: "str option"
  sp_launch :: "launch_spec \<Rightarrow> (str \<times> str) res"
  sp_restore_memory :: "str \<Rightarrow> unit res"

definition reminder_section :: "json \<Rightarrow> dict res" where
  "reminder_section runtime =
     bind_res (obj_get_default runtime ''ask_user_question_reminder'' (JObj [])) (\<lambda>v. Inr (obj_or_empty v))"

definition base_environment :: "spawn_env \<Rightarrow> task \<Rightarrow> dict \<Rightarrow> dict \<Rightarrow> json \<Rightarrow> env \<Rightarrow> env" where
  "base_environment sp t runtime reminder max_turns platform_config_env =
     (let md = t_metadata t; rem = (\<lambda>k v. py_str (get_default reminder k v))
      in [(''TASK_ID'', uuid_str (t_id t)), (''TASK_PROMPT'', t_prompt t), (''TASK_WORKFLOW'', t_workflow t),
          (''MAX_TURNS'', py_str max_turns),
          (''RUNTIME_TIMEOUT_SEC'', py_str (get_default runtime ''runtime_timeout_sec'' (JInt 300))),
          (''OPERATOR_APPROVAL_TIMEOUT_SEC'', py_str (get_default runtime ''approval_timeout_sec'' (JInt 3600))),
          (''ASK_USER_QUESTION_REMINDER_ENABLED'', py_lower (rem ''enabled'' (JBool (reminder \<noteq> [])))),
          (''ASK_USER_QUESTION_REMINDER_MIN_TURNS'', rem ''min_turns'' (JInt 10)),
          (''ASK_USER_QUESTION_REMINDER_TURN_RATIO'', rem ''turn_budget_ratio'' (JFloat (7 / 10))),
          (''ASK_USER_QUESTION_REMINDER_TIME_RATIO'', rem ''time_budget_ratio'' (JFloat (3 / 4))),
          (''ASK_USER_QUESTION_REMINDER_RECENT_QUESTION_TURN_WINDOW'', rem ''recent_question_turn_window'' (JInt 8)),
          (''MESSAGE_CHANNEL'', opt_str (t_message_channel t)),
          (''MESSAGE_CHANNEL_ID'', text_or_empty (dget md ''channel_id'')),
          (''MESSAGE_THREAD_ID'', opt_str (t_message_thread t)),
          (''MESSAGE_TEAM_ID'', text_or_empty (dget md ''team_id'')),
          (''MESSAGE_TEAM_NAME'', team_name_of (sp_settings sp) md),
          (''CONTROL_PLANE_UI_URL'', case map_of platform_config_env ''CONTROL_PLANE_UI_URL'' of
             Some u \<Rightarrow> u | None \<Rightarrow> control_plane_ui_url (sp_settings sp)),
          (''EVENT_COLLECTOR_URL'', sp_event_url sp), (''GATEWAY_EVENT_URL'', sp_event_url sp),
          (''HINDSIGHT_URL'', sp_hindsight_url sp)])"

definition has_plain_secret :: "json \<Rightarrow> bool" where
  "has_plain_secret secrets =
     list_ex (\<lambda>(k, spec). case spec of
        JObj s \<Rightarrow> py_startswith (text_or_empty (dget s ''encrypted'')) ''ENC[plain,'' | _ \<Rightarrow> False) (obj_or_empty secrets)"

definition session_environment :: "spawn_env \<Rightarrow> task \<Rightarrow> json \<Rightarrow> env res" where
  "session_environment sp t agent_config =
     bind_res (obj_get_default agent_config ''runtime'' (JObj [])) (\<lambda>runtime.
     bind_res (reminder_section runtime) (\<lambda>reminder.
     bind_res (sp_platform_config_env sp) (\<lambda>pce.
     bind_res (obj_get_default agent_config ''session'' (JObj [])) (\<lambda>session.
     bind_res (obj_get_default session ''max_turns'' (JInt 50)) (\<lambda>max_turns.
     bind_res (get_session_model_selector agent_config) (\<lambda>selector.
     bind_res (sp_platform_runtime_env sp selector) (\<lambda>overrides.
     bind_res (get_agent_env_vars agent_config) (\<lambda>agent_env.
     bind_res (obj_get_default agent_config ''secrets'' (JObj [])) (\<lambda>secrets.
     bind_res (if sp_age_identity sp \<noteq> [] \<or> has_plain_secret secrets then sp_decrypt sp agent_config else Inr []) (\<lambda>decrypted.
       Inr (env_update (env_update (apply_runtime_env_overrides
              (base_environment sp t (obj_or_empty runtime) reminder max_turns pce) overrides) agent_env) decrypted)))))))))))"

section \<open>Starting a runtime\<close>

definition session_spec :: "spawn_env \<Rightarrow> task \<Rightarrow> json \<Rightarrow> launch_spec res" where
  "session_spec sp t agent_config =
     bind_res (session_environment sp t agent_config) (\<lambda>environment.
     bind_res (obj_get_default agent_config ''runtime'' (JObj [])) (\<lambda>runtime.
     bind_res (sp_bundle sp (t_workflow t)) (\<lambda>(path, uri, checksum).
     bind_res (obj_get_default runtime ''container_image'' (JStr ''ai-ops-agent-runtime:latest'')) (\<lambda>image.
     bind_res (obj_get_default runtime ''runtime_timeout_sec'' (JInt 300)) (\<lambda>timeout.
     bind_res (py_int (py_or timeout (JInt 300))) (\<lambda>secs.
       Inr \<lparr>ls_task_id = uuid_str (t_id t), ls_workflow = t_workflow t, ls_image = image, ls_environment = environment,
            ls_plugin_dir = (if opt_truthy path \<or> opt_truthy uri then None else sp_workflow_mount sp (t_workflow t)),
            ls_shared_dir = (if opt_truthy path then None else sp_shared_mount sp),
            ls_bundle_path = path, ls_bundle_uri = uri, ls_bundle_checksum = checksum,
            ls_memory_volume_name = ''agent-memory-'' @ t_workflow t,
            ls_container_name = ''session-'' @ take 8 (uuid_str (t_id t)) @ ''-'' @ t_workflow t,
            ls_timeout_sec = secs\<rparr>))))))"

definition new_session :: "db \<Rightarrow> time \<Rightarrow> uuid \<Rightarrow> str \<Rightarrow> sess" where
  "new_session d now tid container =
     \<lparr>s_id = uuid_gen d, s_task_id = Some tid, s_agent_id = None, s_container_id = Some container, s_status = ''running'',
      s_started = now, s_ended = None, s_duration_sec = JNull, s_tokens_input = 0, s_tokens_output = 0, s_turns = 0,
      s_tools_used = [], s_subagents_used = [], s_error = None, s_archived_at = None\<rparr>"

definition record_launch :: "time \<Rightarrow> uuid \<Rightarrow> str \<times> str \<Rightarrow> db \<Rightarrow> db res" where
  "record_launch now tid handle d =
     (if tid \<notin> set (task_ids d) then Inl (IntegrityError ''sessions_task_id_fkey'')
      else let d1 = update_tasks (\<lambda>t. t_id t = tid)
                      (\<lambda>t. t\<lparr>t_container_id := Some (fst handle), t_session_id := Some (snd handle)\<rparr>) d
           in Inr (d1\<lparr>sessions := sessions d1 @ [new_session d1 now tid (fst handle)], uuid_gen := Suc (uuid_gen d1)\<rparr>))"

text \<open>
  \<open>running_containers\<close> is the module's table from task to runtime identifiers. An exception
  anywhere in the attempt, also after the launch, ends with the task marked failed.
\<close>

type_synonym containers = "(str \<times> str) list"

definition launch_session :: "spawn_env \<Rightarrow> (str \<Rightarrow> json option res) \<Rightarrow> task \<Rightarrow> (str \<times> str) res" where
  "launch_session sp pkg t =
     bind_res (load_agent_yaml pkg (t_workflow t)) (\<lambda>agent_config.
     bind_res (session_spec sp t agent_config) (\<lambda>spec. sp_launch sp spec))"

definition spawn_failed :: "uuid \<Rightarrow> containers \<Rightarrow> db \<Rightarrow> ((str \<times> str) option \<times> containers \<times> db) res" where
  "spawn_failed tid rc d =
     bind_res (complete_task tid failed None 0 JNull (Some ''Failed to spawn runtime'') d) (\<lambda>d'. Inr (None, rc, d'))"

definition spawn_agent_session ::
  "spawn_env \<Rightarrow> (str \<Rightarrow> json option res) \<Rightarrow> time \<Rightarrow> task \<Rightarrow> containers \<Rightarrow> db
     \<Rightarrow> ((str \<times> str) option \<times> containers \<times> db) res" where
  "spawn_agent_session sp pkg now t running_containers d =
     (case launch_session sp pkg t of
        Inl e \<Rightarrow> spawn_failed (t_id t) running_containers d
      | Inr handle \<Rightarrow>
          let rc = AList.update (uuid_str (t_id t)) (fst handle) running_containers
          in (case record_launch now (t_id t) handle d of
                Inl e \<Rightarrow> spawn_failed (t_id t) rc d
              | Inr d' \<Rightarrow> Inr (Some handle, rc, d')))"

section \<open>Recording an exit\<close>

definition exit_error :: "int \<Rightarrow> str \<Rightarrow> str" where
  "exit_error code logs = ''Container exited with code '' @ str_of_int code @ nl
     @ (if length logs \<le> 500 then logs else drop (length logs - 500) logs)"

record lifecycle_facts =
  lf_data :: "dict option"
  lf_error_event :: "session_event option"

definition with_data :: "session_event option \<Rightarrow> session_event option" where
  "with_data e = (case e of None \<Rightarrow> None | Some x \<Rightarrow> if se_data x = [] then None else Some x)"

definition lifecycle_of :: "db \<Rightarrow> uuid \<Rightarrow> lifecycle_facts" where
  "lifecycle_of d tid =
     (let events = sort_key (\<lambda>e. - se_timestamp e) (filter (\<lambda>e. se_task_id e = Some tid
            \<and> se_event_type e \<in> set [''session_complete'', ''session_error'', ''session_timeout'']) (session_events d));
          completion = with_data (latest_event events [''session_complete'']);
          err = with_data (latest_event events [''session_error'', ''session_timeout''])
      in \<lparr>lf_data = (case completion of Some c \<Rightarrow> Some (se_data c) | None \<Rightarrow> map_option se_data err),
          lf_error_event = err\<rparr>)"

definition lifecycle_counts :: "dict option \<Rightarrow> (int \<times> int \<times> int) res" where
  "lifecycle_counts data =
     (case data of
        None \<Rightarrow> Inr (0, 0, 0)
      | Some m \<Rightarrow>
          bind_res (event_tokens m) (\<lambda>(i, out).
          bind_res (int_or_zero (get_default m ''turns'' (JInt 0))) (\<lambda>turns. Inr (i, out, turns))))"

definition exit_status :: "int \<Rightarrow> str \<Rightarrow> session_event option \<Rightarrow> task_status \<times> str option" where
  "exit_status code logs err =
     (case err of
        Some e \<Rightarrow> (if se_event_type e = ''session_timeout'' then timed_out else failed,
                   Some (py_str (py_or (dget (se_data e) ''error'') (JStr (se_event_type e)))))
      | None \<Rightarrow> if code = 0 then (succeeded, None) else (failed, Some (exit_error code logs)))"

definition finish_sessions ::
  "uuid \<Rightarrow> task_status \<Rightarrow> time \<Rightarrow> json \<Rightarrow> str option \<Rightarrow> db \<Rightarrow> db" where
  "finish_sessions tid status ended duration err d =
     update_sessions (\<lambda>s. s_task_id s = Some tid)
       (\<lambda>s. s\<lparr>s_status := status_str status, s_ended := Some ended, s_duration_sec := duration, s_error := err\<rparr>) d"

definition session_duration :: "db \<Rightarrow> uuid \<Rightarrow> time \<Rightarrow> json" where
  "session_duration d tid ended =
     (case find (\<lambda>s. s_task_id s = Some tid) (sessions d) of
        None \<Rightarrow> JNull | Some s \<Rightarrow> JFloat (total_seconds (ended - s_started s)))"

definition record_breakdown :: "uuid \<Rightarrow> dict option \<Rightarrow> int \<Rightarrow> int \<Rightarrow> int \<Rightarrow> json \<Rightarrow> db \<Rightarrow> db" where
  "record_breakdown tid data i out turns duration d =
     (case data of
        None \<Rightarrow> d
      | Some m \<Rightarrow>
          update_sessions (\<lambda>s. s_task_id s = Some tid)
            (\<lambda>s. s\<lparr>s_tokens_input := i, s_tokens_output := out, s_turns := turns\<rparr>)
            (update_tasks (\<lambda>t. t_id t = tid)
               (\<lambda>t. t\<lparr>t_tokens_used := i + out, t_duration_sec := duration, t_result := Some m\<rparr>) d))"

text \<open>
  The update after a runtime has exited, and the status and error text the completion message is
  given. An exception leaves those at the values they had when it was raised.
\<close>

definition record_exit :: "time \<Rightarrow> runtime_status \<Rightarrow> db \<Rightarrow> (task_status \<times> str option) \<times> db" where
  "record_exit now rs d =
     (let code = (case rs_exit_code rs of None \<Rightarrow> -1 | Some c \<Rightarrow> c);
          st0 = (if code = 0 then succeeded else failed);
          err0 = (if code = 0 then None else Some (exit_error code (rs_logs rs)))
      in case uuid_of_str (rs_task_id rs) of
           None \<Rightarrow> ((st0, err0), d)
         | Some tid \<Rightarrow>
             let lf = lifecycle_of d tid
             in (case lifecycle_counts (lf_data lf) of
                   Inl e \<Rightarrow> ((st0, None), d)
                 | Inr (i, out, turns) \<Rightarrow>
                     let (status, err) = exit_status code (rs_logs rs) (lf_error_event lf);
                         duration = session_duration d tid now
                     in (case complete_task tid status (lf_data lf) (i + out) duration err d of
                           Inl e \<Rightarrow> ((status, err), d)
                         | Inr d1 \<Rightarrow>
                             ((status, err), record_breakdown tid (lf_data lf) i out turns duration
                                (finish_sessions tid status now duration err d1)))))"

section \<open>The completion message\<close>

definition round_half_even :: "rat \<Rightarrow> int" where
  "round_half_even q =
     (let f = \<lfloor>q\<rfloor>; r = q - of_int f
      in if r < 1 / 2 then f else if r > 1 / 2 then f + 1 else if even f then f else f + 1)"

text \<open>\<open>f"{q:.0f}"\<close>, \<open>f"{q:.1f}"\<close> for non-negative values, and \<open>f"{n:,}"\<close>.\<close>

definition fixed0 :: "rat \<Rightarrow> str" where
  "fixed0 q = str_of_int (round_half_even q)"

definition fixed1 :: "rat \<Rightarrow> str" where
  "fixed1 q = (let n = round_half_even (q * 10) in str_of_int (n div 10) @ ''.'' @ str_of_int (n mod 10))"

fun group3 :: "str \<Rightarrow> str" where
  "group3 (a # b # c # d # s) = a # b # c # CHR '','' # group3 (d # s)"
| "group3 s = s"

definition thousands :: "int \<Rightarrow> str" where
  "thousands n = (if n < 0 then ''-'' else []) @ rev (group3 (rev (str_of_nat (nat \<bar>n\<bar>))))"

definition completion_body :: "task \<Rightarrow> str \<Rightarrow> task_status \<Rightarrow> str option \<Rightarrow> str" where
  "completion_body t task_id status err =
     (if status = succeeded then
        let result_text = (case t_result t of
              Some m \<Rightarrow> py_strip (text_or_empty (get_default m ''result'' (JStr []))) | None \<Rightarrow> [])
        in if result_text \<noteq> [] then take 6000 result_text
           else '':white_check_mark: Task `'' @ take 8 task_id @ ''` completed''
      else '':x: Task `'' @ take 8 task_id @ ''` failed''
           @ (if opt_truthy err then nl @ ''```'' @ nl @ take 300 (opt_str err) @ nl @ ''```'' else []))"

definition completion_footer :: "sess option \<Rightarrow> str" where
  "completion_footer x =
     (let duration = (case x of None \<Rightarrow> None | Some s \<Rightarrow>
            (case s_ended s of None \<Rightarrow> None | Some e \<Rightarrow> Some (total_seconds (e - s_started s))));
          i = (case x of None \<Rightarrow> 0 | Some s \<Rightarrow> s_tokens_input s);
          out = (case x of None \<Rightarrow> 0 | Some s \<Rightarrow> s_tokens_output s);
          parts = (case duration of
              None \<Rightarrow> []
            | Some q \<Rightarrow> [''**Duration**: '' @ (if q < 60 then fixed0 q @ ''s'' else fixed1 (q / 60) @ ''m'')])
            @ (if i + out > 0
               then [''**Tokens**: '' @ thousands (i + out) @ '' ('' @ thousands i @ '' in / '' @ thousands out @ '' out)'']
               else [])
      in if parts = [] then [] else nl @ nl @ ''_'' @ py_join '' | '' parts @ ''_'')"

definition post_completion_to_message_thread ::
  "settings \<Rightarrow> str \<Rightarrow> task_status \<Rightarrow> str option \<Rightarrow> db \<Rightarrow> post_request option" where
  "post_completion_to_message_thread st task_id status err d =
     (if mb_api_url st = [] then None
      else case uuid_of_str task_id of
        None \<Rightarrow> None
      | Some tid \<Rightarrow>
          (case get_task d tid of
             None \<Rightarrow> None
           | Some t \<Rightarrow>
               if \<not> opt_truthy (t_message_channel t) \<or> mb_bot_token st = [] then None
               else Some (channel_post st t (completion_body t task_id status err
                      @ completion_footer (find (\<lambda>s. s_task_id s = Some (t_id t)) (sessions d))))))"

text \<open>
  One pass over the runtimes: every exited one is recorded, announced, its memory backed up and the
  runtime removed. \<open>backup\<close> says whether the backup of a workflow's memory returns (an exception ends
  the pass), \<open>cleanup\<close> whether the launcher could remove the runtime.
\<close>

fun monitor_runtimes ::
  "settings \<Rightarrow> time \<Rightarrow> (str \<Rightarrow> bool) \<Rightarrow> (runtime_status \<Rightarrow> bool) \<Rightarrow> runtime_status list \<Rightarrow> containers \<Rightarrow> db
     \<Rightarrow> post_request list \<times> containers \<times> db" where
  "monitor_runtimes st now backup cleanup [] running_containers d = ([], running_containers, d)"
| "monitor_runtimes st now backup cleanup (rs # rest) running_containers d =
     (if rs_status rs \<noteq> ''exited'' then monitor_runtimes st now backup cleanup rest running_containers d
      else let ((status, err), d1) = record_exit now rs d;
               post = (case post_completion_to_message_thread st (rs_task_id rs) status err d1 of None \<Rightarrow> [] | Some p \<Rightarrow> [p])
           in if \<not> backup (rs_workflow rs) then (post, running_containers, d1)
              else let (posts, rc, d2) = monitor_runtimes st now backup cleanup rest
                         (if cleanup rs then AList.delete (rs_task_id rs) running_containers else running_containers) d1
                   in (post @ posts, rc, d2))"

section \<open>The queue consumer\<close>

definition workflow_priority :: "json \<Rightarrow> int res" where
  "workflow_priority config =
     bind_res (obj_get_default config ''runtime'' (JObj [])) (\<lambda>runtime.
     bind_res (obj_get_default runtime ''priority'' (JStr ''medium'')) (\<lambda>v.
       Inr (case v of
              JInt n \<Rightarrow> if n \<in> {1, 2, 3} then n - 1 else 1
            | JBool True \<Rightarrow> 0
            | _ \<Rightarrow> (let s = py_lower (py_strip (py_str v))
                   in if s = ''high'' then 0 else if s = ''low'' then 2 else 1))))"

type_synonym worker_table = "(str \<times> int \<times> int) list"

record worker_cache =
  wc_table :: worker_table
  wc_loaded_at :: rat

definition PLUGIN_SCAN_INTERVAL_SEC :: rat where
  "PLUGIN_SCAN_INTERVAL_SEC = 30"

fun scan_workers :: "(str \<times> json) list \<Rightarrow> worker_table \<Rightarrow> worker_table res" where
  "scan_workers [] tbl = Inr tbl"
| "scan_workers ((workflow, config) # rest) tbl =
     bind_res (obj_get_default config ''runtime'' (JObj [])) (\<lambda>runtime.
     bind_res (obj_get_default runtime ''parallel_workers'' (JInt 1)) (\<lambda>w.
     bind_res (py_int w) (\<lambda>n.
     bind_res (workflow_priority config) (\<lambda>p.
       scan_workers rest (AList.update workflow (max 1 n, p) tbl)))))"

definition refresh_plugin_worker_cache ::
  "bool \<Rightarrow> rat \<Rightarrow> (str \<times> json) list \<Rightarrow> worker_cache \<Rightarrow> (worker_table \<times> worker_cache) res" where
  "refresh_plugin_worker_cache force now discover c =
     (if \<not> force \<and> wc_table c \<noteq> [] \<and> now - wc_loaded_at c < PLUGIN_SCAN_INTERVAL_SEC then Inr (wc_table c, c)
      else bind_res (scan_workers discover []) (\<lambda>tbl. Inr (tbl, \<lparr>wc_table = tbl, wc_loaded_at = now\<rparr>)))"

definition enabled_plugins :: "worker_table \<Rightarrow> db \<Rightarrow> worker_table" where
  "enabled_plugins plugins d =
     filter (\<lambda>(w, v). case find (\<lambda>a. ag_name a = w) (agents d) of
        None \<Rightarrow> False | Some a \<Rightarrow> ag_provisioned a \<and> \<not> ag_paused a) plugins"

definition consumer_args :: "int \<Rightarrow> worker_table \<Rightarrow> dequeue_args" where
  "consumer_args platform_max enabled =
     \<lparr>dq_workflow = None, dq_max_running = None, dq_platform_max_running = Some platform_max,
      dq_workflow_limits = Some (map (\<lambda>(w, n, p). (w, n)) enabled),
      dq_workflow_priorities = Some (map (\<lambda>(w, n, p). (w, p)) enabled)\<rparr>"

datatype consumed =
    Idle
  | Admitted uuid
  | Abandoned uuid
  | Spawned uuid "(str \<times> str) option"

definition consume_task ::
  "spawn_env \<Rightarrow> (str \<Rightarrow> json option res) \<Rightarrow> time \<Rightarrow> runtime_status list \<Rightarrow> task \<Rightarrow> containers \<Rightarrow> db
     \<Rightarrow> (consumed \<times> containers \<times> db) res" where
  "consume_task sp pkg now live t rc d =
     (if opt_truthy (t_container_id t) then
        if has_live_runtime live (uuid_str (t_id t)) (t_container_id t) then Inr (Admitted (t_id t), rc, d)
        else bind_res (complete_task (t_id t) failed None 0 JNull
               (Some ''Waiting task lost its live runtime before scheduler admission; resume restart is not implemented'') d)
               (\<lambda>d'. Inr (Abandoned (t_id t), rc, d'))
      else bind_res (sp_restore_memory sp (t_workflow t)) (\<lambda>_.
           bind_res (spawn_agent_session sp pkg now t rc d) (\<lambda>(h, rc', d'). Inr (Spawned (t_id t) h, rc', d'))))"

text \<open>
  One turn of the loop. An exception is logged and the loop goes on; what was committed before it,
  in particular the claim of the dequeued task, stays.
\<close>

record consumer_state =
  co_cache :: worker_cache
  co_running :: containers

definition consumer_pass ::
  "spawn_env \<Rightarrow> (str \<Rightarrow> json option res) \<Rightarrow> int \<Rightarrow> (nat \<Rightarrow> uuid \<Rightarrow> bool) \<Rightarrow> time \<Rightarrow> rat \<Rightarrow> (str \<times> json) list
     \<Rightarrow> runtime_status list \<Rightarrow> consumer_state \<Rightarrow> db \<Rightarrow> consumed res \<times> consumer_state \<times> db" where
  "consumer_pass sp pkg platform_max locked now clock discover live c d =
     (case refresh_plugin_worker_cache False clock discover (co_cache c) of
        Inl e \<Rightarrow> (Inl e, c, d)
      | Inr (plugins, cache) \<Rightarrow>
          let c' = c\<lparr>co_cache := cache\<rparr>
          in (case dequeue_task (consumer_args platform_max (enabled_plugins plugins d)) locked now d of
                Inl e \<Rightarrow> (Inl e, c', d)
              | Inr None \<Rightarrow> (Inr Idle, c', d)
              | Inr (Some (t, d1)) \<Rightarrow>
                  (case consume_task sp pkg now live t (co_running c') d1 of
                     Inl e \<Rightarrow> (Inl e, c', d1)
                   | Inr (x, rc, d2) \<Rightarrow> (Inr x, c'\<lparr>co_running := rc\<rparr>, d2))))"

section \<open>Lemmas\<close>

lemma map_of_env_update: "map_of (env_update e f) k = (case map_of (rev f) k of None \<Rightarrow> map_of e k | Some v \<Rightarrow> Some v)"
proof (induction f arbitrary: e)
  case (Cons kv f)
  then show ?case by (cases kv) (auto simp: env_update_def update_conv' split: option.splits)
qed (simp add: env_update_def)

lemma map_of_overrides:
  "map_of (apply_runtime_env_overrides e ov) k = (case map_of (rev ov) k of None \<Rightarrow> map_of e k | Some v \<Rightarrow> v)"
proof (induction ov arbitrary: e)
  case (Cons kv ov)
  obtain k' v' where kv: "kv = (k', v')" by (cases kv)
  let ?e = "case v' of None \<Rightarrow> AList.delete k' e | Some s \<Rightarrow> AList.update k' s e"
  have m1: "map_of ?e k = (if k = k' then v' else map_of e k)"
    by (simp add: update_conv' delete_conv' split: option.split)
  have m2: "apply_runtime_env_overrides e (kv # ov) = apply_runtime_env_overrides ?e ov"
    by (simp add: kv apply_runtime_env_overrides_def)
  have m3: "map_of (rev (kv # ov)) k = (case map_of (rev ov) k of Some v \<Rightarrow> Some v | None \<Rightarrow> if k = k' then Some v' else None)"
    by (simp add: kv map_add_def split: option.split)
  show ?case unfolding m2 m3 Cons [of ?e] m1 by (cases "map_of (rev ov) k") simp_all
qed (simp add: apply_runtime_env_overrides_def)

lemma complete_task_Inr:
  "complete_task tid st r n q e d = Inr d' \<Longrightarrow>
     tid \<in> set (task_ids d) \<and> task_ids d' = task_ids d \<and> sessions d' = sessions d \<and> session_events d' = session_events d
     \<and> (\<forall>i. get_task d' i = map_option (\<lambda>t. if t_id t = tid then t\<lparr>t_status := st, t_result := r, t_tokens_used := n,
          t_duration_sec := q, t_error := e, t_updated := db_now d\<rparr> else t) (get_task d i))"
  by (auto simp: complete_task_def commit_with_event_Inr get_task_update_tasks)

lemma complete_task_ok: "tid \<in> set (task_ids d) \<Longrightarrow> \<exists>d'. complete_task tid st r n q e d = Inr d'"
  by (simp add: complete_task_def commit_with_event_def)

lemma get_task_id: "get_task d i = Some t \<Longrightarrow> t_id t = i"
  using get_task_SomeD by blast

lemma get_task_mem: "get_task d i = Some t \<Longrightarrow> i \<in> set (task_ids d)"
  using get_task_SomeD by (fastforce simp: task_ids_def)

lemma spawn_failed_effect:
  assumes "get_task d tid = Some t"
  shows "\<exists>d' t'. spawn_failed tid rc d = Inr (None, rc, d') \<and> get_task d' tid = Some t' \<and> t_status t' = failed
     \<and> t_error t' = Some ''Failed to spawn runtime'' \<and> sessions d' = sessions d"
proof -
  from complete_task_ok [OF get_task_mem [OF assms]] obtain d' where
    c: "complete_task tid failed None 0 JNull (Some ''Failed to spawn runtime'') d = Inr d'" by blast
  from complete_task_Inr [OF c] c assms get_task_id [OF assms] show ?thesis by (simp add: spawn_failed_def)
qed

lemma record_launch_effect:
  assumes "get_task d (t_id t) = Some t"
  shows "\<exists>d'. record_launch now (t_id t) h d = Inr d' \<and> sessions d' = sessions d @ [new_session d now (t_id t) (fst h)]
     \<and> get_task d' (t_id t) = Some (t\<lparr>t_container_id := Some (fst h), t_session_id := Some (snd h), t_updated := db_now d\<rparr>)"
  using assms get_task_mem [OF assms]
  by (auto simp: record_launch_def Let_def get_task_def tasks_update_tasks new_session_def find_update_where)

fun consumed_id :: "consumed \<Rightarrow> uuid option" where
  "consumed_id Idle = None"
| "consumed_id (Admitted i) = Some i"
| "consumed_id (Abandoned i) = Some i"
| "consumed_id (Spawned i h) = Some i"

lemma consume_task_id: "consume_task sp pkg now live t rc d = Inr (x, rc', d') \<Longrightarrow> consumed_id x = Some (t_id t)"
  by (auto simp: consume_task_def bind_res_Inr_iff split: if_splits)

lemma consumer_dequeues_enabled:
  assumes "dequeue_task (consumer_args pm (enabled_plugins plugins d)) locked now d = Inr (Some (t, d1))"
  shows "\<exists>u \<in> set (tasks d). t_id u = t_id t \<and> t_status u \<in> set RUNNABLE_STATUSES \<and> t_archived_at u = None
     \<and> (\<exists>a \<in> set (agents d). ag_name a = t_workflow u \<and> ag_provisioned a \<and> \<not> ag_paused a)"
proof -
  let ?a = "consumer_args pm (enabled_plugins plugins d)"
  from assms obtain u where lp: "dequeue_loop ?a locked 0 [] d = Some u" and cl: "(t, d1) = claim_task now u d"
    by (rule dequeue_task_SomeE)
  from assms have ne: "enabled_plugins plugins d \<noteq> []"
    by (auto simp: dequeue_task_def consumer_args_def split: if_splits)
  from dequeue_loop_sound [OF lp] ne have u: "u \<in> set (tasks d)" "t_status u \<in> set RUNNABLE_STATUSES" "t_archived_at u = None"
    and w: "t_workflow u \<in> fst ` set (enabled_plugins plugins d)"
    by (auto simp: consumer_args_def image_iff split: prod.splits) force+
  have "t_id t = t_id u" using tasks_claim_task [OF cl [symmetric]] by simp
  moreover from w obtain a where "find (\<lambda>a. ag_name a = t_workflow u) (agents d) = Some a" "ag_provisioned a" "\<not> ag_paused a"
    by (auto simp: enabled_plugins_def split: option.splits)
  with find_SomeD have "\<exists>a \<in> set (agents d). ag_name a = t_workflow u \<and> ag_provisioned a \<and> \<not> ag_paused a" by fastforce
  ultimately show ?thesis using u by auto
qed

lemma record_breakdown_effect:
  assumes "data = None \<longrightarrow> i + out = 0"
  shows "get_task (record_breakdown tid data i out turns q d) j =
     (case data of None \<Rightarrow> get_task d j
      | Some m \<Rightarrow> map_option (\<lambda>t. if t_id t = tid then t\<lparr>t_tokens_used := i + out, t_duration_sec := q, t_result := Some m,
          t_updated := db_now d\<rparr> else t) (get_task d j))"
  by (simp add: record_breakdown_def get_task_update_tasks split: option.split)

lemma finish_sessions_ended:
  "s \<in> set (sessions (record_breakdown tid data i out turns q (finish_sessions tid st now q err d))) \<Longrightarrow>
     s_task_id s = Some tid \<Longrightarrow> s_ended s = Some now \<and> s_status s = status_str st"
  by (auto simp: record_breakdown_def finish_sessions_def update_sessions_def in_update_where split: option.splits)

lemma record_exit_known:
  assumes "uuid_of_str (rs_task_id rs) = Some tid" "get_task d tid = Some t"
    and "lifecycle_counts (lf_data (lifecycle_of d tid)) = Inr (i, out, turns)"
    and "exit_status (case rs_exit_code rs of None \<Rightarrow> -1 | Some c \<Rightarrow> c) (rs_logs rs) (lf_error_event (lifecycle_of d tid)) = (st, err)"
  shows "\<exists>d' t'. record_exit now rs d = ((st, err), d') \<and> get_task d' tid = Some t'
     \<and> t_status t' = st \<and> t_error t' = err \<and> t_tokens_used t' = i + out \<and> t_result t' = lf_data (lifecycle_of d tid)
     \<and> (\<forall>j. j \<noteq> tid \<longrightarrow> get_task d' j = get_task d j)
     \<and> (\<forall>s \<in> set (sessions d'). s_task_id s = Some tid \<longrightarrow> s_ended s = Some now \<and> s_status s = status_str st)"
proof -
  let ?data = "lf_data (lifecycle_of d tid)"
  let ?q = "session_duration d tid now"
  from complete_task_ok [OF get_task_mem [OF assms(2)]] obtain d1 where
    c: "complete_task tid st ?data (i + out) ?q err d = Inr d1" by blast
  note ct = complete_task_Inr [OF c]
  let ?d' = "record_breakdown tid ?data i out turns ?q (finish_sessions tid st now ?q err d1)"
  have r: "record_exit now rs d = ((st, err), ?d')"
    using assms(1,3,4) c by (simp add: record_exit_def Let_def)
  have z: "?data = None \<longrightarrow> i + out = 0" using assms(3) by (auto simp: lifecycle_counts_def)
  have f: "get_task (finish_sessions tid st now ?q err d1) j = get_task d1 j" for j
    by (simp add: finish_sessions_def)
  have tid: "t_id t = tid" using assms(2) by (rule get_task_id)
  have "get_task ?d' j = get_task d j" if "j \<noteq> tid" for j
    using that ct get_task_id [of d j] by (cases "get_task d j") (auto simp: record_breakdown_effect [OF z] f split: option.splits)
  moreover have "\<exists>t'. get_task ?d' tid = Some t' \<and> t_status t' = st \<and> t_error t' = err \<and> t_tokens_used t' = i + out \<and> t_result t' = ?data"
    using ct assms(2) tid z by (auto simp: record_breakdown_effect [OF z] f split: option.splits)
  ultimately show ?thesis using r finish_sessions_ended by blast
qed

section \<open>A concrete platform for the examples\<close>

definition demo_spawn :: spawn_env where
  "demo_spawn = \<lparr>sp_settings = demo_settings, sp_event_url = ''http://gw/events'', sp_hindsight_url = [],
     sp_age_identity = ''AGE-1'', sp_platform_config_env = Inr [], sp_platform_runtime_env = (\<lambda>_. Inr [(''HTTP_PROXY'', None), (''A'', Some ''platform'')]),
     sp_decrypt = (\<lambda>_. Inr [(''TOKEN'', ''s'')]), sp_bundle = (\<lambda>_. Inr (None, None, None)), sp_workflow_mount = (\<lambda>_. None),
     sp_shared_mount = None, sp_launch = (\<lambda>_. Inr (''c1'', ''c'')), sp_restore_memory = (\<lambda>_. Inr ())\<rparr>"

definition demo_config :: json where
  "demo_config = JObj [(''env'', JObj [(''A'', JStr ''agent'')])]"

definition demo_agent :: agent where
  "demo_agent = \<lparr>ag_id = 31, ag_name = ''a'', ag_description = JNull, ag_version = JNull, ag_config = JNull, ag_config_hash = None,
     ag_repo_path = None, ag_provisioned = True, ag_paused = False, ag_provisioned_at = None, ag_created = 0, ag_updated = 0\<rparr>"

definition demo_queue :: db where
  "demo_queue = (demo_db [demo_task 12 ''a'' queued 2])\<lparr>agents := [demo_agent]\<rparr>"

lemma demo_queue_facts:
  "wf_db demo_queue" "get_task demo_queue (t_id (demo_task 12 ''a'' queued 2)) = Some (demo_task 12 ''a'' queued 2)" "t_id (demo_task 12 ''a'' queued 2) = 12"
  by (simp_all add: demo_queue_def wf_db_def task_ids_def get_task_def demo_defs)

lemma demo_environment:
  "\<exists>e. session_environment demo_spawn (demo_task 12 ''a'' queued 2) demo_config = Inr e"
  by (simp add: session_environment_def obj_get_default_def reminder_section_def demo_config_def demo_spawn_def
      get_default_def get_session_model_selector_def get_agent_env_vars_def has_plain_secret_def dget_def)

lemma demo_consumed:
  "\<exists>x c' d'. consumer_pass demo_spawn (\<lambda>_. Inr (Some JNull)) 3 (\<lambda>_ _. False) 7 0 [(''a'', JObj [])] []
     \<lparr>co_cache = \<lparr>wc_table = [], wc_loaded_at = 0\<rparr>, co_running = []\<rparr> demo_queue = (Inr x, c', d') \<and> consumed_id x = Some 12"
proof -
  let ?t = "demo_task 12 ''a'' queued 2"
  let ?a = "consumer_args 3 (enabled_plugins [(''a'', 1, 1)] demo_queue)"
  have r: "refresh_plugin_worker_cache False 0 [(''a'', JObj [])] \<lparr>wc_table = [], wc_loaded_at = 0\<rparr>
      = Inr ([(''a'', 1, 1)], \<lparr>wc_table = [(''a'', 1, 1)], wc_loaded_at = 0\<rparr>)"
    by (simp add: refresh_plugin_worker_cache_def obj_get_default_def get_default_def workflow_priority_def
        py_lower_def py_strip_def py_rstrip_def py_lstrip_def py_isspace_def py_lower_char_def Let_def)
  have q: "dequeue_task ?a (\<lambda>_ _. False) 7 demo_queue = Inr (Some (claim_task 7 ?t demo_queue))"
    by (simp add: dequeue_eval consumer_args_def enabled_plugins_def demo_queue_def demo_agent_def demo_defs)
  let ?c = "claim_task 7 ?t demo_queue"
  have "12 \<in> set (task_ids (snd ?c))"
    by (simp add: claim_task_def Let_def demo_queue_def demo_defs) (simp add: task_ids_def)
  then have "\<exists>d'. consume_task demo_spawn (\<lambda>_. Inr (Some JNull)) 7 [] (fst ?c) [] (snd ?c) = Inr (Spawned 12 None, [], d')"
    by (simp add: consume_task_def spawn_agent_session_def launch_session_def spawn_failed_def load_agent_yaml_def session_spec_def session_environment_def
        obj_get_default_def complete_task_def commit_with_event_def demo_spawn_def claim_task_def Let_def demo_defs opt_truthy_def)
  then show ?thesis
    by (auto simp: consumer_pass_def r q split_beta Let_def)
qed

section \<open>Properties\<close>

text \<open>
  C22. The consumer starts only what is enabled: whatever a turn of the loop takes from the queue
  was runnable and not archived, and its workflow belongs to an agent that is provisioned and not
  paused.
\<close>

theorem consumer_only_enabled:
  assumes "consumer_pass sp pkg pm locked now clock discover live c d = (Inr x, c', d')" "consumed_id x = Some tid"
  shows "\<exists>u \<in> set (tasks d). t_id u = tid \<and> t_status u \<in> set RUNNABLE_STATUSES \<and> t_archived_at u = None
     \<and> (\<exists>a \<in> set (agents d). ag_name a = t_workflow u \<and> ag_provisioned a \<and> \<not> ag_paused a)"
proof -
  from assms obtain plugins t d1 rc rc' where
    "dequeue_task (consumer_args pm (enabled_plugins plugins d)) locked now d = Inr (Some (t, d1))"
    "consume_task sp pkg now live t rc d1 = Inr (x, rc', d')"
    unfolding consumer_pass_def by (auto simp: Let_def split: sum.splits prod.splits option.splits)
  with consumer_dequeues_enabled consume_task_id assms(2) show ?thesis by fastforce
qed

theorem consumer_only_enabled_witness:
  "\<exists>u \<in> set (tasks demo_queue). t_id u = 12 \<and> t_archived_at u = None"
  using consumer_only_enabled demo_consumed by blast

text \<open>
  C23. Starting a session ends in one of two states: a runtime was launched, the task carries its
  identifiers and exactly one new running session row; or something failed and the task is
  marked failed with no new session. It never raises for a task that exists.
\<close>

theorem spawn_outcome:
  assumes "wf_db d" "get_task d (t_id t) = Some t"
  shows "\<exists>h rc' d' t'. spawn_agent_session sp pkg now t rc d = Inr (h, rc', d') \<and> get_task d' (t_id t) = Some t'
     \<and> (case h of
          Some hnd \<Rightarrow> t_container_id t' = Some (fst hnd) \<and> t_status t' = t_status t \<and> map_of rc' (uuid_str (t_id t)) = Some (fst hnd)
             \<and> (\<exists>s. sessions d' = sessions d @ [s] \<and> s_task_id s = Some (t_id t) \<and> s_status s = ''running'')
        | None \<Rightarrow> t_status t' = failed \<and> t_error t' = Some ''Failed to spawn runtime'' \<and> sessions d' = sessions d)"
proof (cases "launch_session sp pkg t")
  case (Inl e)
  then show ?thesis using spawn_failed_effect [OF assms(2)] by (fastforce simp: spawn_agent_session_def)
next
  case (Inr hnd)
  from record_launch_effect [OF assms(2), of now hnd] obtain d' where
    r: "record_launch now (t_id t) hnd d = Inr d'" "sessions d' = sessions d @ [new_session d now (t_id t) (fst hnd)]"
       "get_task d' (t_id t) = Some (t\<lparr>t_container_id := Some (fst hnd), t_session_id := Some (snd hnd), t_updated := db_now d\<rparr>)"
    by blast
  with Inr show ?thesis
    by (intro exI [of _ "Some hnd"]) (simp add: spawn_agent_session_def new_session_def update_conv')
qed

theorem spawn_outcome_witness:
  "\<exists>h rc' d' t'. spawn_agent_session demo_spawn (\<lambda>_. Inr (Some demo_config)) 7 (demo_task 12 ''a'' queued 2) [] demo_queue = Inr (h, rc', d')
     \<and> get_task d' 12 = Some t'"
  using spawn_outcome [OF demo_queue_facts(1,2)]
  unfolding demo_queue_facts(3) by blast

text \<open>
  Which value a session sees for an environment variable: a decrypted secret wins over the
  agent's own \<open>env\<close> section, which wins over the platform's runtime overrides (where null removes
  the variable), which win over the platform's defaults.
\<close>

lemma session_environment_layers:
  assumes "session_environment sp t cfg = Inr e"
  shows "\<exists>base overrides agent_env decrypted.
     get_agent_env_vars cfg = Inr agent_env
     \<and> (\<exists>selector. get_session_model_selector cfg = Inr selector \<and> sp_platform_runtime_env sp selector = Inr overrides)
     \<and> (decrypted = [] \<or> sp_decrypt sp cfg = Inr decrypted)
     \<and> (\<forall>k. map_of e k = (case map_of (rev decrypted) k of
          Some v \<Rightarrow> Some v
        | None \<Rightarrow> (case map_of (rev agent_env) k of
            Some v \<Rightarrow> Some v
          | None \<Rightarrow> (case map_of (rev overrides) k of Some v \<Rightarrow> v | None \<Rightarrow> map_of base k))))"
proof -
  from assms obtain runtime reminder pce max_turns selector overrides agent_env secrets decrypted where
    o: "get_session_model_selector cfg = Inr selector" "sp_platform_runtime_env sp selector = Inr overrides"
       "get_agent_env_vars cfg = Inr agent_env"
       "(if sp_age_identity sp \<noteq> [] \<or> has_plain_secret secrets then sp_decrypt sp cfg else Inr []) = Inr decrypted"
    and e: "e = env_update (env_update (apply_runtime_env_overrides
              (base_environment sp t (obj_or_empty runtime) reminder max_turns pce) overrides) agent_env) decrypted"
    unfolding session_environment_def bind_res_Inr_iff by blast
  have "decrypted = [] \<or> sp_decrypt sp cfg = Inr decrypted" using o(4) by (auto split: if_splits)
  with o(1-3) show ?thesis
    unfolding e map_of_env_update map_of_overrides
    by (intro exI [of _ "base_environment sp t (obj_or_empty runtime) reminder max_turns pce"] exI [of _ overrides]
        exI [of _ agent_env] exI [of _ decrypted]) blast
qed

lemma session_environment_layers_witness:
  "\<exists>e. session_environment demo_spawn (demo_task 12 ''a'' queued 2) demo_config = Inr e \<and> map_of e ''A'' = Some ''agent''"
proof -
  from demo_environment obtain e where e: "session_environment demo_spawn (demo_task 12 ''a'' queued 2) demo_config = Inr e" by blast
  have "get_agent_env_vars demo_config = Inr [(''A'', ''agent'')]"
    by (simp add: get_agent_env_vars_def demo_config_def obj_get_default_def get_default_def List.map_filter_def)
  with session_environment_layers [OF e] e show ?thesis
    by (auto simp: demo_spawn_def)
qed

text \<open>
  Recording an exit: the task gets the status of its latest error event with data (timed out or
  failed) or else of the exit code, with the matching error text; every session of the task is
  closed with that status; no other task changes. The token count becomes what the lifecycle event
  reports, without regard to the count accumulated so far.
\<close>

lemma record_exit_effect:
  assumes "uuid_of_str (rs_task_id rs) = Some tid" "get_task d tid = Some t"
    and "lifecycle_counts (lf_data (lifecycle_of d tid)) = Inr (i, out, turns)"
    and "exit_status (case rs_exit_code rs of None \<Rightarrow> -1 | Some c \<Rightarrow> c) (rs_logs rs) (lf_error_event (lifecycle_of d tid)) = (st, err)"
  shows "\<exists>d' t'. record_exit now rs d = ((st, err), d') \<and> get_task d' tid = Some t'
     \<and> t_status t' = st \<and> t_error t' = err \<and> t_tokens_used t' = i + out \<and> t_result t' = lf_data (lifecycle_of d tid)
     \<and> (\<forall>j. j \<noteq> tid \<longrightarrow> get_task d' j = get_task d j)
     \<and> (\<forall>s \<in> set (sessions d'). s_task_id s = Some tid \<longrightarrow> s_ended s = Some now \<and> s_status s = status_str st)"
  using assms by (rule record_exit_known)

definition demo_exit :: runtime_status where
  "demo_exit = \<lparr>rs_id = ''c1'', rs_short_id = ''c'', rs_task_id = uuid_str 12, rs_workflow = ''a'', rs_status = ''exited'',
     rs_exit_code = Some 137, rs_logs = ''killed''\<rparr>"

definition demo_spent :: db where
  "demo_spent = demo_db [(demo_task 12 ''a'' running 2)\<lparr>t_tokens_used := 900\<rparr>]"

lemma demo_exit_facts:
  "uuid_of_str (rs_task_id demo_exit) = Some 12"
  "get_task demo_spent 12 = Some ((demo_task 12 ''a'' running 2)\<lparr>t_tokens_used := 900\<rparr>)"
  "lifecycle_of demo_spent 12 = \<lparr>lf_data = None, lf_error_event = None\<rparr>"
  "exit_status (case rs_exit_code demo_exit of None \<Rightarrow> -1 | Some c \<Rightarrow> c) (rs_logs demo_exit) None = (failed, Some (exit_error 137 ''killed''))"
  by (simp_all add: demo_exit_def uuid_roundtrip demo_spent_def get_task_def demo_defs lifecycle_of_def latest_event_def
      with_data_def exit_status_def)

lemma record_exit_effect_witness:
  "\<exists>d' t'. record_exit 9 demo_exit demo_spent = ((failed, Some (exit_error 137 ''killed'')), d')
     \<and> get_task d' 12 = Some t' \<and> t_status t' = failed"
proof -
  have "lifecycle_counts (lf_data (lifecycle_of demo_spent 12)) = Inr (0, 0, 0)"
    by (simp add: demo_exit_facts lifecycle_counts_def)
  moreover have "exit_status (case rs_exit_code demo_exit of None \<Rightarrow> -1 | Some c \<Rightarrow> c) (rs_logs demo_exit)
      (lf_error_event (lifecycle_of demo_spent 12)) = (failed, Some (exit_error 137 ''killed''))"
    by (simp add: demo_exit_facts)
  ultimately show ?thesis using record_exit_effect [OF demo_exit_facts(1,2)] by blast
qed

text \<open>
  A runtime that dies without reporting its end loses the tokens it had reported while
  running: the task's count, which the event collector only ever raises, is set to zero.
\<close>

lemma silent_exit_resets_tokens:
  assumes "uuid_of_str (rs_task_id rs) = Some tid" "get_task d tid = Some t"
    and "lifecycle_of d tid = \<lparr>lf_data = None, lf_error_event = None\<rparr>"
  shows "\<exists>r d' t'. record_exit now rs d = (r, d') \<and> get_task d' tid = Some t' \<and> t_tokens_used t' = 0"
proof -
  have "lifecycle_counts (lf_data (lifecycle_of d tid)) = Inr (0, 0, 0)"
    by (simp add: assms(3) lifecycle_counts_def)
  moreover obtain st err where "exit_status (case rs_exit_code rs of None \<Rightarrow> -1 | Some c \<Rightarrow> c) (rs_logs rs)
      (lf_error_event (lifecycle_of d tid)) = (st, err)" by fastforce
  ultimately show ?thesis using record_exit_known [OF assms(1,2)] by fastforce
qed

lemma silent_exit_resets_tokens_witness:
  "\<exists>r d' t'. record_exit 9 demo_exit demo_spent = (r, d') \<and> get_task d' 12 = Some t' \<and> t_tokens_used t' = 0"
  by (rule silent_exit_resets_tokens [OF demo_exit_facts(1-3)])

end
