(* ===== verification/Message_Apis.thy ===== *)
theory Message_Apis
  imports Approvals "HOL-Library.List_Lexorder" "HOL-Library.Char_ord"
begin

text \<open>
  The clients of the two message providers (\<open>shared/lib/mattermost_api.py\<close>,
  \<open>shared/lib/slack_api.py\<close>) and the provider-neutral message bus over them
  (\<open>shared/lib/message_bus.py\<close>).

  The HTTP service is a parameter, a \<open>server\<close>: what it answers to a request may depend on
  every request it received before. An operation threads the log of the requests it sends,
  so that what is sent, how often and in which order is part of its result.
\<close>

section \<open>HTTP exchanges\<close>

record http_request =
  rq_method :: str
  rq_url :: str
  rq_params :: dict
  rq_json :: json
  rq_headers :: dict

datatype http_response =
    NoResponse str
  | Response int "json option"

type_synonym http_log = "http_request list"
type_synonym server = "http_log \<Rightarrow> http_request \<Rightarrow> http_response"
type_synonym 'a io = "http_log \<Rightarrow> 'a res \<times> http_log"

definition ret_io :: "'a res \<Rightarrow> 'a io" where
  "ret_io r sent = (r, sent)"

definition bind_io :: "'a io \<Rightarrow> ('a \<Rightarrow> 'b io) \<Rightarrow> 'b io" where
  "bind_io m f sent = (case m sent of (Inl e, sent') \<Rightarrow> (Inl e, sent') | (Inr x, sent') \<Rightarrow> f x sent')"

text \<open>
  Sending a request: a transport failure is an \<open>httpx.HTTPError\<close>. \<open>raise_for_status\<close> raises
  the same class on any status outside 200--299; \<open>response.json()\<close> raises a \<open>ValueError\<close> when
  the body is not JSON.
\<close>

definition send :: "server \<Rightarrow> http_request \<Rightarrow> (int \<times> json option) io" where
  "send srv rq sent =
     ((case srv sent rq of NoResponse e \<Rightarrow> Inl (HTTPError e) | Response c b \<Rightarrow> Inr (c, b)), sent @ [rq])"

definition raise_for_status :: "int \<times> json option \<Rightarrow> (int \<times> json option) res" where
  "raise_for_status r =
     (if 200 \<le> fst r \<and> fst r \<le> 299 then Inr r else Inl (HTTPError (str_of_int (fst r))))"

definition response_json :: "int \<times> json option \<Rightarrow> json res" where
  "response_json r = (case snd r of None \<Rightarrow> Inl (ValueError ''Expecting value'') | Some v \<Rightarrow> Inr v)"

definition checked_json :: "int \<times> json option \<Rightarrow> json io" where
  "checked_json r = ret_io (bind_res (raise_for_status r) response_json)"

text \<open>\<open>s.lstrip("#")\<close>, \<open>s.rstrip("/")\<close>, \<open>d["id"]\<close>.\<close>

definition lstrip_hash :: "str \<Rightarrow> str" where
  "lstrip_hash = dropWhile (\<lambda>c. c = CHR 0x23)"

definition base_url :: "str \<Rightarrow> str" where
  "base_url = rstrip_chars ''/''"

definition item_id :: "json \<Rightarrow> json res" where
  "item_id v = (case v of
       JObj d \<Rightarrow> (case map_of d ''id'' of Some w \<Rightarrow> Inr w | None \<Rightarrow> Inl (KeyError ''id''))
     | _ \<Rightarrow> Inl (TypeError ''indices must be integers''))"

section \<open>Mattermost\<close>

definition MAX_NORMALIZED_MESSAGE_CHARS :: nat where
  "MAX_NORMALIZED_MESSAGE_CHARS = 32000"

definition ATTACHMENT_TEXT_FIELDS :: "str list" where
  "ATTACHMENT_TEXT_FIELDS = [''fallback'', ''pretext'', ''author_name'', ''title'', ''text'', ''footer'',
     ''author_link'', ''title_link'']"

definition auth_headers :: "str \<Rightarrow> dict res" where
  "auth_headers token =
     (if token = [] then Inl (MattermostAPIError ''Mattermost bot token is required'')
      else Inr [(''Authorization'', JStr (''Bearer '' @ token))])"

definition normalize_channel_name :: "str \<Rightarrow> str" where
  "normalize_channel_name s = lstrip_hash (py_strip s)"

definition append_post_text :: "str \<Rightarrow> json \<Rightarrow> str list \<Rightarrow> str list" where
  "append_post_text label v values =
     (case v of
        JStr s \<Rightarrow>
          (let text = py_strip s; rendered = (if label \<noteq> [] then label @ '': '' @ text else text)
           in if text = [] \<or> rendered \<in> set values then values else values @ [rendered])
      | _ \<Rightarrow> values)"

definition field_text :: "json \<Rightarrow> str list \<Rightarrow> str list" where
  "field_text field values =
     (case field of
        JObj d \<Rightarrow> append_post_text (py_strip (text_or_empty (dget d ''title''))) (dget d ''value'') values
      | _ \<Rightarrow> values)"

definition attachment_text :: "json \<Rightarrow> str list \<Rightarrow> str list" where
  "attachment_text attachment values =
     (case attachment of
        JObj d \<Rightarrow>
          (let values1 = fold (\<lambda>k. append_post_text [] (dget d k)) ATTACHMENT_TEXT_FIELDS values
           in case dget d ''fields'' of JList fs \<Rightarrow> fold field_text fs values1 | _ \<Rightarrow> values1)
      | _ \<Rightarrow> values)"

definition post_values :: "dict \<Rightarrow> str list" where
  "post_values post =
     (let values = append_post_text [] (dget post ''message'') []
      in case dget post ''props'' of
           JObj props \<Rightarrow> (case dget props ''attachments'' of
               JList attachments \<Rightarrow> fold attachment_text attachments values
             | _ \<Rightarrow> values)
         | _ \<Rightarrow> values)"

definition normalize_post_text :: "dict \<Rightarrow> str \<times> bool" where
  "normalize_post_text post =
     (let text = py_join nl (post_values post)
      in if length text \<le> MAX_NORMALIZED_MESSAGE_CHARS then (text, False)
         else (py_rstrip (take MAX_NORMALIZED_MESSAGE_CHARS text), True))"

text \<open>
  \<open>sorted(items, key=...)\<close> computes every key first, then sorts stably; the slice keeps the
  last \<open>limit\<close> elements (all of them when \<open>limit\<close> is 0, as \<open>xs[-0:]\<close> does).
\<close>

definition last_items :: "nat \<Rightarrow> 'a list \<Rightarrow> 'a list" where
  "last_items limit xs = (if limit = 0 then xs else drop (length xs - limit) xs)"

fun keyed :: "('a \<Rightarrow> 'k res) \<Rightarrow> 'a list \<Rightarrow> ('k \<times> 'a) list res" where
  "keyed key [] = Inr []"
| "keyed key (x # xs) = bind_res (key x) (\<lambda>k. bind_res (keyed key xs) (\<lambda>ks. Inr ((k, x) # ks)))"

definition post_key :: "dict \<Rightarrow> (int \<times> str) res" where
  "post_key post = bind_res (py_int (py_or (dget post ''create_at'') (JInt 0))) (\<lambda>n.
     Inr (n, text_or_empty (dget post ''id'')))"

definition objects :: "json list \<Rightarrow> dict list" where
  "objects vs = concat (map (\<lambda>v. case v of JObj d \<Rightarrow> [d] | _ \<Rightarrow> []) vs)"

record thread_message =
  tm_message_id :: str
  tm_author :: str
  tm_text :: str

definition mattermost_author :: "dict \<Rightarrow> str" where
  "mattermost_author post =
     (let props = obj_or_empty (dget post ''props'')
      in py_str (py_or (py_or (py_or (dget props ''override_username'') (dget props ''webhook_display_name''))
                   (dget post ''user_id'')) (JStr ''unknown'')))"

definition mattermost_messages :: "dict list \<Rightarrow> thread_message list" where
  "mattermost_messages posts = concat (map (\<lambda>post.
     let text = fst (normalize_post_text post)
     in if text = [] then []
        else [\<lparr>tm_message_id = text_or_empty (dget post ''id''), tm_author = mattermost_author post,
               tm_text = text\<rparr>]) posts)"

definition mattermost_get :: "server \<Rightarrow> str \<Rightarrow> str \<Rightarrow> dict \<Rightarrow> dict \<Rightarrow> (int \<times> json option) io" where
  "mattermost_get srv api_url path params headers =
     send srv \<lparr>rq_method = ''GET'', rq_url = base_url api_url @ path, rq_params = params,
               rq_json = JNull, rq_headers = headers\<rparr>"

definition mattermost_fetch_thread_messages ::
  "server \<Rightarrow> str \<Rightarrow> str \<Rightarrow> str \<Rightarrow> str \<Rightarrow> int \<Rightarrow> nat \<Rightarrow> thread_message list io" where
  "mattermost_fetch_thread_messages srv api_url bot_token root_id current_message_id created_at_ms limit =
     bind_io (ret_io (auth_headers bot_token)) (\<lambda>headers.
     bind_io (mattermost_get srv api_url (''/api/v4/posts/'' @ root_id @ ''/thread'')
        [(''perPage'', JInt (int limit)), (''fromPost'', JStr current_message_id),
         (''fromCreateAt'', JInt created_at_ms), (''direction'', JStr ''up'')] headers) (\<lambda>response.
     bind_io (checked_json response) (\<lambda>payload.
       case dget (obj_or_empty payload) ''posts'' of
         JObj posts \<Rightarrow>
           ret_io (bind_res (keyed post_key (objects (map snd posts))) (\<lambda>ks.
             Inr (mattermost_messages (last_items limit (map snd (sort_key fst ks))))))
       | _ \<Rightarrow> ret_io (Inl (MattermostAPIError ''Mattermost thread response did not contain posts'')))))"

definition mattermost_get_authenticated_user_id :: "server \<Rightarrow> str \<Rightarrow> str \<Rightarrow> str io" where
  "mattermost_get_authenticated_user_id srv api_url bot_token =
     bind_io (ret_io (auth_headers bot_token)) (\<lambda>headers.
     bind_io (mattermost_get srv api_url ''/api/v4/users/me'' [] headers) (\<lambda>response.
     bind_io (checked_json response) (\<lambda>payload.
       ret_io (bind_res (attr_get payload ''id'') (\<lambda>v. Inr (text_or_empty v))))))"

definition channel_or_none :: "int \<times> json option \<Rightarrow> json io" where
  "channel_or_none response =
     (if fst response \<in> {403, 404} then ret_io (Inr JNull) else checked_json response)"

definition get_channel_by_team_id :: "server \<Rightarrow> str \<Rightarrow> dict \<Rightarrow> str \<Rightarrow> str \<Rightarrow> json io" where
  "get_channel_by_team_id srv api_url headers team_id channel_name =
     bind_io (mattermost_get srv api_url
        (''/api/v4/teams/'' @ team_id @ ''/channels/name/'' @ channel_name) [] headers) channel_or_none"

definition get_channel_by_team_name :: "server \<Rightarrow> str \<Rightarrow> dict \<Rightarrow> str \<Rightarrow> str \<Rightarrow> json io" where
  "get_channel_by_team_name srv api_url headers team_name channel_name =
     bind_io (mattermost_get srv api_url
        (''/api/v4/teams/name/'' @ team_name @ ''/channels/name/'' @ channel_name) [] headers) channel_or_none"

fun collect_team_matches :: "server \<Rightarrow> str \<Rightarrow> dict \<Rightarrow> str \<Rightarrow> json list \<Rightarrow> json list \<Rightarrow> json list io" where
  "collect_team_matches srv api_url headers name [] matches = ret_io (Inr matches)"
| "collect_team_matches srv api_url headers name (team # teams) matches =
     bind_io (ret_io (case team of
         JObj d \<Rightarrow> Inr (py_str (get_default d ''id'' (JStr [])))
       | _ \<Rightarrow> Inl (AttributeError ''get''))) (\<lambda>team_id.
     bind_io (get_channel_by_team_id srv api_url headers team_id name) (\<lambda>team_match.
       collect_team_matches srv api_url headers name teams
         (if truthy team_match then matches @ [team_match] else matches)))"

definition found_channel :: "str \<Rightarrow> json \<Rightarrow> str res" where
  "found_channel error channel =
     (if truthy channel then bind_res (item_id channel) (\<lambda>v. Inr (py_str v))
      else Inl (MattermostAPIError error))"

definition pick_team_match :: "str \<Rightarrow> json list \<Rightarrow> str res" where
  "pick_team_match name matches =
     (if length matches = 1 then bind_res (item_id (matches ! 0)) (\<lambda>v. Inr (py_str v))
      else if 1 < length matches
      then Inl (MattermostAPIError (''Mattermost channel '' @ [CHR 0x27] @ name @ [CHR 0x27]
             @ '' is ambiguous across multiple teams; set message_bus.team_name or store the channel id on the task''))
      else Inl (MattermostAPIError (''Mattermost channel '' @ [CHR 0x27] @ name @ [CHR 0x27]
             @ '' was not found for the configured bot token'')))"

definition mattermost_resolve_channel_id ::
  "server \<Rightarrow> str \<Rightarrow> str \<Rightarrow> str \<Rightarrow> str \<Rightarrow> str \<Rightarrow> str \<Rightarrow> str io" where
  "mattermost_resolve_channel_id srv api_url bot_token channel_id channel_name team_id team_name =
     (if channel_id \<noteq> [] then ret_io (Inr channel_id)
      else let name = normalize_channel_name channel_name;
               quoted = ''Mattermost channel '' @ [CHR 0x27] @ name @ [CHR 0x27]
      in if name = [] then ret_io (Inl (MattermostAPIError ''Mattermost channel_id or channel name is required''))
      else bind_io (ret_io (auth_headers bot_token)) (\<lambda>headers.
        if team_id \<noteq> []
        then bind_io (get_channel_by_team_id srv api_url headers team_id name) (\<lambda>channel.
               ret_io (found_channel (quoted @ '' not found in team id '' @ [CHR 0x27] @ team_id @ [CHR 0x27]) channel))
        else if team_name \<noteq> []
        then bind_io (get_channel_by_team_name srv api_url headers team_name name) (\<lambda>channel.
               ret_io (found_channel (quoted @ '' not found in team '' @ [CHR 0x27] @ team_name @ [CHR 0x27]) channel))
        else bind_io (mattermost_get srv api_url ''/api/v4/users/me/teams'' [] headers) (\<lambda>response.
             bind_io (checked_json response) (\<lambda>payload.
             bind_io (ret_io (py_list payload)) (\<lambda>teams.
             bind_io (collect_team_matches srv api_url headers name teams []) (\<lambda>matches.
               ret_io (pick_team_match name matches)))))))"

definition mattermost_post_body :: "str \<Rightarrow> str \<Rightarrow> str \<Rightarrow> json option \<Rightarrow> dict" where
  "mattermost_post_body channel_id text root_id props =
     [(''channel_id'', JStr channel_id), (''message'', JStr text)]
     @ (if root_id \<noteq> [] then [(''root_id'', JStr root_id)] else [])
     @ (case props of None \<Rightarrow> [] | Some p \<Rightarrow> [(''props'', p)])"

definition mattermost_create_post ::
  "server \<Rightarrow> str \<Rightarrow> str \<Rightarrow> str \<Rightarrow> str \<Rightarrow> str \<Rightarrow> str \<Rightarrow> str \<Rightarrow> str \<Rightarrow> json option \<Rightarrow> json io" where
  "mattermost_create_post srv api_url bot_token text channel_id channel_name team_id team_name root_id props =
     bind_io (mattermost_resolve_channel_id srv api_url bot_token channel_id channel_name team_id team_name)
       (\<lambda>resolved.
     bind_io (ret_io (auth_headers bot_token)) (\<lambda>headers.
     bind_io (send srv \<lparr>rq_method = ''POST'', rq_url = base_url api_url @ ''/api/v4/posts'', rq_params = [],
                        rq_json = JObj (mattermost_post_body resolved text root_id props),
                        rq_headers = headers\<rparr>) checked_json))"

section \<open>Slack\<close>

definition MAX_THREAD_FETCH_PAGES :: nat where
  "MAX_THREAD_FETCH_PAGES = 50"

text \<open>\<open>re.fullmatch(r"^[CDG][A-Z0-9]{5,}$", s, re.IGNORECASE)\<close>.\<close>

definition is_upper_alnum :: "char \<Rightarrow> bool" where
  "is_upper_alnum c = (let n = (of_char c :: nat) in (65 \<le> n \<and> n \<le> 90) \<or> (97 \<le> n \<and> n \<le> 122) \<or> py_isdigit c)"

definition is_channel_id :: "str \<Rightarrow> bool" where
  "is_channel_id s =
     (case s of [] \<Rightarrow> False
      | c # r \<Rightarrow> c \<in> set ''CDGcdg'' \<and> 5 \<le> length r \<and> list_all is_upper_alnum r)"

definition slack_headers :: "str \<Rightarrow> dict res" where
  "slack_headers token =
     (if token = [] then Inl (SlackAPIError ''Slack bot token is required'')
      else Inr [(''Authorization'', JStr (''Bearer '' @ token))])"

definition api_base_url :: "str \<Rightarrow> str res" where
  "api_base_url api_url =
     (let normalized = base_url (py_strip api_url)
      in if normalized = [] then Inl (SlackAPIError ''Slack API URL is required'') else Inr normalized)"

definition slack_payload :: "str \<Rightarrow> json \<Rightarrow> dict res" where
  "slack_payload default_error payload =
     (case payload of
        JObj d \<Rightarrow> if truthy (dget d ''ok'') then Inr d
                  else Inl (SlackAPIError (py_str (py_or (dget d ''error'') (JStr default_error))))
      | _ \<Rightarrow> Inl (AttributeError ''get''))"

definition slack_call :: "server \<Rightarrow> str \<Rightarrow> str \<Rightarrow> str \<Rightarrow> dict \<Rightarrow> dict io" where
  "slack_call srv api_url bot_token meth body =
     bind_io (ret_io (api_base_url api_url)) (\<lambda>base.
     bind_io (ret_io (slack_headers bot_token)) (\<lambda>headers.
     bind_io (send srv \<lparr>rq_method = ''POST'', rq_url = base @ ''/'' @ meth, rq_params = [],
                        rq_json = JObj body, rq_headers = headers\<rparr>) (\<lambda>response.
     bind_io (checked_json response) (\<lambda>payload.
       ret_io (slack_payload (''Slack '' @ meth @ '' failed'') payload)))))"

definition slack_create_post ::
  "server \<Rightarrow> str \<Rightarrow> str \<Rightarrow> str \<Rightarrow> str \<Rightarrow> str \<Rightarrow> json option \<Rightarrow> dict io" where
  "slack_create_post srv api_url bot_token channel_id text thread_id blocks =
     slack_call srv api_url bot_token ''chat.postMessage''
       ([(''channel'', JStr channel_id), (''text'', JStr text)]
        @ (if thread_id \<noteq> [] then [(''thread_ts'', JStr thread_id)] else [])
        @ (case blocks of None \<Rightarrow> [] | Some b \<Rightarrow> [(''blocks'', b)]))"

definition slack_update_post :: "server \<Rightarrow> str \<Rightarrow> str \<Rightarrow> str \<Rightarrow> str \<Rightarrow> str \<Rightarrow> dict io" where
  "slack_update_post srv api_url bot_token channel_id post_id text =
     slack_call srv api_url bot_token ''chat.update''
       [(''channel'', JStr channel_id), (''ts'', JStr post_id), (''text'', JStr text), (''blocks'', JList [])]"

definition slack_get_authenticated_user_id :: "server \<Rightarrow> str \<Rightarrow> str \<Rightarrow> str io" where
  "slack_get_authenticated_user_id srv api_url bot_token =
     bind_io (slack_call srv api_url bot_token ''auth.test'' []) (\<lambda>payload.
       ret_io (Inr (text_or_empty (dget payload ''user_id''))))"

definition next_cursor_of :: "dict \<Rightarrow> str" where
  "next_cursor_of payload =
     (case dget payload ''response_metadata'' of JObj m \<Rightarrow> text_or_empty (dget m ''next_cursor'') | _ \<Rightarrow> [])"

definition slack_thread_page ::
  "server \<Rightarrow> str \<Rightarrow> str \<Rightarrow> str \<Rightarrow> str \<Rightarrow> str \<Rightarrow> str \<Rightarrow> (dict list \<times> str) io" where
  "slack_thread_page srv api_url bot_token channel_id thread_id current_message_id cursor =
     bind_io (slack_call srv api_url bot_token ''conversations.replies''
       ([(''channel'', JStr channel_id), (''ts'', JStr thread_id), (''latest'', JStr current_message_id),
         (''inclusive'', JBool True), (''limit'', JInt 100)]
        @ (if cursor \<noteq> [] then [(''cursor'', JStr cursor)] else []))) (\<lambda>payload.
     ret_io (Inr ((case dget payload ''messages'' of JList page \<Rightarrow> objects page | _ \<Rightarrow> []),
                  next_cursor_of payload)))"

text \<open>The loop over the pages; \<open>n\<close> is \<open>page_count\<close> before the iteration.\<close>

function slack_thread_pages ::
  "server \<Rightarrow> str \<Rightarrow> str \<Rightarrow> str \<Rightarrow> str \<Rightarrow> str \<Rightarrow> dict list \<Rightarrow> str \<Rightarrow> str list \<Rightarrow> nat \<Rightarrow> dict list io" where
  "slack_thread_pages srv api_url bot_token channel_id thread_id current messages cursor seen n sent =
     (if MAX_THREAD_FETCH_PAGES < Suc n
      then (Inl (SlackAPIError ''Slack thread exceeded the pagination safety limit''), sent)
      else case slack_thread_page srv api_url bot_token channel_id thread_id current cursor sent of
             (Inl e, sent') \<Rightarrow> (Inl e, sent')
           | (Inr (page, next_cursor), sent') \<Rightarrow>
               if next_cursor = [] then (Inr (messages @ page), sent')
               else if next_cursor \<in> set seen
               then (Inl (SlackAPIError ''Slack thread returned a repeated pagination cursor''), sent')
               else slack_thread_pages srv api_url bot_token channel_id thread_id current
                      (messages @ page) next_cursor (seen @ [next_cursor]) (Suc n) sent')"
  by pat_completeness auto
termination
  by (relation "measure (\<lambda>(srv, a, t, c, th, cur, ms, cs, seen, n, sent). Suc MAX_THREAD_FETCH_PAGES - n)")
    (auto simp: MAX_THREAD_FETCH_PAGES_def)

declare slack_thread_pages.simps [simp del]

definition slack_messages :: "dict list \<Rightarrow> thread_message list" where
  "slack_messages messages = concat (map (\<lambda>m.
     let text = py_strip (text_or_empty (dget m ''text''))
     in if text = [] then []
        else [\<lparr>tm_message_id = text_or_empty (dget m ''ts''),
               tm_author = py_str (py_or (py_or (py_or (dget m ''user'') (dget m ''username'')) (dget m ''bot_id''))
                             (JStr ''unknown'')),
               tm_text = text\<rparr>]) messages)"

definition slack_fetch_thread_messages ::
  "server \<Rightarrow> str \<Rightarrow> str \<Rightarrow> str \<Rightarrow> str \<Rightarrow> str \<Rightarrow> nat \<Rightarrow> thread_message list io" where
  "slack_fetch_thread_messages srv api_url bot_token channel_id thread_id current_message_id limit =
     bind_io (slack_thread_pages srv api_url bot_token channel_id thread_id current_message_id [] [] [] 0)
       (\<lambda>messages. ret_io (Inr (slack_messages (last_items limit
          (sort_key (\<lambda>m. text_or_empty (dget m ''ts'')) messages)))))"

text \<open>
  Resolving a channel name pages through \<open>conversations.list\<close> with no limit on the pages: the
  loop ends only when the server stops handing out cursors, so it is a partial function.
\<close>

definition slack_channels_page :: "server \<Rightarrow> str \<Rightarrow> str \<Rightarrow> str \<Rightarrow> (json list \<times> str) io" where
  "slack_channels_page srv api_url bot_token cursor =
     bind_io (ret_io (api_base_url api_url)) (\<lambda>base.
     bind_io (ret_io (slack_headers bot_token)) (\<lambda>headers.
     bind_io (send srv \<lparr>rq_method = ''GET'', rq_url = base @ ''/conversations.list'',
         rq_params = [(''exclude_archived'', JStr ''true''), (''limit'', JInt 200),
                      (''types'', JStr ''public_channel,private_channel'')]
                     @ (if cursor \<noteq> [] then [(''cursor'', JStr cursor)] else []),
         rq_json = JNull, rq_headers = headers\<rparr>) (\<lambda>response.
     bind_io (checked_json response) (\<lambda>v.
     bind_io (ret_io (slack_payload ''Slack conversations.list failed'' v)) (\<lambda>payload.
     bind_io (ret_io (py_list (get_default payload ''channels'' (JList [])))) (\<lambda>channels.
       ret_io (Inr (channels, next_cursor_of payload))))))))"

fun channel_named :: "str \<Rightarrow> json list \<Rightarrow> str option" where
  "channel_named name [] = None"
| "channel_named name (JObj c # cs) =
     (if py_lower (py_strip (text_or_empty (dget c ''name''))) = py_lower name
      then Some (text_or_empty (dget c ''id'')) else channel_named name cs)"
| "channel_named name (v # cs) = channel_named name cs"

partial_function (option) slack_channel_pages ::
  "server \<Rightarrow> str \<Rightarrow> str \<Rightarrow> str \<Rightarrow> str \<Rightarrow> http_log \<Rightarrow> (str res \<times> http_log) option" where
  "slack_channel_pages srv api_url bot_token name cursor sent =
     (case slack_channels_page srv api_url bot_token cursor sent of
        (Inl e, sent') \<Rightarrow> Some (Inl e, sent')
      | (Inr (channels, next_cursor), sent') \<Rightarrow>
          (case channel_named name channels of
             Some i \<Rightarrow> Some (Inr i, sent')
           | None \<Rightarrow>
               if next_cursor = []
               then Some (Inl (SlackAPIError (''Slack channel '' @ [CHR 0x27] @ name @ [CHR 0x27]
                        @ '' was not found for the configured bot token'')), sent')
               else slack_channel_pages srv api_url bot_token name next_cursor sent'))"

definition slack_resolve_channel_id ::
  "server \<Rightarrow> str \<Rightarrow> str \<Rightarrow> str \<Rightarrow> str \<Rightarrow> http_log \<Rightarrow> (str res \<times> http_log) option" where
  "slack_resolve_channel_id srv api_url bot_token channel_id channel_name sent =
     (if channel_id \<noteq> [] then Some (Inr channel_id, sent)
      else let name = lstrip_hash (py_strip channel_name)
      in if name = [] then Some (Inl (SlackAPIError ''Slack channel_id or channel name is required''), sent)
      else if is_channel_id name then Some (Inr name, sent)
      else slack_channel_pages srv api_url bot_token name [] sent)"

section \<open>The message bus\<close>

text \<open>
  A bus is built from the route of a task and two callbacks over some state \<open>'t\<close> of its owner:
  \<open>get_thread_id\<close> reads the thread it posts to, \<open>set_thread_id\<close> stores the thread a first post
  opens. \<open>post_to_thread\<close> catches the provider's own errors and answers \<open>None\<close>; any other
  exception passes through.
\<close>

record message_ref =
  mr_id :: str
  mr_thread_id :: str
  mr_raw :: dict

record mattermost_bus =
  mm_api_url :: str
  mm_bot_token :: str
  mm_channel_id :: str
  mm_channel_name :: str
  mm_team_id :: str
  mm_team_name :: str

record slack_bus =
  sl_api_url :: str
  sl_bot_token :: str
  sl_channel :: str

datatype message_bus = MattermostMessageBus mattermost_bus | SlackMessageBus slack_bus

record 't thread_callbacks =
  get_thread_id :: "'t \<Rightarrow> str"
  set_thread_id :: "str \<Rightarrow> 't \<Rightarrow> 't"

type_synonym 't posted = "(message_ref option \<times> str \<times> 't) res \<times> http_log"

text \<open>
  The reference to a new post, and the callback that stores the thread it opened. The second
  component of a result is \<open>last_error\<close>.
\<close>

definition posted_ref :: "'t thread_callbacks \<Rightarrow> str \<Rightarrow> dict \<Rightarrow> 't \<Rightarrow> message_ref option \<times> str \<times> 't" where
  "posted_ref cb message_id raw st =
     (let thread_id = (if get_thread_id cb st \<noteq> [] then get_thread_id cb st else message_id)
      in (Some \<lparr>mr_id = message_id, mr_thread_id = thread_id, mr_raw = raw\<rparr>, [],
          if thread_id \<noteq> [] \<and> get_thread_id cb st = [] then set_thread_id cb thread_id st else st))"

fun mattermost_caught :: "'t \<Rightarrow> py_error \<Rightarrow> (message_ref option \<times> str \<times> 't) res" where
  "mattermost_caught st (MattermostAPIError m) = Inr (None, m, st)"
| "mattermost_caught st (HTTPError m) = Inr (None, m, st)"
| "mattermost_caught st e = Inl e"

fun slack_caught :: "'t \<Rightarrow> py_error \<Rightarrow> (message_ref option \<times> str \<times> 't) res" where
  "slack_caught st (SlackAPIError m) = Inr (None, [], st)"
| "slack_caught st (HTTPError m) = Inr (None, [], st)"
| "slack_caught st e = Inl e"

definition mattermost_post_to_thread ::
  "server \<Rightarrow> 't thread_callbacks \<Rightarrow> mattermost_bus \<Rightarrow> str \<Rightarrow> 't \<Rightarrow> http_log \<Rightarrow> 't posted" where
  "mattermost_post_to_thread srv cb b text st sent =
     (if mm_channel_name b = [] \<and> mm_channel_id b = []
      then (Inr (None, ''No Mattermost channel name or channel ID is available for this task'', st), sent)
      else if mm_bot_token b = []
      then (Inr (None, ''No Mattermost bot token is available for this task'', st), sent)
      else case mattermost_create_post srv (mm_api_url b) (mm_bot_token b) text (mm_channel_id b)
                  (mm_channel_name b) (mm_team_id b) (mm_team_name b) (get_thread_id cb st) None sent of
             (Inl e, sent') \<Rightarrow> (mattermost_caught st e, sent')
           | (Inr (JObj post), sent') \<Rightarrow>
               (Inr (posted_ref cb (text_or_empty (dget post ''id'')) post st), sent')
           | (Inr v, sent') \<Rightarrow> (Inl (AttributeError ''get''), sent'))"

definition slack_post_to_thread ::
  "server \<Rightarrow> 't thread_callbacks \<Rightarrow> slack_bus \<Rightarrow> str \<Rightarrow> 't \<Rightarrow> http_log \<Rightarrow> 't posted" where
  "slack_post_to_thread srv cb b text st sent =
     (if sl_channel b = [] \<or> sl_bot_token b = [] then (Inr (None, [], st), sent)
      else case slack_create_post srv (sl_api_url b) (sl_bot_token b) (sl_channel b) text
                  (get_thread_id cb st) None sent of
             (Inl e, sent') \<Rightarrow> (slack_caught st e, sent')
           | (Inr payload, sent') \<Rightarrow>
               (Inr (posted_ref cb (text_or_empty (dget payload ''ts'')) payload st), sent'))"

fun post_to_thread :: "server \<Rightarrow> 't thread_callbacks \<Rightarrow> message_bus \<Rightarrow> str \<Rightarrow> 't \<Rightarrow> http_log \<Rightarrow> 't posted" where
  "post_to_thread srv cb (MattermostMessageBus b) text st sent = mattermost_post_to_thread srv cb b text st sent"
| "post_to_thread srv cb (SlackMessageBus b) text st sent = slack_post_to_thread srv cb b text st sent"

definition build_message_bus ::
  "str \<Rightarrow> str \<Rightarrow> str \<Rightarrow> str \<Rightarrow> str \<Rightarrow> str \<Rightarrow> str \<Rightarrow> message_bus res" where
  "build_message_bus provider api_url bot_token channel_id channel_name team_id team_name =
     (let normalized = py_lower (py_strip provider)
      in if normalized = ''mattermost''
         then Inr (MattermostMessageBus \<lparr>mm_api_url = api_url, mm_bot_token = bot_token,
                mm_channel_id = channel_id, mm_channel_name = channel_name, mm_team_id = team_id,
                mm_team_name = team_name\<rparr>)
         else if normalized = ''slack''
         then Inr (SlackMessageBus \<lparr>sl_api_url = base_url (py_strip api_url), sl_bot_token = bot_token,
                sl_channel = (if channel_id \<noteq> [] then channel_id else channel_name)\<rparr>)
         else Inl (ValueError (''Unsupported message bus provider: '' @ repr_str provider)))"

text \<open>A one-shot post: the thread is fixed and storing a new one does nothing.\<close>

definition fixed_thread :: "str \<Rightarrow> unit thread_callbacks" where
  "fixed_thread thread_id = \<lparr>get_thread_id = \<lambda>_. thread_id, set_thread_id = \<lambda>_ u. u\<rparr>"

definition post_channel_message ::
  "server \<Rightarrow> str \<Rightarrow> str \<Rightarrow> str \<Rightarrow> str \<Rightarrow> str \<Rightarrow> str \<Rightarrow> str \<Rightarrow> str \<Rightarrow> str \<Rightarrow> message_ref option io" where
  "post_channel_message srv provider api_url bot_token text channel_id channel_name team_id team_name thread_root sent =
     (case build_message_bus provider api_url bot_token channel_id channel_name team_id team_name of
        Inl e \<Rightarrow> (Inl e, sent)
      | Inr bus \<Rightarrow> (case post_to_thread srv (fixed_thread thread_root) bus text () sent of
            (Inl e, sent') \<Rightarrow> (Inl e, sent')
          | (Inr (ref, _, _), sent') \<Rightarrow> (Inr ref, sent')))"

section \<open>How many requests an operation sends\<close>

definition sends :: "nat \<Rightarrow> 'a io \<Rightarrow> bool" where
  "sends k m \<longleftrightarrow> (\<forall>sent. \<exists>new. snd (m sent) = sent @ new \<and> length new \<le> k)"

lemma sends_ret_io [simp, intro]: "sends k (ret_io r)"
  by (simp add: sends_def ret_io_def)

lemma sends_send [intro]: "sends 1 (send srv rq)"
  by (simp add: sends_def send_def)

lemma sends_bind_io:
  assumes "sends k m" "\<And>x. sends l (f x)"
  shows "sends (k + l) (bind_io m f)"
  unfolding sends_def
proof
  fix sent
  from assms(1) obtain new where new: "snd (m sent) = sent @ new" "length new \<le> k"
    unfolding sends_def by blast
  show "\<exists>new. snd (bind_io m f sent) = sent @ new \<and> length new \<le> k + l"
  proof (cases "fst (m sent)")
    case (Inl e)
    with new show ?thesis by (cases "m sent") (auto simp: bind_io_def intro!: exI [of _ new])
  next
    case (Inr x)
    from assms(2) obtain more where "snd (f x (sent @ new)) = (sent @ new) @ more" "length more \<le> l"
      unfolding sends_def by blast
    with Inr new show ?thesis
      by (cases "m sent") (auto simp: bind_io_def intro!: exI [of _ "new @ more"])
  qed
qed

lemma sends_mono: "sends k m \<Longrightarrow> k \<le> l \<Longrightarrow> sends l m"
  unfolding sends_def by (meson le_trans)

lemma sends_ret_bind: "(\<And>x. sends k (f x)) \<Longrightarrow> sends k (bind_io (ret_io r) f)"
  using sends_bind_io [of 0 "ret_io r" k f] by simp

lemma sends_bind_ret: "sends k m \<Longrightarrow> (\<And>x. sends 0 (f x)) \<Longrightarrow> sends k (bind_io m f)"
  using sends_bind_io [of k m 0 f] by simp

lemma sends_checked_json [simp, intro]: "sends k (checked_json r)"
  by (simp add: checked_json_def)

lemma sends_slack_call: "sends 1 (slack_call srv api_url bot_token meth body)"
  unfolding slack_call_def
  by (intro sends_ret_bind sends_bind_ret sends_send sends_checked_json sends_ret_io)

lemma sends_slack_thread_page:
  "sends 1 (slack_thread_page srv api_url bot_token channel_id thread_id current cursor)"
  unfolding slack_thread_page_def by (intro sends_bind_ret sends_slack_call sends_ret_io)

lemma sends_slack_channels_page: "sends 1 (slack_channels_page srv api_url bot_token cursor)"
  unfolding slack_channels_page_def
  by (intro sends_ret_bind sends_bind_ret sends_send sends_checked_json sends_ret_io)

lemma sends_length: "sends k m \<Longrightarrow> m sent = (r, sent') \<Longrightarrow> length sent' \<le> length sent + k"
  unfolding sends_def by (metis add_le_cancel_left length_append snd_conv)

lemma slack_thread_pages_sends:
  "length (snd (slack_thread_pages srv api_url tok ch th cur messages cursor seen n sent))
     \<le> length sent + (MAX_THREAD_FETCH_PAGES - n)"
proof (induction srv api_url tok ch th cur messages cursor seen n sent rule: slack_thread_pages.induct)
  case (1 srv api_url tok ch th cur messages cursor seen n sent)
  obtain r sent' where page: "slack_thread_page srv api_url tok ch th cur cursor sent = (r, sent')"
    by (cases "slack_thread_page srv api_url tok ch th cur cursor sent")
  have len: "length sent' \<le> length sent + 1"
    using sends_length [OF sends_slack_thread_page page] .
  show ?case
  proof (cases "MAX_THREAD_FETCH_PAGES < Suc n")
    case True
    then show ?thesis by (subst slack_thread_pages.simps) simp
  next
    case open_limit: False
    show ?thesis
    proof (cases r)
      case (Inl e)
      with open_limit page len show ?thesis by (subst slack_thread_pages.simps) simp
    next
      case (Inr pn)
      obtain p nc where pn: "pn = (p, nc)" by (cases pn)
      show ?thesis
      proof (cases "nc = [] \<or> nc \<in> set seen")
        case True
        with open_limit page len Inr pn show ?thesis by (subst slack_thread_pages.simps) auto
      next
        case False
        with 1 [OF open_limit page [symmetric] Inr pn [symmetric]] open_limit page len Inr pn show ?thesis
          by (subst slack_thread_pages.simps) auto
      qed
    qed
  qed
qed

lemma length_last_items: "0 < limit \<Longrightarrow> length (last_items limit xs) \<le> limit"
  by (simp add: last_items_def)

lemma length_concat_map_le: "(\<And>x. length (f x) \<le> 1) \<Longrightarrow> length (concat (map f xs)) \<le> length xs"
  by (induction xs) (auto simp: add_le_mono [of _ 1, simplified])

lemma slack_messages_facts:
  "length (slack_messages ms) \<le> length ms" "m \<in> set (slack_messages ms) \<Longrightarrow> tm_text m \<noteq> []"
  unfolding slack_messages_def Let_def by (rule length_concat_map_le) (auto split: if_splits)

text \<open>
  C27. Fetching a Slack thread always ends: whatever the server answers, at most
  fifty requests are sent. When it succeeds it gives at most \<open>limit\<close> messages, none of them
  empty.
\<close>

theorem slack_thread_fetch_bounded:
  assumes "0 < limit"
    and "slack_fetch_thread_messages srv api_url bot_token channel_id thread_id current limit sent = (r, sent')"
  shows "length sent' \<le> length sent + 50
    \<and> (case r of Inl e \<Rightarrow> True | Inr ms \<Rightarrow> length ms \<le> limit \<and> list_all (\<lambda>m. tm_text m \<noteq> []) ms)"
proof
  let ?pages = "slack_thread_pages srv api_url bot_token channel_id thread_id current [] [] [] 0"
  have "length (snd (?pages sent)) \<le> length sent + 50"
    using slack_thread_pages_sends [of srv api_url bot_token channel_id thread_id current "[]" "[]" "[]" 0 sent]
    by (simp add: MAX_THREAD_FETCH_PAGES_def)
  with assms(2) show "length sent' \<le> length sent + 50"
    by (auto simp: slack_fetch_thread_messages_def bind_io_def ret_io_def split: prod.splits sum.splits)
  show "case r of Inl e \<Rightarrow> True | Inr ms \<Rightarrow> length ms \<le> limit \<and> list_all (\<lambda>m. tm_text m \<noteq> []) ms"
  proof (cases r)
    case (Inr ms)
    with assms(2) obtain xs where "ms = slack_messages (last_items limit xs)"
      by (auto simp: slack_fetch_thread_messages_def bind_io_def ret_io_def split: prod.splits sum.splits)
    moreover have "length (slack_messages (last_items limit xs)) \<le> limit"
      using slack_messages_facts(1) length_last_items [OF assms(1)] by (rule le_trans)
    ultimately show ?thesis
      using Inr slack_messages_facts(2) by (simp add: list_all_iff)
  qed simp
qed

definition demo_slack_server :: server where
  "demo_slack_server sent rq = Response 200 (Some (JObj
     [(''ok'', JBool True),
      (''messages'', JList [JObj [(''ts'', JStr ''17.1''), (''user'', JStr ''U1''), (''text'', JStr '' disk full '')]]),
      (''response_metadata'', JObj [(''next_cursor'', JStr (if length sent < 2 then str_of_nat (length sent) else []))]),
      (''channels'', JList [JObj [(''name'', JStr ''Ops''), (''id'', JStr ''C42'')]])]))"

lemmas slack_eval = slack_call_def bind_io_def ret_io_def send_def checked_json_def raise_for_status_def
  response_json_def slack_payload_def api_base_url_def base_url_def rstrip_chars_def slack_headers_def
  next_cursor_of_def objects_def dget_def get_default_def

lemma demo_slack_page:
  "slack_thread_page demo_slack_server ''http://s'' ''t'' ''C1'' ''17.1'' ''17.2'' cursor sent =
     (Inr ([[(''ts'', JStr ''17.1''), (''user'', JStr ''U1''), (''text'', JStr '' disk full '')]],
           if length sent < 2 then str_of_nat (length sent) else []),
      sent @ [\<lparr>rq_method = ''POST'', rq_url = ''http://s/conversations.replies'', rq_params = [],
        rq_json = JObj ([(''channel'', JStr ''C1''), (''ts'', JStr ''17.1''), (''latest'', JStr ''17.2''),
         (''inclusive'', JBool True), (''limit'', JInt 100)]
        @ (if cursor \<noteq> [] then [(''cursor'', JStr cursor)] else [])),
        rq_headers = [(''Authorization'', JStr ''Bearer t'')]\<rparr>])"
  by (simp add: slack_thread_page_def slack_eval demo_slack_server_def py_strip_def py_rstrip_def
      py_lstrip_def py_isspace_def)

theorem slack_thread_fetch_bounded_witness:
  "(case slack_fetch_thread_messages demo_slack_server ''http://s'' ''t'' ''C1'' ''17.1'' ''17.2'' 10 [] of
      (r, sent') \<Rightarrow> length sent' = 3 \<and> length sent' \<le> 50 \<and>
        r = Inr (replicate 3 \<lparr>tm_message_id = ''17.1'', tm_author = ''U1'', tm_text = ''disk full''\<rparr>))"
proof -
  define x where "x = slack_fetch_thread_messages demo_slack_server ''http://s'' ''t'' ''C1'' ''17.1'' ''17.2'' 10 []"
  have "fst x = Inr (replicate 3 \<lparr>tm_message_id = ''17.1'', tm_author = ''U1'', tm_text = ''disk full''\<rparr>)"
    and "length (snd x) = 3"
    unfolding x_def slack_fetch_thread_messages_def
    by (simp_all add: bind_io_def ret_io_def slack_thread_pages.simps demo_slack_page MAX_THREAD_FETCH_PAGES_def
        str_of_nat.simps digit_char_def last_items_def slack_messages_def dget_def get_default_def
        py_strip_def py_rstrip_def py_lstrip_def py_isspace_def py_or_def numeral_3_eq_3)
  then show ?thesis
    using slack_thread_fetch_bounded [of 10 demo_slack_server "''http://s''" "''t''" "''C1''" "''17.1''" "''17.2''" "[]"
        "fst x" "snd x"]
    unfolding x_def [symmetric] by (cases x) auto
qed

section \<open>Looking up a Slack channel\<close>

definition endless :: "server \<Rightarrow> str \<Rightarrow> str \<Rightarrow> str \<Rightarrow> bool" where
  "endless srv api_url tok name \<longleftrightarrow> (\<forall>c s. \<exists>chans nc s'.
     slack_channels_page srv api_url tok c s = (Inr (chans, nc), s') \<and> channel_named name chans = None \<and> nc \<noteq> [])"

lemma slack_channel_pages_stuck:
  assumes "slack_channel_pages srv api_url tok name cursor sent = Some y"
  shows "\<not> endless srv api_url tok name"
proof (rule slack_channel_pages.raw_induct
    [where P = "\<lambda>srv api_url tok name cursor sent y. \<not> endless srv api_url tok name", OF _ assms])
  fix f srv api_url tok name cursor sent y
  assume step: "\<And>srv api_url tok name cursor sent y. f srv api_url tok name cursor sent = Some y \<Longrightarrow>
      \<not> endless srv api_url tok name"
    and body: "(case slack_channels_page srv api_url tok cursor sent of
        (Inl e, sent') \<Rightarrow> Some (Inl e, sent')
      | (Inr (channels, next_cursor), sent') \<Rightarrow>
          (case channel_named name channels of
             Some i \<Rightarrow> Some (Inr i, sent')
           | None \<Rightarrow>
               if next_cursor = []
               then Some (Inl (SlackAPIError (''Slack channel '' @ [CHR 0x27] @ name @ [CHR 0x27]
                        @ '' was not found for the configured bot token'')), sent')
               else f srv api_url tok name next_cursor sent')) = Some y"
  show "\<not> endless srv api_url tok name"
  proof
    assume all: "endless srv api_url tok name"
    then obtain chans nc s' where "slack_channels_page srv api_url tok cursor sent = (Inr (chans, nc), s')"
      "channel_named name chans = None" "nc \<noteq> []" unfolding endless_def by blast
    with body have "f srv api_url tok name nc s' = Some y" by simp
    from step [OF this] all show False by contradiction
  qed
qed

lemma slack_channel_pages_returns:
  assumes "\<And>c s chans nc s'. m \<le> length s \<Longrightarrow> slack_channels_page srv api_url tok c s = (Inr (chans, nc), s') \<Longrightarrow> nc = []"
    and "\<And>c s r s'. slack_channels_page srv api_url tok c s = (r, s') \<Longrightarrow> length s < length s' \<or> (\<exists>e. r = Inl e)"
  shows "\<exists>r sent'. slack_channel_pages srv api_url tok name cursor sent = Some (r, sent')"
proof (induction "m - length sent" arbitrary: cursor sent rule: less_induct)
  case less
  obtain r s' where page: "slack_channels_page srv api_url tok cursor sent = (r, s')"
    by (cases "slack_channels_page srv api_url tok cursor sent")
  show ?case
  proof (cases r)
    case (Inl e)
    with page show ?thesis by (subst slack_channel_pages.simps) simp
  next
    case (Inr cn)
    obtain chans nc where cn: "cn = (chans, nc)" by (cases cn)
    show ?thesis
    proof (cases "nc = []")
      case True
      with page Inr cn show ?thesis by (subst slack_channel_pages.simps) (simp split: option.split)
    next
      case False
      with assms(1) [of sent] page Inr cn have "length sent < m" by fastforce
      moreover have "length sent < length s'" using assms(2) [OF page] Inr by blast
      ultimately have "m - length s' < m - length sent" by simp
      from less [OF this] page Inr cn False show ?thesis
        by (subst slack_channel_pages.simps) (simp split: option.split)
    qed
  qed
qed

lemma slack_channels_page_sends:
  "slack_channels_page srv api_url tok c s = (r, s') \<Longrightarrow> length s < length s' \<or> (\<exists>e. r = Inl e)"
  unfolding slack_channels_page_def
  by (auto simp: bind_io_def ret_io_def send_def checked_json_def split: prod.splits sum.splits http_response.splits)

text \<open>
  Looking up a Slack channel by name returns once the server stops handing out
  cursors, here after \<open>m\<close> requests; against a server that keeps handing them out and never lists
  the name it runs forever (the value \<open>None\<close>), as this loop has none of the limits of the
  thread loop.
\<close>

lemma slack_channel_lookup_ends:
  assumes "is_channel_id (lstrip_hash (py_strip name)) = False" "lstrip_hash (py_strip name) \<noteq> []"
  shows "((\<forall>c s. m \<le> length s \<longrightarrow>
            (case fst (slack_channels_page srv api_url tok c s) of Inl e \<Rightarrow> True | Inr (chans, nc) \<Rightarrow> nc = []))
           \<longrightarrow> (\<exists>r sent'. slack_resolve_channel_id srv api_url tok [] name sent = Some (r, sent')))
       \<and> ((\<forall>c s. case fst (slack_channels_page srv api_url tok c s) of Inl e \<Rightarrow> False
                 | Inr (chans, nc) \<Rightarrow> channel_named (lstrip_hash (py_strip name)) chans = None \<and> nc \<noteq> [])
           \<longrightarrow> slack_resolve_channel_id srv api_url tok [] name sent = None)"
    (is "(?ends \<longrightarrow> _) \<and> (?goes_on \<longrightarrow> _)")
proof (intro conjI impI)
  assume ends: ?ends
  have "\<exists>r sent'. slack_channel_pages srv api_url tok (lstrip_hash (py_strip name)) [] sent = Some (r, sent')"
  proof (rule slack_channel_pages_returns [OF _ slack_channels_page_sends])
    fix c s chans nc s'
    assume "m \<le> length s" "slack_channels_page srv api_url tok c s = (Inr (chans, nc), s')"
    with ends show "nc = []" by (metis (mono_tags, lifting) fst_conv old.prod.case sum.case(2))
  qed
  with assms show "\<exists>r sent'. slack_resolve_channel_id srv api_url tok [] name sent = Some (r, sent')"
    by (simp add: slack_resolve_channel_id_def)
next
  assume on: ?goes_on
  have "endless srv api_url tok (lstrip_hash (py_strip name))"
    unfolding endless_def
  proof (intro allI)
    fix c s
    show "\<exists>chans nc s'. slack_channels_page srv api_url tok c s = (Inr (chans, nc), s')
            \<and> channel_named (lstrip_hash (py_strip name)) chans = None \<and> nc \<noteq> []"
      using on [rule_format, of c s] by (cases "slack_channels_page srv api_url tok c s") (auto split: sum.splits)
  qed
  with slack_channel_pages_stuck
  have "slack_channel_pages srv api_url tok (lstrip_hash (py_strip name)) [] sent = None"
    by (metis not_None_eq)
  with assms show "slack_resolve_channel_id srv api_url tok [] name sent = None"
    by (simp add: slack_resolve_channel_id_def)
qed

definition demo_cursor_server :: server where
  "demo_cursor_server sent rq = Response 200 (Some (JObj
     [(''ok'', JBool True), (''response_metadata'', JObj [(''next_cursor'', JStr ''again'')])]))"

lemma demo_channel_pages:
  "fst (slack_channels_page demo_cursor_server ''http://s'' ''t'' c s) = Inr ([], ''again'')"
  "fst (slack_channels_page demo_slack_server ''http://s'' ''t'' c s) =
     Inr ([JObj [(''name'', JStr ''Ops''), (''id'', JStr ''C42'')]],
          if length s < 2 then str_of_nat (length s) else [])"
  by (simp_all add: slack_channels_page_def slack_eval demo_slack_server_def demo_cursor_server_def
      py_strip_def py_rstrip_def py_lstrip_def py_isspace_def)

lemma slack_channel_lookup_ends_witness:
  "slack_resolve_channel_id demo_cursor_server ''http://s'' ''t'' [] ''#ops'' [] = None
   \<and> (\<exists>r sent'. slack_resolve_channel_id demo_slack_server ''http://s'' ''t'' [] ''#ops'' [] = Some (r, sent'))"
proof -
  have name: "lstrip_hash (py_strip ''#ops'') = ''ops''" "is_channel_id ''ops'' = False"
    by (simp_all add: lstrip_hash_def py_strip_def py_rstrip_def py_lstrip_def py_isspace_def is_channel_id_def)
  show ?thesis
    using slack_channel_lookup_ends [of "''#ops''" 2 demo_slack_server "''http://s''" "''t''" "[]"]
      slack_channel_lookup_ends [of "''#ops''" 2 demo_cursor_server "''http://s''" "''t''" "[]"]
    unfolding name demo_channel_pages by auto
qed

section \<open>The text of a Mattermost post\<close>

lemma append_post_text_facts:
  assumes "distinct vals" "[] \<notin> set vals"
  shows "distinct (append_post_text label v vals) \<and> [] \<notin> set (append_post_text label v vals)"
  using assms by (auto simp: append_post_text_def Let_def split: json.split)

lemma fold_facts:
  assumes "\<And>x vals. distinct vals \<and> [] \<notin> set vals \<Longrightarrow> distinct (f x vals) \<and> [] \<notin> set (f x vals)"
  shows "distinct vals \<and> [] \<notin> set vals \<Longrightarrow> distinct (fold f xs vals) \<and> [] \<notin> set (fold f xs vals)"
  using assms by (induction xs arbitrary: vals) auto

lemma attachment_text_facts:
  assumes "distinct vals \<and> [] \<notin> set vals"
  shows "distinct (attachment_text a vals) \<and> [] \<notin> set (attachment_text a vals)"
proof -
  have field: "distinct (field_text f vs) \<and> [] \<notin> set (field_text f vs)"
    if "distinct vs \<and> [] \<notin> set vs" for f vs
    using that append_post_text_facts by (auto simp: field_text_def split: json.split)
  have named: "distinct (fold (\<lambda>k. append_post_text [] (dget d k)) ks vals)
      \<and> [] \<notin> set (fold (\<lambda>k. append_post_text [] (dget d k)) ks vals)" for d ks
    using assms append_post_text_facts by (intro fold_facts) auto
  show ?thesis
    using assms fold_facts [of field_text, OF field] named
    by (simp add: attachment_text_def Let_def split: json.split)
qed

lemma post_values_facts: "distinct (post_values post) \<and> [] \<notin> set (post_values post)"
  using fold_facts [of attachment_text, OF attachment_text_facts]
    append_post_text_facts [of "[]" "[]" "dget post ''message''"]
  by (simp add: post_values_def Let_def split: json.split)

lemma py_rstrip_prefix: "prefix (py_rstrip s) s"
  unfolding py_rstrip_def by (metis prefixI rev_append rev_rev_ident takeWhile_dropWhile_id)

text \<open>
  The visible text of a Mattermost post is bounded: the message and the texts of
  its attachments, each once and none empty, joined by line breaks, are cut to 32,000 characters,
  and the flag says exactly whether something was cut.
\<close>

lemma normalize_post_text_bounded:
  "case normalize_post_text post of (text, truncated) \<Rightarrow>
     length text \<le> 32000 \<and> prefix text (py_join nl (post_values post))
     \<and> distinct (post_values post) \<and> [] \<notin> set (post_values post)
     \<and> (truncated \<longleftrightarrow> 32000 < length (py_join nl (post_values post)))
     \<and> (truncated \<or> text = py_join nl (post_values post))"
proof -
  let ?s = "py_join nl (post_values post)"
  have cut: "prefix (py_rstrip (take 32000 ?s)) (take 32000 ?s)" by (rule py_rstrip_prefix)
  then have "length (py_rstrip (take 32000 ?s)) \<le> 32000"
    using prefix_length_le [OF cut] by simp
  with cut post_values_facts [of post] show ?thesis
    using prefix_order.trans [OF cut take_is_prefix]
    by (simp add: normalize_post_text_def MAX_NORMALIZED_MESSAGE_CHARS_def Let_def)
qed

section \<open>Posting through the bus\<close>

lemma mattermost_caught_Some [simp]: "mattermost_caught st e \<noteq> Inr (Some ref, x)"
  by (cases e) auto

lemma slack_caught_Some [simp]: "slack_caught st e \<noteq> Inr (Some ref, x)"
  by (cases e) auto

text \<open>
  What a bus promises its owner, whichever provider is behind it: a successful post answers with a
  reference computed from the owner's thread. The thread facts are proved once from that.
\<close>

locale thread_bus =
  fixes cb :: "'t thread_callbacks"
    and post :: "str \<Rightarrow> 't \<Rightarrow> http_log \<Rightarrow> 't posted"
  assumes posted: "post text st sent = (Inr (Some ref, err, st'), sent') \<Longrightarrow>
    \<exists>mid raw. posted_ref cb mid raw st = (Some ref, err, st')"
begin

lemma thread_of_post:
  assumes "post text st sent = (Inr (Some ref, err, st'), sent')"
  shows "mr_thread_id ref = (if get_thread_id cb st = [] then mr_id ref else get_thread_id cb st)"
  using posted [OF assms] by (auto simp: posted_ref_def Let_def)

lemma thread_kept:
  assumes "post text st sent = (Inr (Some ref, err, st'), sent')" "get_thread_id cb st \<noteq> []"
  shows "st' = st"
  using posted [OF assms(1)] assms(2) by (auto simp: posted_ref_def Let_def)

lemma thread_opened:
  assumes "post text st sent = (Inr (Some ref, err, st'), sent')" "mr_thread_id ref \<noteq> []"
    and "\<And>t s. get_thread_id cb (set_thread_id cb t s) = t"
  shows "get_thread_id cb st' = mr_thread_id ref"
  using posted [OF assms(1)] assms(2,3) by (auto simp: posted_ref_def Let_def split: if_splits)

end

interpretation mattermost_thread: thread_bus cb "mattermost_post_to_thread srv cb b" for srv cb b
  by unfold_locales (auto simp: mattermost_post_to_thread_def split: if_splits prod.splits sum.splits json.splits)

interpretation slack_thread: thread_bus cb "slack_post_to_thread srv cb b" for srv cb b
  by unfold_locales (auto simp: slack_post_to_thread_def split: if_splits prod.splits sum.splits)

interpretation bus: thread_bus cb "post_to_thread srv cb b" for srv cb b
proof
  show "\<exists>mid raw. posted_ref cb mid raw st = (Some ref, err, st')"
    if "post_to_thread srv cb b msg st sent = (Inr (Some ref, err, st'), sent')" for msg st sent ref err st' sent'
    using that mattermost_thread.posted slack_thread.posted by (cases b) auto
qed

text \<open>
  Posts through a message bus stay in one thread: a post that succeeds leaves the
  owner's thread at the one the post belongs to (the post itself when it was the first), and every
  later successful post, whatever bus sends it, belongs to the same thread.
\<close>

lemma bus_posts_stay_in_thread:
  fixes cb :: "'t thread_callbacks"
  assumes law: "\<And>t s. get_thread_id cb (set_thread_id cb t s) = t"
    and first: "post_to_thread srv cb bus text st sent = (Inr (Some ref, err, st1), sent1)"
    and thread: "mr_thread_id ref \<noteq> []"
    and later: "post_to_thread srv' cb bus' text' st1 sent2 = (Inr (Some ref', err', st2), sent3)"
  shows "get_thread_id cb st1 = mr_thread_id ref \<and> mr_thread_id ref' = mr_thread_id ref \<and> st2 = st1
    \<and> (mr_thread_id ref = (if get_thread_id cb st = [] then mr_id ref else get_thread_id cb st))"
proof -
  have now: "get_thread_id cb st1 = mr_thread_id ref" by (rule bus.thread_opened [OF first thread law])
  with thread have "get_thread_id cb st1 \<noteq> []" by simp
  with now bus.thread_kept [OF later] bus.thread_of_post [OF later] bus.thread_of_post [OF first]
  show ?thesis by simp
qed

definition demo_callbacks :: "str thread_callbacks" where
  "demo_callbacks = \<lparr>get_thread_id = \<lambda>s. s, set_thread_id = \<lambda>t s. t\<rparr>"

definition demo_post_server :: server where
  "demo_post_server sent rq = Response 200 (Some (JObj
     [(''ok'', JBool True), (''ts'', JStr (''17.'' @ str_of_nat (length sent)))]))"

lemma str_of_nat_0: "str_of_nat 0 = ''0''"
  by code_simp

lemma demo_posts:
  "fst (post_to_thread demo_post_server demo_callbacks
      (SlackMessageBus \<lparr>sl_api_url = ''http://s'', sl_bot_token = ''t'', sl_channel = ''C1''\<rparr>) text st sent) =
   Inr (posted_ref demo_callbacks (''17.'' @ str_of_nat (length sent))
     [(''ok'', JBool True), (''ts'', JStr (''17.'' @ str_of_nat (length sent)))] st)"
  by (simp add: slack_post_to_thread_def slack_create_post_def slack_eval demo_post_server_def
      py_strip_def py_rstrip_def py_lstrip_def py_isspace_def)

lemma bus_posts_stay_in_thread_witness:
  "(let bus = SlackMessageBus \<lparr>sl_api_url = ''http://s'', sl_bot_token = ''t'', sl_channel = ''C1''\<rparr>;
        (r1, sent1) = post_to_thread demo_post_server demo_callbacks bus ''hello'' [] [];
        (r2, sent2) = post_to_thread demo_post_server demo_callbacks bus ''again'' ''17.0'' sent1
    in \<exists>ref1 ref2. r1 = Inr (Some ref1, [], ''17.0'') \<and> r2 = Inr (Some ref2, [], ''17.0'')
         \<and> mr_thread_id ref2 = mr_thread_id ref1)"
proof -
  let ?bus = "SlackMessageBus \<lparr>sl_api_url = ''http://s'', sl_bot_token = ''t'', sl_channel = ''C1''\<rparr>"
  obtain r1 sent1 where one: "post_to_thread demo_post_server demo_callbacks ?bus ''hello'' [] [] = (r1, sent1)"
    by fastforce
  obtain r2 sent2 where two: "post_to_thread demo_post_server demo_callbacks ?bus ''again'' ''17.0'' sent1 = (r2, sent2)"
    by fastforce
  obtain ref1 where r1: "r1 = Inr (Some ref1, [], ''17.0'')" "mr_thread_id ref1 \<noteq> []"
    using demo_posts [of "''hello''" "[]" "[]"] one
    by (auto simp: posted_ref_def demo_callbacks_def str_of_nat_0 Let_def)
  obtain ref2 where r2: "r2 = Inr (Some ref2, [], ''17.0'')"
    using demo_posts [of "''again''" "''17.0''" sent1] two
    by (auto simp: posted_ref_def demo_callbacks_def)
  have "mr_thread_id ref2 = mr_thread_id ref1"
    using bus_posts_stay_in_thread [OF _ one [unfolded r1] r1(2) two [unfolded r2]]
    by (simp add: demo_callbacks_def)
  with one two r1 r2 show ?thesis by simp
qed

end
