(* ===== verification/Message_Ingress.thy ===== *)
theory Message_Ingress
  imports Message_Apis Json_Text Sha256
begin

text \<open>
  What arrives from a message provider: the normalized events of
  \<open>shared/lib/message_ingress.py\<close> with the two parsers that produce them, the frames of a
  connection, and the alert envelopes of \<open>shared/lib/alert_envelope.py\<close>. The regular expressions
  of the alert parser are written out as matching functions; where a greedy repetition can give
  characters back, the alternatives are tried in the order the matcher tries them.
\<close>

section \<open>Normalized events\<close>

record inbound_message =
  im_provider :: str
  im_message_id :: str
  im_thread_id :: str
  im_channel_id :: str
  im_channel_name :: str
  im_team_id :: str
  im_team_name :: str
  im_user_id :: str
  im_username :: str
  im_text :: str
  im_created_at_ms :: int
  im_is_bot :: bool
  im_is_webhook :: bool
  im_webhook_id :: str
  im_webhook_name :: str
  im_text_truncated :: bool

record interactive_action =
  ia_provider :: str
  ia_action_id :: str
  ia_context :: dict
  ia_post_id :: str
  ia_channel_id :: str
  ia_team_id :: str
  ia_user_id :: str
  ia_username :: str

datatype message_event = InboundMessage inbound_message | InteractiveAction interactive_action

definition is_truthy :: "json \<Rightarrow> bool" where
  "is_truthy v = (case v of JBool b \<Rightarrow> b
     | _ \<Rightarrow> py_lower (py_strip (text_or_empty v)) \<in> set [''1'', ''true'', ''yes''])"

text \<open>\<open>data.get("post")\<close> is the post itself or its JSON text.\<close>

definition event_post :: "dict \<Rightarrow> dict option" where
  "event_post data =
     (case dget data ''post'' of
        JStr raw \<Rightarrow> (case json_loads raw of Some (JObj post) \<Rightarrow> Some post | _ \<Rightarrow> None)
      | JObj post \<Rightarrow> Some post
      | _ \<Rightarrow> None)"

definition mattermost_inbound :: "dict \<Rightarrow> dict \<Rightarrow> dict \<Rightarrow> str \<Rightarrow> int \<Rightarrow> inbound_message" where
  "mattermost_inbound data broadcast post message_id created =
     (let props = obj_or_empty (dget post ''props''); (text, truncated) = normalize_post_text post
      in \<lparr>im_provider = ''mattermost'', im_message_id = message_id,
          im_thread_id = py_str (py_or (dget post ''root_id'') (JStr message_id)),
          im_channel_id = text_or_empty (py_or (dget post ''channel_id'') (dget broadcast ''channel_id'')),
          im_channel_name = text_or_empty (dget data ''channel_name''),
          im_team_id = text_or_empty (py_or (dget data ''team_id'') (dget broadcast ''team_id'')),
          im_team_name = text_or_empty (dget data ''team_name''),
          im_user_id = text_or_empty (py_or (dget post ''user_id'') (dget broadcast ''user_id'')),
          im_username = text_or_empty (dget data ''sender_name''),
          im_text = text, im_created_at_ms = created,
          im_is_bot = is_truthy (dget props ''from_bot''),
          im_is_webhook = is_truthy (dget props ''from_webhook''),
          im_webhook_id = py_strip (text_or_empty (dget props ''webhook_id'')),
          im_webhook_name = py_strip (text_or_empty
            (py_or (dget props ''webhook_display_name'') (dget props ''override_username''))),
          im_text_truncated = truncated\<rparr>)"

definition parse_mattermost_websocket_event :: "dict \<Rightarrow> inbound_message option res" where
  "parse_mattermost_websocket_event payload =
     (if dget payload ''event'' \<noteq> JStr ''posted'' then Inr None
      else case (dget payload ''data'', dget payload ''broadcast'') of
          (JObj data, JObj broadcast) \<Rightarrow>
            (case event_post data of
               None \<Rightarrow> Inr None
             | Some post \<Rightarrow>
                 let message_id = text_or_empty (dget post ''id'')
                 in if message_id = [] then Inr None
                    else bind_res (py_int (py_or (dget post ''create_at'') (JInt 0))) (\<lambda>created.
                      Inr (Some (mattermost_inbound data broadcast post message_id created))))
        | _ \<Rightarrow> Inr None)"

definition slack_inbound :: "dict \<Rightarrow> dict \<Rightarrow> str \<Rightarrow> inbound_message" where
  "slack_inbound body event message_id =
     \<lparr>im_provider = ''slack'', im_message_id = message_id,
      im_thread_id = py_str (py_or (dget event ''thread_ts'') (JStr message_id)),
      im_channel_id = text_or_empty (dget event ''channel''),
      im_channel_name = text_or_empty (dget event ''channel''),
      im_team_id = text_or_empty (dget body ''team_id''), im_team_name = [],
      im_user_id = text_or_empty (dget event ''user''), im_username = text_or_empty (dget event ''user''),
      im_text = py_strip (text_or_empty (dget event ''text'')), im_created_at_ms = 0,
      im_is_bot = truthy (py_or (dget event ''bot_id'') (dget event ''subtype'')),
      im_is_webhook = False, im_webhook_id = [], im_webhook_name = [], im_text_truncated = False\<rparr>"

definition action_context :: "dict \<Rightarrow> dict" where
  "action_context action =
     (case dget action ''value'' of
        JStr raw \<Rightarrow> (case json_loads raw of Some v \<Rightarrow> obj_or_empty v | None \<Rightarrow> [])
      | v \<Rightarrow> obj_or_empty v)"

definition slack_action :: "dict \<Rightarrow> dict \<Rightarrow> interactive_action" where
  "slack_action body action =
     (let container = obj_or_empty (dget body ''container''); channel = obj_or_empty (dget body ''channel'');
          team = obj_or_empty (dget body ''team''); user = obj_or_empty (dget body ''user'')
      in \<lparr>ia_provider = ''slack'', ia_action_id = text_or_empty (dget action ''action_id''),
          ia_context = action_context action, ia_post_id = text_or_empty (dget container ''message_ts''),
          ia_channel_id = text_or_empty (dget channel ''id''), ia_team_id = text_or_empty (dget team ''id''),
          ia_user_id = text_or_empty (dget user ''id''),
          ia_username = text_or_empty (py_or (py_or (dget user ''username'') (dget user ''name'')) (dget user ''id''))\<rparr>)"

definition parse_slack_socket_envelope :: "dict \<Rightarrow> message_event option" where
  "parse_slack_socket_envelope payload =
     (let envelope_type = text_or_empty (dget payload ''type'')
      in case dget payload ''payload'' of
           JObj body \<Rightarrow>
             if envelope_type = ''events_api''
             then (case dget body ''event'' of
                     JObj event \<Rightarrow>
                       if dget event ''type'' \<noteq> JStr ''message'' then None
                       else let message_id = text_or_empty (dget event ''ts'')
                            in if message_id = [] then None
                               else Some (InboundMessage (slack_inbound body event message_id))
                   | _ \<Rightarrow> None)
             else if envelope_type \<noteq> ''interactive'' \<or> dget body ''type'' \<noteq> JStr ''block_actions'' then None
             else (case dget body ''actions'' of
                     JList (JObj action # _) \<Rightarrow> Some (InteractiveAction (slack_action body action))
                   | _ \<Rightarrow> None)
         | _ \<Rightarrow> None)"

section \<open>Connections\<close>

text \<open>
  \<open>urlparse\<close> as far as the scheme and the network location go, and \<open>urlunparse\<close> of the
  WebSocket address.
\<close>

definition is_alpha :: "char \<Rightarrow> bool" where
  "is_alpha c = (let n = (of_char c :: nat) in (65 \<le> n \<and> n \<le> 90) \<or> (97 \<le> n \<and> n \<le> 122))"

definition url_scheme :: "str \<Rightarrow> str \<times> str" where
  "url_scheme url =
     (let s = takeWhile (\<lambda>c. c \<noteq> CHR '':'') url; r = drop (length s) url
      in if r \<noteq> [] \<and> s \<noteq> [] \<and> is_alpha (hd s)
            \<and> list_all (\<lambda>c. is_alpha c \<or> py_isdigit c \<or> c \<in> set ''+-.'') s
         then (py_lower s, tl r) else ([], url))"

definition url_netloc :: "str \<Rightarrow> str res" where
  "url_netloc rest =
     (if py_startswith rest ''//''
      then let n = takeWhile (\<lambda>c. c \<notin> set ''/?#'') (drop 2 rest)
           in if (CHR ''['' \<in> set n) \<noteq> (CHR '']'' \<in> set n) then Inl (ValueError ''Invalid IPv6 URL'') else Inr n
      else Inr [])"

definition mattermost_websocket_url :: "str \<Rightarrow> str res" where
  "mattermost_websocket_url api_url =
     (let (scheme, rest) = url_scheme (base_url api_url)
      in bind_res (url_netloc rest) (\<lambda>netloc.
         Inr ((if scheme = ''https'' then ''wss'' else ''ws'') @ ''://'' @ netloc @ ''/api/v4/websocket'')))"

text \<open>
  One frame of a connection: text that is not JSON is discarded; a Slack envelope is
  acknowledged before its event is handled. An exception ends the connection.
\<close>

definition mattermost_frame :: "str \<Rightarrow> message_event option res" where
  "mattermost_frame raw =
     (case json_loads raw of
        None \<Rightarrow> Inr None
      | Some (JObj payload) \<Rightarrow>
          (case parse_mattermost_websocket_event payload of
             Inl (TypeError m) \<Rightarrow> Inr None
           | Inl e \<Rightarrow> Inl e
           | Inr ev \<Rightarrow> Inr (map_option InboundMessage ev))
      | Some v \<Rightarrow> Inl (AttributeError ''get''))"

definition slack_frame :: "str \<Rightarrow> (str option \<times> message_event option) res" where
  "slack_frame raw =
     (case json_loads raw of
        None \<Rightarrow> Inr (None, None)
      | Some (JObj envelope) \<Rightarrow>
          let envelope_id = text_or_empty (dget envelope ''envelope_id'')
          in Inr (if envelope_id = [] then None
                  else Some (json_dumps (JObj [(''envelope_id'', JStr envelope_id)])),
                  parse_slack_socket_envelope envelope)
      | Some v \<Rightarrow> Inl (AttributeError ''get''))"

definition slack_open_connection :: "server \<Rightarrow> str \<Rightarrow> str \<Rightarrow> str io" where
  "slack_open_connection srv api_url app_token =
     (if base_url api_url = [] then ret_io (Inl (RuntimeError ''Slack API URL is required''))
      else bind_io (send srv \<lparr>rq_method = ''POST'', rq_url = base_url api_url @ ''/apps.connections.open'',
              rq_params = [], rq_json = JNull,
              rq_headers = [(''Authorization'', JStr (''Bearer '' @ app_token))]\<rparr>) (\<lambda>response.
           bind_io (checked_json response) (\<lambda>v.
             ret_io (case v of
                 JObj payload \<Rightarrow>
                   if \<not> truthy (dget payload ''ok'') \<or> \<not> truthy (dget payload ''url'')
                   then Inl (RuntimeError (''Slack apps.connections.open failed: ''
                          @ py_str (get_default payload ''error'' (JStr ''unknown error''))))
                   else Inr (py_str (dget payload ''url''))
               | _ \<Rightarrow> Inl (AttributeError ''get'')))))"

datatype ingress_listener =
    MattermostWebSocketIngress str str
  | SlackSocketModeIngress str str

definition build_message_ingress :: "str \<Rightarrow> str \<Rightarrow> str \<Rightarrow> str \<Rightarrow> ingress_listener res" where
  "build_message_ingress provider api_url bot_token app_token =
     (let normalized = py_lower (py_strip provider)
      in if normalized = ''mattermost'' then Inr (MattermostWebSocketIngress api_url bot_token)
         else if normalized = ''slack'' then Inr (SlackSocketModeIngress (base_url api_url) app_token)
         else Inl (ValueError (''Unsupported message bus provider: '' @ provider)))"

section \<open>Alert envelopes\<close>

record alert_envelope =
  ae_version :: int
  ae_source :: str
  ae_identity :: str
  ae_state :: str
  ae_account :: str
  ae_region :: str
  ae_environment :: str

definition ALERT_ENVELOPE_VERSION :: int where
  "ALERT_ENVELOPE_VERSION = 1"

definition as_metadata :: "alert_envelope \<Rightarrow> dict" where
  "as_metadata e = [(''version'', JInt (ae_version e)), (''source'', JStr (ae_source e)),
     (''identity'', JStr (ae_identity e)), (''state'', JStr (ae_state e)), (''account'', JStr (ae_account e)),
     (''region'', JStr (ae_region e)), (''environment'', JStr (ae_environment e))]"

definition canonical_identity :: "str \<Rightarrow> alert_envelope \<Rightarrow> str" where
  "canonical_identity workflow e = py_join [CHR 0x1F]
     [py_lower (py_strip workflow), ae_source e, ae_account e, ae_region e, ae_environment e,
      py_lower (ae_identity e), str_of_int (ae_version e)]"

definition envelope_coalesce_key :: "alert_envelope \<Rightarrow> str \<Rightarrow> str" where
  "envelope_coalesce_key e workflow =
     ''alert:v'' @ str_of_int (ae_version e) @ '':'' @ sha256_hexdigest (canonical_identity workflow e)"

definition canonical_state :: "str \<Rightarrow> str" where
  "canonical_state v =
     (let normalized = py_lower (py_strip v)
      in if normalized \<in> set [''alarm'', ''alert'', ''firing'', ''triggered''] then ''firing''
         else if normalized \<in> set [''ok'', ''resolved'', ''recovered'', ''recovery''] then ''recovery''
         else ''unknown'')"

text \<open>
  \<open>(?im)^label\s*([^stop]+)\<close>: at the start of a line, the label in any case, whitespace taken
  greedily and given back one character at a time until the group can start.
\<close>

definition starts_ci :: "str \<Rightarrow> str \<Rightarrow> bool" where
  "starts_ci s p = (py_lower (take (length p) s) = py_lower p)"

fun give_back :: "char set \<Rightarrow> nat \<Rightarrow> str \<Rightarrow> str option" where
  "give_back stop k s =
     (let t = drop k s
      in if t \<noteq> [] \<and> hd t \<notin> stop then Some (takeWhile (\<lambda>c. c \<notin> stop) t)
         else case k of 0 \<Rightarrow> None | Suc j \<Rightarrow> give_back stop j s)"

definition match_label :: "str \<Rightarrow> char set \<Rightarrow> str \<Rightarrow> str option" where
  "match_label label stop s =
     (if starts_ci s label
      then let r = drop (length label) s in give_back stop (length (takeWhile py_isspace r)) r
      else None)"

fun search_lines :: "(str \<Rightarrow> 'a option) \<Rightarrow> bool \<Rightarrow> str \<Rightarrow> 'a option" where
  "search_lines m at_start s =
     (case (if at_start then m s else None) of
        Some x \<Rightarrow> Some x
      | None \<Rightarrow> (case s of [] \<Rightarrow> None | c # r \<Rightarrow> search_lines m (c = CHR 0x0A) r))"

definition line_end :: "char set" where
  "line_end = {CHR 0x0D, CHR 0x0A}"

definition search_label :: "str \<Rightarrow> char set \<Rightarrow> str \<Rightarrow> str option" where
  "search_label label stop = search_lines (match_label label stop) True"

definition is_word_char :: "char \<Rightarrow> bool" where
  "is_word_char c = (let n = (of_char c :: nat)
     in py_isdigit c \<or> is_alpha c \<or> n = 95 \<or> n \<in> set [170, 178, 179, 181, 185, 186, 188, 189, 190]
        \<or> (192 \<le> n \<and> n \<noteq> 215 \<and> n \<noteq> 247))"

definition value_char :: "char \<Rightarrow> bool" where
  "value_char c = (c \<noteq> CHR '','' \<and> \<not> py_isspace c)"

text \<open>\<open>.*?\benvironment=([^,\s]+)\<close> after the label, within the line.\<close>

fun match_environment :: "char \<Rightarrow> str \<Rightarrow> str option" where
  "match_environment prev s =
     (let v = takeWhile value_char (drop 12 s)
      in if \<not> is_word_char prev \<and> starts_ci s ''environment='' \<and> v \<noteq> [] then Some v
         else case s of [] \<Rightarrow> None | c # r \<Rightarrow> if c = CHR 0x0A then None else match_environment c r)"

definition match_labels :: "str \<Rightarrow> str option" where
  "match_labels s = (if starts_ci s ''Labels:'' then match_environment (CHR '':'') (drop 7 s) else None)"

definition search_environment :: "str \<Rightarrow> str option" where
  "search_environment = search_lines match_labels True"

text \<open>\<open>arn:aws:cloudwatch:(region):(account):alarm:(name)\<close>, anywhere in the text.\<close>

definition match_alarm_arn :: "str \<Rightarrow> (str \<times> str \<times> str) option" where
  "match_alarm_arn s =
     (if starts_ci s ''arn:aws:cloudwatch:''
      then let r = drop 19 s;
               region = takeWhile (\<lambda>c. is_alpha c \<or> py_isdigit c \<or> c = CHR ''-'') r;
               r1 = drop (length region) r; account = take 12 (drop 1 r1);
               r2 = drop 13 r1; name = takeWhile value_char (drop 7 r2)
           in if region \<noteq> [] \<and> starts_ci r1 '':'' \<and> length account = 12 \<and> list_all py_isdigit account
                 \<and> starts_ci r2 '':alarm:'' \<and> name \<noteq> []
              then Some (region, account, name) else None
      else None)"

fun search_alarm_arn :: "str \<Rightarrow> (str \<times> str \<times> str) option" where
  "search_alarm_arn s =
     (case match_alarm_arn s of
        Some x \<Rightarrow> Some x
      | None \<Rightarrow> (case s of [] \<Rightarrow> None | c # r \<Rightarrow> search_alarm_arn r))"

declare give_back.simps [simp del] search_lines.simps [simp del] match_environment.simps [simp del]
  search_alarm_arn.simps [simp del]

definition splunk_envelope :: "str \<Rightarrow> alert_envelope" where
  "splunk_envelope identity = \<lparr>ae_version = ALERT_ENVELOPE_VERSION, ae_source = ''splunk'', ae_identity = identity,
     ae_state = ''firing'', ae_account = [], ae_region = [], ae_environment = []\<rparr>"

definition aws_envelope :: "str \<Rightarrow> str \<Rightarrow> (str \<times> str \<times> str) option \<Rightarrow> alert_envelope" where
  "aws_envelope body identity arn =
     \<lparr>ae_version = ALERT_ENVELOPE_VERSION, ae_source = ''aws'', ae_identity = identity,
      ae_state = canonical_state (opt_str (search_label ''Status:'' line_end body)),
      ae_account = (case arn of Some (region, account, name) \<Rightarrow> account | None \<Rightarrow> []),
      ae_region = (case arn of Some (region, account, name) \<Rightarrow> py_lower region | None \<Rightarrow> []),
      ae_environment = (case search_environment body of Some v \<Rightarrow> py_lower (py_strip v) | None \<Rightarrow> [])\<rparr>"

definition parse_alert_envelope :: "str \<Rightarrow> alert_envelope option" where
  "parse_alert_envelope text =
     (let body = py_strip text
      in if body = [] then None
         else case search_label ''Splunk alert:'' (insert (CHR ''('') line_end) body of
           Some g \<Rightarrow> (let identity = py_strip g in if identity = [] then None else Some (splunk_envelope identity))
         | None \<Rightarrow>
             let arn = search_alarm_arn body; name = search_label ''Alertname:'' line_end body
             in if arn = None \<and> name = None then None
                else let identity = py_strip (case name of Some g \<Rightarrow> g
                             | None \<Rightarrow> (case arn of Some (region, account, n) \<Rightarrow> n | None \<Rightarrow> []))
                     in if identity = [] then None else Some (aws_envelope body identity arn))"

section \<open>When two alerts are the same\<close>

lemma takeWhile_avoid: "\<not> P c \<Longrightarrow> c \<notin> set (takeWhile P s)"
  by (auto dest: set_takeWhileD)

lemma set_py_strip: "set (py_strip s) \<subseteq> set s"
  unfolding py_strip_def py_rstrip_def py_lstrip_def by (auto dest!: set_dropWhileD)

lemma py_lower_char_control: "(of_char c :: nat) < 65 \<Longrightarrow> py_lower_char d = c \<Longrightarrow> d = c"
  by (auto simp: py_lower_char_def Let_def split: if_splits)

lemma py_lower_avoid: "(of_char c :: nat) < 65 \<Longrightarrow> c \<notin> set s \<Longrightarrow> c \<notin> set (py_lower s)"
  by (auto simp: py_lower_def dest!: py_lower_char_control)

lemma append_sep_inject:
  assumes "c \<notin> set a" "c \<notin> set b"
  shows "a @ c # x = b @ c # y \<longleftrightarrow> a = b \<and> x = y"
  using assms
proof (induction a arbitrary: b)
  case Nil
  then show ?case by (cases b) auto
next
  case (Cons z zs)
  then show ?case by (cases b) auto
qed

lemma search_lines_Some: "search_lines m st s = Some x \<Longrightarrow> \<exists>t. m t = Some x"
  by (induction m st s rule: search_lines.induct) (subst (asm) (2) search_lines.simps, auto split: option.splits list.splits if_splits)

lemma match_environment_Some: "match_environment b s = Some v \<Longrightarrow> \<exists>t. v = takeWhile value_char t"
proof (induction b s rule: match_environment.induct)
  case (1 b s)
  then show ?case
    by (subst (asm) (2) match_environment.simps) (auto simp: Let_def split: if_splits list.splits)
qed

lemma search_environment_avoid:
  assumes "search_environment s = Some v" shows "CHR 0x1F \<notin> set v"
proof -
  obtain t where "match_labels t = Some v"
    using search_lines_Some assms unfolding search_environment_def by metis
  then obtain u where "v = takeWhile value_char u"
    using match_environment_Some by (auto simp: match_labels_def split: if_splits)
  then show ?thesis by (simp add: takeWhile_avoid value_char_def py_isspace_def)
qed

lemma search_alarm_arn_Some: "search_alarm_arn s = Some x \<Longrightarrow> \<exists>t. match_alarm_arn t = Some x"
  by (induction s rule: search_alarm_arn.induct) (subst (asm) (2) search_alarm_arn.simps, auto split: option.splits list.splits)

lemma search_alarm_arn_avoid:
  assumes "search_alarm_arn s = Some (region, account, name)"
  shows "CHR 0x1F \<notin> set region" "CHR 0x1F \<notin> set account"
proof -
  obtain t where "match_alarm_arn t = Some (region, account, name)"
    using search_alarm_arn_Some [OF assms] by blast
  then obtain u where "region = takeWhile (\<lambda>c. is_alpha c \<or> py_isdigit c \<or> c = CHR ''-'') u" "list_all py_isdigit account"
    unfolding match_alarm_arn_def Let_def by (simp split: if_splits) blast
  then show "CHR 0x1F \<notin> set region" "CHR 0x1F \<notin> set account"
    by (auto simp: is_alpha_def py_isdigit_def list_all_iff Let_def dest!: set_takeWhileD)
qed

text \<open>The fields of a parsed envelope never contain the separator of the canonical text.\<close>

definition separated :: "alert_envelope \<Rightarrow> bool" where
  "separated e \<longleftrightarrow> ae_version e = ALERT_ENVELOPE_VERSION \<and> CHR 0x1F \<notin> set (ae_source e)
     \<and> CHR 0x1F \<notin> set (ae_account e) \<and> CHR 0x1F \<notin> set (ae_region e) \<and> CHR 0x1F \<notin> set (ae_environment e)"

lemma separated_aws:
  assumes "search_alarm_arn body = arn" shows "separated (aws_envelope body identity arn)"
proof -
  have "CHR 0x1F \<notin> set (case arn of Some (region, account, name) \<Rightarrow> account | None \<Rightarrow> [])"
    "CHR 0x1F \<notin> set (case arn of Some (region, account, name) \<Rightarrow> py_lower region | None \<Rightarrow> [])"
    using search_alarm_arn_avoid [of body] assms
    by (cases arn; auto simp: py_lower_avoid)+
  moreover have "CHR 0x1F \<notin> set (py_lower (py_strip v))" if "search_environment body = Some v" for v
    using search_environment_avoid [OF that] set_py_strip [of v] by (intro py_lower_avoid) auto
  ultimately show ?thesis
    by (auto simp: separated_def aws_envelope_def split: option.split)
qed

lemma separated_splunk: "separated (splunk_envelope identity)"
  by (simp add: separated_def splunk_envelope_def)

lemma parse_alert_separated: "parse_alert_envelope text = Some e \<Longrightarrow> separated e"
  using separated_aws separated_splunk
  by (auto simp: parse_alert_envelope_def Let_def simp del: not_None_eq split: option.splits if_splits)

lemma canonical_identity_inject:
  assumes "separated e1" "separated e2" "CHR 0x1F \<notin> set w1" "CHR 0x1F \<notin> set w2"
  shows "canonical_identity w1 e1 = canonical_identity w2 e2 \<longleftrightarrow>
    py_lower (py_strip w1) = py_lower (py_strip w2) \<and> ae_source e1 = ae_source e2
    \<and> ae_account e1 = ae_account e2 \<and> ae_region e1 = ae_region e2
    \<and> ae_environment e1 = ae_environment e2 \<and> py_lower (ae_identity e1) = py_lower (ae_identity e2)"
proof -
  have "CHR 0x1F \<notin> set (py_lower (py_strip w))" if "CHR 0x1F \<notin> set w" for w
    using that set_py_strip by (intro py_lower_avoid) auto
  with assms show ?thesis
    by (simp add: canonical_identity_def separated_def append_sep_inject)
qed

text \<open>
  Two alerts share a coalescing key exactly when they are the same alert: same
  workflow, source, account, region and environment and, up to letter case, the same name. Neither
  the state of the alert nor any other part of the text matters. The digest is assumed not to
  collide on the two canonical texts.
\<close>

lemma alert_key_identifies:
  assumes "parse_alert_envelope t1 = Some e1" "parse_alert_envelope t2 = Some e2"
    and "CHR 0x1F \<notin> set w1" "CHR 0x1F \<notin> set w2"
    and "sha256_hexdigest (canonical_identity w1 e1) = sha256_hexdigest (canonical_identity w2 e2)
         \<Longrightarrow> canonical_identity w1 e1 = canonical_identity w2 e2"
  shows "envelope_coalesce_key e1 w1 = envelope_coalesce_key e2 w2 \<longleftrightarrow>
    py_lower (py_strip w1) = py_lower (py_strip w2) \<and> ae_source e1 = ae_source e2
    \<and> ae_account e1 = ae_account e2 \<and> ae_region e1 = ae_region e2
    \<and> ae_environment e1 = ae_environment e2 \<and> py_lower (ae_identity e1) = py_lower (ae_identity e2)"
proof -
  have s: "separated e1" "separated e2" using assms parse_alert_separated by auto
  then have "ae_version e1 = ae_version e2" by (simp add: separated_def)
  then have "envelope_coalesce_key e1 w1 = envelope_coalesce_key e2 w2 \<longleftrightarrow>
      canonical_identity w1 e1 = canonical_identity w2 e2"
    using assms(5) by (auto simp: envelope_coalesce_key_def)
  with canonical_identity_inject [OF s assms(3,4)] show ?thesis by simp
qed

definition demo_firing :: str where
  "demo_firing = ''Alertname: CPU'' @ nl @ ''Status: Alarm''"

definition demo_recovered :: str where
  "demo_recovered = ''alertname: cpu'' @ nl @ ''Status: ok''"

lemmas alert_eval = parse_alert_envelope_def search_label_def search_lines.simps match_label_def starts_ci_def
  give_back.simps line_end_def py_strip_def py_lstrip_def py_rstrip_def py_isspace_def py_lower_def
  py_lower_char_def match_alarm_arn_def search_alarm_arn.simps aws_envelope_def canonical_state_def
  search_environment_def match_labels_def ALERT_ENVELOPE_VERSION_def nl_def

lemma demo_alerts:
  "parse_alert_envelope demo_firing = Some \<lparr>ae_version = 1, ae_source = ''aws'', ae_identity = ''CPU'',
     ae_state = ''firing'', ae_account = [], ae_region = [], ae_environment = []\<rparr>"
  "parse_alert_envelope demo_recovered = Some \<lparr>ae_version = 1, ae_source = ''aws'', ae_identity = ''cpu'',
     ae_state = ''recovery'', ae_account = [], ae_region = [], ae_environment = []\<rparr>"
  unfolding demo_firing_def demo_recovered_def by (simp_all add: alert_eval opt_str_def Let_def char_of_letter)

lemma alert_key_identifies_witness:
  "\<exists>e1 e2. parse_alert_envelope demo_firing = Some e1 \<and> parse_alert_envelope demo_recovered = Some e2
     \<and> ae_state e1 = ''firing'' \<and> ae_state e2 = ''recovery''
     \<and> envelope_coalesce_key e1 ''sre'' = envelope_coalesce_key e2 '' SRE''"
proof -
  have same: "py_lower (py_strip ''sre'') = ''sre''" "py_lower (py_strip '' SRE'') = ''sre''"
    "py_lower ''CPU'' = ''cpu''" "py_lower ''cpu'' = ''cpu''"
    by code_simp+
  show ?thesis
    using alert_key_identifies [OF demo_alerts, of "''sre''" "'' SRE''"] demo_alerts
    by (simp add: same canonical_identity_def)
qed

end
