(* ===== verification/Regex.thy ===== *)
theory Regex
  imports Prelude
begin

text \<open>
  \<open>re.compile\<close> and \<open>re.search(pattern, text, flags=re.IGNORECASE)\<close> for the patterns a messaging
  rule may use: no groups, alternatives, counted or possessive repetitions. What is left are
  characters, classes, escapes, anchors and the repetitions \<open>*\<close> and \<open>?\<close>, greedy or lazy. A
  pattern the compiler rejects parses to \<open>None\<close>.
\<close>

section \<open>Syntax\<close>

datatype class_item = One char | Range char char | Category char | Never

datatype atom = AnyChar | Class bool "class_item list"

datatype anchor = AtBeginning | AtEnd | AtEndString | AtBoundary | AtNonBoundary

datatype node = Anchor anchor | Single atom | Star bool atom | Opt bool atom

datatype escape = EAnchor anchor | ECategory char | EChar char | ENever

definition is_octdigit :: "char \<Rightarrow> bool" where
  "is_octdigit c = (let n = (of_char c :: nat) in 48 \<le> n \<and> n \<le> 55)"

definition is_ascii_letter :: "char \<Rightarrow> bool" where
  "is_ascii_letter c = (let n = (of_char c :: nat) in (65 \<le> n \<and> n \<le> 90) \<or> (97 \<le> n \<and> n \<le> 122))"

definition oct_value :: "str \<Rightarrow> nat" where
  "oct_value = foldl (\<lambda>acc c. 8 * acc + digit_val c) 0"

text \<open>\<open>\x\<close>, \<open>\u\<close> and \<open>\U\<close> with exactly \<open>n\<close> hexadecimal digits.\<close>

definition hex_escape :: "nat \<Rightarrow> str \<Rightarrow> (escape \<times> str) option" where
  "hex_escape n r =
     (if length (take n r) = n
      then case hex_nat 0 (take n r) of
             None \<Rightarrow> None
           | Some k \<Rightarrow> if k < 256 then Some (EChar (char_of k), drop n r)
                       else if k < 1114112 then Some (ENever, drop n r) else None
      else None)"

fun control_escape :: "char \<Rightarrow> char option" where
  "control_escape c =
     (if c = CHR ''a'' then Some (CHR 0x07) else if c = CHR ''f'' then Some (CHR 0x0C)
      else if c = CHR ''n'' then Some (CHR 0x0A) else if c = CHR ''r'' then Some (CHR 0x0D)
      else if c = CHR ''t'' then Some (CHR 0x09) else if c = CHR ''v'' then Some (CHR 0x0B) else None)"

definition octal_escape :: "str \<Rightarrow> str \<Rightarrow> (escape \<times> str) option" where
  "octal_escape digits r = (if oct_value digits < 256 then Some (EChar (char_of (oct_value digits)), r) else None)"

text \<open>An escape outside a class, after the backslash; a group reference is an error here.\<close>

definition outer_escape :: "str \<Rightarrow> (escape \<times> str) option" where
  "outer_escape s =
     (case s of
        [] \<Rightarrow> None
      | c # r \<Rightarrow>
          if c = CHR ''A'' then Some (EAnchor AtBeginning, r)
          else if c = CHR ''Z'' then Some (EAnchor AtEndString, r)
          else if c = CHR ''b'' then Some (EAnchor AtBoundary, r)
          else if c = CHR ''B'' then Some (EAnchor AtNonBoundary, r)
          else if c \<in> set ''dDsSwW'' then Some (ECategory c, r)
          else if c = CHR ''x'' then hex_escape 2 r
          else if c = CHR ''u'' then hex_escape 4 r
          else if c = CHR ''U'' then hex_escape 8 r
          else if c = CHR ''0''
          then let k = length (takeWhile is_octdigit (take 2 r)) in octal_escape (take k r) (drop k r)
          else if py_isdigit c
          then if is_octdigit c \<and> length (take 2 r) = 2 \<and> list_all is_octdigit (take 2 r)
               then octal_escape (c # take 2 r) (drop 2 r) else None
          else case control_escape c of
                 Some k \<Rightarrow> Some (EChar k, r)
               | None \<Rightarrow> if is_ascii_letter c then None else Some (EChar c, r))"

definition class_escape :: "str \<Rightarrow> (escape \<times> str) option" where
  "class_escape s =
     (case s of
        [] \<Rightarrow> None
      | c # r \<Rightarrow>
          if c \<in> set ''dDsSwW'' then Some (ECategory c, r)
          else if c = CHR ''b'' then Some (EChar (CHR 0x08), r)
          else if c = CHR ''x'' then hex_escape 2 r
          else if c = CHR ''u'' then hex_escape 4 r
          else if c = CHR ''U'' then hex_escape 8 r
          else if is_octdigit c
          then let k = length (takeWhile is_octdigit (take 2 r)) in octal_escape (c # take k r) (drop k r)
          else if py_isdigit c then None
          else case control_escape c of
                 Some k \<Rightarrow> Some (EChar k, r)
               | None \<Rightarrow> if is_ascii_letter c then None else Some (EChar c, r))"

definition class_member :: "str \<Rightarrow> (escape \<times> str) option" where
  "class_member s = (case s of [] \<Rightarrow> None
     | c # r \<Rightarrow> if c = CHR 0x5C then class_escape r else Some (EChar c, r))"

fun single_item :: "escape \<Rightarrow> class_item" where
  "single_item (EChar c) = One c"
| "single_item (ECategory c) = Category c"
| "single_item e = Never"

text \<open>
  The members of a class up to its closing bracket, which is an ordinary member in the first
  place. \<open>fuel\<close> bounds the number of members, each of which takes a character of the pattern.
\<close>

fun class_items :: "nat \<Rightarrow> bool \<Rightarrow> str \<Rightarrow> (class_item list \<times> str) option" where
  "class_items 0 fresh s = None"
| "class_items (Suc fuel) fresh s =
     (if s \<noteq> [] \<and> hd s = CHR '']'' \<and> \<not> fresh then Some ([], tl s)
      else case class_member s of
        None \<Rightarrow> None
      | Some (lo, r) \<Rightarrow>
          if r \<noteq> [] \<and> hd r = CHR ''-''
          then if tl r \<noteq> [] \<and> hd (tl r) = CHR '']''
               then Some ([single_item lo, One (CHR ''-'')], tl (tl r))
               else (case class_member (tl r) of
                   None \<Rightarrow> None
                 | Some (hi, r') \<Rightarrow>
                     (case (lo, hi) of
                        (EChar a, EChar b) \<Rightarrow>
                          if (of_char b :: nat) < of_char a then None
                          else map_option (\<lambda>(is, q). (Range a b # is, q)) (class_items fuel False r')
                      | (EChar a, ENever) \<Rightarrow>
                          map_option (\<lambda>(is, q). (Range a (CHR 0xFF) # is, q)) (class_items fuel False r')
                      | (ENever, ENever) \<Rightarrow> map_option (\<lambda>(is, q). (Never # is, q)) (class_items fuel False r')
                      | _ \<Rightarrow> None))
          else map_option (\<lambda>(is, q). (single_item lo # is, q)) (class_items fuel False r))"

definition parse_class :: "str \<Rightarrow> (atom \<times> str) option" where
  "parse_class s =
     (let negated = (s \<noteq> [] \<and> hd s = CHR ''^''); r = (if negated then tl s else s)
      in map_option (\<lambda>(is, q). (Class negated is, q)) (class_items (Suc (length r)) True r))"

text \<open>One element of the pattern, without its repetition.\<close>

definition parse_element :: "str \<Rightarrow> (node \<times> str) option" where
  "parse_element s =
     (case s of
        [] \<Rightarrow> None
      | c # r \<Rightarrow>
          if c = CHR 0x5C
          then map_option (\<lambda>(e, q). (case e of EAnchor a \<Rightarrow> Anchor a | _ \<Rightarrow> Single (Class False [single_item e]), q))
                 (outer_escape r)
          else if c = CHR ''^'' then Some (Anchor AtBeginning, r)
          else if c = CHR ''$'' then Some (Anchor AtEnd, r)
          else if c = CHR ''.'' then Some (Single AnyChar, r)
          else if c = CHR ''['' then map_option (\<lambda>(a, q). (Single a, q)) (parse_class r)
          else if c \<in> set ''*?+'' then None
          else Some (Single (Class False [One c]), r))"

text \<open>
  A repetition follows an element that takes a character; a second one makes the pattern
  invalid, except the question mark that makes the first one lazy.
\<close>

definition parse_repeat :: "node \<Rightarrow> str \<Rightarrow> (node \<times> str) option" where
  "parse_repeat n s =
     (case s of
        c # r \<Rightarrow>
          if c \<in> set ''*?''
          then (case n of
                  Single a \<Rightarrow>
                    let lazy = (r \<noteq> [] \<and> hd r = CHR ''?''); q = (if lazy then tl r else r)
                    in if q \<noteq> [] \<and> hd q \<in> set ''*?+'' then None
                       else Some (if c = CHR ''*'' then Star (\<not> lazy) a else Opt (\<not> lazy) a, q)
                | _ \<Rightarrow> None)
          else Some (n, s)
      | [] \<Rightarrow> Some (n, s))"

fun parse_nodes :: "nat \<Rightarrow> str \<Rightarrow> node list option" where
  "parse_nodes 0 s = (if s = [] then Some [] else None)"
| "parse_nodes (Suc fuel) s =
     (if s = [] then Some []
      else case parse_element s of
        None \<Rightarrow> None
      | Some (n, r) \<Rightarrow> (case parse_repeat n r of
            None \<Rightarrow> None
          | Some (n', q) \<Rightarrow> map_option (Cons n') (parse_nodes fuel q)))"

definition re_compile :: "str \<Rightarrow> node list option" where
  "re_compile pattern = parse_nodes (length pattern) pattern"

section \<open>Matching\<close>

definition is_word :: "char \<Rightarrow> bool" where
  "is_word c = (let n = (of_char c :: nat)
     in py_isdigit c \<or> is_ascii_letter c \<or> n = 95 \<or> n \<in> set [170, 178, 179, 181, 185, 186, 188, 189, 190]
        \<or> (192 \<le> n \<and> n \<noteq> 215 \<and> n \<noteq> 247))"

definition in_category :: "char \<Rightarrow> char \<Rightarrow> bool" where
  "in_category k c =
     (if k = CHR ''d'' then py_isdigit c else if k = CHR ''D'' then \<not> py_isdigit c
      else if k = CHR ''s'' then py_isspace c else if k = CHR ''S'' then \<not> py_isspace c
      else if k = CHR ''w'' then is_word c else \<not> is_word c)"

text \<open>The case variants of a character.\<close>

definition py_upper_char :: "char \<Rightarrow> char" where
  "py_upper_char c = (let n = (of_char c :: nat)
     in if (97 \<le> n \<and> n \<le> 122) \<or> (224 \<le> n \<and> n \<le> 254 \<and> n \<noteq> 247) then char_of (n - 32) else c)"

fun item_has :: "class_item \<Rightarrow> char \<Rightarrow> bool" where
  "item_has (One d) c = (c = d)"
| "item_has (Range a b) c = ((of_char a :: nat) \<le> of_char c \<and> (of_char c :: nat) \<le> of_char b)"
| "item_has (Category k) c = in_category k c"
| "item_has Never c = False"

fun item_matches :: "class_item \<Rightarrow> char \<Rightarrow> bool" where
  "item_matches (Category k) c = in_category k c"
| "item_matches i c = (item_has i c \<or> item_has i (py_lower_char c) \<or> item_has i (py_upper_char c))"

fun atom_matches :: "atom \<Rightarrow> char \<Rightarrow> bool" where
  "atom_matches AnyChar c = (c \<noteq> CHR 0x0A)"
| "atom_matches (Class negated items) c = (negated \<noteq> list_ex (\<lambda>i. item_matches i c) items)"

definition word_at :: "str \<Rightarrow> bool" where
  "word_at s = (s \<noteq> [] \<and> is_word (hd s))"

text \<open>\<open>passed\<close> is the text the search has moved over, last character first.\<close>

fun anchor_holds :: "anchor \<Rightarrow> str \<Rightarrow> str \<Rightarrow> bool" where
  "anchor_holds AtBeginning passed s = (passed = [])"
| "anchor_holds AtEnd passed s = (s = [] \<or> s = [CHR 0x0A])"
| "anchor_holds AtEndString passed s = (s = [])"
| "anchor_holds AtBoundary passed s = (word_at passed \<noteq> word_at s)"
| "anchor_holds AtNonBoundary passed s = (word_at passed = word_at s)"

definition or_else :: "'a option \<Rightarrow> 'a option \<Rightarrow> 'a option" where
  "or_else x y = (case x of Some v \<Rightarrow> Some v | None \<Rightarrow> y)"

text \<open>What is left of the text after the first match the engine finds at this place.\<close>

fun match_nodes :: "node list \<Rightarrow> str \<Rightarrow> str \<Rightarrow> str option" where
  "match_nodes [] passed s = Some s"
| "match_nodes (Anchor a # ns) passed s = (if anchor_holds a passed s then match_nodes ns passed s else None)"
| "match_nodes (Single a # ns) passed [] = None"
| "match_nodes (Single a # ns) passed (c # s) =
     (if atom_matches a c then match_nodes ns (c # passed) s else None)"
| "match_nodes (Opt greedy a # ns) passed [] = match_nodes ns passed []"
| "match_nodes (Opt greedy a # ns) passed (c # s) =
     (if atom_matches a c
      then if greedy then or_else (match_nodes ns (c # passed) s) (match_nodes ns passed (c # s))
           else or_else (match_nodes ns passed (c # s)) (match_nodes ns (c # passed) s)
      else match_nodes ns passed (c # s))"
| "match_nodes (Star greedy a # ns) passed [] = match_nodes ns passed []"
| "match_nodes (Star greedy a # ns) passed (c # s) =
     (if atom_matches a c
      then if greedy then or_else (match_nodes (Star greedy a # ns) (c # passed) s) (match_nodes ns passed (c # s))
           else or_else (match_nodes ns passed (c # s)) (match_nodes (Star greedy a # ns) (c # passed) s)
      else match_nodes ns passed (c # s))"

fun search_nodes :: "node list \<Rightarrow> str \<Rightarrow> str \<Rightarrow> str option" where
  "search_nodes ns passed [] = match_nodes ns passed []"
| "search_nodes ns passed (c # s) = or_else (match_nodes ns passed (c # s)) (search_nodes ns (c # passed) s)"

text \<open>The result of a search is \<open>text[match.end():]\<close>.\<close>

definition re_search :: "str \<Rightarrow> str \<Rightarrow> str option res" where
  "re_search pattern text =
     (case re_compile pattern of
        None \<Rightarrow> Inl (PatternError pattern)
      | Some ns \<Rightarrow> Inr (search_nodes ns [] text))"

section \<open>A match leaves a suffix of the text\<close>

lemma match_nodes_suffix: "match_nodes ns passed s = Some r \<Longrightarrow> suffix r s"
  by (induction ns passed s rule: match_nodes.induct)
    (auto simp: or_else_def suffix_Cons split: if_splits option.splits)

lemma search_nodes_suffix: "search_nodes ns passed s = Some r \<Longrightarrow> suffix r s"
  by (induction ns passed s rule: search_nodes.induct)
    (auto simp: or_else_def suffix_Cons split: option.splits dest: match_nodes_suffix)

lemma re_search_suffix: "re_search pattern text = Inr (Some r) \<Longrightarrow> suffix r text"
  by (auto simp: re_search_def split: option.splits dest: search_nodes_suffix)

lemma re_search_total: "re_compile pattern \<noteq> None \<Longrightarrow> \<exists>r. re_search pattern text = Inr r"
  by (auto simp: re_search_def)

end
