(* ===== verification/Message_Routing.thy ===== *)
theory Message_Routing
  imports Task_Queue Message_Ingress Regex
begin

text \<open>
  From a message to a task: the routes workflows declare (\<open>gateway/plugin_dir.py\<close>) and the
  gateway's handling of an incoming event (\<open>gateway/message_ingress.py\<close>): which route a message
  takes, the reply to a waiting question, the hydration of a thread, the task that is created and
  the approval action of a Slack button.
\<close>

section \<open>Routes declared by workflows\<close>

record message_route =
  ro_workflow :: str
  ro_channel :: str
  ro_trigger_words :: "str list"
  ro_rule_id :: str
  ro_provider :: str
  ro_priority :: int
  ro_match_type :: str
  ro_pattern :: str
  ro_trusted_user_ids :: "str list"
  ro_trusted_webhook_ids :: "str list"
  ro_trusted_webhook_names :: "str list"
  ro_allow_bot :: bool
  ro_root_posts_only :: bool
  ro_preserve_full_body :: bool
  ro_allowed_accounts :: "str list"
  ro_allowed_environments :: "str list"
  ro_coalesce_window_sec :: int

definition messaging_config :: "dict \<Rightarrow> dict" where
  "messaging_config config = obj_or_empty (py_or (dget config ''messaging'') (JObj []))"

text \<open>\<open>str(v).strip()\<close> of each element of \<open>v or []\<close>, the empty ones left out.\<close>

definition stripped_items :: "json \<Rightarrow> str list res" where
  "stripped_items v = bind_res (py_list (py_or v (JList []))) (\<lambda>vs.
     Inr (filter (\<lambda>s. s \<noteq> []) (map (\<lambda>x. py_strip (py_str x)) vs)))"

definition trigger_words_of :: "dict \<Rightarrow> str list res" where
  "trigger_words_of messaging =
     bind_res (py_list (get_default messaging ''trigger_words'' (JList [JStr ''@agent'']))) (\<lambda>vs.
       Inr (filter (\<lambda>s. s \<noteq> []) (map (\<lambda>x. py_lower (py_strip (py_str x))) vs)))"

definition trigger_route :: "str \<Rightarrow> str list \<Rightarrow> int \<Rightarrow> str \<Rightarrow> message_route" where
  "trigger_route workflow triggers window channel =
     \<lparr>ro_workflow = workflow, ro_channel = channel, ro_trigger_words = triggers, ro_rule_id = [],
      ro_provider = [], ro_priority = 0, ro_match_type = ''prefix'', ro_pattern = [],
      ro_trusted_user_ids = [], ro_trusted_webhook_ids = [], ro_trusted_webhook_names = [],
      ro_allow_bot = False, ro_root_posts_only = False, ro_preserve_full_body = False,
      ro_allowed_accounts = [], ro_allowed_environments = [], ro_coalesce_window_sec = window\<rparr>"

definition channel_names :: "json list \<Rightarrow> str list" where
  "channel_names vs = filter (\<lambda>s. s \<noteq> []) (map (\<lambda>x. py_lower (py_strip (py_str x))) vs)"

definition trigger_routes :: "str \<Rightarrow> dict \<Rightarrow> str list \<Rightarrow> int \<Rightarrow> message_route list res" where
  "trigger_routes workflow messaging triggers window =
     bind_res (py_list (py_or (dget messaging ''channels'') (JList []))) (\<lambda>channels.
       Inr (if triggers = [] then [] else map (trigger_route workflow triggers window) (channel_names channels)))"

definition rule_enabled :: "dict \<Rightarrow> bool" where
  "rule_enabled rule = (get_default rule ''enabled'' (JBool True) \<noteq> JBool False)"

definition unsupported_syntax :: "str \<Rightarrow> bool" where
  "unsupported_syntax pattern = (list_ex (\<lambda>c. c \<in> set ''(){}|+'') pattern \<or> 8 < count_list pattern (CHR ''*''))"

text \<open>The identifier, match type and pattern of a rule, or the error that rejects it.\<close>

definition checked_rule :: "str \<Rightarrow> dict \<Rightarrow> (str \<times> str \<times> str) res" where
  "checked_rule workflow rule =
     (let rule_id = py_strip (text_or_empty (dget rule ''id''));
          m = obj_or_empty (dget rule ''match'');
          match_type = py_lower (py_strip (text_or_empty (dget m ''type'')));
          pattern = py_strip (text_or_empty (dget m ''pattern''));
          named = ''Workflow '' @ repr_str workflow @ '' messaging rule '' @ repr_str rule_id
      in if rule_id = [] \<or> match_type \<notin> set [''prefix'', ''regex''] \<or> pattern = []
         then Inl (ValueError (''Workflow '' @ repr_str workflow @ '' has an invalid messaging rule''))
         else if 256 < length pattern then Inl (ValueError (named @ '' pattern is too long''))
         else if match_type = ''regex'' \<and> unsupported_syntax pattern
         then Inl (ValueError (named @ '' uses unsupported regex syntax''))
         else if match_type = ''regex'' \<and> re_compile pattern = None
         then Inl (ValueError (named @ '' has invalid regex''))
         else Inr (rule_id, match_type, pattern))"

definition rule_route :: "str \<Rightarrow> dict \<Rightarrow> str \<times> str \<times> str \<Rightarrow> int \<Rightarrow> str \<Rightarrow> message_route res" where
  "rule_route workflow rule checked window channel =
     (let (rule_id, match_type, pattern) = checked;
          trusted = obj_or_empty (dget rule ''trusted_senders'');
          constraints = obj_or_empty (dget rule ''constraints'')
      in bind_res (py_int (py_or (dget rule ''priority'') (JInt 0))) (\<lambda>priority.
         bind_res (stripped_items (dget trusted ''user_ids'')) (\<lambda>user_ids.
         bind_res (stripped_items (dget trusted ''webhook_ids'')) (\<lambda>webhook_ids.
         bind_res (stripped_items (dget trusted ''webhook_names'')) (\<lambda>webhook_names.
         bind_res (stripped_items (dget constraints ''accounts'')) (\<lambda>accounts.
         bind_res (stripped_items (dget constraints ''environments'')) (\<lambda>environments.
         Inr \<lparr>ro_workflow = workflow, ro_channel = channel, ro_trigger_words = [], ro_rule_id = rule_id,
              ro_provider = py_lower (py_strip (text_or_empty (dget rule ''provider''))),
              ro_priority = priority, ro_match_type = match_type, ro_pattern = pattern,
              ro_trusted_user_ids = user_ids, ro_trusted_webhook_ids = webhook_ids,
              ro_trusted_webhook_names = webhook_names,
              ro_allow_bot = truthy (get_default rule ''allow_bot'' (JBool False)),
              ro_root_posts_only = truthy (get_default rule ''root_posts_only'' (JBool False)),
              ro_preserve_full_body = truthy (get_default rule ''preserve_full_body'' (JBool False)),
              ro_allowed_accounts = accounts, ro_allowed_environments = map py_lower environments,
              ro_coalesce_window_sec = window\<rparr>)))))))"

fun map_res :: "('a \<Rightarrow> 'b res) \<Rightarrow> 'a list \<Rightarrow> 'b list res" where
  "map_res f [] = Inr []"
| "map_res f (x # xs) = bind_res (f x) (\<lambda>y. bind_res (map_res f xs) (\<lambda>ys. Inr (y # ys)))"

definition routes_of_rule :: "str \<Rightarrow> dict \<Rightarrow> int \<Rightarrow> json \<Rightarrow> message_route list res" where
  "routes_of_rule workflow messaging window raw_rule =
     (case raw_rule of
        JObj rule \<Rightarrow>
          if \<not> rule_enabled rule then Inr []
          else bind_res (checked_rule workflow rule) (\<lambda>checked.
               bind_res (py_list (py_or (py_or (dget rule ''channels'') (dget messaging ''channels'')) (JList [])))
                 (\<lambda>channels. map_res (rule_route workflow rule checked window) (channel_names channels)))
      | _ \<Rightarrow> Inr [])"

definition workflow_routes :: "str \<Rightarrow> dict \<Rightarrow> message_route list res" where
  "workflow_routes workflow config =
     (let messaging = messaging_config config; runtime = obj_or_empty (dget config ''runtime'')
      in bind_res (py_int (get_default runtime ''alert_coalesce_window_sec'' (JInt 300))) (\<lambda>window.
         bind_res (trigger_words_of messaging) (\<lambda>triggers.
         bind_res (trigger_routes workflow messaging triggers window) (\<lambda>by_trigger.
         bind_res (py_list (py_or (dget messaging ''rules'') (JList []))) (\<lambda>rules.
         bind_res (map_res (routes_of_rule workflow messaging window) rules) (\<lambda>by_rule.
           Inr (by_trigger @ concat by_rule)))))))"

definition message_routes :: "(str \<times> dict) list \<Rightarrow> message_route list res" where
  "message_routes workflows =
     bind_res (map_res (\<lambda>(workflow, config). workflow_routes workflow config) workflows) (\<lambda>rs. Inr (concat rs))"

section \<open>Matching a message\<close>

definition MAX_ROUTE_INPUT_CHARS :: nat where
  "MAX_ROUTE_INPUT_CHARS = 32000"

definition THREAD_CONTEXT_MESSAGE_LIMIT :: nat where
  "THREAD_CONTEXT_MESSAGE_LIMIT = 10"

definition THREAD_CONTEXT_PRIOR_MESSAGE_CHARS :: nat where
  "THREAD_CONTEXT_PRIOR_MESSAGE_CHARS = 4000"

text \<open>
  \<open>(?<!\d)\d{12}(?!\d)\<close> finds the runs of digits of length twelve; the environment pattern
  finds the runs of letters and digits that are one of its words.
\<close>

fun runs_of :: "(char \<Rightarrow> bool) \<Rightarrow> str \<Rightarrow> str \<Rightarrow> str list" where
  "runs_of P w [] = (if w = [] then [] else [rev w])"
| "runs_of P w (c # s) =
     (if P c then runs_of P (c # w) s else (if w = [] then [] else [rev w]) @ runs_of P [] s)"

definition find_accounts :: "str \<Rightarrow> str list" where
  "find_accounts text = filter (\<lambda>w. length w = 12) (runs_of py_isdigit [] text)"

definition environment_words :: "str list" where
  "environment_words = [''production'', ''prod'', ''uat'', ''development'', ''dev'', ''staging'', ''test'']"

definition environment_alias :: "str \<Rightarrow> str" where
  "environment_alias w = (if w = ''prod'' then ''production'' else if w = ''dev'' then ''development'' else w)"

definition find_environments :: "str \<Rightarrow> str list" where
  "find_environments text =
     filter (\<lambda>w. w \<in> set environment_words) (map py_lower (runs_of (\<lambda>c. is_alpha c \<or> py_isdigit c) [] text))"

definition all_allowed :: "str list \<Rightarrow> str list \<Rightarrow> bool" where
  "all_allowed found allowed = (found \<noteq> [] \<and> set found \<subseteq> set allowed)"

definition matches_route_constraints :: "str \<Rightarrow> message_route \<Rightarrow> bool" where
  "matches_route_constraints text route =
     ((ro_allowed_accounts route = [] \<or> all_allowed (find_accounts text) (ro_allowed_accounts route))
      \<and> (ro_allowed_environments route = []
         \<or> all_allowed (map environment_alias (find_environments text)) (ro_allowed_environments route)))"

definition matches_sender_trust :: "inbound_message \<Rightarrow> message_route \<Rightarrow> bool" where
  "matches_sender_trust m route =
     (if ro_trusted_user_ids route \<noteq> [] \<and> im_user_id m \<notin> set (ro_trusted_user_ids route) then False
      else if \<not> (im_is_bot m \<or> im_is_webhook m) then True
      else if \<not> ro_allow_bot route \<or> ro_trusted_user_ids route = []
           \<or> im_user_id m \<notin> set (ro_trusted_user_ids route) then False
      else if im_is_webhook m
      then (im_webhook_id m \<noteq> [] \<and> im_webhook_id m \<in> set (ro_trusted_webhook_ids route))
           \<or> (im_webhook_name m \<noteq> [] \<and> im_webhook_name m \<in> set (ro_trusted_webhook_names route))
      else True)"

definition nonempty :: "str \<Rightarrow> str option" where
  "nonempty s = (if s = [] then None else Some s)"

fun match_trigger :: "str list \<Rightarrow> str \<Rightarrow> str option" where
  "match_trigger [] text = None"
| "match_trigger (w # ws) text =
     (if py_startswith (py_lower text) w \<and> py_strip (drop (length w) text) \<noteq> []
      then Some (py_strip (drop (length w) text)) else match_trigger ws text)"

definition match_route_prompt :: "inbound_message \<Rightarrow> message_route \<Rightarrow> str \<Rightarrow> str option res" where
  "match_route_prompt m route text =
     (if ro_provider route \<noteq> [] \<and> ro_provider route \<noteq> im_provider m then Inr None
      else if ro_root_posts_only route \<and> im_thread_id m \<noteq> im_message_id m then Inr None
      else if \<not> matches_sender_trust m route \<or> \<not> matches_route_constraints text route then Inr None
      else if ro_rule_id route \<noteq> []
      then if ro_match_type route = ''regex''
           then bind_res (re_search (ro_pattern route) text) (\<lambda>found.
                  Inr (case found of
                      None \<Rightarrow> None
                    | Some rest \<Rightarrow> nonempty (if ro_preserve_full_body route then text else py_strip rest)))
           else Inr (if \<not> py_startswith (py_lower text) (py_lower (ro_pattern route)) then None
                     else nonempty (if ro_preserve_full_body route then text
                                    else py_strip (drop (length (ro_pattern route)) text)))
      else Inr (match_trigger (ro_trigger_words route) text))"

type_synonym route_identity = "str \<times> str \<times> str \<times> str \<times> str list"

definition route_identity :: "message_route \<Rightarrow> route_identity" where
  "route_identity r = (ro_workflow r, ro_rule_id r, ro_match_type r, ro_pattern r, ro_trigger_words r)"

definition channel_values :: "inbound_message \<Rightarrow> str list" where
  "channel_values m = filter (\<lambda>s. s \<noteq> [])
     [py_lower (py_strip (im_channel_id m)), py_lower (py_strip (im_channel_name m))]"

definition route_text :: "inbound_message \<Rightarrow> str" where
  "route_text m = take MAX_ROUTE_INPUT_CHARS (py_strip (im_text m))"

text \<open>The loop that fills \<open>matches\<close>: \<open>setdefault\<close> keeps the first route of an identity.\<close>

fun collect_matches ::
  "inbound_message \<Rightarrow> message_route list \<Rightarrow> (route_identity \<times> message_route \<times> str) list
     \<Rightarrow> (route_identity \<times> message_route \<times> str) list res" where
  "collect_matches m [] matches = Inr matches"
| "collect_matches m (r # rs) matches =
     (if ro_channel r \<notin> set (channel_values m) then collect_matches m rs matches
      else bind_res (match_route_prompt m r (route_text m)) (\<lambda>prompt.
        case prompt of
          None \<Rightarrow> collect_matches m rs matches
        | Some p \<Rightarrow> collect_matches m rs
            (case map_of matches (route_identity r) of
               None \<Rightarrow> matches @ [(route_identity r, r, p)]
             | Some _ \<Rightarrow> matches)))"

definition pick_winner :: "(message_route \<times> str) list \<Rightarrow> (message_route \<times> str) option" where
  "pick_winner matches =
     (if matches = [] then None
      else let highest = Max (set (map (\<lambda>x. ro_priority (fst x)) matches))
           in case filter (\<lambda>x. ro_priority (fst x) = highest) matches of
                [w] \<Rightarrow> Some w
              | _ \<Rightarrow> None)"

definition match_message_route :: "inbound_message \<Rightarrow> message_route list \<Rightarrow> (message_route \<times> str) option res" where
  "match_message_route m routes =
     bind_res (collect_matches m routes []) (\<lambda>matches. Inr (pick_winner (map snd matches)))"

section \<open>Hydrating a thread\<close>

definition author_of :: "inbound_message \<Rightarrow> str \<Rightarrow> str" where
  "author_of m fallback =
     (if im_username m \<noteq> [] then im_username m else if im_user_id m \<noteq> [] then im_user_id m
      else if fallback \<noteq> [] then fallback else ''unknown'')"

text \<open>
  The current message takes its place in the thread: the first entry with its identifier is
  overwritten, or it is added at the end.
\<close>

fun place_current :: "inbound_message \<Rightarrow> str \<Rightarrow> thread_message list \<Rightarrow> thread_message list" where
  "place_current m prompt [] =
     [\<lparr>tm_message_id = im_message_id m, tm_author = author_of m [], tm_text = prompt\<rparr>]"
| "place_current m prompt (x # xs) =
     (if tm_message_id x = im_message_id m
      then x\<lparr>tm_author := author_of m (tm_author x), tm_text := prompt\<rparr> # xs
      else x # place_current m prompt xs)"

definition truncated_text :: "nat \<Rightarrow> str \<Rightarrow> str" where
  "truncated_text max_chars text =
     (if max_chars < length text then py_rstrip (take max_chars text) @ nl @ ''[message truncated]'' else text)"

fun render_messages :: "nat \<Rightarrow> nat \<Rightarrow> thread_message list \<Rightarrow> str list" where
  "render_messages k i [] = []"
| "render_messages k i (x # xs) =
     [[], ''Message '' @ str_of_nat i @ '' from '' @ (if tm_author x \<noteq> [] then tm_author x else ''unknown'') @ '':'',
      truncated_text (if i = k then MAX_ROUTE_INPUT_CHARS else THREAD_CONTEXT_PRIOR_MESSAGE_CHARS) (tm_text x)]
     @ render_messages k (Suc i) xs"

definition thread_prompt :: "inbound_message \<Rightarrow> str \<Rightarrow> thread_message list \<Rightarrow> str \<times> nat" where
  "thread_prompt m prompt messages =
     (let shown = last_items THREAD_CONTEXT_MESSAGE_LIMIT
            (place_current m prompt (filter (\<lambda>x. tm_text x \<noteq> []) messages))
      in (py_join nl (''Thread conversation (oldest to newest; the final message is the task request):''
            # render_messages (length shown) 1 shown), length shown))"

fun hydration_error :: "py_error \<Rightarrow> bool" where
  "hydration_error (MattermostAPIError m) = True"
| "hydration_error (SlackAPIError m) = True"
| "hydration_error (HTTPError m) = True"
| "hydration_error (ValueError m) = True"
| "hydration_error e = False"

definition fetch_thread :: "server \<Rightarrow> settings \<Rightarrow> inbound_message \<Rightarrow> thread_message list io" where
  "fetch_thread srv st m =
     (if im_provider m = ''mattermost''
      then mattermost_fetch_thread_messages srv (mb_api_url st) (mb_bot_token st) (im_thread_id m)
             (im_message_id m) (im_created_at_ms m) THREAD_CONTEXT_MESSAGE_LIMIT
      else slack_fetch_thread_messages srv (mb_api_url st) (mb_bot_token st) (im_channel_id m)
             (im_thread_id m) (im_message_id m) THREAD_CONTEXT_MESSAGE_LIMIT)"

definition hydrate_thread_prompt :: "server \<Rightarrow> settings \<Rightarrow> inbound_message \<Rightarrow> str \<Rightarrow> (str \<times> nat) option io" where
  "hydrate_thread_prompt srv st m prompt sent =
     (if im_message_id m = im_thread_id m \<or> im_provider m \<notin> set [''mattermost'', ''slack'']
      then (Inr (Some (prompt, 0)), sent)
      else case fetch_thread srv st m sent of
             (Inl e, sent') \<Rightarrow> (if hydration_error e then Inr None else Inl e, sent')
           | (Inr messages, sent') \<Rightarrow> (Inr (Some (thread_prompt m prompt messages)), sent'))"

section \<open>Replies to a waiting question\<close>

definition question_task :: "inbound_message \<Rightarrow> db \<Rightarrow> task option" where
  "question_task m d = find (\<lambda>t. t_status t = waiting_user_input \<and> t_channel t = Some (im_provider m)
     \<and> t_message_thread t = Some (im_thread_id m)) (tasks d)"

definition record_question_reply :: "inbound_message \<Rightarrow> db \<Rightarrow> bool \<times> db" where
  "record_question_reply m d =
     (case question_task m d of
        None \<Rightarrow> (False, d)
      | Some t \<Rightarrow> (True, add_session_event (Some (t_id t)) ''user_question_reply'' (db_now d)
          [(''message'', JStr (im_text m)), (''message_id'', JStr (im_message_id m)),
           (''provider'', JStr (im_provider m)), (''user_id'', JStr (im_user_id m)),
           (''username'', JStr (im_username m)), (''thread_id'', JStr (im_thread_id m))] d))"

section \<open>Handling an event\<close>

record ingress =
  in_bot_user_id :: str
  in_routes :: "message_route list"
  in_running :: bool

text \<open>
  The outside of the gateway process: the provider's server, the settings, the workflow packages
  on disk and the clock.
\<close>

record outside =
  ou_server :: server
  ou_settings :: settings
  ou_package :: "str \<Rightarrow> json option res"
  ou_now :: time

definition message_metadata :: "inbound_message \<Rightarrow> message_route \<Rightarrow> nat \<Rightarrow> alert_envelope option \<Rightarrow> dict" where
  "message_metadata m route thread_context_count envelope =
     [(''source'', JStr (im_provider m)), (''user'', JStr (im_username m)), (''user_id'', JStr (im_user_id m)),
      (''channel_id'', JStr (im_channel_id m)), (''channel'', JStr (im_channel_name m)),
      (''team_id'', JStr (im_team_id m)), (''team_domain'', JStr (im_team_name m)),
      (''is_bot'', JBool (im_is_bot m)), (''is_webhook'', JBool (im_is_webhook m)),
      (''webhook_id'', JStr (im_webhook_id m)), (''webhook_name'', JStr (im_webhook_name m)),
      (''text_truncated'', JBool (im_text_truncated m)), (''message_id'', JStr (im_message_id m)),
      (''route_rule_id'', JStr (ro_rule_id route)), (''thread_context_count'', JInt (int thread_context_count))]
     @ (case envelope of
          None \<Rightarrow> []
        | Some e \<Rightarrow>
            [(''alert_envelope'', JObj (as_metadata e)), (''alert_occurrence_count'', JInt 1),
             (''alert_state_transitions'', JList [JObj [(''state'', JStr (ae_state e)),
                (''message_id'', JStr (im_message_id m))]])])"

definition post_acknowledgement :: "server \<Rightarrow> settings \<Rightarrow> inbound_message \<Rightarrow> unit io" where
  "post_acknowledgement srv st m sent =
     (case build_message_bus (im_provider m) (mb_api_url st) (mb_bot_token st) (im_channel_id m)
             (im_channel_name m) (im_team_id m) (im_team_name m) of
        Inl e \<Rightarrow> (Inl e, sent)
      | Inr bus \<Rightarrow> (case post_to_thread srv (fixed_thread (im_thread_id m)) bus '':brain: Working on it...'' () sent of
            (Inl e, sent') \<Rightarrow> (Inl e, sent')
          | (Inr _, sent') \<Rightarrow> (Inr (), sent')))"

type_synonym handled = "unit res \<times> db \<times> http_log"

definition create_message_task ::
  "outside \<Rightarrow> inbound_message \<Rightarrow> message_route \<Rightarrow> str \<Rightarrow> nat \<Rightarrow> alert_envelope option \<Rightarrow> db \<Rightarrow> (task \<times> db) res" where
  "create_message_task w m route prompt n envelope d =
     create_task (ou_package w) (ou_now w) (ro_workflow route) prompt (Some (im_provider m))
       (Some (message_metadata m route n envelope))
       (Some (if im_channel_name m \<noteq> [] then im_channel_name m else im_channel_id m)) (Some (im_thread_id m))
       (map_option (\<lambda>e. envelope_coalesce_key e (ro_workflow route)) envelope) (ro_coalesce_window_sec route) d"

definition start_message_task ::
  "outside \<Rightarrow> inbound_message \<Rightarrow> message_route \<Rightarrow> str \<Rightarrow> db \<Rightarrow> http_log \<Rightarrow> handled" where
  "start_message_task w m route prompt d sent =
     (let envelope = (if ro_rule_id route \<noteq> [] then parse_alert_envelope prompt else None)
      in case hydrate_thread_prompt (ou_server w) (ou_settings w) m prompt sent of
           (Inl e, sent1) \<Rightarrow> (Inl e, d, sent1)
         | (Inr None, sent1) \<Rightarrow> (Inr (), d, sent1)
         | (Inr (Some (full, n)), sent1) \<Rightarrow>
             (case create_message_task w m route full n envelope d of
                Inl e \<Rightarrow> (Inl e, d, sent1)
              | Inr (t, d1) \<Rightarrow>
                  (case post_acknowledgement (ou_server w) (ou_settings w) m sent1 of
                     (r, sent2) \<Rightarrow> (r, d1, sent2))))"

definition route_message :: "outside \<Rightarrow> ingress \<Rightarrow> inbound_message \<Rightarrow> db \<Rightarrow> http_log \<Rightarrow> handled" where
  "route_message w g m d sent =
     (case match_message_route m (in_routes g) of
        Inl e \<Rightarrow> (Inl e, d, sent)
      | Inr None \<Rightarrow> (Inr (), d, sent)
      | Inr (Some (route, prompt)) \<Rightarrow> start_message_task w m route prompt d sent)"

definition handle_message :: "outside \<Rightarrow> ingress \<Rightarrow> inbound_message \<Rightarrow> db \<Rightarrow> http_log \<Rightarrow> handled" where
  "handle_message w g m d sent =
     (if in_bot_user_id g \<noteq> [] \<and> im_user_id m = in_bot_user_id g then (Inr (), d, sent)
      else if im_text m = [] then (Inr (), d, sent)
      else if \<not> (im_is_bot m \<or> im_is_webhook m) \<and> fst (record_question_reply m d)
      then (Inr (), snd (record_question_reply m d), sent)
      else route_message w g m d sent)"

fun update_error_caught :: "py_error \<Rightarrow> bool" where
  "update_error_caught (SlackAPIError m) = True"
| "update_error_caught (HTTPError m) = True"
| "update_error_caught (RuntimeError m) = True"
| "update_error_caught e = False"

definition handle_interactive_action :: "outside \<Rightarrow> interactive_action \<Rightarrow> db \<Rightarrow> http_log \<Rightarrow> handled" where
  "handle_interactive_action w a d sent =
     (if ia_provider a \<noteq> ''slack'' \<or> ia_action_id a \<noteq> ''agentic_ops_approval'' then (Inr (), d, sent)
      else case resolve_approval_action (ou_now w) (ia_context a) (ia_user_id a) (ia_post_id a)
                  (ia_channel_id a) ''slack_interactive'' d of
             Inl (ValueError e) \<Rightarrow> (Inr (), d, sent)
           | Inl e \<Rightarrow> (Inl e, d, sent)
           | Inr (resolution, d1) \<Rightarrow>
               (case slack_update_post (ou_server w) (mb_api_url (ou_settings w)) (mb_bot_token (ou_settings w))
                       (ia_channel_id a) (ia_post_id a) (r_status_message resolution) sent of
                  (Inl e, sent1) \<Rightarrow> (if update_error_caught e then Inr () else Inl e, d1, sent1)
                | (Inr _, sent1) \<Rightarrow> (Inr (), d1, sent1)))"

fun handle_event :: "outside \<Rightarrow> ingress \<Rightarrow> message_event \<Rightarrow> db \<Rightarrow> http_log \<Rightarrow> handled" where
  "handle_event w g (InboundMessage m) d sent = handle_message w g m d sent"
| "handle_event w g (InteractiveAction a) d sent = handle_interactive_action w a d sent"

section \<open>Starting and stopping the listener\<close>

fun provider_error :: "py_error \<Rightarrow> bool" where
  "provider_error (MattermostAPIError m) = True"
| "provider_error (SlackAPIError m) = True"
| "provider_error (HTTPError m) = True"
| "provider_error e = False"

definition resolve_channel ::
  "server \<Rightarrow> settings \<Rightarrow> str \<Rightarrow> str \<Rightarrow> http_log \<Rightarrow> (str res \<times> http_log) option" where
  "resolve_channel srv st provider channel sent =
     (if provider = ''mattermost''
      then Some (mattermost_resolve_channel_id srv (mb_api_url st) (mb_bot_token st) [] channel [] (mb_team_name st) sent)
      else slack_resolve_channel_id srv (mb_api_url st) (mb_bot_token st) [] channel sent)"

text \<open>
  \<open>_resolve_route_channels\<close>: a second route under the channel's identifier for each route whose
  channel can be resolved. The value \<open>None\<close> stands for a lookup that never returns.
\<close>

fun channel_aliases ::
  "server \<Rightarrow> settings \<Rightarrow> str \<Rightarrow> message_route list \<Rightarrow> http_log \<Rightarrow> (message_route list res \<times> http_log) option" where
  "channel_aliases srv st provider [] sent = Some (Inr [], sent)"
| "channel_aliases srv st provider (r # rs) sent =
     (case resolve_channel srv st provider (ro_channel r) sent of
        None \<Rightarrow> None
      | Some (Inl e, sent1) \<Rightarrow>
          if provider_error e then channel_aliases srv st provider rs sent1 else Some (Inl e, sent1)
      | Some (Inr cid, sent1) \<Rightarrow>
          (case channel_aliases srv st provider rs sent1 of
             None \<Rightarrow> None
           | Some (Inl e, sent2) \<Rightarrow> Some (Inl e, sent2)
           | Some (Inr others, sent2) \<Rightarrow>
               Some (Inr (if cid \<noteq> [] \<and> py_lower cid \<noteq> ro_channel r
                          then r\<lparr>ro_channel := py_lower cid\<rparr> # others else others), sent2)))"

definition resolve_route_channels ::
  "server \<Rightarrow> settings \<Rightarrow> str \<Rightarrow> (str \<times> dict) list \<Rightarrow> http_log \<Rightarrow> (message_route list res \<times> http_log) option" where
  "resolve_route_channels srv st provider workflows sent =
     (case message_routes workflows of
        Inl e \<Rightarrow> Some (Inl e, sent)
      | Inr routes \<Rightarrow> (case channel_aliases srv st provider routes sent of
            None \<Rightarrow> None
          | Some (Inl e, sent1) \<Rightarrow> Some (Inl e, sent1)
          | Some (Inr aliases, sent1) \<Rightarrow> Some (Inr (routes @ aliases), sent1)))"

definition ingress_enabled :: "settings \<Rightarrow> bool" where
  "ingress_enabled st \<longleftrightarrow> mb_provider st \<in> set [''mattermost'', ''slack''] \<and> mb_bot_token st \<noteq> []
     \<and> mb_api_url st \<noteq> [] \<and> (mb_provider st = ''slack'' \<longrightarrow> mb_app_token st \<noteq> [])"

definition identify_bot :: "server \<Rightarrow> settings \<Rightarrow> str io" where
  "identify_bot srv st =
     (if mb_provider st = ''mattermost''
      then mattermost_get_authenticated_user_id srv (mb_api_url st) (mb_bot_token st)
      else slack_get_authenticated_user_id srv (mb_api_url st) (mb_bot_token st))"

definition begin_listening ::
  "outside \<Rightarrow> (str \<times> dict) list \<Rightarrow> ingress \<Rightarrow> http_log \<Rightarrow> (ingress res \<times> http_log) option" where
  "begin_listening w workflows g sent =
     (let st = ou_settings w
      in case resolve_route_channels (ou_server w) st (mb_provider st) workflows sent of
           None \<Rightarrow> None
         | Some (Inl e, sent1) \<Rightarrow> Some (Inl e, sent1)
         | Some (Inr routes, sent1) \<Rightarrow>
             (case build_message_ingress (mb_provider st) (mb_api_url st) (mb_bot_token st) (mb_app_token st) of
                Inl e \<Rightarrow> Some (Inl e, sent1)
              | Inr listener \<Rightarrow> Some (Inr (g\<lparr>in_routes := routes, in_running := True\<rparr>), sent1)))"

definition ingress_start ::
  "outside \<Rightarrow> (str \<times> dict) list \<Rightarrow> ingress \<Rightarrow> http_log \<Rightarrow> (ingress res \<times> http_log) option" where
  "ingress_start w workflows g sent =
     (if in_running g \<or> \<not> ingress_enabled (ou_settings w) then Some (Inr g, sent)
      else case identify_bot (ou_server w) (ou_settings w) sent of
             (Inl e, sent1) \<Rightarrow>
               if provider_error e then begin_listening w workflows g sent1 else Some (Inl e, sent1)
           | (Inr uid, sent1) \<Rightarrow> begin_listening w workflows (g\<lparr>in_bot_user_id := uid\<rparr>) sent1)"

definition stop_listener :: "ingress \<Rightarrow> ingress" where
  "stop_listener g = g\<lparr>in_running := False\<rparr>"

section \<open>Routes are well-formed\<close>

definition wf_route :: "message_route \<Rightarrow> bool" where
  "wf_route r \<longleftrightarrow> ro_channel r \<noteq> [] \<and>
     (if ro_rule_id r = []
      then ro_trigger_words r \<noteq> [] \<and> [] \<notin> set (ro_trigger_words r) \<and> \<not> ro_allow_bot r
      else ro_pattern r \<noteq> [] \<and> length (ro_pattern r) \<le> 256 \<and> ro_match_type r \<in> {''prefix'', ''regex''}
           \<and> (ro_match_type r = ''prefix'' \<or> re_compile (ro_pattern r) \<noteq> None))"

lemma map_res_Inr: "map_res f xs = Inr ys \<Longrightarrow> \<forall>y \<in> set ys. \<exists>x \<in> set xs. f x = Inr y"
  by (induction xs arbitrary: ys) (fastforce simp: bind_res_Inr_iff)+

lemma wf_route_rename: "wf_route r \<Longrightarrow> c \<noteq> [] \<Longrightarrow> wf_route (r\<lparr>ro_channel := c\<rparr>)"
  by (auto simp: wf_route_def split: if_splits)

lemma channel_names_nonempty: "c \<in> set (channel_names vs) \<Longrightarrow> c \<noteq> []"
  by (simp add: channel_names_def)

lemma trigger_routes_wf:
  assumes "trigger_words_of messaging = Inr triggers" "trigger_routes workflow messaging triggers window = Inr rs"
    "r \<in> set rs"
  shows "wf_route r"
proof -
  have "[] \<notin> set triggers" using assms(1) by (auto simp: trigger_words_of_def bind_res_Inr_iff)
  with assms(2,3) show ?thesis
    by (auto simp: trigger_routes_def bind_res_Inr_iff wf_route_def trigger_route_def channel_names_nonempty
        split: if_splits)
qed

lemma checked_rule_facts:
  assumes "checked_rule workflow rule = Inr (rule_id, match_type, pattern)"
  shows "rule_id \<noteq> [] \<and> pattern \<noteq> [] \<and> length pattern \<le> 256 \<and> match_type \<in> {''prefix'', ''regex''}
     \<and> (match_type = ''prefix'' \<or> re_compile pattern \<noteq> None)"
  using assms unfolding checked_rule_def Let_def by (auto split: if_splits)

lemma rule_route_wf:
  assumes "checked_rule workflow rule = Inr checked" "channel \<noteq> []"
    "rule_route workflow rule checked window channel = Inr r"
  shows "wf_route r"
proof -
  obtain rule_id match_type pattern where c: "checked = (rule_id, match_type, pattern)" by (cases checked)
  from assms(3) have "ro_channel r = channel" "ro_rule_id r = rule_id" "ro_pattern r = pattern" "ro_match_type r = match_type"
    by (auto simp: rule_route_def c bind_res_Inr_iff Let_def)
  with checked_rule_facts [OF assms(1) [unfolded c]] assms(2) show ?thesis by (auto simp: wf_route_def)
qed

lemma routes_of_rule_wf:
  assumes "routes_of_rule workflow messaging window raw = Inr rs" "r \<in> set rs"
  shows "wf_route r"
  using assms
  by (fastforce simp: routes_of_rule_def bind_res_Inr_iff split: json.splits if_splits
      dest!: map_res_Inr dest: channel_names_nonempty rule_route_wf)

lemma workflow_routes_wf:
  assumes "workflow_routes workflow config = Inr rs" "r \<in> set rs"
  shows "wf_route r"
  using assms
  by (fastforce simp: workflow_routes_def bind_res_Inr_iff Let_def dest!: map_res_Inr
      dest: trigger_routes_wf routes_of_rule_wf)

lemma message_routes_wf: "message_routes workflows = Inr routes \<Longrightarrow> r \<in> set routes \<Longrightarrow> wf_route r"
  by (fastforce simp: message_routes_def bind_res_Inr_iff dest!: map_res_Inr dest: workflow_routes_wf)

lemma match_route_prompt_total: "wf_route r \<Longrightarrow> \<exists>x. match_route_prompt m r text = Inr x"
  by (auto simp: match_route_prompt_def wf_route_def re_search_def split: if_splits)

lemma collect_matches_total:
  "\<forall>r \<in> set rs. wf_route r \<Longrightarrow> \<exists>ms. collect_matches m rs acc = Inr ms"
proof (induction rs arbitrary: acc)
  case (Cons r rs)
  then obtain x where "match_route_prompt m r (route_text m) = Inr x" using match_route_prompt_total by force
  with Cons show ?case by (auto split: option.split)
qed simp

text \<open>
  C26. Configuration errors surface when the routes are built, never while a message is
  handled: every route that comes out of the workflow configurations has a channel and either
  trigger words (and then never admits automation) or a rule with a bounded, compilable pattern,
  and matching any message against them, in any sublist and with any renamed channels, raises no
  exception.
\<close>

theorem message_routes_well_typed:
  assumes "message_routes workflows = Inr routes"
  shows "list_all wf_route routes \<and>
    (\<forall>m rename. (\<forall>r. rename r \<noteq> []) \<longrightarrow>
       (\<exists>x. match_message_route m (routes @ map (\<lambda>r. r\<lparr>ro_channel := rename r\<rparr>) routes) = Inr x))"
proof (intro conjI allI impI)
  show "list_all wf_route routes" using message_routes_wf [OF assms] by (simp add: list_all_iff)
  fix m and rename :: "message_route \<Rightarrow> str"
  assume "\<forall>r. rename r \<noteq> []"
  with message_routes_wf [OF assms]
  have "\<forall>r \<in> set (routes @ map (\<lambda>r. r\<lparr>ro_channel := rename r\<rparr>) routes). wf_route r"
    by (auto intro: wf_route_rename)
  from collect_matches_total [OF this, of m "[]"]
  show "\<exists>x. match_message_route m (routes @ map (\<lambda>r. r\<lparr>ro_channel := rename r\<rparr>) routes) = Inr x"
    by (auto simp: match_message_route_def)
qed

definition demo_messaging :: dict where
  "demo_messaging = [(''messaging'', JObj
     [(''channels'', JList [JStr ''ops'']),
      (''rules'', JList [JObj [(''id'', JStr ''r1''), (''match'', JObj [(''type'', JStr ''prefix''), (''pattern'', JStr ''alert'')]),
        (''priority'', JInt 5), (''allow_bot'', JBool True), (''preserve_full_body'', JBool True),
        (''trusted_senders'', JObj [(''user_ids'', JList [JStr ''u9''])])]])])]"

definition demo_rule_route :: message_route where
  "demo_rule_route = \<lparr>ro_workflow = ''sre'', ro_channel = ''ops'', ro_trigger_words = [], ro_rule_id = ''r1'',
     ro_provider = [], ro_priority = 5, ro_match_type = ''prefix'', ro_pattern = ''alert'',
     ro_trusted_user_ids = [''u9''], ro_trusted_webhook_ids = [], ro_trusted_webhook_names = [],
     ro_allow_bot = True, ro_root_posts_only = False, ro_preserve_full_body = True,
     ro_allowed_accounts = [], ro_allowed_environments = [], ro_coalesce_window_sec = 300\<rparr>"

lemmas route_eval = message_routes_def workflow_routes_def messaging_config_def trigger_words_of_def
  trigger_routes_def routes_of_rule_def checked_rule_def rule_route_def rule_enabled_def channel_names_def
  stripped_items_def dget_def get_default_def py_or_def py_strip_def py_lstrip_def py_rstrip_def py_isspace_def
  py_lower_def py_lower_char_def Let_def

lemma demo_routes:
  "message_routes [(''sre'', demo_messaging)] = Inr [trigger_route ''sre'' [''@agent''] 300 ''ops'', demo_rule_route]"
  by (simp add: demo_messaging_def demo_rule_route_def route_eval)

theorem message_routes_well_typed_witness:
  "message_routes [(''sre'', demo_messaging)] = Inr [trigger_route ''sre'' [''@agent''] 300 ''ops'', demo_rule_route]
   \<and> wf_route demo_rule_route"
  using message_routes_well_typed [OF demo_routes] demo_routes by simp

section \<open>The choice of a route\<close>

text \<open>
  Reference definition: the routes of the message's channel that match it, the first of each
  identity; the chosen route is the one whose priority is above that of all others.
\<close>

definition prompt_of :: "inbound_message \<Rightarrow> message_route \<Rightarrow> str option" where
  "prompt_of m r =
     (if ro_channel r \<in> set (channel_values m)
      then case match_route_prompt m r (route_text m) of Inl e \<Rightarrow> None | Inr p \<Rightarrow> p
      else None)"

fun candidates :: "inbound_message \<Rightarrow> message_route list \<Rightarrow> (message_route \<times> str) list" where
  "candidates m [] = []"
| "candidates m (r # rs) =
     (case prompt_of m r of
        None \<Rightarrow> candidates m rs
      | Some p \<Rightarrow> (r, p) # filter (\<lambda>x. route_identity (fst x) \<noteq> route_identity r) (candidates m rs))"

definition outranks_all :: "message_route \<times> str \<Rightarrow> (message_route \<times> str) list \<Rightarrow> bool" where
  "outranks_all w cs \<longleftrightarrow> w \<in> set cs \<and> (\<forall>v \<in> set cs. v \<noteq> w \<longrightarrow> ro_priority (fst v) < ro_priority (fst w))"

lemma candidates_distinct: "distinct (map (\<lambda>x. route_identity (fst x)) (candidates m rs))"
proof (induction rs)
  case (Cons r rs)
  have "distinct (map f (filter P xs))" if "distinct (map f xs)" for f :: "message_route \<times> str \<Rightarrow> route_identity" and P xs
    using that by (induction xs) auto
  with Cons show ?case by (auto split: option.split)
qed simp

lemma candidates_match: "(r, p) \<in> set (candidates m rs) \<Longrightarrow> r \<in> set rs \<and> prompt_of m r = Some p"
  by (induction rs) (auto split: option.splits)

lemma collect_matches_candidates:
  assumes "collect_matches m rs acc = Inr ms" "\<forall>x \<in> set acc. fst x = route_identity (fst (snd x))"
  shows "map snd ms = map snd acc
    @ filter (\<lambda>x. route_identity (fst x) \<notin> set (map fst acc)) (candidates m rs)"
  using assms
proof (induction rs arbitrary: acc)
  case (Cons r rs)
  show ?case
  proof (cases "prompt_of m r")
    case None
    then have "collect_matches m rs acc = Inr ms"
      using Cons.prems(1) by (auto simp: prompt_of_def bind_res_Inr_iff split: if_splits option.splits)
    with Cons.IH [OF this Cons.prems(2)] None show ?thesis by simp
  next
    case (Some p)
    then have eq: "collect_matches m rs (case map_of acc (route_identity r) of
          None \<Rightarrow> acc @ [(route_identity r, r, p)] | Some _ \<Rightarrow> acc) = Inr ms"
      using Cons.prems(1) by (auto simp: prompt_of_def bind_res_Inr_iff split: if_splits option.splits sum.splits)
    show ?thesis
    proof (cases "route_identity r \<in> set (map fst acc)")
      case True
      then have "map_of acc (route_identity r) \<noteq> None" by (simp add: map_of_eq_None_iff)
      with eq have "collect_matches m rs acc = Inr ms" by auto
      moreover have "filter (\<lambda>x. route_identity (fst x) \<noteq> route_identity r
            \<and> route_identity (fst x) \<notin> set (map fst acc)) (candidates m rs) =
          filter (\<lambda>x. route_identity (fst x) \<notin> set (map fst acc)) (candidates m rs)"
        using True by (metis (no_types, lifting))
      ultimately show ?thesis
        using Cons.IH [OF _ Cons.prems(2)] True Some by (simp add: filter_filter conj_commute)
    next
      case False
      then have "map_of acc (route_identity r) = None" by (simp add: map_of_eq_None_iff)
      with eq have "collect_matches m rs (acc @ [(route_identity r, r, p)]) = Inr ms" by simp
      from Cons.IH [OF this] Cons.prems(2) False Some show ?thesis
        by (auto simp: filter_filter intro!: filter_cong)
    qed
  qed
qed simp

lemma filter_singleton: "distinct xs \<Longrightarrow> filter P xs = [w] \<longleftrightarrow> w \<in> set xs \<and> P w \<and> (\<forall>v \<in> set xs. P v \<longrightarrow> v = w)"
proof
  assume "distinct xs" and w: "w \<in> set xs \<and> P w \<and> (\<forall>v \<in> set xs. P v \<longrightarrow> v = w)"
  then have "set (filter P xs) = {w}" by auto
  moreover have "distinct (filter P xs)" using \<open>distinct xs\<close> by simp
  ultimately show "filter P xs = [w]"
    by (metis distinct_card card.empty card_insert_disjoint empty_iff finite.emptyI length_0_conv length_Suc_conv list.set(1) list.set_intros(1) singletonD One_nat_def)
next
  assume "filter P xs = [w]"
  then have "set (filter P xs) = {w}" by simp
  then show "w \<in> set xs \<and> P w \<and> (\<forall>v \<in> set xs. P v \<longrightarrow> v = w)" by auto
qed

lemma pick_winner_spec:
  assumes "distinct cs"
  shows "pick_winner cs = Some w \<longleftrightarrow> outranks_all w cs"
proof (cases "cs = []")
  case False
  let ?p = "\<lambda>x. ro_priority (fst x)"
  let ?h = "Max (set (map ?p cs))"
  have h: "?h \<in> ?p ` set cs" "\<And>v. v \<in> set cs \<Longrightarrow> ?p v \<le> ?h"
    using False Max_in [of "?p ` set cs"] by auto
  have "pick_winner cs = Some w \<longleftrightarrow> filter (\<lambda>x. ?p x = ?h) cs = [w]"
    using False by (auto simp: pick_winner_def Let_def split: list.split)
  also have "\<dots> \<longleftrightarrow> w \<in> set cs \<and> ?p w = ?h \<and> (\<forall>v \<in> set cs. ?p v = ?h \<longrightarrow> v = w)"
    by (rule filter_singleton [OF assms])
  also have "\<dots> \<longleftrightarrow> outranks_all w cs"
  proof
    assume l: "w \<in> set cs \<and> ?p w = ?h \<and> (\<forall>v \<in> set cs. ?p v = ?h \<longrightarrow> v = w)"
    have "?p v < ?p w" if "v \<in> set cs" "v \<noteq> w" for v
      using l h(2) [OF that(1)] that by (metis le_less)
    with l show "outranks_all w cs" by (simp add: outranks_all_def)
  next
    assume r: "outranks_all w cs"
    obtain x where "x \<in> set cs" "?p x = ?h" using h(1) by (metis imageE)
    with r h(2) have "?p w = ?h" unfolding outranks_all_def by (metis leD)
    with r show "w \<in> set cs \<and> ?p w = ?h \<and> (\<forall>v \<in> set cs. ?p v = ?h \<longrightarrow> v = w)"
      unfolding outranks_all_def by (metis less_irrefl)
  qed
  finally show ?thesis .
qed (simp add: pick_winner_def outranks_all_def)

text \<open>
  C24. A message takes at most one route, chosen by priority alone: the handler picks a
  route exactly when it outranks every other candidate (the first matching route of each identity
  in the message's channel). Without a candidate, or with a tie at the top, no route is taken.
\<close>

theorem route_choice_unique:
  assumes "match_message_route m routes = Inr choice"
  shows "(choice = Some w \<longleftrightarrow> outranks_all w (candidates m routes))
    \<and> (choice = None \<longleftrightarrow> (\<forall>v. \<not> outranks_all v (candidates m routes)))"
proof -
  obtain ms where ms: "collect_matches m routes [] = Inr ms" "choice = pick_winner (map snd ms)"
    using assms by (auto simp: match_message_route_def bind_res_Inr_iff)
  from collect_matches_candidates [OF ms(1)] have "map snd ms = candidates m routes" by simp
  moreover have "distinct (candidates m routes)"
    using candidates_distinct [of m routes] by (simp add: distinct_map)
  ultimately have "choice = Some v \<longleftrightarrow> outranks_all v (candidates m routes)" for v
    using pick_winner_spec ms(2) by simp
  moreover have "choice = None \<longleftrightarrow> (\<forall>v. choice \<noteq> Some v)" by (cases choice) auto
  ultimately show ?thesis by simp
qed

definition demo_message :: inbound_message where
  "demo_message = \<lparr>im_provider = ''mattermost'', im_message_id = ''m1'', im_thread_id = ''m1'', im_channel_id = ''c7'',
     im_channel_name = ''Ops'', im_team_id = [], im_team_name = [], im_user_id = ''u9'', im_username = ''bot'',
     im_text = ''alert'' @ nl @ demo_firing, im_created_at_ms = 0, im_is_bot = True, im_is_webhook = False,
     im_webhook_id = [], im_webhook_name = [], im_text_truncated = False\<rparr>"

lemmas match_eval = channel_values_def route_text_def match_route_prompt_def matches_sender_trust_def
  matches_route_constraints_def MAX_ROUTE_INPUT_CHARS_def nonempty_def py_startswith_def
  py_strip_def py_lstrip_def py_rstrip_def py_isspace_def py_lower_def py_lower_char_def Let_def char_of_letter nl_def

lemma demo_prompt: "prompt_of demo_message demo_rule_route = Some (''alert'' @ nl @ demo_firing)"
  by (simp add: prompt_of_def demo_message_def demo_rule_route_def match_eval demo_firing_def)

lemma demo_candidates: "candidates demo_message [demo_rule_route] = [(demo_rule_route, ''alert'' @ nl @ demo_firing)]"
  by (simp add: demo_prompt)

lemma demo_match:
  "match_message_route demo_message [demo_rule_route] = Inr (Some (demo_rule_route, ''alert'' @ nl @ demo_firing))"
proof -
  have "match_route_prompt demo_message demo_rule_route (route_text demo_message) = Inr (Some (''alert'' @ nl @ demo_firing))"
    "ro_channel demo_rule_route \<in> set (channel_values demo_message)"
    by (simp_all add: demo_message_def demo_rule_route_def match_eval demo_firing_def)
  then show ?thesis by (simp add: match_message_route_def pick_winner_def)
qed

theorem route_choice_unique_witness:
  "match_message_route demo_message [demo_rule_route] = Inr (Some (demo_rule_route, ''alert'' @ nl @ demo_firing))
   \<and> outranks_all (demo_rule_route, ''alert'' @ nl @ demo_firing) (candidates demo_message [demo_rule_route])"
  using route_choice_unique [OF demo_match, of "(demo_rule_route, ''alert'' @ nl @ demo_firing)"] demo_match by simp

section \<open>Who may create tasks\<close>

lemma match_message_route_Some:
  assumes "match_message_route m routes = Inr (Some (r, p))"
  shows "r \<in> set routes \<and> prompt_of m r = Some p"
proof -
  obtain ms where ms: "collect_matches m routes [] = Inr ms" "pick_winner (map snd ms) = Some (r, p)"
    using assms by (auto simp: match_message_route_def bind_res_Inr_iff)
  from collect_matches_candidates [OF ms(1)] have "map snd ms = candidates m routes" by simp
  moreover have "pick_winner cs = Some w \<Longrightarrow> w \<in> set cs" for cs w
    by (auto simp: pick_winner_def Let_def split: if_splits list.splits dest: filter_eq_ConsD)
  ultimately show ?thesis using ms(2) candidates_match by metis
qed

lemma prompt_of_trusted: "prompt_of m r = Some p \<Longrightarrow> matches_sender_trust m r"
  by (auto simp: prompt_of_def match_route_prompt_def split: if_splits)

text \<open>
  Automation starts work only where a rule trusts it: when a message written by a bot
  or a webhook changes the database or causes a single request, some route of the gateway allows
  bots and lists the sender, and for a webhook also its identifier or name. The gateway's own
  messages never do anything.
\<close>

lemma automation_needs_trust:
  assumes "handle_message w g m d sent = (r, d', sent')" "d' \<noteq> d \<or> sent' \<noteq> sent"
    and "im_is_bot m \<or> im_is_webhook m"
  shows "(in_bot_user_id g = [] \<or> im_user_id m \<noteq> in_bot_user_id g) \<and>
    (\<exists>ro \<in> set (in_routes g). ro_allow_bot ro \<and> im_user_id m \<in> set (ro_trusted_user_ids ro)
       \<and> (im_is_webhook m \<longrightarrow> im_webhook_id m \<in> set (ro_trusted_webhook_ids ro)
                           \<or> im_webhook_name m \<in> set (ro_trusted_webhook_names ro)))"
proof -
  have not_self: "in_bot_user_id g = [] \<or> im_user_id m \<noteq> in_bot_user_id g" and "im_text m \<noteq> []"
    using assms(1,2) by (auto simp: handle_message_def split: if_splits)
  with assms(1,3) have routed: "route_message w g m d sent = (r, d', sent')"
    by (auto simp: handle_message_def split: if_splits)
  with assms(2) obtain ro p where "match_message_route m (in_routes g) = Inr (Some (ro, p))"
    by (auto simp: route_message_def split: sum.splits option.splits)
  from match_message_route_Some [OF this] have "ro \<in> set (in_routes g)" "matches_sender_trust m ro"
    using prompt_of_trusted by auto
  with assms(3) not_self show ?thesis
    by (auto simp: matches_sender_trust_def split: if_splits)
qed

definition demo_outside :: outside where
  "demo_outside = \<lparr>ou_server = \<lambda>sent rq. NoResponse ''down'', ou_settings = demo_settings,
     ou_package = \<lambda>_. Inr None, ou_now = 0\<rparr>"

definition demo_ingress :: ingress where
  "demo_ingress = \<lparr>in_bot_user_id = ''self'', in_routes = [demo_rule_route], in_running = True\<rparr>"

section \<open>An alert storm becomes one task\<close>

fun handle_all :: "ingress \<Rightarrow> (outside \<times> inbound_message) list \<Rightarrow> db \<Rightarrow> http_log \<Rightarrow> db \<times> http_log" where
  "handle_all g [] d sent = (d, sent)"
| "handle_all g ((w, m) # xs) d sent =
     (case handle_message w g m d sent of (r, d', sent') \<Rightarrow> handle_all g xs d' sent')"

text \<open>A post by automation that a rule routes and that carries the alert with this key.\<close>

definition alert_post :: "ingress \<Rightarrow> str \<Rightarrow> int \<Rightarrow> inbound_message \<Rightarrow> bool" where
  "alert_post g key win m \<longleftrightarrow>
     (im_is_bot m \<or> im_is_webhook m) \<and> (in_bot_user_id g = [] \<or> im_user_id m \<noteq> in_bot_user_id g)
     \<and> im_text m \<noteq> [] \<and> im_message_id m = im_thread_id m \<and> im_thread_id m \<noteq> []
     \<and> (\<exists>route p e. match_message_route m (in_routes g) = Inr (Some (route, p)) \<and> ro_rule_id route \<noteq> []
          \<and> parse_alert_envelope p = Some e \<and> envelope_coalesce_key e (ro_workflow route) = key
          \<and> ro_coalesce_window_sec route = win)"

lemma alert_post_creates:
  assumes "alert_post g key win m"
  obtains route p e where "ro_rule_id route \<noteq> []" "parse_alert_envelope p = Some e"
    "fst (snd (handle_message w g m d sent)) =
      (case create_task (ou_package w) (ou_now w) (ro_workflow route) p (Some (im_provider m))
              (Some (message_metadata m route 0 (Some e)))
              (Some (if im_channel_name m \<noteq> [] then im_channel_name m else im_channel_id m)) (Some (im_thread_id m))
              (Some key) win d of
         Inl err \<Rightarrow> d | Inr (t, d1) \<Rightarrow> d1)"
proof -
  from assms obtain route p e where r: "match_message_route m (in_routes g) = Inr (Some (route, p))"
    "ro_rule_id route \<noteq> []" "parse_alert_envelope p = Some e" "envelope_coalesce_key e (ro_workflow route) = key"
    "ro_coalesce_window_sec route = win" unfolding alert_post_def by blast
  have "handle_message w g m d sent = start_message_task w m route p d sent"
    using assms r(1) by (auto simp: alert_post_def handle_message_def route_message_def)
  moreover have "hydrate_thread_prompt (ou_server w) (ou_settings w) m p sent = (Inr (Some (p, 0)), sent)"
    using assms by (simp add: alert_post_def hydrate_thread_prompt_def)
  ultimately show ?thesis
    using r by (intro that [of route p e])
      (auto simp: start_message_task_def create_message_task_def split: sum.split prod.split)
qed

lemma key_nonempty: "envelope_coalesce_key e w \<noteq> []"
  by (simp add: envelope_coalesce_key_def)

lemma alert_post_key: "alert_post g key win m \<Longrightarrow> key \<noteq> [] \<and> im_thread_id m \<noteq> []"
  using key_nonempty unfolding alert_post_def by blast

lemma normalize_in_thread:
  "th \<noteq> [] \<Longrightarrow> normalize_message_route pkg wfl mc (Some th) (Some md) d = Inr (mc, md)"
  by (simp add: normalize_message_route_def opt_truthy_def)

text \<open>The bookkeeping of the task that stands for the alert, after \<open>n\<close> posts.\<close>

definition alert_task :: "str \<Rightarrow> nat \<Rightarrow> time \<Rightarrow> task \<Rightarrow> bool" where
  "alert_task key n now t \<longleftrightarrow> t_coalesce_key t = Some key \<and> t_status t = queued \<and> t_created t = now
     \<and> get_default (t_metadata t) ''alert_occurrence_count'' (JInt 1) = JInt (int n)
     \<and> (\<exists>as. get_default (t_metadata t) ''coalesced_alerts'' (JList []) = JList as)
     \<and> (\<exists>tr. get_default (t_metadata t) ''alert_state_transitions'' (JList []) = JList tr)"

lemma alert_post_first:
  assumes "alert_post g key win m" "wf_db d" "coalesce_candidates key (ou_now w - seconds win) d = []"
  shows "\<exists>t. tasks (fst (snd (handle_message w g m d sent))) = tasks d @ [t]
     \<and> db_now (fst (snd (handle_message w g m d sent))) = db_now d
     \<and> t_id t \<notin> set (task_ids d) \<and> alert_task key 1 (db_now d) t"
proof -
  from alert_post_creates [OF assms(1)] obtain route p e where
    h: "fst (snd (handle_message w g m d sent)) =
      (case create_task (ou_package w) (ou_now w) (ro_workflow route) p (Some (im_provider m))
              (Some (message_metadata m route 0 (Some e)))
              (Some (if im_channel_name m \<noteq> [] then im_channel_name m else im_channel_id m)) (Some (im_thread_id m))
              (Some key) win d of
         Inl err \<Rightarrow> d | Inr (t, d1) \<Rightarrow> d1)" by blast
  have "uuid_gen d \<notin> set (task_ids d)" using assms(2) by (auto simp: wf_db_def list_all_iff)
  with assms(3) alert_post_key [OF assms(1)] show ?thesis
    unfolding h
    by (simp add: create_task_def normalize_in_thread opt_truthy_def opt_str_def insert_task_def new_task_def
        alert_task_def message_metadata_def get_default_def Let_def)
qed

lemma alert_post_next:
  assumes "alert_post g key win m" "tasks d = ts @ [t]" "t_id t \<notin> t_id ` set ts"
    and "alert_task key n c t" "ou_now w - seconds win \<le> c"
    and "filter (\<lambda>u. t_coalesce_key u = Some key \<and> t_status u \<in> set ([queued, running, resume_pending] @ WAITING_STATUSES)
            \<and> t_created u \<ge> ou_now w - seconds win) ts = []"
  shows "\<exists>t'. tasks (fst (snd (handle_message w g m d sent))) = ts @ [t']
     \<and> db_now (fst (snd (handle_message w g m d sent))) = db_now d
     \<and> t_id t' = t_id t \<and> alert_task key (Suc n) c t'"
proof -
  from alert_post_creates [OF assms(1)] obtain route p e where
    h: "fst (snd (handle_message w g m d sent)) =
      (case create_task (ou_package w) (ou_now w) (ro_workflow route) p (Some (im_provider m))
              (Some (message_metadata m route 0 (Some e)))
              (Some (if im_channel_name m \<noteq> [] then im_channel_name m else im_channel_id m)) (Some (im_thread_id m))
              (Some key) win d of
         Inl err \<Rightarrow> d | Inr (t, d1) \<Rightarrow> d1)" by blast
  have cand: "coalesce_candidates key (ou_now w - seconds win) d = [t]"
    using assms(2,4,5,6) by (simp add: coalesce_candidates_def alert_task_def)
  from assms(4) obtain as tr where b: "get_default (t_metadata t) ''coalesced_alerts'' (JList []) = JList as"
    "get_default (t_metadata t) ''alert_state_transitions'' (JList []) = JList tr"
    "get_default (t_metadata t) ''alert_occurrence_count'' (JInt 1) = JInt (int n)"
    unfolding alert_task_def by blast
  obtain m' tr' where m': "coalesced_metadata (t_metadata t) (message_metadata m route 0 (Some e)) = Inr m'"
    "get_default m' ''coalesced_alerts'' (JList []) = JList (as @ [JObj (message_metadata m route 0 (Some e))])"
    "get_default m' ''alert_state_transitions'' (JList []) = JList tr'"
    "get_default m' ''alert_occurrence_count'' (JInt 1) = JInt (int n + 1)"
    by (rule coalesced_metadata_step [OF b, of "message_metadata m route 0 (Some e)"])
  have "map (\<lambda>u. if t_id u = t_id t then f u else u) ts = ts" for f
    using assms(3) by (auto intro!: map_idI simp: image_iff)
  with m' cand assms(2,4) alert_post_key [OF assms(1)] show ?thesis
    unfolding h
    by (simp add: create_task_def normalize_in_thread opt_truthy_def opt_str_def update_tasks_def update_where_def
        alert_task_def Let_def)
qed

lemma alert_posts_rest:
  assumes "tasks d = ts @ [t]" "t_id t \<notin> t_id ` set ts" "alert_task key n c t"
    and "\<forall>(w, m) \<in> set xs. alert_post g key win m \<and> ou_now w - seconds win \<le> c
       \<and> filter (\<lambda>u. t_coalesce_key u = Some key \<and> t_status u \<in> set ([queued, running, resume_pending] @ WAITING_STATUSES)
            \<and> t_created u \<ge> ou_now w - seconds win) ts = []"
  shows "\<exists>t'. tasks (fst (handle_all g xs d sent)) = ts @ [t'] \<and> alert_task key (n + length xs) c t'"
  using assms
proof (induction xs arbitrary: d t n sent)
  case (Cons x xs)
  obtain w m where x: "x = (w, m)" by (cases x)
  obtain r d' sent' where h: "handle_message w g m d sent = (r, d', sent')" by (cases "handle_message w g m d sent")
  from alert_post_next [of g key win m d ts t n c w sent] Cons.prems obtain t' where
    "tasks d' = ts @ [t']" "t_id t' = t_id t" "alert_task key (Suc n) c t'"
    unfolding x h by auto
  with Cons.IH [of d' t' "Suc n" sent'] Cons.prems show ?case
    by (auto simp: x h)
qed auto

text \<open>
  C25. An alert storm becomes one task: however many posts by automation carry the same
  alert within the coalescing window, in whatever state and with whatever text around it, and
  when no active task of that alert existed before, exactly one task is added, it is queued, and
  its metadata count the posts.
\<close>

theorem alert_storm_one_task:
  assumes "wf_db d" "xs \<noteq> []"
    and "\<forall>(w, m) \<in> set xs. alert_post g key win m \<and> ou_now w - seconds win \<le> db_now d
           \<and> coalesce_candidates key (ou_now w - seconds win) d = []"
  shows "\<exists>t. tasks (fst (handle_all g xs d sent)) = tasks d @ [t] \<and> t_status t = queued
     \<and> t_coalesce_key t = Some key
     \<and> get_default (t_metadata t) ''alert_occurrence_count'' (JInt 1) = JInt (int (length xs))"
proof -
  obtain w m ys where xs: "xs = (w, m) # ys" using assms(2) by (cases xs) auto
  obtain r d' sent' where h: "handle_message w g m d sent = (r, d', sent')" by (cases "handle_message w g m d sent")
  from alert_post_first [of g key win m d w sent] assms(1,3) obtain t where
    t: "tasks d' = tasks d @ [t]" "t_id t \<notin> set (task_ids d)" "alert_task key 1 (db_now d) t"
    unfolding xs h by auto
  have "\<exists>t'. tasks (fst (handle_all g ys d' sent')) = tasks d @ [t'] \<and> alert_task key (1 + length ys) (db_now d) t'"
    using t assms(3) by (intro alert_posts_rest) (auto simp: xs task_ids_def coalesce_candidates_def)
  then show ?thesis by (auto simp: xs h alert_task_def)
qed

lemma demo_envelope: "parse_alert_envelope (''alert'' @ nl @ demo_firing) = Some \<lparr>ae_version = 1, ae_source = ''aws'',
     ae_identity = ''CPU'', ae_state = ''firing'', ae_account = [], ae_region = [], ae_environment = []\<rparr>"
  unfolding demo_firing_def by (simp add: alert_eval opt_str_def Let_def char_of_letter)

lemma demo_alert_post:
  "\<exists>key. alert_post demo_ingress key 300 demo_message"
  using demo_match demo_envelope
  by (auto simp: alert_post_def demo_ingress_def) (simp_all add: demo_message_def demo_rule_route_def)

theorem alert_storm_one_task_witness:
  "\<exists>t. tasks (fst (handle_all demo_ingress (replicate 3 (demo_outside, demo_message)) (empty_db 7) [])) = [t]
     \<and> get_default (t_metadata t) ''alert_occurrence_count'' (JInt 1) = JInt 3"
proof -
  obtain key where k: "alert_post demo_ingress key 300 demo_message" using demo_alert_post by blast
  have wf: "wf_db (empty_db 7)" by (simp add: wf_db_def empty_db_def task_ids_def)
  show ?thesis
    using alert_storm_one_task [OF wf, of "replicate 3 (demo_outside, demo_message)" demo_ingress key 300 "[]"] k
    by (auto simp: empty_db_def coalesce_candidates_def demo_outside_def seconds_def)
qed

lemma automation_needs_trust_witness:
  "\<exists>ro \<in> set (in_routes demo_ingress). ro_allow_bot ro \<and> im_user_id demo_message \<in> set (ro_trusted_user_ids ro)"
proof -
  obtain r d' sent' where h: "handle_message demo_outside demo_ingress demo_message (empty_db 7) [] = (r, d', sent')"
    by (cases "handle_message demo_outside demo_ingress demo_message (empty_db 7) []")
  obtain key where k: "alert_post demo_ingress key 300 demo_message" using demo_alert_post by blast
  have "tasks d' \<noteq> tasks (empty_db 7)"
    using alert_post_first [OF k, of "empty_db 7" demo_outside "[]"] h
    by (auto simp: empty_db_def coalesce_candidates_def wf_db_def task_ids_def)
  moreover have "im_is_bot demo_message \<or> im_is_webhook demo_message" by (simp add: demo_message_def)
  ultimately show ?thesis using automation_needs_trust [OF h] by auto
qed

section \<open>Slack buttons\<close>

text \<open>The frame Slack sends when a button is pressed, and the buttons of a prompt.\<close>

definition button_frame :: "dict \<Rightarrow> str \<Rightarrow> str \<Rightarrow> str \<Rightarrow> dict" where
  "button_frame action post_id channel_id user_id =
     [(''type'', JStr ''interactive''),
      (''payload'', JObj
        [(''type'', JStr ''block_actions''), (''actions'', JList [JObj action]),
         (''container'', JObj [(''message_ts'', JStr post_id)]), (''channel'', JObj [(''id'', JStr channel_id)]),
         (''user'', JObj [(''id'', JStr user_id)])])]"

definition slack_buttons :: "json list \<Rightarrow> json list" where
  "slack_buttons blocks = concat (map (\<lambda>b. case dget (obj_or_empty b) ''elements'' of JList es \<Rightarrow> es | _ \<Rightarrow> []) blocks)"

lemma slack_buttons_of_prompt:
  assumes "slack_approval_post_payload st t a = Inr (text, blocks)"
  obtains yes no where "approval_action_context st a ''approve'' False = Inr yes"
    "approval_action_context st a ''reject'' False = Inr no"
    "slack_buttons blocks = [slack_button ''Approve'' ''primary'' yes, slack_button ''Reject'' ''danger'' no]"
  using assms
  by (auto simp: slack_approval_post_payload_def bind_res_Inr_iff slack_buttons_def dget_def get_default_def)

lemma action_context_plain: "approval_action_context st a dec False = Inr ctx \<Longrightarrow> plain_json (JObj ctx)"
  by (auto simp: approval_action_context_def bind_res_Inr_iff)

lemma parse_button_frame:
  assumes "JObj action = slack_button label style ctx" "plain_json (JObj ctx)"
  shows "slack_frame (json_dumps (JObj (button_frame action p c u))) =
    Inr (None, Some (InteractiveAction \<lparr>ia_provider = ''slack'', ia_action_id = ''agentic_ops_approval'', ia_context = ctx,
      ia_post_id = p, ia_channel_id = c, ia_team_id = [], ia_user_id = u, ia_username = u\<rparr>))"
proof -
  have act: "action = [(''type'', JStr ''button''), (''text'', JObj [(''type'', JStr ''plain_text''), (''text'', JStr label)]),
      (''style'', JStr style), (''action_id'', JStr ''agentic_ops_approval''), (''value'', JStr (json_dumps (JObj ctx)))]"
    using assms(1) by (simp add: slack_button_def)
  have "plain_json (JObj (button_frame action p c u))" by (simp add: button_frame_def act)
  note frame = json_roundtrip [OF this]
  have "action_context action = ctx"
    using json_roundtrip [OF assms(2)] by (simp add: action_context_def act dget_def get_default_def del: json_dumps.simps)
  then have "parse_slack_socket_envelope (button_frame action p c u) = Some (InteractiveAction
     \<lparr>ia_provider = ''slack'', ia_action_id = ''agentic_ops_approval'', ia_context = ctx,
      ia_post_id = p, ia_channel_id = c, ia_team_id = [], ia_user_id = u, ia_username = u\<rparr>)"
    by (simp add: parse_slack_socket_envelope_def button_frame_def slack_action_def dget_def get_default_def py_or_def)
      (simp add: act)
  then show ?thesis
    unfolding slack_frame_def frame by (simp add: button_frame_def dget_def get_default_def)
qed

text \<open>
  A Slack approval button works end to end: the frame Slack sends for a button of the
  prompt, decoded from its JSON text with the context inside it decoded again, resolves the
  approval of the prompt with the decision of that button. The hypotheses are that the request is
  still the current one for its task and tool and that post and channel are not contradicted by a
  recorded delivery.
\<close>

lemma slack_button_roundtrip:
  assumes "wf_approvals d" "a \<in> set (approvals d)" "a_status a = ''pending''" "a_id a < 16 ^ 32"
    "get_task d (a_task_id a) = Some t" "slack_approval_post_payload st t a = Inr (text, blocks)"
    "(dec, JObj action) \<in> set (zip [''approve'', ''reject''] (slack_buttons blocks))"
    "\<And>ctx. approval_action_context st a dec False = Inr ctx \<Longrightarrow>
       check_request d a (text_or_empty (dget ctx ''request_id'')) = Inr ()"
    "check_delivery a p c = Inr ()"
  shows "\<exists>ev r d' sent' a'. slack_frame (json_dumps (JObj (button_frame action p c u))) = Inr (None, Some ev)
     \<and> handle_event w g ev d sent = (r, d', sent')
     \<and> get_approval d' (a_id a) = Some a' \<and> resolved_as (dec = ''approve'') (ou_now w) a a'"
proof -
  obtain yes no where "approval_action_context st a ''approve'' False = Inr yes"
    "approval_action_context st a ''reject'' False = Inr no"
    "slack_buttons blocks = [slack_button ''Approve'' ''primary'' yes, slack_button ''Reject'' ''danger'' no]"
    by (rule slack_buttons_of_prompt [OF assms(6)])
  with assms(7) obtain ctx label style where
    ctx: "approval_action_context st a dec False = Inr ctx" and act: "JObj action = slack_button label style ctx"
    and dec: "dec = ''approve'' \<or> dec = ''reject''" by auto
  define ev where "ev = InteractiveAction \<lparr>ia_provider = ''slack'', ia_action_id = ''agentic_ops_approval'',
      ia_context = ctx, ia_post_id = p, ia_channel_id = c, ia_team_id = [], ia_user_id = u, ia_username = u\<rparr>"
  have frame: "slack_frame (json_dumps (JObj (button_frame action p c u))) = Inr (None, Some ev)"
    unfolding ev_def by (rule parse_button_frame [OF act action_context_plain [OF ctx]])
  have fields: "dget ctx ''approval_id'' = JStr (uuid_str (a_id a))" "dget ctx ''decision'' = JStr dec"
    using ctx by (auto simp: approval_action_context_def bind_res_Inr_iff dget_def get_default_def)
  from resolve_button [OF assms(1-5) dec fields assms(8) [OF ctx] assms(9),
      of "ou_now w" u "''slack_interactive''"]
  obtain res d' a' where res: "resolve_approval_action (ou_now w) ctx u p c ''slack_interactive'' d = Inr (res, d')"
    "get_approval d' (a_id a) = Some a'" "resolved_as (dec = ''approve'') (ou_now w) a a'" by blast
  have "\<exists>r sent'. handle_event w g ev d sent = (r, d', sent')"
    by (simp add: ev_def handle_interactive_action_def res(1) split: prod.split sum.split)
  with frame res(2,3) show ?thesis by blast
qed

lemma slack_button_roundtrip_witness:
  "\<exists>text blocks action ev r d' sent' a'.
     slack_approval_post_payload demo_settings (demo_task 11 ''a'' waiting_approval 1) demo_approval = Inr (text, blocks)
     \<and> slack_buttons blocks ! 1 = JObj action
     \<and> slack_frame (json_dumps (JObj (button_frame action [] [] ''u1''))) = Inr (None, Some ev)
     \<and> handle_event demo_outside demo_ingress ev demo_approval_db [] = (r, d', sent')
     \<and> get_approval d' 21 = Some a' \<and> a_status a' = ''rejected''"
proof -
  note f = demo_approval_facts
  let ?t = "demo_task 11 ''a'' waiting_approval 1"
  obtain prompt blocks where pay: "slack_approval_post_payload demo_settings ?t demo_approval = Inr (prompt, blocks)"
    by (simp add: slack_approval_post_payload_def approval_post_payload_def approval_issue_def
        approval_action_context_def demo_approval_def attr_get_def get_default_def dget_def)
  obtain no where b: "slack_buttons blocks ! 1 = slack_button ''Reject'' ''danger'' no" "length (slack_buttons blocks) = 2"
    using slack_buttons_of_prompt [OF pay] by (metis length_Cons list.size(3) nth_Cons_0 nth_Cons_Suc One_nat_def numeral_2_eq_2)
  obtain action where act: "slack_buttons blocks ! 1 = JObj action" using b(1) by (simp add: slack_button_def)
  have el: "(''reject'', JObj action) \<in> set (zip [''approve'', ''reject''] (slack_buttons blocks))"
    using act b(2) by (auto simp: in_set_zip intro!: exI [of _ 1])
  have req: "check_request demo_approval_db demo_approval (text_or_empty (dget ctx ''request_id'')) = Inr ()"
    if "approval_action_context demo_settings demo_approval ''reject'' False = Inr ctx" for ctx
    using that f(8) by (auto simp: approval_action_context_def demo_approval_def attr_get_def get_default_def dget_def)
  have small: "a_id demo_approval < 16 ^ 32" by (simp add: f)
  have tk: "get_task demo_approval_db (a_task_id demo_approval) = Some ?t" unfolding f(5) by (rule f(7))
  obtain ev r d' sent' a' where "slack_frame (json_dumps (JObj (button_frame action [] [] ''u1''))) = Inr (None, Some ev)"
    "handle_event demo_outside demo_ingress ev demo_approval_db [] = (r, d', sent')"
    "get_approval d' (a_id demo_approval) = Some a'"
    "resolved_as (''reject'' = ''approve'') (ou_now demo_outside) demo_approval a'"
    using slack_button_roundtrip [OF f(1,2,4) small tk pay el req f(9)] by blast
  moreover then have "a_status a' = ''rejected''" by (simp add: resolved_as_def)
  ultimately show ?thesis using pay act f(3) by metis
qed

end
