(* ===== verification/Control_Plane.thy ===== *)
theory Control_Plane
  imports Task_Queue Sha256 "HOL-Library.List_Lexorder" "HOL-Library.Char_ord"
begin

text \<open>
  Which workflows exist, which of them may run, and when they run by themselves: the discovery of
  workflow packages (\<open>shared/lib/workflow_paths.py\<close>), the provisioner that mirrors them into the
  agents and schedules tables (\<open>gateway/provisioner.py\<close>), the scheduler that turns a cron
  schedule into tasks (\<open>gateway/scheduler.py\<close>), the pause state of connectors
  (\<open>shared/lib/connector_state.py\<close>) and the control-plane handlers over them
  (\<open>gateway/api.py\<close>).

  The file system and the cron library are parameters: a directory is what reading and parsing
  its \<open>agent.yaml\<close> gives, a cron trigger is its function from a reference time to the next fire
  time.
\<close>

section \<open>Workflow packages\<close>

record workflow_package =
  wp_name :: str
  wp_path :: str
  wp_dir_name :: str
  wp_config :: dict
  wp_raw_yaml :: str

record workflow_dir =
  wd_path :: str
  wd_name :: str
  wd_yaml :: "(str \<times> json) option"

text \<open>
  A root is \<open>None\<close> when it does not exist; \<open>wd_yaml\<close> is \<open>None\<close> when the file cannot be read or
  parsed, otherwise its text and the parsed document.
\<close>

fun discover_dirs :: "workflow_dir list \<Rightarrow> str list \<Rightarrow> workflow_package list res" where
  "discover_dirs [] seen = Inr []"
| "discover_dirs (w # ws) seen =
     (case wd_yaml w of
        None \<Rightarrow> discover_dirs ws seen
      | Some (raw, document) \<Rightarrow>
          (case py_or document (JObj []) of
             JObj config \<Rightarrow>
               let name = py_str (py_or (dget config ''name'') (JStr (wd_name w)))
               in if name \<in> set seen
                  then Inl (ValueError (''Duplicate workflow name '' @ repr_str name @ '' discovered at '' @ wd_path w))
                  else bind_res (discover_dirs ws (seen @ [name])) (\<lambda>packages.
                    Inr (\<lparr>wp_name = name, wp_path = wd_path w, wp_dir_name = wd_name w, wp_config = config,
                          wp_raw_yaml = raw\<rparr> # packages))
           | _ \<Rightarrow> discover_dirs ws seen))"

definition discover_workflow_packages :: "workflow_dir list option list \<Rightarrow> workflow_package list res" where
  "discover_workflow_packages roots =
     discover_dirs (concat (map (\<lambda>r. case r of None \<Rightarrow> [] | Some ds \<Rightarrow> ds) roots)) []"

definition find_workflow_package :: "workflow_dir list option list \<Rightarrow> str \<Rightarrow> workflow_package option res" where
  "find_workflow_package roots workflow =
     bind_res (discover_workflow_packages roots) (\<lambda>packages.
       Inr (find (\<lambda>p. wp_name p = workflow \<or> wp_dir_name p = workflow) packages))"

section \<open>Agents\<close>

definition update_agents :: "(agent \<Rightarrow> bool) \<Rightarrow> (agent \<Rightarrow> agent) \<Rightarrow> db \<Rightarrow> db" where
  "update_agents P f d = d\<lparr>agents := update_where P (\<lambda>a. (f a)\<lparr>ag_updated := db_now d\<rparr>) (agents d)\<rparr>"

definition agent_named :: "db \<Rightarrow> str \<Rightarrow> agent option" where
  "agent_named d name = find (\<lambda>a. ag_name a = name) (agents d)"

definition provisioned_agent :: "db \<Rightarrow> str \<Rightarrow> agent option" where
  "provisioned_agent d name = find (\<lambda>a. ag_name a = name \<and> ag_provisioned a) (agents d)"

definition agent_not_found :: "str \<Rightarrow> py_error" where
  "agent_not_found name = HTTPException 404 (''Agent '' @ [CHR 0x27] @ name @ [CHR 0x27] @ '' not found'')"

definition agent_response :: "agent \<Rightarrow> json" where
  "agent_response a = JObj
     [(''id'', JStr (uuid_str (ag_id a))), (''name'', JStr (ag_name a)), (''description'', ag_description a),
      (''version'', ag_version a), (''provisioned'', JBool (ag_provisioned a)), (''paused'', JBool (ag_paused a)),
      (''provisioned_at'', iso_opt (ag_provisioned_at a)), (''config'', ag_config a),
      (''repo_path'', jopt (ag_repo_path a)), (''created'', JStr (isoformat (ag_created a))),
      (''updated'', JStr (isoformat (ag_updated a)))]"

text \<open>\<open>collate\<close> is the position of a text in the collation of the database.\<close>

definition list_agents :: "(str \<Rightarrow> int) \<Rightarrow> bool option \<Rightarrow> db \<Rightarrow> json list" where
  "list_agents collate provisioned d =
     map agent_response (sort_key (\<lambda>a. collate (ag_name a))
       (filter (\<lambda>a. ag_provisioned a = (case provisioned of None \<Rightarrow> True | Some b \<Rightarrow> b)) (agents d)))"

definition get_agent :: "str \<Rightarrow> db \<Rightarrow> json res" where
  "get_agent name d =
     (case provisioned_agent d name of None \<Rightarrow> Inl (agent_not_found name) | Some a \<Rightarrow> Inr (agent_response a))"

definition provision_agent :: "time \<Rightarrow> str \<Rightarrow> db \<Rightarrow> (json \<times> db) res" where
  "provision_agent now name d =
     (case agent_named d name of
        None \<Rightarrow> Inl (agent_not_found name)
      | Some a \<Rightarrow> Inr (JObj [(''status'', JStr ''provisioned''), (''agent'', JStr name)],
          update_agents (\<lambda>b. ag_id b = ag_id a) (\<lambda>b. b\<lparr>ag_provisioned := True, ag_provisioned_at := Some now\<rparr>) d))"

definition set_agent_paused :: "bool \<Rightarrow> str \<Rightarrow> db \<Rightarrow> (json \<times> db) res" where
  "set_agent_paused paused name d =
     (case provisioned_agent d name of
        None \<Rightarrow> Inl (agent_not_found name)
      | Some a \<Rightarrow> Inr (agent_response (a\<lparr>ag_paused := paused, ag_updated := db_now d\<rparr>),
          update_agents (\<lambda>b. ag_id b = ag_id a) (\<lambda>b. b\<lparr>ag_paused := paused\<rparr>) d))"

definition pause_agent :: "str \<Rightarrow> db \<Rightarrow> (json \<times> db) res" where
  "pause_agent = set_agent_paused True"

definition resume_agent :: "str \<Rightarrow> db \<Rightarrow> (json \<times> db) res" where
  "resume_agent = set_agent_paused False"

section \<open>The provisioner\<close>

definition compute_hash :: "str \<Rightarrow> str" where
  "compute_hash content = sha256_hexdigest content"

definition schedule_fields :: "dict \<Rightarrow> schedule \<Rightarrow> schedule" where
  "schedule_fields cfg s = s\<lparr>sc_cron := py_str (get_default cfg ''cron'' (JStr [])),
     sc_prompt := Some (py_str (get_default cfg ''prompt'' (JStr []))),
     sc_enabled := truthy (get_default cfg ''enabled'' (JBool True))\<rparr>"

definition new_schedule :: "db \<Rightarrow> uuid \<Rightarrow> str \<Rightarrow> dict \<Rightarrow> schedule" where
  "new_schedule d agent_id name cfg = schedule_fields cfg
     \<lparr>sc_id = uuid_gen d, sc_agent_id = agent_id, sc_name = name, sc_cron = [], sc_prompt = None,
      sc_enabled = True, sc_last_run = None, sc_next_run = None, sc_created = db_now d\<rparr>"

definition schedule_name_of :: "dict \<Rightarrow> str" where
  "schedule_name_of cfg = py_str (get_default cfg ''name'' (JStr []))"

text \<open>
  The loop over the configured schedules. \<open>existing\<close> is the dictionary of the rows the agent had
  when the loop began, by name; a name that is configured twice is therefore inserted twice.
\<close>

fun sync_loop :: "(str \<times> uuid) list \<Rightarrow> uuid \<Rightarrow> json list \<Rightarrow> str list \<Rightarrow> db \<Rightarrow> (str list \<times> db) res" where
  "sync_loop existing agent_id [] configured d = Inr (configured, d)"
| "sync_loop existing agent_id (v # vs) configured d =
     (case v of
        JObj cfg \<Rightarrow>
          let name = schedule_name_of cfg
          in if name = [] then sync_loop existing agent_id vs configured d
             else sync_loop existing agent_id vs (configured @ [name])
               (case map_of existing name of
                  Some i \<Rightarrow> d\<lparr>schedules := update_where (\<lambda>s. sc_id s = i) (schedule_fields cfg) (schedules d)\<rparr>
                | None \<Rightarrow> d\<lparr>schedules := schedules d @ [new_schedule d agent_id name cfg],
                            uuid_gen := Suc (uuid_gen d)\<rparr>)
      | _ \<Rightarrow> Inl (AttributeError ''get''))"

definition sync_schedules :: "str \<Rightarrow> json \<Rightarrow> db \<Rightarrow> db res" where
  "sync_schedules name schedules_config d =
     (case agent_named d name of
        None \<Rightarrow> Inr d
      | Some a \<Rightarrow>
          let own = filter (\<lambda>s. sc_agent_id s = ag_id a) (schedules d);
              existing = map (\<lambda>s. (sc_name s, sc_id s)) (rev own)
          in bind_res (py_list schedules_config) (\<lambda>vs.
             bind_res (sync_loop existing (ag_id a) vs [] d) (\<lambda>(configured, d1).
               Inr (d1\<lparr>schedules := delete_where
                 (\<lambda>s. sc_agent_id s = ag_id a \<and> sc_name s \<notin> set configured
                      \<and> map_of existing (sc_name s) = Some (sc_id s)) (schedules d1)\<rparr>))))"

definition new_agent :: "time \<Rightarrow> db \<Rightarrow> str \<Rightarrow> str \<Rightarrow> dict \<Rightarrow> str \<Rightarrow> agent" where
  "new_agent now d name repo_path config raw =
     \<lparr>ag_id = uuid_gen d, ag_name = name, ag_description = get_default config ''description'' (JStr []),
      ag_version = get_default config ''version'' (JStr []), ag_config = JObj config,
      ag_config_hash = Some (compute_hash raw), ag_repo_path = Some repo_path, ag_provisioned = True,
      ag_paused = True, ag_provisioned_at = Some now, ag_created = db_now d, ag_updated = db_now d\<rparr>"

definition provisioned_since :: "time \<Rightarrow> agent \<Rightarrow> agent" where
  "provisioned_since now a = a\<lparr>ag_provisioned := True,
     ag_provisioned_at := Some (case ag_provisioned_at a of Some t \<Rightarrow> t | None \<Rightarrow> now)\<rparr>"

definition changed_agent :: "time \<Rightarrow> str \<Rightarrow> dict \<Rightarrow> str \<Rightarrow> agent \<Rightarrow> agent" where
  "changed_agent now repo_path config raw a = provisioned_since now
     (a\<lparr>ag_description := get_default config ''description'' (JStr []),
        ag_version := get_default config ''version'' (JStr []), ag_config := JObj config,
        ag_config_hash := Some (compute_hash raw), ag_repo_path := Some repo_path\<rparr>)"

definition config_name :: "dict \<Rightarrow> str" where
  "config_name config = py_str (get_default config ''name'' (JStr ''unknown''))"

text \<open>
  The name is bound to a text column: another type is refused by the driver, null by the
  column. Either ends the scan.
\<close>

fun bind_name :: "json \<Rightarrow> str res" where
  "bind_name (JStr n) = Inr n"
| "bind_name JNull = Inl (IntegrityError ''agents.name'')"
| "bind_name v = Inl (DataError ''expected str'')"

definition register_workflow :: "time \<Rightarrow> str \<times> dict \<times> str \<Rightarrow> db \<Rightarrow> db" where
  "register_workflow now wf0 d =
     (let (repo_path, config, raw) = wf0; name = config_name config
      in case agent_named d name of
           Some a \<Rightarrow>
             if ag_config_hash a = Some (compute_hash raw)
             then (if ag_provisioned a then d
                   else update_agents (\<lambda>b. ag_id b = ag_id a) (provisioned_since now) d)
             else update_agents (\<lambda>b. ag_id b = ag_id a) (changed_agent now repo_path config raw) d
         | None \<Rightarrow> d\<lparr>agents := agents d @ [new_agent now d name repo_path config raw],
                    uuid_gen := Suc (uuid_gen d)\<rparr>)"

fun provision_loop :: "time \<Rightarrow> (str \<times> dict \<times> str) list \<Rightarrow> db \<Rightarrow> db res" where
  "provision_loop now [] d = Inr d"
| "provision_loop now ((repo_path, config, raw) # ws) d =
     bind_res (bind_name (get_default config ''name'' (JStr ''unknown''))) (\<lambda>_.
     bind_res (sync_schedules (config_name config) (get_default config ''schedules'' (JList []))
                (register_workflow now (repo_path, config, raw) d))
       (provision_loop now ws))"

text \<open>The triples of the scan; validation of the package directory only logs.\<close>

definition scan_workflows :: "workflow_package list \<Rightarrow> (str \<times> dict \<times> str) list" where
  "scan_workflows packages = map (\<lambda>p. (wp_path p, wp_config p, wp_raw_yaml p)) packages"

definition discovered_names :: "(str \<times> dict \<times> str) list \<Rightarrow> str list" where
  "discovered_names ws = map (\<lambda>(r, config, raw). py_str (dget config ''name''))
     (filter (\<lambda>(r, config, raw). truthy (dget config ''name'')) ws)"

definition retire_agent :: "agent \<Rightarrow> db \<Rightarrow> db" where
  "retire_agent a d =
     (let d1 = (if ag_provisioned a then update_agents (\<lambda>b. ag_id b = ag_id a) (\<lambda>b. b\<lparr>ag_provisioned := False\<rparr>) d
                else d)
      in d1\<lparr>schedules := delete_where (\<lambda>s. sc_agent_id s = ag_id a) (schedules d1)\<rparr>)"

definition run_provisioner_scan :: "time \<Rightarrow> (str \<times> dict \<times> str) list \<Rightarrow> db \<Rightarrow> db res" where
  "run_provisioner_scan now workflows d =
     bind_res (provision_loop now workflows d) (\<lambda>d1.
       Inr (fold (\<lambda>a e. if ag_name a \<in> set (discovered_names workflows) then e
                        else case find (\<lambda>b. ag_id b = ag_id a) (agents e) of
                               Some b \<Rightarrow> retire_agent b e | None \<Rightarrow> e) (agents d) d1))"

section \<open>The scheduler\<close>

text \<open>
  \<open>CronTrigger(...)\<close> is the cron library's constructor on the five fields; it may reject them.
  The scheduler itself is its table of jobs by identifier, \<open>None\<close> while it is not started.
\<close>

type_synonym trigger = "time \<Rightarrow> time option"
type_synonym cron_library = "str \<Rightarrow> str \<Rightarrow> str \<Rightarrow> str \<Rightarrow> str \<Rightarrow> trigger res"

record job =
  jb_trigger :: trigger
  jb_agent :: str
  jb_schedule :: str
  jb_prompt :: str
  jb_message_channel :: "str option"

type_synonym scheduler = "(str \<times> job) list option"

definition job_id :: "str \<Rightarrow> str \<Rightarrow> str" where
  "job_id agent_name schedule_name = agent_name @ '':'' @ schedule_name"

fun schedule_channel :: "str \<Rightarrow> json list \<Rightarrow> str option" where
  "schedule_channel name [] = None"
| "schedule_channel name (JObj s # ss) =
     (if dget s ''name'' = JStr name \<and> truthy (dget s ''message_channel'')
      then Some (py_str (dget s ''message_channel'')) else schedule_channel name ss)"
| "schedule_channel name (v # ss) = schedule_channel name ss"

definition resolve_schedule_channel :: "dict \<Rightarrow> str \<Rightarrow> str option res" where
  "resolve_schedule_channel config schedule_name =
     bind_res (py_list (get_default config ''schedules'' (JList []))) (\<lambda>entries.
       case schedule_channel schedule_name entries of
         Some c \<Rightarrow> Inr (Some c)
       | None \<Rightarrow>
           let messaging = py_or (dget config ''messaging'') (JObj []);
               channels = (case messaging of JObj m \<Rightarrow> get_default m ''channels'' (JList []) | _ \<Rightarrow> JList []);
               normalized = map (\<lambda>c. if c = CHR ''_'' then CHR ''-'' else c) schedule_name
           in Inr (case channels of
                JList cs \<Rightarrow>
                  if JStr normalized \<in> set cs then Some normalized
                  else (case cs of [] \<Rightarrow> None | c # _ \<Rightarrow> Some (py_str c))
              | _ \<Rightarrow> None))"

definition parse_cron :: "cron_library \<Rightarrow> str \<Rightarrow> trigger res" where
  "parse_cron cron s =
     (case py_split (strip_chars [CHR 0x27] (strip_chars [CHR 0x22] (py_strip s))) of
        [minute, hour, day, month, day_of_week] \<Rightarrow> cron minute hour day month day_of_week
      | _ \<Rightarrow> Inl (ValueError (''Expected 5-field cron expression, got: '' @ s)))"

definition next_run_at :: "cron_library \<Rightarrow> str \<Rightarrow> time \<Rightarrow> time option res" where
  "next_run_at cron s reference = bind_res (parse_cron cron s) (\<lambda>trigger. Inr (trigger reference))"

definition compute_next_run :: "cron_library \<Rightarrow> time \<Rightarrow> str \<Rightarrow> str option" where
  "compute_next_run cron now s =
     (case next_run_at cron s now of Inr (Some t) \<Rightarrow> Some (isoformat t) | _ \<Rightarrow> None)"

definition schedule_row :: "db \<Rightarrow> str \<Rightarrow> str \<Rightarrow> (schedule \<times> bool) list" where
  "schedule_row d agent_name schedule_name =
     [(s, ag_paused a). s \<leftarrow> schedules d, a \<leftarrow> agents d,
        sc_agent_id s = ag_id a \<and> ag_name a = agent_name \<and> sc_name s = schedule_name \<and> sc_enabled s]"

text \<open>\<open>one_or_none\<close>: no row, the row, or an exception when there are several.\<close>

fun one_or_none :: "'a list \<Rightarrow> 'a option res" where
  "one_or_none [] = Inr None"
| "one_or_none [x] = Inr (Some x)"
| "one_or_none xs = Inl MultipleResultsFound"

text \<open>
  A fired job. The task is committed before the schedule's row is updated; an invalid cron text
  then raises with the task already in the queue.
\<close>

definition schedule_job_handler ::
  "cron_library \<Rightarrow> (str \<Rightarrow> json option res) \<Rightarrow> time \<Rightarrow> str \<Rightarrow> str \<Rightarrow> str \<Rightarrow> str option \<Rightarrow> db \<Rightarrow> unit res \<times> db" where
  "schedule_job_handler cron pkg now agent_name schedule_name prompt message_channel d =
     (case one_or_none (schedule_row d agent_name schedule_name) of
        Inl e \<Rightarrow> (Inl e, d)
      | Inr None \<Rightarrow> (Inr (), d)
      | Inr (Some (sched, agent_paused)) \<Rightarrow>
          if agent_paused then (Inr (), d)
          else (case create_task pkg now agent_name prompt (Some ''schedule'')
                       (Some [(''schedule'', JStr schedule_name), (''triggered_by'', JStr ''scheduler'')])
                       message_channel None None 300 d of
                  Inl e \<Rightarrow> (Inl e, d)
                | Inr (t, d1) \<Rightarrow>
                    (case next_run_at cron (sc_cron sched) now of
                       Inl e \<Rightarrow> (Inl e, d1)
                     | Inr next \<Rightarrow> (Inr (), d1\<lparr>schedules := update_where (\<lambda>s. sc_id s = sc_id sched)
                         (\<lambda>s. s\<lparr>sc_last_run := Some now, sc_next_run := next\<rparr>) (schedules d1)\<rparr>))))"

definition register_schedule_job ::
  "cron_library \<Rightarrow> str \<Rightarrow> str \<Rightarrow> str \<Rightarrow> str \<Rightarrow> dict \<Rightarrow> scheduler \<Rightarrow> (bool \<times> scheduler) res" where
  "register_schedule_job cron agent_name schedule_name cron_str prompt config sch =
     (case sch of
        None \<Rightarrow> Inr (False, None)
      | Some jobs \<Rightarrow>
          bind_res (parse_cron cron cron_str) (\<lambda>trigger.
          bind_res (resolve_schedule_channel config schedule_name) (\<lambda>channel.
            Inr (True, Some (AList.update (job_id agent_name schedule_name)
              \<lparr>jb_trigger = trigger, jb_agent = agent_name, jb_schedule = schedule_name, jb_prompt = prompt,
               jb_message_channel = channel\<rparr> jobs)))))"

definition unregister_schedule_job :: "str \<Rightarrow> str \<Rightarrow> scheduler \<Rightarrow> bool \<times> scheduler" where
  "unregister_schedule_job agent_name schedule_name sch =
     (case sch of
        None \<Rightarrow> (False, None)
      | Some jobs \<Rightarrow>
          (case map_of jobs (job_id agent_name schedule_name) of
             None \<Rightarrow> (False, sch)
           | Some j \<Rightarrow> (True, Some (AList.delete (job_id agent_name schedule_name) jobs))))"

text \<open>The enabled schedules with their agents, as the start-up query returns them.\<close>

definition enabled_schedules :: "db \<Rightarrow> (schedule \<times> agent) list" where
  "enabled_schedules d = [(s, a). s \<leftarrow> schedules d, a \<leftarrow> agents d, sc_agent_id s = ag_id a \<and> sc_enabled s]"

definition register_row :: "cron_library \<Rightarrow> schedule \<times> agent \<Rightarrow> scheduler \<Rightarrow> scheduler" where
  "register_row cron row sch =
     (case register_schedule_job cron (ag_name (snd row)) (sc_name (fst row)) (sc_cron (fst row))
             (opt_str (sc_prompt (fst row))) (obj_or_empty (py_or (ag_config (snd row)) (JObj []))) sch of
        Inl e \<Rightarrow> sch
      | Inr (_, sch1) \<Rightarrow> sch1)"

text \<open>Mirroring the next fire time of each job into the row of its schedule.\<close>

definition persist_next_runs :: "time \<Rightarrow> scheduler \<Rightarrow> db \<Rightarrow> db" where
  "persist_next_runs now sch d =
     (case sch of
        None \<Rightarrow> d
      | Some jobs \<Rightarrow> fold (\<lambda>(s, a) e. e\<lparr>schedules := update_where (\<lambda>r. sc_id r = sc_id s)
            (\<lambda>r. r\<lparr>sc_next_run := (case map_of jobs (job_id (ag_name a) (sc_name s)) of
                                      None \<Rightarrow> None | Some j \<Rightarrow> jb_trigger j now)\<rparr>) (schedules e)\<rparr>)
          (enabled_schedules d) d)"

definition start_scheduler :: "cron_library \<Rightarrow> time \<Rightarrow> db \<Rightarrow> scheduler \<times> db" where
  "start_scheduler cron now d =
     (let sch = fold (register_row cron) (enabled_schedules d) (Some [])
      in (sch, persist_next_runs now sch d))"

definition stop_scheduler :: "scheduler \<Rightarrow> scheduler" where
  "stop_scheduler sch = None"

section \<open>Schedule handlers\<close>

definition provisioned_schedule :: "db \<Rightarrow> uuid \<Rightarrow> (schedule \<times> agent) list" where
  "provisioned_schedule d i =
     [(s, a). s \<leftarrow> schedules d, a \<leftarrow> agents d, sc_agent_id s = ag_id a \<and> sc_id s = i \<and> ag_provisioned a]"

definition schedule_response :: "schedule \<Rightarrow> agent \<Rightarrow> time option \<Rightarrow> str option \<Rightarrow> json" where
  "schedule_response s a last_run next_run = JObj
     [(''id'', JStr (uuid_str (sc_id s))), (''agent_name'', JStr (ag_name a)), (''schedule_name'', JStr (sc_name s)),
      (''cron_expression'', JStr (sc_cron s)), (''prompt'', JStr (opt_str (sc_prompt s))),
      (''enabled'', JBool (sc_enabled s)), (''last_run_at'', iso_opt last_run), (''next_run_at'', jopt next_run),
      (''created_at'', JStr (isoformat (sc_created s)))]"

text \<open>
  \<open>column[key].astext\<close>: a text as it is, null for null or a missing key; \<open>jsonb_text\<close> is how the
  database prints any other value. A schedule without a recorded run shows the newest task the
  scheduler created for it.
\<close>

definition astext :: "(json \<Rightarrow> str) \<Rightarrow> json \<Rightarrow> str option" where
  "astext jsonb_text v = (case v of JNull \<Rightarrow> None | JStr s \<Rightarrow> Some s | _ \<Rightarrow> Some (jsonb_text v))"

definition scheduled_runs :: "(json \<Rightarrow> str) \<Rightarrow> str \<Rightarrow> str \<Rightarrow> db \<Rightarrow> time list" where
  "scheduled_runs jsonb_text agent_name schedule_name d = map t_created (filter (\<lambda>t. t_workflow t = agent_name
     \<and> astext jsonb_text (dget (t_metadata t) ''schedule'') = Some schedule_name
     \<and> astext jsonb_text (dget (t_metadata t) ''triggered_by'') = Some ''scheduler'') (tasks d))"

definition last_run_of :: "(json \<Rightarrow> str) \<Rightarrow> schedule \<Rightarrow> agent \<Rightarrow> db \<Rightarrow> time option" where
  "last_run_of jsonb_text s a d =
     (case sc_last_run s of
        Some t \<Rightarrow> Some t
      | None \<Rightarrow> (case scheduled_runs jsonb_text (ag_name a) (sc_name s) d of
                   [] \<Rightarrow> None | t # ts \<Rightarrow> Some (foldl max t ts)))"

definition list_schedules ::
  "(str \<Rightarrow> int) \<Rightarrow> (json \<Rightarrow> str) \<Rightarrow> cron_library \<Rightarrow> time \<Rightarrow> db \<Rightarrow> json list" where
  "list_schedules collate jsonb_text cron now d =
     map (\<lambda>(s, a). schedule_response s a (last_run_of jsonb_text s a d)
            (case sc_next_run s of Some t \<Rightarrow> Some (isoformat t) | None \<Rightarrow> compute_next_run cron now (sc_cron s)))
       (sort_key (\<lambda>(s, a). collate (ag_name a)) (sort_key (\<lambda>(s, a). collate (sc_name s))
         [(s, a). s \<leftarrow> schedules d, a \<leftarrow> agents d, sc_agent_id s = ag_id a \<and> ag_provisioned a]))"

text \<open>
  \<open>PUT /schedules/{id}\<close>: the row is committed before the job table is touched. The next run of
  an enabled schedule is the instant its ISO text denotes.
\<close>

definition update_schedule ::
  "cron_library \<Rightarrow> time \<Rightarrow> str \<Rightarrow> bool \<Rightarrow> scheduler \<Rightarrow> db \<Rightarrow> json res \<times> scheduler \<times> db" where
  "update_schedule cron now schedule_id enabled sch d =
     (case uuid_of_str schedule_id of
        None \<Rightarrow> (Inl (ValueError ''badly formed hexadecimal UUID string''), sch, d)
      | Some i \<Rightarrow>
          (case provisioned_schedule d i of
             [] \<Rightarrow> (Inl (HTTPException 404 ''Schedule not found''), sch, d)
           | (s, a) # _ \<Rightarrow>
               let next = (if enabled
                           then (case next_run_at cron (sc_cron s) now of Inr t \<Rightarrow> t | Inl _ \<Rightarrow> None) else None);
                   s1 = s\<lparr>sc_enabled := enabled, sc_next_run := next\<rparr>;
                   d1 = d\<lparr>schedules := update_where (\<lambda>r. sc_id r = i) (\<lambda>_. s1) (schedules d)\<rparr>;
                   response = schedule_response s1 a (sc_last_run s1) (map_option isoformat next)
               in if enabled
                  then (case register_schedule_job cron (ag_name a) (sc_name s) (sc_cron s) (opt_str (sc_prompt s))
                               (obj_or_empty (py_or (ag_config a) (JObj []))) sch of
                          Inl e \<Rightarrow> (Inl e, sch, d1)
                        | Inr (_, sch1) \<Rightarrow> (Inr response, sch1, d1))
                  else (Inr response, snd (unregister_schedule_job (ag_name a) (sc_name s) sch), d1)))"

section \<open>Connectors\<close>

definition MESSAGE_INGRESS_CONNECTOR_ID :: str where
  "MESSAGE_INGRESS_CONNECTOR_ID = ''message-ingress''"

definition connector_is_paused :: "db \<Rightarrow> str \<Rightarrow> bool" where
  "connector_is_paused d i =
     (case find (\<lambda>c. cs_connector_id c = i) (connector_states d) of None \<Rightarrow> True | Some c \<Rightarrow> cs_paused c)"

definition set_connector_paused :: "str \<Rightarrow> bool \<Rightarrow> db \<Rightarrow> db" where
  "set_connector_paused i paused d =
     (case find (\<lambda>c. cs_connector_id c = i) (connector_states d) of
        None \<Rightarrow> d\<lparr>connector_states := connector_states d
               @ [\<lparr>cs_connector_id = i, cs_paused = paused, cs_updated = db_now d\<rparr>]\<rparr>
      | Some c \<Rightarrow> if cs_paused c = paused then d
          else d\<lparr>connector_states := update_where (\<lambda>r. cs_connector_id r = i)
                 (\<lambda>r. r\<lparr>cs_paused := paused, cs_updated := db_now d\<rparr>) (connector_states d)\<rparr>)"

section \<open>A schedule fires only when it may\<close>

lemma create_task_uncoalesced:
  assumes "pkg w = Inr x"
  shows "\<exists>t d'. create_task pkg now w prompt ch md mc mt None win d = Inr (t, d')
     \<and> tasks d' = tasks d @ [t] \<and> t_workflow t = w \<and> t_prompt t = prompt \<and> t_status t = queued
     \<and> t_channel t = ch \<and> schedules d' = schedules d \<and> agents d' = agents d"
proof -
  have "\<exists>c. workflow_default_message_channel pkg w d = Inr c"
    using assms by (auto simp: workflow_default_message_channel_def Let_def)
  then obtain c where "workflow_default_message_channel pkg w d = Inr c" ..
  then obtain mc' md' where "normalize_message_route pkg w mc mt md d = Inr (mc', md')"
    by (cases "opt_truthy mt"; cases "c = [] \<or> Some c = mc")
      (simp_all add: normalize_message_route_def Let_def)
  then show ?thesis
    by (simp add: create_task_def opt_truthy_def insert_task_def new_task_def add_task_event_def Let_def)
qed

text \<open>
  A fired cron job adds a task exactly when its schedule still exists, is enabled and
  belongs to an agent that is not paused; otherwise nothing changes at all. The task is queued for
  the agent with the prompt of the job. The hypothesis says that looking up the workflow's package
  does not fail.
\<close>

lemma schedule_fires_when_enabled:
  assumes "\<exists>x. pkg agent_name = Inr x"
    and "schedule_job_handler cron pkg now agent_name schedule_name prompt channel d = (r, d')"
  shows "if \<exists>s. schedule_row d agent_name schedule_name = [(s, False)]
    then \<exists>t. tasks d' = tasks d @ [t] \<and> t_workflow t = agent_name \<and> t_prompt t = prompt \<and> t_status t = queued
           \<and> t_channel t = Some ''schedule'' \<and> agents d' = agents d
    else d' = d"
proof (cases "one_or_none (schedule_row d agent_name schedule_name)")
  case (Inl e)
  then have "\<nexists>s. schedule_row d agent_name schedule_name = [(s, False)]" by auto
  with Inl assms(2) show ?thesis by (simp add: schedule_job_handler_def)
next
  case (Inr x)
  show ?thesis
  proof (cases "\<exists>s. schedule_row d agent_name schedule_name = [(s, False)]")
    case True
    then obtain s where s: "schedule_row d agent_name schedule_name = [(s, False)]" by blast
    from assms(1) obtain p where "pkg agent_name = Inr p" by blast
    from create_task_uncoalesced [of pkg agent_name p now prompt "Some ''schedule''"
        "Some [(''schedule'', JStr schedule_name), (''triggered_by'', JStr ''scheduler'')]" channel None 300 d, OF this]
    obtain t d1 where "create_task pkg now agent_name prompt (Some ''schedule'')
        (Some [(''schedule'', JStr schedule_name), (''triggered_by'', JStr ''scheduler'')]) channel None None 300 d
          = Inr (t, d1)" "tasks d1 = tasks d @ [t] \<and> t_workflow t = agent_name \<and> t_prompt t = prompt
          \<and> t_status t = queued \<and> t_channel t = Some ''schedule'' \<and> agents d1 = agents d" by blast
    with assms(2) s True show ?thesis
      by (auto simp: schedule_job_handler_def split: sum.splits)
  next
    case False
    then have "x = None \<or> (\<exists>s. x = Some (s, True))"
      using Inr by (cases "schedule_row d agent_name schedule_name" rule: one_or_none.cases) auto
    with Inr assms(2) False show ?thesis by (auto simp: schedule_job_handler_def)
  qed
qed

section \<open>What a provisioner scan leaves behind\<close>

definition wf_agents :: "db \<Rightarrow> bool" where
  "wf_agents d \<longleftrightarrow> distinct (map ag_name (agents d)) \<and> distinct (map ag_id (agents d))
     \<and> list_all (\<lambda>a. ag_id a < uuid_gen d) (agents d)"

lemma agent_named_in: "distinct (map ag_name (agents d)) \<Longrightarrow> a \<in> set (agents d) \<Longrightarrow> agent_named d (ag_name a) = Some a"
  using find_own_row [of ag_name "agents d" a "\<lambda>_. True" "\<lambda>_. True"] by (simp add: agent_named_def)

lemma agent_named_SomeD: "agent_named d n = Some a \<Longrightarrow> a \<in> set (agents d) \<and> ag_name a = n"
  by (auto simp: agent_named_def find_Some_iff)

lemma agent_named_cong: "agents d' = agents d \<Longrightarrow> agent_named d' n = agent_named d n"
  by (simp add: agent_named_def)

text \<open>Changing one agent, its name and identifier apart.\<close>

lemma update_agents_named:
  assumes "wf_agents d" "a \<in> set (agents d)" "\<And>b. ag_name (f b) = ag_name b \<and> ag_id (f b) = ag_id b"
  shows "wf_agents (update_agents (\<lambda>b. ag_id b = ag_id a) f d)"
    and "agent_named (update_agents (\<lambda>b. ag_id b = ag_id a) f d) n =
      (if n = ag_name a then Some ((f a)\<lparr>ag_updated := db_now d\<rparr>) else agent_named d n)"
proof -
  let ?g = "\<lambda>b. if ag_id b = ag_id a then (f b)\<lparr>ag_updated := db_now d\<rparr> else b"
  have ag: "agents (update_agents (\<lambda>b. ag_id b = ag_id a) f d) = map ?g (agents d)"
    by (simp add: update_agents_def update_where_def)
  have same: "ag_name (?g b) = ag_name b" "ag_id (?g b) = ag_id b" for b using assms(3) by auto
  have names: "map ag_name (map ?g (agents d)) = map ag_name (agents d)" "map ag_id (map ?g (agents d)) = map ag_id (agents d)"
    unfolding map_map comp_def same by (rule refl)+
  have "list_all (\<lambda>b. ag_id b < uuid_gen d) (map ?g (agents d))"
    using assms(1,3) unfolding wf_agents_def list_all_iff set_map by auto
  then show "wf_agents (update_agents (\<lambda>b. ag_id b = ag_id a) f d)"
    using assms(1) unfolding wf_agents_def ag names by (simp add: update_agents_def)
  have own: "find (\<lambda>b. ag_name b = n) (map ?g xs) = map_option ?g (find (\<lambda>b. ag_name b = n) xs)" for xs
    using same by (induction xs) auto
  have other: "?g b = b" if "b \<in> set (agents d)" "b \<noteq> a" for b
    using assms(1,2) that by (auto simp: wf_agents_def distinct_map inj_on_def)
  have eq: "agent_named (update_agents (\<lambda>b. ag_id b = ag_id a) f d) n = map_option ?g (agent_named d n)"
    using own [of "agents d"] by (simp only: agent_named_def ag)
  show "agent_named (update_agents (\<lambda>b. ag_id b = ag_id a) f d) n =
      (if n = ag_name a then Some ((f a)\<lparr>ag_updated := db_now d\<rparr>) else agent_named d n)"
  proof (cases "agent_named d n")
    case None
    then have "n \<noteq> ag_name a" using agent_named_in [of d a] assms(1,2) by (auto simp: wf_agents_def)
    with None eq show ?thesis by simp
  next
    case (Some b)
    then have b: "b \<in> set (agents d)" "ag_name b = n" using agent_named_SomeD by auto
    show ?thesis
    proof (cases "b = a")
      case True
      with eq Some b show ?thesis by simp
    next
      case False
      then have "n \<noteq> ag_name a"
        using b assms(1,2) by (auto simp: wf_agents_def distinct_map inj_on_def)
      with eq Some other [OF b(1) False] show ?thesis by simp
    qed
  qed
qed

lemma sync_loop_agents:
  "sync_loop existing i vs configured d = Inr (c, d') \<Longrightarrow> agents d' = agents d \<and> uuid_gen d \<le> uuid_gen d'"
proof (induction vs arbitrary: configured d)
  case (Cons v vs)
  then show ?case
    by (cases v) (fastforce simp: Let_def split: if_splits option.splits)+
qed simp

lemma sync_schedules_agents:
  "sync_schedules n cfg d = Inr d' \<Longrightarrow> agents d' = agents d \<and> uuid_gen d \<le> uuid_gen d'"
  by (auto simp: sync_schedules_def bind_res_Inr_iff Let_def dest!: sync_loop_agents split: option.splits)

lemma wf_agents_grow: "wf_agents d \<Longrightarrow> agents d' = agents d \<Longrightarrow> uuid_gen d \<le> uuid_gen d' \<Longrightarrow> wf_agents d'"
  by (auto simp: wf_agents_def list_all_iff)

text \<open>The state of an agent that the provisioner is about: present, provisioned, paused.\<close>

definition standing :: "db \<Rightarrow> str \<Rightarrow> (bool \<times> bool) option" where
  "standing d n = map_option (\<lambda>a. (ag_provisioned a, ag_paused a)) (agent_named d n)"

definition registered :: "(bool \<times> bool) option \<Rightarrow> (bool \<times> bool) option" where
  "registered x = Some (True, case x of None \<Rightarrow> True | Some (_, p) \<Rightarrow> p)"

lemma registered_idem [simp]: "registered (registered x) = registered x"
  by (simp add: registered_def split: option.split)

lemma register_workflow_standing:
  assumes "wf_agents d"
  shows "wf_agents (register_workflow now (r, config, raw) d)
    \<and> standing (register_workflow now (r, config, raw) d) n =
       (if n = config_name config then registered (standing d n) else standing d n)"
proof (cases "agent_named d (config_name config)")
  case None
  let ?a = "new_agent now d (config_name config) r config raw"
  have "config_name config \<notin> ag_name ` set (agents d)"
    using None by (auto simp: agent_named_def find_None_iff)
  moreover have "uuid_gen d \<notin> ag_id ` set (agents d)"
    using assms by (auto simp: wf_agents_def list_all_iff)
  ultimately have "wf_agents (d\<lparr>agents := agents d @ [?a], uuid_gen := Suc (uuid_gen d)\<rparr>)"
    using assms by (auto simp: wf_agents_def list_all_iff new_agent_def less_Suc_eq)
  moreover have "find P (xs @ [x]) = (case find P xs of None \<Rightarrow> if P x then Some x else None | Some y \<Rightarrow> Some y)"
    for P and x :: agent and xs by (induction xs) auto
  ultimately show ?thesis
    using None by (auto simp: register_workflow_def standing_def registered_def agent_named_def new_agent_def Let_def
        split: option.split)
next
  case (Some a)
  then have a: "a \<in> set (agents d)" "ag_name a = config_name config" using agent_named_SomeD by auto
  note u = update_agents_named [OF assms a(1)]
  have keep: "ag_name (provisioned_since now b) = ag_name b \<and> ag_id (provisioned_since now b) = ag_id b"
    "ag_name (changed_agent now r config raw b) = ag_name b \<and> ag_id (changed_agent now r config raw b) = ag_id b" for b
    by (simp_all add: provisioned_since_def changed_agent_def)
  have now: "ag_provisioned (provisioned_since now a)" "ag_paused (provisioned_since now a) = ag_paused a"
    "ag_provisioned (changed_agent now r config raw a)" "ag_paused (changed_agent now r config raw a) = ag_paused a"
    by (simp_all add: provisioned_since_def changed_agent_def)
  show ?thesis
    using Some a assms now u(1) [OF keep(1)] u(1) [OF keep(2)] u(2) [OF keep(1)] u(2) [OF keep(2)]
    by (auto simp: register_workflow_def standing_def registered_def Let_def)
qed

lemma provision_loop_standing:
  assumes "wf_agents d" "provision_loop now ws d = Inr d'"
  shows "wf_agents d' \<and> (\<forall>n. standing d' n =
     (if n \<in> set (map (\<lambda>(r, config, raw). config_name config) ws) then registered (standing d n) else standing d n))"
  using assms
proof (induction ws arbitrary: d)
  case (Cons w ws)
  obtain r config raw where w: "w = (r, config, raw)" by (cases w)
  let ?d1 = "register_workflow now (r, config, raw) d"
  from Cons.prems(2) obtain d2 where s: "sync_schedules (config_name config) (get_default config ''schedules'' (JList [])) ?d1 = Inr d2"
    and l: "provision_loop now ws d2 = Inr d'" by (auto simp: w bind_res_Inr_iff)
  note reg = register_workflow_standing [OF Cons.prems(1), of now r config raw]
  have wf2: "wf_agents d2" using sync_schedules_agents [OF s] reg wf_agents_grow by blast
  have "standing d2 n = standing ?d1 n" for n
    using sync_schedules_agents [OF s] by (simp add: standing_def agent_named_def)
  with Cons.IH [OF wf2 l] reg show ?case by (simp add: w)
qed simp

lemma retire_agent_standing:
  assumes "wf_agents e" "b \<in> set (agents e)"
  shows "wf_agents (retire_agent b e) \<and> standing (retire_agent b e) n =
     (if n = ag_name b then Some (False, ag_paused b) else standing e n)"
proof (cases "ag_provisioned b")
  case True
  let ?u = "update_agents (\<lambda>x. ag_id x = ag_id b) (\<lambda>x. x\<lparr>ag_provisioned := False\<rparr>) e"
  have keep: "ag_name (x\<lparr>ag_provisioned := False\<rparr>) = ag_name x \<and> ag_id (x\<lparr>ag_provisioned := False\<rparr>) = ag_id x" for x
    by simp
  have r: "agents (retire_agent b e) = agents ?u" "uuid_gen ?u \<le> uuid_gen (retire_agent b e)"
    using True by (simp_all add: retire_agent_def Let_def)
  have "wf_agents (retire_agent b e)"
    by (rule wf_agents_grow [OF update_agents_named(1) [OF assms keep] r])
  moreover have "agent_named (retire_agent b e) n =
      (if n = ag_name b then Some (b\<lparr>ag_provisioned := False, ag_updated := db_now e\<rparr>) else agent_named e n)"
    unfolding agent_named_cong [OF r(1)] by (rule update_agents_named(2) [OF assms keep])
  ultimately show ?thesis by (simp add: standing_def)
next
  case False
  then have "agents (retire_agent b e) = agents e" "uuid_gen (retire_agent b e) = uuid_gen e"
    by (simp_all add: retire_agent_def Let_def)
  with False assms show ?thesis
    using wf_agents_grow [of e "retire_agent b e"] agent_named_in [of e b]
    by (auto simp: standing_def agent_named_def wf_agents_def)
qed

definition agent_keys :: "db \<Rightarrow> (uuid \<times> str) list" where
  "agent_keys d = map (\<lambda>a. (ag_id a, ag_name a)) (agents d)"

lemma agent_keys_retire [simp]: "agent_keys (retire_agent b e) = agent_keys e"
  by (simp add: agent_keys_def retire_agent_def Let_def update_agents_def update_where_def)

lemma retire_all_standing:
  assumes "wf_agents e" "\<forall>a \<in> set as. (ag_id a, ag_name a) \<in> set (agent_keys e)"
  shows "standing (fold (\<lambda>a e. if ag_name a \<in> names then e
             else case find (\<lambda>b. ag_id b = ag_id a) (agents e) of Some b \<Rightarrow> retire_agent b e | None \<Rightarrow> e) as e) n =
     (if n \<in> ag_name ` set as \<and> n \<notin> names then map_option (\<lambda>(_, p). (False, p)) (standing e n) else standing e n)"
  using assms
proof (induction as arbitrary: e)
  case (Cons a as)
  from Cons.prems(2) obtain b where b: "b \<in> set (agents e)" "ag_id b = ag_id a" "ag_name b = ag_name a"
    by (auto simp: agent_keys_def)
  have found: "find (\<lambda>x. ag_id x = ag_id a) (agents e) = Some b"
    using find_own_row [of ag_id "agents e" b "\<lambda>_. True" "\<lambda>_. True"] Cons.prems(1) b
    by (simp add: wf_agents_def)
  show ?case
  proof (cases "ag_name a \<in> names")
    case True
    with Cons.IH [OF Cons.prems(1)] Cons.prems(2) show ?thesis by auto
  next
    case False
    note r = retire_agent_standing [OF Cons.prems(1) b(1)]
    have "standing e (ag_name b) = Some (ag_provisioned b, ag_paused b)"
      using agent_named_in [of e b] Cons.prems(1) b(1) by (simp add: standing_def wf_agents_def)
    with Cons.IH [of "retire_agent b e"] Cons.prems(2) r False found b(3) show ?thesis
      by auto
  qed
qed simp

lemma agent_keys_register:
  "set (agent_keys d) \<subseteq> set (agent_keys (register_workflow now (r, config, raw) d))"
proof -
  have "agent_keys (update_agents P (provisioned_since now) d) = agent_keys d"
    "agent_keys (update_agents P (changed_agent now r config raw) d) = agent_keys d" for P
    by (simp_all add: agent_keys_def update_agents_def update_where_def provisioned_since_def changed_agent_def)
  then show ?thesis
    by (auto simp: register_workflow_def Let_def split: option.split) (simp add: agent_keys_def)
qed

lemma agent_keys_provision:
  "provision_loop now ws d = Inr d' \<Longrightarrow> set (agent_keys d) \<subseteq> set (agent_keys d')"
proof (induction ws arbitrary: d)
  case (Cons w ws)
  obtain r config raw where w: "w = (r, config, raw)" by (cases w)
  from Cons.prems obtain d2 where s: "sync_schedules (config_name config) (get_default config ''schedules'' (JList []))
      (register_workflow now (r, config, raw) d) = Inr d2"
    and l: "provision_loop now ws d2 = Inr d'" by (auto simp: w bind_res_Inr_iff)
  have "agent_keys d2 = agent_keys (register_workflow now (r, config, raw) d)"
    using sync_schedules_agents [OF s] by (simp add: agent_keys_def)
  with Cons.IH [OF l] agent_keys_register [of d now r config raw] show ?case by auto
qed simp

text \<open>
  C30. A provisioner scan makes the agents table mirror the workflows it found, and never
  starts anything by itself: afterwards exactly the discovered workflows are provisioned, every
  agent that was known keeps its pause switch, and a new one starts paused. The hypotheses are that
  every configuration has a name and that agents have unique names and identifiers.
\<close>

theorem provisioner_mirrors_workflows:
  assumes "wf_agents d" "\<forall>(r, config, raw) \<in> set workflows. \<exists>n. dget config ''name'' = JStr n \<and> n \<noteq> []"
    and "run_provisioner_scan now workflows d = Inr d'"
  shows "standing d' n =
    (if n \<in> set (discovered_names workflows) then Some (True, case standing d n of None \<Rightarrow> True | Some (_, paused) \<Rightarrow> paused)
     else map_option (\<lambda>(_, paused). (False, paused)) (standing d n))"
proof -
  from assms(3) obtain d1 where l: "provision_loop now workflows d = Inr d1" and
    d': "d' = fold (\<lambda>a e. if ag_name a \<in> set (discovered_names workflows) then e
           else case find (\<lambda>b. ag_id b = ag_id a) (agents e) of Some b \<Rightarrow> retire_agent b e | None \<Rightarrow> e) (agents d) d1"
    by (auto simp: run_provisioner_scan_def bind_res_Inr_iff)
  have same: "set (map (\<lambda>(r, config, raw). config_name config) workflows) = set (discovered_names workflows)"
    using assms(2) by (force simp: discovered_names_def config_name_def dget_def get_default_def split: option.splits)
  note p = provision_loop_standing [OF assms(1) l, unfolded same]
  have keys: "\<forall>a \<in> set (agents d). (ag_id a, ag_name a) \<in> set (agent_keys d1)"
    using agent_keys_provision [OF l] by (auto simp: agent_keys_def)
  have known: "n \<in> ag_name ` set (agents d) \<longleftrightarrow> standing d n \<noteq> None"
    using agent_named_SomeD [of d n] agent_named_in [of d] assms(1)
    by (auto simp: standing_def wf_agents_def)
  show ?thesis
    unfolding d' using retire_all_standing [OF conjunct1 [OF p] keys, of "set (discovered_names workflows)" n] p known
    by (cases "standing d n") (auto simp: registered_def)
qed

definition demo_hourly :: schedule where
  "demo_hourly = \<lparr>sc_id = 31, sc_agent_id = 41, sc_name = ''hourly'', sc_cron = ''0 * * * *'', sc_prompt = Some ''check'',
     sc_enabled = True, sc_last_run = None, sc_next_run = None, sc_created = 1\<rparr>"

definition demo_sre :: agent where
  "demo_sre = \<lparr>ag_id = 41, ag_name = ''sre'', ag_description = JNull, ag_version = JNull, ag_config = JObj [],
     ag_config_hash = None, ag_repo_path = None, ag_provisioned = True, ag_paused = False, ag_provisioned_at = None,
     ag_created = 1, ag_updated = 1\<rparr>"

definition demo_schedules :: db where
  "demo_schedules = (empty_db 5)\<lparr>agents := [demo_sre], schedules := [demo_hourly], uuid_gen := 50\<rparr>"

lemma schedule_fires_when_enabled_witness:
  "\<exists>r d' t. schedule_job_handler (\<lambda>_ _ _ _ _. Inr (\<lambda>t. Some (t + 60))) (\<lambda>_. Inr None) 7 ''sre'' ''hourly'' ''check'' None
       demo_schedules = (r, d') \<and> tasks d' = [t] \<and> t_workflow t = ''sre'' \<and> t_status t = queued"
proof -
  let ?h = "schedule_job_handler (\<lambda>_ _ _ _ _. Inr (\<lambda>t. Some (t + 60))) (\<lambda>_. Inr None) 7 ''sre'' ''hourly'' ''check'' None
    demo_schedules"
  have row: "schedule_row demo_schedules ''sre'' ''hourly'' = [(demo_hourly, False)]"
    by (simp add: schedule_row_def demo_schedules_def demo_hourly_def demo_sre_def)
  have none: "tasks demo_schedules = []" by (simp add: demo_schedules_def empty_db_def)
  obtain r d' where h: "?h = (r, d')" by fastforce
  from schedule_fires_when_enabled [OF _ h] row none h show ?thesis by auto
qed

theorem provisioner_mirrors_workflows_witness:
  "\<exists>d'. run_provisioner_scan 7 [(''/w'', [(''name'', JStr ''dba'')], ''raw'')] demo_schedules = Inr d'
     \<and> standing d' ''dba'' = Some (True, True) \<and> standing d' ''sre'' = Some (False, False)"
proof -
  let ?ws = "[(''/w'', [(''name'', JStr ''dba'')], ''raw'')]"
  have wf: "wf_agents demo_schedules" by (simp add: wf_agents_def demo_schedules_def demo_sre_def)
  have "\<exists>d'. run_provisioner_scan 7 ?ws demo_schedules = Inr d'"
    by (simp add: run_provisioner_scan_def sync_schedules_def get_default_def bind_res_def split: option.split)
  then obtain d' where r: "run_provisioner_scan 7 ?ws demo_schedules = Inr d'" by blast
  have st: "standing demo_schedules ''dba'' = None" "standing demo_schedules ''sre'' = Some (True, False)"
    "discovered_names ?ws = [''dba'']"
    by (simp_all add: standing_def agent_named_def demo_schedules_def demo_sre_def discovered_names_def dget_def
        get_default_def)
  from provisioner_mirrors_workflows [OF wf _ r, of "''dba''"] provisioner_mirrors_workflows [OF wf _ r, of "''sre''"] r st
  show ?thesis by (simp add: dget_def get_default_def)
qed

end
