(* ===== verification/Task_Api.thy ===== *)
theory Task_Api
  imports Lifecycle Message_Routing Control_Plane
begin

text \<open>
  The gateway's handlers over tasks, their sessions and approvals, and the pause switch of the
  connectors (\<open>gateway/api.py\<close>). An error answer is an \<open>HTTPException\<close>; an identifier that is not
  a UUID raises a \<open>ValueError\<close>. Deleting a task also deletes what the database's foreign keys
  cascade to.
\<close>

section \<open>Reading and creating tasks\<close>

definition parse_task_id :: "str \<Rightarrow> uuid res" where
  "parse_task_id s =
     (case uuid_of_str s of None \<Rightarrow> Inl (ValueError ''badly formed hexadecimal UUID string'') | Some i \<Rightarrow> Inr i)"

definition task_response :: "task \<Rightarrow> json" where
  "task_response t = JObj
     [(''id'', JStr (uuid_str (t_id t))), (''workflow'', JStr (t_workflow t)), (''prompt'', JStr (t_prompt t)),
      (''status'', JStr (status_str (t_status t))), (''channel'', jopt (t_channel t)),
      (''metadata'', JObj (t_metadata t)), (''message_channel'', jopt (t_message_channel t)),
      (''message_thread'', jopt (t_message_thread t)), (''tokens_used'', JInt (t_tokens_used t)),
      (''duration_sec'', t_duration_sec t), (''error'', jopt (t_error t)), (''wait_reason'', jopt (t_wait_reason t)),
      (''wait_deadline'', iso_opt (t_wait_deadline t)), (''archived_at'', iso_opt (t_archived_at t)),
      (''created'', JStr (isoformat (t_created t))), (''updated'', JStr (isoformat (t_updated t)))]"

definition parse_bound :: "str option \<Rightarrow> time option res" where
  "parse_bound s =
     (if opt_truthy s
      then (case fromisoformat (opt_str s) of
              Inr t \<Rightarrow> Inr (Some t)
            | Inl e \<Rightarrow> Inl (HTTPException 400 ''created_after/created_before must be ISO datetimes''))
      else Inr None)"

record list_request =
  lr_workflow :: "str option"
  lr_status :: "task_status option"
  lr_channel :: "str option"
  lr_search :: "str option"
  lr_created_after :: "str option"
  lr_created_before :: "str option"
  lr_include_archived :: bool
  lr_sort_by :: str
  lr_sort_dir :: str
  lr_limit :: nat
  lr_offset :: nat

definition list_tasks_api :: "(str \<Rightarrow> int) \<Rightarrow> list_request \<Rightarrow> db \<Rightarrow> json res" where
  "list_tasks_api collate q d =
     bind_res (parse_bound (lr_created_after q)) (\<lambda>after.
     bind_res (parse_bound (lr_created_before q)) (\<lambda>until.
       let f = \<lparr>f_workflow = lr_workflow q, f_status = lr_status q, f_channel = lr_channel q, f_search = lr_search q,
                f_created_after = after, f_created_before = until, f_include_archived = lr_include_archived q\<rparr>
       in Inr (JObj
          [(''items'', JList (map task_response
              (list_tasks collate f (lr_sort_by q) (lr_sort_dir q) (lr_limit q) (lr_offset q) d))),
           (''total'', JInt (int (count_tasks f d))), (''limit'', JInt (int (lr_limit q))),
           (''offset'', JInt (int (lr_offset q)))])))"

definition get_task_api :: "str \<Rightarrow> db \<Rightarrow> json res" where
  "get_task_api task_id d =
     bind_res (parse_task_id task_id) (\<lambda>i.
       case get_task d i of None \<Rightarrow> Inl (HTTPException 404 ''Task not found'') | Some t \<Rightarrow> Inr (task_response t))"

record create_request =
  cr_workflow :: str
  cr_prompt :: str
  cr_channel :: "str option"
  cr_metadata :: "dict option"
  cr_message_channel :: "str option"
  cr_message_thread :: "str option"

definition create_task_api :: "(str \<Rightarrow> json option res) \<Rightarrow> time \<Rightarrow> create_request \<Rightarrow> db \<Rightarrow> (json \<times> db) res" where
  "create_task_api pkg now b d =
     bind_res (create_task pkg now (cr_workflow b) (cr_prompt b) (cr_channel b) (cr_metadata b)
                 (cr_message_channel b) (cr_message_thread b) None 300 d) (\<lambda>(t, d').
       Inr (task_response t, d'))"

section \<open>Messages of a running task\<close>

definition reply_events :: "uuid \<Rightarrow> time \<Rightarrow> db \<Rightarrow> session_event list" where
  "reply_events tid after d = sort_key se_timestamp
     (filter (\<lambda>e. se_task_id e = Some tid \<and> se_event_type e = ''user_question_reply'' \<and> after < se_timestamp e)
       (session_events d))"

definition get_message_reply :: "str \<Rightarrow> int \<Rightarrow> db \<Rightarrow> json res" where
  "get_message_reply task_id after_ms d =
     bind_res (parse_task_id task_id) (\<lambda>i.
       Inr (case reply_events i (if 0 < after_ms then after_ms * 1000 else 0) d of
              [] \<Rightarrow> JNull
            | e # _ \<Rightarrow> JObj [(''message'', JStr (text_or_empty (dget (se_data e) ''message''))),
                (''user_id'', JStr (text_or_empty (dget (se_data e) ''user_id''))),
                (''username'', JStr (text_or_empty (dget (se_data e) ''username'')))]))"

definition task_bus :: "settings \<Rightarrow> task \<Rightarrow> message_bus res" where
  "task_bus st t =
     (let metadata = t_metadata t
      in build_message_bus (mb_provider st) (mb_api_url st) (mb_bot_token st)
           (text_or_empty (dget metadata ''channel_id'')) (opt_str (t_message_channel t))
           (text_or_empty (dget metadata ''team_id''))
           (py_str (py_or (py_or (dget metadata ''team_domain'') (dget metadata ''team_name'')) (JStr (mb_team_name st)))))"

definition post_task_message :: "server \<Rightarrow> settings \<Rightarrow> str \<Rightarrow> str \<Rightarrow> db \<Rightarrow> json io" where
  "post_task_message srv st task_id text d sent =
     (case parse_task_id task_id of
        Inl e \<Rightarrow> (Inl e, sent)
      | Inr i \<Rightarrow>
          (case get_task d i of
             None \<Rightarrow> (Inl (HTTPException 404 ''Task not found''), sent)
           | Some t \<Rightarrow>
               (case task_bus st t of
                  Inl e \<Rightarrow> (Inl e, sent)
                | Inr bus \<Rightarrow>
                    (case post_to_thread srv (fixed_thread (opt_str (t_message_thread t))) bus text () sent of
                       (Inl e, sent') \<Rightarrow> (Inl e, sent')
                     | (Inr (None, last_error, _), sent') \<Rightarrow>
                         (Inl (HTTPException 503 (if last_error \<noteq> [] then last_error
                                                  else ''Message provider did not return a post'')), sent')
                     | (Inr (Some ref, _, _), sent') \<Rightarrow>
                         (Inr (JObj [(''post_id'', JStr (mr_id ref)), (''thread_id'', JStr (mr_thread_id ref))]), sent')))))"

section \<open>Rerunning and deleting\<close>

definition rerunnable_statuses :: "task_status list" where
  "rerunnable_statuses = [failed, lost, timed_out]"

definition drop_runs :: "uuid \<Rightarrow> db \<Rightarrow> db" where
  "drop_runs tid d = d\<lparr>session_events := delete_where (\<lambda>e. se_task_id e = Some tid) (session_events d),
     sessions := delete_where (\<lambda>s. s_task_id s = Some tid) (sessions d)\<rparr>"

definition reset_task :: "task \<Rightarrow> task" where
  "reset_task t = t\<lparr>t_status := queued, t_session_id := None, t_container_id := None, t_heartbeat := None,
     t_result := None, t_tokens_used := 0, t_duration_sec := JNull, t_error := None\<rparr>"

definition rerun_task_api :: "str \<Rightarrow> db \<Rightarrow> (json \<times> db) res" where
  "rerun_task_api task_id d =
     bind_res (parse_task_id task_id) (\<lambda>i.
       case get_task d i of
         None \<Rightarrow> Inl (HTTPException 404 ''Task not found'')
       | Some t \<Rightarrow>
           if t_status t \<notin> set rerunnable_statuses
           then Inl (HTTPException 409 ''Only failed, lost, timed_out tasks can be rerun'')
           else let d1 = update_tasks (\<lambda>u. t_id u = i) reset_task (drop_runs i d)
                in Inr (JObj [(''status'', JStr ''queued''),
                              (''task'', task_response ((reset_task t)\<lparr>t_updated := db_now d\<rparr>))], d1))"

text \<open>
  \<open>DELETE\<close> of a task: after its own session rows, the row itself; \<open>task_events\<close>,
  \<open>session_events\<close> and \<open>approvals\<close> follow by \<open>ON DELETE CASCADE\<close>.
\<close>

definition delete_task_row :: "uuid \<Rightarrow> db \<Rightarrow> db" where
  "delete_task_row tid d = d\<lparr>tasks := delete_where (\<lambda>t. t_id t = tid) (tasks d),
     task_events := delete_where (\<lambda>e. te_task_id e = tid) (task_events d),
     session_events := delete_where (\<lambda>e. se_task_id e = Some tid) (session_events d),
     approvals := delete_where (\<lambda>a. a_task_id a = tid) (approvals d)\<rparr>"

text \<open>\<open>cancel\<close> is the runtime launcher's: \<open>Inl\<close> carries the text of the exception it raised.\<close>

definition stop_and_remove_task_container :: "(str \<Rightarrow> str + bool) \<Rightarrow> str option \<Rightarrow> bool res" where
  "stop_and_remove_task_container cancel container_id =
     (if \<not> opt_truthy container_id then Inr False
      else case cancel (opt_str container_id) of
             Inr b \<Rightarrow> Inr b
           | Inl exc \<Rightarrow> Inl (HTTPException 502 (''Failed to remove task runtime: '' @ exc)))"

definition delete_task_api :: "(str \<Rightarrow> str + bool) \<Rightarrow> str \<Rightarrow> db \<Rightarrow> (json \<times> db) res" where
  "delete_task_api cancel task_id d =
     bind_res (parse_task_id task_id) (\<lambda>i.
       case get_task d i of
         None \<Rightarrow> Inl (HTTPException 404 ''Task not found'')
       | Some t \<Rightarrow>
           bind_res (stop_and_remove_task_container cancel (t_container_id t)) (\<lambda>removed.
             Inr (JObj [(''status'', JStr ''deleted''), (''task_id'', JStr task_id), (''workflow'', JStr (t_workflow t)),
                        (''container_removed'', JBool removed)],
                  delete_task_row i (drop_runs i d))))"

definition archive_task_api :: "time \<Rightarrow> bool \<Rightarrow> str \<Rightarrow> db \<Rightarrow> (json \<times> db) res" where
  "archive_task_api now archived task_id d =
     bind_res (parse_task_id task_id) (\<lambda>i.
       case get_task d i of
         None \<Rightarrow> Inl (HTTPException 404 ''Task not found'')
       | Some t \<Rightarrow> bind_res (archive_task now i archived d) (\<lambda>d'.
           Inr (JObj [(''status'', JStr (if archived then ''archived'' else ''active'')),
                      (''task'', case get_task d' i of Some u \<Rightarrow> task_response u | None \<Rightarrow> JNull)], d')))"

section \<open>Sessions and approvals\<close>

text \<open>
  The rows behind \<open>GET /sessions/{task_id}\<close>: the query for the session expects at most one row,
  and there must be a session or an event.
\<close>

definition session_rows :: "str \<Rightarrow> db \<Rightarrow> (task option \<times> sess option \<times> session_event list) res" where
  "session_rows task_id d =
     bind_res (parse_task_id task_id) (\<lambda>i.
     bind_res (one_or_none (filter (\<lambda>s. s_task_id s = Some i) (sessions d))) (\<lambda>s.
       let events = sort_key se_timestamp (filter (\<lambda>e. se_task_id e = Some i) (session_events d))
       in if s = None \<and> events = [] then Inl (HTTPException 404 ''Session not found'')
          else Inr (get_task d i, s, events)))"

definition get_runtime_approval :: "db \<Rightarrow> uuid \<Rightarrow> str \<Rightarrow> str \<Rightarrow> approval option res" where
  "get_runtime_approval d tid tool_name request_id = find_approval_by_request d tid tool_name request_id"

definition get_runtime_approval_status :: "str \<Rightarrow> str \<Rightarrow> str \<Rightarrow> db \<Rightarrow> json res" where
  "get_runtime_approval_status task_id tool_name request_id d =
     (case uuid_of_str task_id of
        None \<Rightarrow> Inl (HTTPException 400 ''Invalid task_id'')
      | Some i \<Rightarrow>
          bind_res (get_runtime_approval d i tool_name request_id) (\<lambda>found.
            case found of
              None \<Rightarrow> Inl (HTTPException 404 ''Approval not found'')
            | Some a \<Rightarrow>
                let result = get_default (a_metadata a) ''approval_result'' (JObj [])
                in bind_res (attr_get result ''approved_by'') (\<lambda>approver.
                   bind_res (attr_get result ''approved_by_user_id'') (\<lambda>user.
                   Inr (JObj [(''task_id'', JStr (uuid_str (a_task_id a))), (''tool_name'', JStr (a_tool_name a)),
                     (''request_id'', JStr request_id), (''status'', JStr (a_status a)), (''reason'', jopt (a_reason a)),
                     (''resolved_by'', approver), (''resolved_by_user_id'', user),
                     (''requested_at'', JStr (isoformat (a_requested_at a))),
                     (''resolved_at'', iso_opt (a_resolved_at a))])))))"

section \<open>The pause switch of a connector\<close>

text \<open>
  \<open>catalog\<close> are the identifiers of the configured connectors, \<open>resume\<close> is what starting the
  listener does (\<open>ingress_start\<close>), which may fail, and \<open>store\<close> writes the switch, which may fail
  too (\<open>set_connector_paused\<close> when it does not). The listener is switched first; when storing
  then fails and the switch was in the other position, the listener is put back, and a failure of
  that is only logged.
\<close>

definition switch_listener :: "(ingress \<Rightarrow> ingress res) \<Rightarrow> bool \<Rightarrow> ingress \<Rightarrow> ingress res" where
  "switch_listener resume paused g = (if paused then Inr (stop_listener g) else resume g)"

definition restore_listener :: "(ingress \<Rightarrow> ingress res) \<Rightarrow> bool \<Rightarrow> ingress \<Rightarrow> ingress" where
  "restore_listener resume paused g = (case switch_listener resume paused g of Inr h \<Rightarrow> h | Inl _ \<Rightarrow> g)"

definition set_platform_connector_paused ::
  "str list \<Rightarrow> (ingress \<Rightarrow> ingress res) \<Rightarrow> (str \<Rightarrow> bool \<Rightarrow> db \<Rightarrow> db res) \<Rightarrow> str \<Rightarrow> bool \<Rightarrow> ingress option \<Rightarrow> db
     \<Rightarrow> bool res \<times> ingress option \<times> db" where
  "set_platform_connector_paused catalog resume store connector_id paused g d =
     (if connector_id \<notin> set catalog then (Inl (HTTPException 404 ''Connector not found''), g, d)
      else if connector_id \<noteq> MESSAGE_INGRESS_CONNECTOR_ID
      then (case store connector_id paused d of Inl e \<Rightarrow> (Inl e, g, d) | Inr d' \<Rightarrow> (Inr paused, g, d'))
      else case g of
             None \<Rightarrow> (Inl (HTTPException 503 ''Message ingress is unavailable''), g, d)
           | Some h \<Rightarrow>
               let previously_paused = connector_is_paused d connector_id
               in (case switch_listener resume paused h of
                     Inl e \<Rightarrow> (Inl e, g, d)
                   | Inr h1 \<Rightarrow>
                       (case store connector_id paused d of
                          Inr d' \<Rightarrow> (Inr paused, Some h1, d')
                        | Inl e \<Rightarrow> (Inl e, Some (if previously_paused \<noteq> paused
                                                 then restore_listener resume previously_paused h1 else h1), d))))"

end
