(* ===== verification/Background_Jobs.thy ===== *)
theory Background_Jobs
  imports Models
begin

text \<open>
  \<open>shared/lib/background_jobs.py\<close>: the lifecycle of non-agentic background jobs. Every operation
  is one committed transaction on \<open>background_job_runs\<close>; an exception leaves the database as it
  was. The knowledge-source columns refer to the tables of \<open>Knowledge_Sources\<close>; their foreign keys
  are taken as satisfied. \<open>job_step\<close> is one operation by any process; reachability under it is
  how the lifecycle of a run is stated.
\<close>

section \<open>Operations\<close>

definition RUNNING_STATUS :: str where
  "RUNNING_STATUS = ''running''"

definition QUEUED_STATUS :: str where
  "QUEUED_STATUS = ''queued''"

definition JOB_TERMINAL_STATUSES :: "str list" where
  "JOB_TERMINAL_STATUSES = [''succeeded'', ''failed'', ''skipped'', ''cancelled'']"

record job_spec =
  js_job_type :: str
  js_scope :: "str option"
  js_trigger :: "str option"
  js_knowledge_source_id :: "uuid option"
  js_knowledge_source_version_id :: "uuid option"
  js_summary :: "dict option"

definition new_run :: "db \<Rightarrow> job_spec \<Rightarrow> str \<Rightarrow> time \<Rightarrow> background_job_run" where
  "new_run d s status started =
     \<lparr>b_id = uuid_gen d, b_job_type = js_job_type s, b_scope = js_scope s, b_trigger = js_trigger s,
      b_knowledge_source_id = js_knowledge_source_id s,
      b_knowledge_source_version_id = js_knowledge_source_version_id s, b_status = status,
      b_started_at = started, b_heartbeat_at = None, b_finished_at = None, b_duration_sec = None,
      b_summary = (case js_summary s of None \<Rightarrow> [] | Some m \<Rightarrow> m), b_warnings = [], b_error = None\<rparr>"

definition add_run :: "background_job_run \<Rightarrow> db \<Rightarrow> background_job_run \<times> db" where
  "add_run r d = (r, d\<lparr>background_job_runs := background_job_runs d @ [r], uuid_gen := Suc (uuid_gen d)\<rparr>)"

definition get_run :: "db \<Rightarrow> uuid \<Rightarrow> background_job_run option" where
  "get_run d i = find (\<lambda>r. b_id r = i) (background_job_runs d)"

definition update_runs ::
  "(background_job_run \<Rightarrow> bool) \<Rightarrow> (background_job_run \<Rightarrow> background_job_run) \<Rightarrow> db \<Rightarrow> db" where
  "update_runs P f d = d\<lparr>background_job_runs := update_where P f (background_job_runs d)\<rparr>"

definition or_now :: "time option \<Rightarrow> time \<Rightarrow> time" where
  "or_now t now = (case t of None \<Rightarrow> now | Some u \<Rightarrow> u)"

definition elapsed :: "time \<Rightarrow> time \<Rightarrow> rat" where
  "elapsed finished started = max 0 (total_seconds (finished - started))"

definition queue_background_job :: "time \<Rightarrow> job_spec \<Rightarrow> time option \<Rightarrow> db \<Rightarrow> background_job_run \<times> db" where
  "queue_background_job now s queued_at d =
     add_run (new_run d (s\<lparr>js_knowledge_source_version_id := None\<rparr>) QUEUED_STATUS (or_now queued_at now)) d"

definition claim_background_job :: "time \<Rightarrow> uuid \<Rightarrow> db \<Rightarrow> (background_job_run \<times> db) res" where
  "claim_background_job now run_id d =
     (case get_run d run_id of
        None \<Rightarrow> Inl (BackgroundJobClaimError (''Background job '' @ uuid_str run_id @ '' does not exist''))
      | Some r \<Rightarrow>
          if b_status r \<noteq> QUEUED_STATUS
          then Inl (BackgroundJobClaimError (''Background job '' @ uuid_str run_id @ '' is already '' @ b_status r))
          else let f = (\<lambda>r. r\<lparr>b_status := RUNNING_STATUS, b_started_at := now, b_heartbeat_at := Some now\<rparr>)
               in Inr (f r, update_runs (\<lambda>x. b_id x = run_id) f d))"

definition start_background_job :: "time \<Rightarrow> job_spec \<Rightarrow> time option \<Rightarrow> db \<Rightarrow> background_job_run \<times> db" where
  "start_background_job now s started_at d =
     (let t = or_now started_at now
      in add_run ((new_run d s RUNNING_STATUS t)\<lparr>b_heartbeat_at := Some t\<rparr>) d)"

definition heartbeat_background_job :: "time \<Rightarrow> uuid \<Rightarrow> dict option \<Rightarrow> db \<Rightarrow> db res" where
  "heartbeat_background_job now run_id summary d =
     (let P = (\<lambda>r. b_id r = run_id \<and> b_status r = RUNNING_STATUS)
      in if length (filter P (background_job_runs d)) \<noteq> 1
         then Inl (ValueError (''Background job '' @ uuid_str run_id @ '' is not running''))
         else Inr (update_runs P (\<lambda>r. r\<lparr>b_heartbeat_at := Some now,
                     b_summary := (case summary of None \<Rightarrow> b_summary r | Some s \<Rightarrow> s)\<rparr>) d))"

record job_outcome =
  jo_status :: str
  jo_summary :: "dict option"
  jo_warnings :: "str list option"
  jo_error :: "str option"
  jo_knowledge_source_version_id :: "uuid option"

definition finish_row :: "time \<Rightarrow> job_outcome \<Rightarrow> background_job_run \<Rightarrow> background_job_run" where
  "finish_row t oc r = r\<lparr>b_status := jo_status oc, b_heartbeat_at := Some t, b_finished_at := Some t,
     b_duration_sec := Some (elapsed t (b_started_at r)),
     b_summary := (case jo_summary oc of None \<Rightarrow> b_summary r | Some s \<Rightarrow> s),
     b_warnings := (case jo_warnings oc of None \<Rightarrow> b_warnings r | Some w \<Rightarrow> w),
     b_error := jo_error oc,
     b_knowledge_source_version_id := (case jo_knowledge_source_version_id oc of
        None \<Rightarrow> b_knowledge_source_version_id r | Some v \<Rightarrow> Some v)\<rparr>"

definition finish_background_job ::
  "time \<Rightarrow> uuid \<Rightarrow> job_outcome \<Rightarrow> time option \<Rightarrow> db \<Rightarrow> (background_job_run \<times> db) res" where
  "finish_background_job now run_id oc finished_at d =
     (if jo_status oc \<notin> set JOB_TERMINAL_STATUSES
      then Inl (ValueError (''Unsupported background job terminal status: '' @ jo_status oc))
      else case get_run d run_id of
        None \<Rightarrow> Inl (ValueError (''Background job '' @ uuid_str run_id @ '' does not exist''))
      | Some r \<Rightarrow>
          if b_status r \<noteq> RUNNING_STATUS
          then Inl (ValueError (''Background job '' @ uuid_str run_id @ '' is already '' @ b_status r))
          else Inr (finish_row (or_now finished_at now) oc r,
                    update_runs (\<lambda>x. b_id x = run_id) (finish_row (or_now finished_at now) oc) d))"

definition record_completed_background_job ::
  "job_spec \<Rightarrow> job_outcome \<Rightarrow> time \<Rightarrow> time \<Rightarrow> db \<Rightarrow> (background_job_run \<times> db) res" where
  "record_completed_background_job s oc started finished d =
     (if jo_status oc \<notin> set JOB_TERMINAL_STATUSES
      then Inl (ValueError (''Unsupported background job terminal status: '' @ jo_status oc))
      else Inr (add_run ((new_run d s (jo_status oc) started)\<lparr>
             b_heartbeat_at := Some finished, b_finished_at := Some finished,
             b_duration_sec := Some (elapsed finished started),
             b_warnings := (case jo_warnings oc of None \<Rightarrow> [] | Some w \<Rightarrow> w), b_error := jo_error oc\<rparr>) d))"

definition stale_run :: "time \<Rightarrow> str option \<Rightarrow> background_job_run \<Rightarrow> bool" where
  "stale_run stale_before job_type r =
     (b_status r = RUNNING_STATUS
      \<and> (case b_heartbeat_at r of Some h \<Rightarrow> h < stale_before | None \<Rightarrow> b_started_at r < stale_before)
      \<and> (case job_type of None \<Rightarrow> True | Some j \<Rightarrow> b_job_type r = j))"

definition fail_stale :: "time \<Rightarrow> background_job_run \<Rightarrow> background_job_run" where
  "fail_stale now r = r\<lparr>b_status := ''failed'', b_heartbeat_at := Some now, b_finished_at := Some now,
     b_duration_sec := Some (elapsed now (b_started_at r)),
     b_summary := dmerge (b_summary r) [(''failure_phase'', JStr ''startup_reconciliation'')],
     b_error := Some ''Background job heartbeat expired before worker startup''\<rparr>"

definition reconcile_stale_background_jobs :: "time \<Rightarrow> time \<Rightarrow> str option \<Rightarrow> db \<Rightarrow> uuid list \<times> db" where
  "reconcile_stale_background_jobs now stale_before job_type d =
     (map b_id (filter (stale_run stale_before job_type) (background_job_runs d)),
      update_runs (stale_run stale_before job_type) (fail_stale now) d)"

lemmas job_status_defs = RUNNING_STATUS_def QUEUED_STATUS_def JOB_TERMINAL_STATUSES_def

lemma queued_not_running [simp]: "QUEUED_STATUS \<noteq> RUNNING_STATUS" "RUNNING_STATUS \<noteq> QUEUED_STATUS"
  by (simp_all add: job_status_defs)

section \<open>The lifecycle as a step relation\<close>

inductive job_step :: "db \<Rightarrow> db \<Rightarrow> bool" where
  queue: "queue_background_job now s q d = (r, d') \<Longrightarrow> job_step d d'"
| claim: "claim_background_job now i d = Inr (r, d') \<Longrightarrow> job_step d d'"
| start: "start_background_job now s st d = (r, d') \<Longrightarrow> job_step d d'"
| beat: "heartbeat_background_job now i m d = Inr d' \<Longrightarrow> job_step d d'"
| finish: "finish_background_job now i oc f d = Inr (r, d') \<Longrightarrow> job_step d d'"
| completed: "record_completed_background_job s oc st fi d = Inr (r, d') \<Longrightarrow> job_step d d'"
| reconcile: "reconcile_stale_background_jobs now sb jt d = (is, d') \<Longrightarrow> job_step d d'"

text \<open>
  A step either appends one fresh run or updates rows in place, never changing an identifier and
  never touching a run that has ended.
\<close>

definition ended :: "background_job_run \<Rightarrow> bool" where
  "ended r = (b_status r \<in> set JOB_TERMINAL_STATUSES)"

definition run_ok :: "background_job_run \<Rightarrow> bool" where
  "run_ok r \<longleftrightarrow> b_status r \<in> set (QUEUED_STATUS # RUNNING_STATUS # JOB_TERMINAL_STATUSES)
     \<and> (case b_finished_at r of
          None \<Rightarrow> \<not> ended r \<and> b_duration_sec r = None
        | Some f \<Rightarrow> ended r \<and> b_duration_sec r = Some (elapsed f (b_started_at r)))"

definition wf_jobs :: "db \<Rightarrow> bool" where
  "wf_jobs d \<longleftrightarrow> distinct (map b_id (background_job_runs d))
     \<and> list_all (\<lambda>r. b_id r < uuid_gen d \<and> run_ok r) (background_job_runs d)"

definition job_rank :: "background_job_run \<Rightarrow> nat" where
  "job_rank r = (if b_status r = QUEUED_STATUS then 0 else if b_status r = RUNNING_STATUS then 1 else 2)"

definition advances :: "background_job_run \<Rightarrow> background_job_run \<Rightarrow> bool" where
  "advances r r' \<longleftrightarrow> b_id r' = b_id r \<and> job_rank r \<le> job_rank r' \<and> (ended r \<longrightarrow> r' = r)
     \<and> (run_ok r \<longrightarrow> run_ok r')"

lemma job_step_cases:
  assumes "job_step d d'"
  shows "(\<exists>r. d' = snd (add_run r d) \<and> b_id r = uuid_gen d \<and> run_ok r)
    \<or> (\<exists>P f. d' = update_runs P f d \<and> (\<forall>r \<in> set (background_job_runs d). P r \<longrightarrow> distinct (map b_id (background_job_runs d)) \<longrightarrow> advances r (f r)))"
  using assms
proof cases
  case (queue now s q r)
  then show ?thesis
    by (intro disjI1 exI [of _ r]) (auto simp: add_run_def queue_background_job_def new_run_def run_ok_def ended_def job_status_defs)
next
  case (claim now i r)
  then obtain x where x: "get_run d i = Some x" "b_status x = QUEUED_STATUS"
    and d': "d' = update_runs (\<lambda>x. b_id x = i)
      (\<lambda>r. r\<lparr>b_status := RUNNING_STATUS, b_started_at := now, b_heartbeat_at := Some now\<rparr>) d"
    by (auto simp: claim_background_job_def Let_def split: option.splits if_splits)
  from find_SomeD [OF x(1) [unfolded get_run_def]] have xi: "x \<in> set (background_job_runs d)" "b_id x = i" by auto
  have "y = x" if "y \<in> set (background_job_runs d)" "b_id y = i" "distinct (map b_id (background_job_runs d))" for y
    using that xi by (metis distinct_key_eq)
  then show ?thesis unfolding d' using x(2)
    by (intro disjI2 exI conjI refl) (auto simp: advances_def job_rank_def ended_def run_ok_def job_status_defs split: option.splits)
next
  case (start now s st r)
  then show ?thesis
    by (intro disjI1 exI [of _ r]) (auto simp: add_run_def start_background_job_def Let_def new_run_def run_ok_def ended_def job_status_defs)
next
  case (beat now i m)
  then have d': "d' = update_runs (\<lambda>r. b_id r = i \<and> b_status r = RUNNING_STATUS)
      (\<lambda>r. r\<lparr>b_heartbeat_at := Some now, b_summary := (case m of None \<Rightarrow> b_summary r | Some s \<Rightarrow> s)\<rparr>) d"
    by (auto simp: heartbeat_background_job_def Let_def split: if_splits)
  show ?thesis unfolding d'
    by (intro disjI2 exI conjI refl) (auto simp: advances_def job_rank_def ended_def run_ok_def job_status_defs split: option.splits)
next
  case (finish now i oc f r)
  then obtain x where x: "get_run d i = Some x" "b_status x = RUNNING_STATUS" "jo_status oc \<in> set JOB_TERMINAL_STATUSES"
    and d': "d' = update_runs (\<lambda>x. b_id x = i) (finish_row (or_now f now) oc) d"
    by (auto simp: finish_background_job_def split: option.splits if_splits)
  from find_SomeD [OF x(1) [unfolded get_run_def]] have xi: "x \<in> set (background_job_runs d)" "b_id x = i" by auto
  have "y = x" if "y \<in> set (background_job_runs d)" "b_id y = i" "distinct (map b_id (background_job_runs d))" for y
    using that xi by (metis distinct_key_eq)
  then show ?thesis unfolding d' using x(2,3)
    by (intro disjI2 exI conjI refl) (auto simp: advances_def job_rank_def ended_def run_ok_def finish_row_def job_status_defs split: option.splits)
next
  case (completed s oc st fi r)
  then show ?thesis
    by (intro disjI1 exI [of _ r]) (auto simp: add_run_def record_completed_background_job_def new_run_def run_ok_def ended_def job_status_defs split: if_splits)
next
  case (reconcile now sb jt ids)
  then show ?thesis
    by (intro disjI2 exI [of _ "stale_run sb jt"] exI [of _ "fail_stale now"])
      (auto simp: reconcile_stale_background_jobs_def advances_def job_rank_def ended_def run_ok_def fail_stale_def
        stale_run_def job_status_defs split: option.splits)
qed

lemma get_run_in: "wf_jobs d \<Longrightarrow> r \<in> set (background_job_runs d) \<Longrightarrow> get_run d (b_id r) = Some r"
  by (simp add: get_run_def wf_jobs_def find_distinct_key)

lemma get_run_SomeD: "get_run d i = Some r \<Longrightarrow> r \<in> set (background_job_runs d) \<and> b_id r = i"
  unfolding get_run_def by (rule find_SomeD)

lemma job_step_wf:
  assumes "wf_jobs d" "job_step d d'"
  shows "wf_jobs d'"
  using job_step_cases [OF assms(2)]
proof (elim disjE exE conjE)
  fix r assume r: "d' = snd (add_run r d)" "b_id r = uuid_gen d" "run_ok r"
  with assms(1) show ?thesis by (auto simp: wf_jobs_def add_run_def list_all_iff less_Suc_eq)
next
  fix P f assume d': "d' = update_runs P f d"
    and adv: "\<forall>r \<in> set (background_job_runs d). P r \<longrightarrow> distinct (map b_id (background_job_runs d)) \<longrightarrow> advances r (f r)"
  have dst: "distinct (map b_id (background_job_runs d))" using assms(1) by (simp add: wf_jobs_def)
  with adv have "map b_id (update_where P f (background_job_runs d)) = map b_id (background_job_runs d)"
    by (auto simp: update_where_def advances_def)
  with assms(1) adv dst show ?thesis
    by (auto simp: wf_jobs_def d' update_runs_def list_all_iff in_update_where advances_def)
qed

lemma job_step_row:
  assumes "wf_jobs d" "job_step d d'" "get_run d i = Some r"
  shows "\<exists>r'. get_run d' i = Some r' \<and> advances r r'"
  using job_step_cases [OF assms(2)]
proof (elim disjE exE conjE)
  fix x assume x: "d' = snd (add_run x d)"
  have "get_run d' i = Some r"
    using assms(3) by (simp add: x get_run_def add_run_def find_append_Some)
  then show ?thesis by (simp add: advances_def)
next
  fix P f assume d': "d' = update_runs P f d"
    and adv: "\<forall>r \<in> set (background_job_runs d). P r \<longrightarrow> distinct (map b_id (background_job_runs d)) \<longrightarrow> advances r (f r)"
  let ?r' = "if P r then f r else r"
  from get_run_SomeD [OF assms(3)] have r: "r \<in> set (background_job_runs d)" "b_id r = i" by simp_all
  with adv assms(1) have a: "advances r ?r'" by (auto simp: wf_jobs_def advances_def)
  have "?r' \<in> set (background_job_runs d')"
    using r(1) by (auto simp: d' update_runs_def in_update_where)
  then have "get_run d' (b_id ?r') = Some ?r'" by (rule get_run_in [OF job_step_wf [OF assms(1,2)]])
  with a r(2) show ?thesis by (auto simp: advances_def)
qed

lemma advances_trans: "advances a b \<Longrightarrow> advances b c \<Longrightarrow> advances a c"
  by (auto simp: advances_def)

lemma job_steps_row:
  assumes "job_step\<^sup>*\<^sup>* d d'" "wf_jobs d" "get_run d i = Some r"
  shows "wf_jobs d' \<and> (\<exists>r'. get_run d' i = Some r' \<and> advances r r')"
  using assms
proof (induction rule: rtranclp_induct)
  case base
  then show ?case by (auto simp: advances_def)
next
  case (step y z)
  then obtain r' where "wf_jobs y" "get_run y i = Some r'" "advances r r'" by blast
  with job_step_row [OF _ step.hyps(2)] job_step_wf [OF _ step.hyps(2)] show ?case
    by (meson advances_trans)
qed

section \<open>Claims and reconciliation\<close>

definition claim_attempt :: "time \<times> uuid \<Rightarrow> db \<Rightarrow> (uuid \<times> db) option" where
  "claim_attempt a d = (case claim_background_job (fst a) (snd a) d of
     Inl e \<Rightarrow> None | Inr (r, d') \<Rightarrow> Some (b_id r, d'))"

definition claimable_jobs :: "db \<Rightarrow> uuid set" where
  "claimable_jobs d = b_id ` {r \<in> set (background_job_runs d). b_status r = QUEUED_STATUS}"

lemma claim_attempt_SomeD:
  assumes "wf_jobs d" "claim_attempt a d = Some (i, d')"
  shows "i \<in> claimable_jobs d \<and> claimable_jobs d' = claimable_jobs d - {i} \<and> wf_jobs d'"
proof -
  from assms(2) obtain r where c: "claim_background_job (fst a) (snd a) d = Inr (r, d')" "b_id r = i"
    by (auto simp: claim_attempt_def split: sum.splits)
  let ?f = "\<lambda>r. r\<lparr>b_status := RUNNING_STATUS, b_started_at := fst a, b_heartbeat_at := Some (fst a)\<rparr>"
  from c(1) obtain x where x0: "get_run d (snd a) = Some x" "b_status x = QUEUED_STATUS"
    and d0: "d' = update_runs (\<lambda>x. b_id x = snd a) ?f d" and r: "r = ?f x"
    by (auto simp: claim_background_job_def Let_def split: option.splits if_splits)
  from get_run_SomeD [OF x0(1)] r c(2) have i: "snd a = i" by simp
  note x = x0 [unfolded i] and d' = d0 [unfolded i]
  from get_run_SomeD [OF x(1)] x(2) have "i \<in> claimable_jobs d" by (auto simp: claimable_jobs_def)
  moreover have "(y \<in> set (background_job_runs d') \<and> b_status y = QUEUED_STATUS) =
      (y \<in> set (background_job_runs d) \<and> b_status y = QUEUED_STATUS \<and> b_id y \<noteq> i)" for y
    unfolding d' update_runs_def by (auto simp: in_update_where)
  then have "claimable_jobs d' = claimable_jobs d - {i}"
    unfolding claimable_jobs_def by blast
  moreover have "wf_jobs d'" by (rule job_step_wf [OF assms(1)]) (rule job_step.claim, rule c)
  ultimately show ?thesis by simp
qed

interpretation job_claims: exclusive_claim claim_attempt claimable_jobs wf_jobs
  by unfold_locales (use claim_attempt_SomeD in blast)+

interpretation stale_jobs: row_sweep "stale_run sb jt" "fail_stale now" b_id for sb jt now
  by unfold_locales (auto simp: stale_run_def fail_stale_def job_status_defs)

section \<open>Properties\<close>

definition demo_spec :: job_spec where
  "demo_spec = \<lparr>js_job_type = ''housekeeping'', js_scope = None, js_trigger = Some ''loop'',
     js_knowledge_source_id = None, js_knowledge_source_version_id = None, js_summary = None\<rparr>"

definition demo_jobs :: db where
  "demo_jobs = snd (queue_background_job 5 demo_spec None (empty_db 0))"

lemma demo_jobs_runs: "background_job_runs demo_jobs = [new_run (empty_db 0) demo_spec QUEUED_STATUS 5]"
  by (simp add: demo_jobs_def queue_background_job_def add_run_def or_now_def empty_db_def demo_spec_def)

lemma demo_jobs_wf: "wf_jobs demo_jobs"
proof (rule job_step_wf)
  show "wf_jobs (empty_db 0)" by (simp add: wf_jobs_def empty_db_def)
  show "job_step (empty_db 0) demo_jobs"
    unfolding demo_jobs_def by (rule job_step.queue) (rule prod.collapse [symmetric])
qed



text \<open>
  A queued job is claimed at most once, however many workers try: the identifiers handed out
  by any sequence of claims are distinct and were queued.
\<close>

lemma job_claim_exclusive:
  assumes "wf_jobs d" "run_claims claim_attempt xs d = (ids, d')"
  shows "distinct ids \<and> set ids \<subseteq> claimable_jobs d \<and> claimable_jobs d' = claimable_jobs d - set ids"
  using assms by (rule job_claims.run_claims_spec)

lemma job_claim_exclusive_witness:
  "distinct (fst (run_claims claim_attempt [(6, 1), (7, 1)] demo_jobs))"
  using job_claim_exclusive [OF demo_jobs_wf] by (metis prod.collapse)

text \<open>
  Startup reconciliation fails exactly the running jobs without a heartbeat since the cut-off:
  the reported identifiers are those, every other run is untouched, and reconciling again with
  any clock reading reports nothing and changes nothing.
\<close>

lemma reconcile_exact:
  assumes "reconcile_stale_background_jobs now sb jt d = (ids, d')"
  shows "ids = map b_id (filter (stale_run sb jt) (background_job_runs d))
    \<and> (\<forall>r \<in> set (background_job_runs d). \<not> stale_run sb jt r \<longrightarrow> r \<in> set (background_job_runs d'))
    \<and> (\<forall>r \<in> set (background_job_runs d'). b_id r \<in> set ids \<longrightarrow> wf_jobs d \<longrightarrow> b_status r = ''failed'')
    \<and> reconcile_stale_background_jobs now2 sb jt d' = ([], d')"
proof -
  from assms have ids: "ids = map b_id (filter (stale_run sb jt) (background_job_runs d))"
    and d': "d' = update_runs (stale_run sb jt) (fail_stale now) d"
    by (auto simp: reconcile_stale_background_jobs_def)
  have runs: "background_job_runs d' = update_where (stale_run sb jt) (fail_stale now) (background_job_runs d)"
    by (simp add: d' update_runs_def)
  have none: "\<forall>r \<in> set (background_job_runs d'). \<not> stale_run sb jt r"
    unfolding runs by (rule stale_jobs.sweep_none_due)
  then have "reconcile_stale_background_jobs now2 sb jt d' = ([], d')"
    by (simp add: reconcile_stale_background_jobs_def update_runs_def update_where_none filter_empty_conv)
  moreover have "b_status r = ''failed''"
    if r: "r \<in> set (background_job_runs d')" "b_id r \<in> set ids" "wf_jobs d" for r
  proof -
    from r(2) obtain s where s: "s \<in> set (background_job_runs d)" "stale_run sb jt s" "b_id s = b_id r"
      unfolding ids by auto
    have eq: "x = s" if "x \<in> set (background_job_runs d)" "b_id x = b_id s" for x
      using r(3) that s(1) by (intro distinct_key_eq [where key = b_id]) (simp_all add: wf_jobs_def)
    from r(1) consider x where "x \<in> set (background_job_runs d)" "r = fail_stale now x"
      | "r \<in> set (background_job_runs d)" "\<not> stale_run sb jt r"
      unfolding runs in_update_where by blast
    then have "r = fail_stale now s"
    proof cases
      case (1 x)
      with s(3) have "b_id x = b_id s" by (simp add: fail_stale_def)
      with 1 eq show ?thesis by blast
    next
      case 2
      with eq [of r] s(2,3) show ?thesis by simp
    qed
    then show ?thesis by (simp add: fail_stale_def)
  qed
  moreover have "\<forall>r \<in> set (background_job_runs d). \<not> stale_run sb jt r \<longrightarrow> r \<in> set (background_job_runs d')"
    unfolding runs using stale_jobs.sweep_untouched by blast
  ultimately show ?thesis using ids by blast
qed

lemma reconcile_exact_witness:
  "\<exists>ids d'. reconcile_stale_background_jobs 9 8 None demo_jobs = (ids, d')
     \<and> reconcile_stale_background_jobs 10 8 None d' = ([], d')"
proof -
  let ?p = "reconcile_stale_background_jobs 9 8 None demo_jobs"
  have p: "?p = (fst ?p, snd ?p)" by simp
  from reconcile_exact [OF p, of 10] have "reconcile_stale_background_jobs 10 8 None (snd ?p) = ([], snd ?p)"
    by (simp only: simp_thms)
  with p show ?thesis by blast
qed

end
