(* ===== verification/Json_Order.thy ===== *)
theory Json_Order
  imports Json_Text "HOL-Library.List_Lexorder" "HOL-Library.Char_ord"
begin

text \<open>
  Two operations on JSON-like values that settings files and release manifests are written with:
  \<open>json.dumps(v, sort_keys=True)\<close>, where the keys of every object come in code-point order, and
  Python's \<open>==\<close>, which compares numbers by value (\<open>True == 1 == 1.0\<close>) and dictionaries without
  regard to the order of their keys. Also the JSON file as the runtime's settings loader sees it.
\<close>

section \<open>Sorted keys\<close>

fun sort_keys :: "json \<Rightarrow> json" where
  "sort_keys (JList xs) = JList (map sort_keys xs)"
| "sort_keys (JObj d) = JObj (sort_key fst (map (\<lambda>(k, v). (k, sort_keys v)) d))"
| "sort_keys v = v"

definition json_dumps_sorted :: "json \<Rightarrow> str" where
  "json_dumps_sorted v = json_dumps (sort_keys v)"

text \<open>\<open>json.dumps(v, sort_keys=True, separators=(",", ":"))\<close>.\<close>

fun json_compact :: "json \<Rightarrow> str" where
  "json_compact (JList xs) = ''['' @ py_join '','' (map json_compact xs) @ '']''"
| "json_compact (JObj d) = ''{'' @ py_join '','' (map (\<lambda>(k, v). json_string k @ '':'' @ json_compact v) d) @ ''}''"
| "json_compact v = json_dumps v"

section \<open>Equality\<close>

fun num_value :: "json \<Rightarrow> rat option" where
  "num_value (JBool b) = Some (if b then 1 else 0)"
| "num_value (JInt n) = Some (of_int n)"
| "num_value (JFloat q) = Some q"
| "num_value v = None"

function (sequential) py_eq :: "json \<Rightarrow> json \<Rightarrow> bool" where
  "py_eq (JList xs) w =
     (case w of JList ys \<Rightarrow> length xs = length ys \<and> list_all (\<lambda>(x, y). py_eq x y) (zip xs ys) | _ \<Rightarrow> False)"
| "py_eq (JObj d) w =
     (case w of
        JObj e \<Rightarrow> length d = length e \<and>
          list_all (\<lambda>(k, v). case map_of e k of None \<Rightarrow> False | Some u \<Rightarrow> py_eq v u) d
      | _ \<Rightarrow> False)"
| "py_eq v w = (case num_value v of None \<Rightarrow> v = w | Some q \<Rightarrow> num_value w = Some q)"
  by pat_completeness auto
termination
proof (relation "measure (\<lambda>(v, w). size v)", goal_cases)
  case (2 xs w ys p x y)
  then have "x \<in> set xs" by (auto dest: set_zip_leftD)
  then have "size x < Suc (size_list size xs)" by (simp add: less_Suc_eq_le size_list_estimation')
  then show ?case by simp
next
  case (3 d w e p k v u)
  then have "(k, v) \<in> set d" by simp
  then have "size v \<le> size_list (size_prod (\<lambda>x. 0) size) d" by (rule size_list_estimation') simp
  then show ?case by simp
qed simp


text \<open>A parsed document has no repeated key; equality is reflexive there.\<close>

fun unique_keys :: "json \<Rightarrow> bool" where
  "unique_keys (JList xs) = list_all unique_keys xs"
| "unique_keys (JObj d) = (distinct (map fst d) \<and> list_all (\<lambda>(k, v). unique_keys v) d)"
| "unique_keys v = True"

lemma py_eq_refl: "unique_keys v \<Longrightarrow> py_eq v v"
proof (induction v)
  case (JList xs)
  then show ?case by (auto simp: list_all_iff zip_same_conv_map)
next
  case (JObj d)
  then have "py_eq v v" "map_of d k = Some v" if "(k, v) \<in> set d" for k v
    using that by (auto simp: list_all_iff)
  then show ?case by (auto simp: list_all_iff)
qed simp_all

lemma unique_keys_dget: "unique_keys (JObj d) \<Longrightarrow> unique_keys (dget d k)"
  by (auto simp: dget_def get_default_def list_all_iff split: option.split dest: map_of_SomeD)

lemma unique_keys_dset: "unique_keys (JObj d) \<Longrightarrow> unique_keys v \<Longrightarrow> unique_keys (JObj (dset k v d))"
proof -
  assume d: "unique_keys (JObj d)" and v: "unique_keys v"
  then have "set (dset k v d) \<subseteq> insert (k, v) (set d)" by (induction d) auto
  then have "list_all (\<lambda>(k, v). unique_keys v) (dset k v d)"
    using d v by (auto simp: list_all_iff)
  with d show ?thesis by (simp add: distinct_update)
qed

section \<open>JSON files\<close>

text \<open>
  What a path holds for a reader that parses it: nothing, text that is not JSON, or a value.
  Writing \<open>json.dumps(v, indent=2)\<close> leaves the value itself for the next reader.
\<close>

datatype json_file = NoFile | NotJson | Json json

end
