(* ===== verification/Knowledge_Bundle.thy ===== *)
theory Knowledge_Bundle
  imports Sha256 Json_Order
begin

text \<open>
  The artifacts of a knowledge source: the scope of its snapshot, the verification of an extraction,
  the bundle built from them (\<open>shared/lib/knowledge_source_graphify.py\<close>, the snapshot's scope also in
  \<open>knowledge_source_indexer.py\<close>), and its publication as immutable objects
  (\<open>shared/lib/knowledge_source_publication.py\<close>). A directory is its regular files with their
  contents, by path relative to it; a bucket is its objects by key.

  Outside this model and passed in: writing and reading the compressed archive, and what storing
  an object does to the bucket. \<open>bundle_verifies\<close>: what is built passes the verification that a
  reader of the bundle runs. \<open>publication_immutable\<close>: publishing never changes an object that is there.
\<close>

type_synonym bytes = "8 word list"
type_synonym directory = "(str \<times> bytes) list"

record bundle_counts =
  bc_files :: int
  bc_nodes :: int
  bc_edges :: int

section \<open>Path scopes\<close>

text \<open>
  \<open>fnmatch.fnmatchcase\<close>: a star stands for any text, a question mark for one character, brackets
  for one of a set with ranges, negated by an exclamation mark; an unclosed bracket is itself.
\<close>

fun class_has :: "str \<Rightarrow> char \<Rightarrow> bool" where
  "class_has (a # b # c # s) x =
     (if b = CHR ''-'' then (a \<le> x \<and> x \<le> c) \<or> class_has s x else x = a \<or> class_has (b # c # s) x)"
| "class_has s x = (x \<in> set s)"

definition class_end :: "str \<Rightarrow> (bool \<times> str \<times> str) option" where
  "class_end p =
     (let neg = (case p of [] \<Rightarrow> False | c # _ \<Rightarrow> c = CHR ''!''); q = (if neg then tl p else p);
          k = (case q of [] \<Rightarrow> 0 | c # _ \<Rightarrow> if c = CHR '']'' then 1 else 0);
          body = take k q @ takeWhile (\<lambda>c. c \<noteq> CHR '']'') (drop k q); rest = dropWhile (\<lambda>c. c \<noteq> CHR '']'') (drop k q)
      in if rest = [] then None else Some (neg, body, tl rest))"

lemma class_end_shorter: "class_end p = Some (neg, body, rest) \<Longrightarrow> length rest < length p"
proof -
  have w: "length (tl (dropWhile Q xs)) < length ys" if "dropWhile Q xs \<noteq> []" "length xs \<le> length ys" for Q :: "char \<Rightarrow> bool" and xs ys :: str
    using that length_dropWhile_le [of Q xs] by (cases "dropWhile Q xs") auto
  assume "class_end p = Some (neg, body, rest)"
  then show ?thesis
    by (auto simp: class_end_def Let_def split: if_splits intro!: w)
qed

function (sequential) fnmatchcase :: "str \<Rightarrow> str \<Rightarrow> bool" where
  "fnmatchcase [] s = (s = [])"
| "fnmatchcase (c # p) s =
     (if c = CHR ''*'' then fnmatchcase p s \<or> (case s of [] \<Rightarrow> False | _ # s' \<Rightarrow> fnmatchcase (c # p) s')
      else case s of
        [] \<Rightarrow> False
      | x # s' \<Rightarrow>
          if c = CHR ''?'' then fnmatchcase p s'
          else if c = CHR ''['' then
            (case class_end p of
               None \<Rightarrow> x = c \<and> fnmatchcase p s'
             | Some (neg, body, rest) \<Rightarrow> class_has body x \<noteq> neg \<and> fnmatchcase rest s')
          else x = c \<and> fnmatchcase p s')"
  by pat_completeness auto
termination
  by (relation "measure (\<lambda>(p, s). length p + length s)") (auto dest: class_end_shorter)

definition in_scope :: "str list \<Rightarrow> str list \<Rightarrow> str \<Rightarrow> bool" where
  "in_scope include_paths exclude_paths path \<longleftrightarrow>
     ''.git'' \<notin> set (split_char CHR ''/'' path)
     \<and> (include_paths = [] \<or> list_ex (\<lambda>p. fnmatchcase p path) include_paths)
     \<and> \<not> list_ex (\<lambda>p. fnmatchcase p path) exclude_paths"

definition materialize_source_snapshot :: "str list \<Rightarrow> str list \<Rightarrow> directory \<Rightarrow> directory" where
  "materialize_source_snapshot include_paths exclude_paths files =
     filter (\<lambda>(path, _). in_scope include_paths exclude_paths path) files"

definition scoped_source_files :: "str list \<Rightarrow> str list \<Rightarrow> directory \<Rightarrow> directory" where
  "scoped_source_files include_paths exclude_paths files =
     sort_key fst (filter (\<lambda>(path, _). in_scope include_paths exclude_paths path) files)"

section \<open>Verifying an extraction\<close>

definition validate_relative_path :: "json \<Rightarrow> str \<Rightarrow> unit res" where
  "validate_relative_path value label =
     (case value of
        JStr p \<Rightarrow>
          if p = [] then Inl (KnowledgeSourceError (label @ '' must be a non-empty relative path''))
          else if CHR 0x5C \<in> set p \<or> py_startswith p ''/'' \<or> ''..'' \<in> set (split_char CHR ''/'' p)
          then Inl (KnowledgeSourceError (label @ '' is outside the configured source scope''))
          else Inr ()
      | _ \<Rightarrow> Inl (KnowledgeSourceError (label @ '' must be a non-empty relative path'')))"

definition required_list :: "dict \<Rightarrow> str \<Rightarrow> str \<Rightarrow> json list res" where
  "required_list value key file =
     (case dget value key of
        JList xs \<Rightarrow> Inr xs
      | _ \<Rightarrow> Inl (KnowledgeSourceError (file @ '' field '' @ repr_str key @ '' must be an array'')))"

fun load_json_object :: "str \<Rightarrow> json_file \<Rightarrow> dict res" where
  "load_json_object file (Json (JObj d)) = Inr d"
| "load_json_object file (Json v) = Inl (KnowledgeSourceError (file @ '' must contain a JSON object''))"
| "load_json_object file f = Inl (KnowledgeSourceError (''Could not read valid JSON object from '' @ file))"

fun check_nodes :: "str \<Rightarrow> nat \<Rightarrow> str list \<Rightarrow> json list \<Rightarrow> str list res" where
  "check_nodes file index ids [] = Inr ids"
| "check_nodes file index ids (JObj node # nodes) =
     (case dget node ''id'' of
        JStr node_id \<Rightarrow>
          if node_id = [] then Inl (KnowledgeSourceError (file @ '' node '' @ str_of_nat index @ '' has no string id''))
          else if node_id \<in> set ids
          then Inl (KnowledgeSourceError (file @ '' contains duplicate node id '' @ repr_str node_id))
          else let source_file = dget node ''source_file''
               in if source_file = JNull \<or> source_file = JStr [] then check_nodes file (Suc index) (node_id # ids) nodes
                  else bind_res (validate_relative_path source_file (''node '' @ repr_str node_id @ '' source_file'')) (\<lambda>_.
                         check_nodes file (Suc index) (node_id # ids) nodes)
      | _ \<Rightarrow> Inl (KnowledgeSourceError (file @ '' node '' @ str_of_nat index @ '' has no string id'')))"
| "check_nodes file index ids (_ # nodes) =
     Inl (KnowledgeSourceError (file @ '' node '' @ str_of_nat index @ '' must be an object''))"

text \<open>\<open>value in node_ids\<close>: a list or an object has no hash.\<close>

definition known_node :: "str list \<Rightarrow> json \<Rightarrow> bool res" where
  "known_node ids v =
     (case v of JStr s \<Rightarrow> Inr (s \<in> set ids) | JList xs \<Rightarrow> Inl (TypeError ''unhashable type'')
              | JObj d \<Rightarrow> Inl (TypeError ''unhashable type'') | _ \<Rightarrow> Inr False)"

fun check_edges :: "str \<Rightarrow> nat \<Rightarrow> str list \<Rightarrow> json list \<Rightarrow> unit res" where
  "check_edges file index ids [] = Inr ()"
| "check_edges file index ids (JObj edge # edges) =
     bind_res (known_node ids (dget edge ''source'')) (\<lambda>a.
       if \<not> a then Inl (KnowledgeSourceError (file @ '' edge '' @ str_of_nat index @ '' references an unknown node''))
       else bind_res (known_node ids (dget edge ''target'')) (\<lambda>b.
         if \<not> b then Inl (KnowledgeSourceError (file @ '' edge '' @ str_of_nat index @ '' references an unknown node''))
         else check_edges file (Suc index) ids edges))"
| "check_edges file index ids (_ # edges) =
     Inl (KnowledgeSourceError (file @ '' edge '' @ str_of_nat index @ '' must be an object''))"

fun check_manifest_files :: "str \<Rightarrow> dict \<Rightarrow> unit res" where
  "check_manifest_files file [] = Inr ()"
| "check_manifest_files file ((source_file, state) # rest) =
     bind_res (validate_relative_path (JStr source_file) (''manifest file '' @ repr_str source_file)) (\<lambda>_.
       case state of
         JObj st \<Rightarrow>
           if (case dget st ''ast_hash'' of JStr h \<Rightarrow> h \<noteq> [] | _ \<Rightarrow> False) then check_manifest_files file rest
           else Inl (KnowledgeSourceError (file @ '' entry '' @ repr_str source_file @ '' has no AST hash''))
       | _ \<Rightarrow> Inl (KnowledgeSourceError (file @ '' entry '' @ repr_str source_file @ '' must be an object'')))"

definition required_file :: "str \<Rightarrow> bool \<Rightarrow> unit res" where
  "required_file name there =
     (if there then Inr () else Inl (KnowledgeSourceError (''Graphify output is missing required artifact '' @ name)))"

text \<open>What an extraction leaves in its output directory; the report is its content if it is there.\<close>

record graphify_output =
  go_graph :: json_file
  go_manifest :: json_file
  go_report :: "bytes option"

definition validate_graphify_output :: "graphify_output \<Rightarrow> bundle_counts res" where
  "validate_graphify_output out =
     bind_res (required_file ''graph.json'' (go_graph out \<noteq> NoFile)) (\<lambda>_.
     bind_res (required_file ''manifest.json'' (go_manifest out \<noteq> NoFile)) (\<lambda>_.
     bind_res (required_file ''GRAPH_REPORT.md'' (go_report out \<noteq> None)) (\<lambda>_.
     bind_res (load_json_object ''graph.json'' (go_graph out)) (\<lambda>graph.
     bind_res (required_list graph ''nodes'' ''graph.json'') (\<lambda>nodes.
     bind_res (required_list graph ''links'' ''graph.json'') (\<lambda>edges.
     bind_res (required_list graph ''hyperedges'' ''graph.json'') (\<lambda>_.
     bind_res (load_json_object ''manifest.json'' (go_manifest out)) (\<lambda>manifest.
     bind_res (check_nodes ''graph.json'' 0 [] nodes) (\<lambda>ids.
     bind_res (check_edges ''graph.json'' 0 ids edges) (\<lambda>_.
     bind_res (check_manifest_files ''manifest.json'' manifest) (\<lambda>_.
       Inr \<lparr>bc_files = int (length manifest), bc_nodes = int (length nodes), bc_edges = int (length edges)\<rparr>)))))))))))"

section \<open>The bundle\<close>

definition sha256_file :: "bytes \<Rightarrow> str" where
  "sha256_file content = concat (map (\<lambda>w. hex_digits 8 (unat w)) (sha256_words content))"

fun hex_run :: "str \<Rightarrow> bool" where
  "hex_run [] = False"
| "hex_run [c] = (c \<in> set ''0123456789abcdefABCDEF'')"
| "hex_run (c # d # s) =
     (c \<in> set ''0123456789abcdefABCDEF'' \<and> (if d = CHR ''_'' then hex_run s else hex_run (d # s)))"

text \<open>The texts \<open>int(value, 16)\<close> reads: spaces around, a sign, \<open>0x\<close>, and underscores between digits.\<close>

definition int16_text :: "str \<Rightarrow> bool" where
  "int16_text s =
     (let t = py_strip s; u = (case t of c # r \<Rightarrow> if c \<in> set ''+-'' then r else t | [] \<Rightarrow> t)
      in case u of
           a # b # r \<Rightarrow>
             if a = CHR ''0'' \<and> b \<in> set ''xX'' then hex_run (case r of c # r' \<Rightarrow> if c = CHR ''_'' then r' else r | [] \<Rightarrow> r)
             else hex_run u
         | _ \<Rightarrow> hex_run u)"

definition is_hex_digest :: "json \<Rightarrow> nat \<Rightarrow> bool" where
  "is_hex_digest value n = (case value of JStr s \<Rightarrow> length s = n \<and> int16_text s | _ \<Rightarrow> False)"

text \<open>\<open>Path(name).name\<close>: the last component, where empty components and a single dot do not count.\<close>

definition path_name :: "str \<Rightarrow> str" where
  "path_name p = (let parts = filter (\<lambda>c. c \<noteq> [] \<and> c \<noteq> ''.'') (split_char CHR ''/'' p) in if parts = [] then [] else last parts)"

record archive_member =
  am_name :: str
  am_isfile :: bool
  am_size :: nat

definition MAX_SOURCE_ARCHIVE_EXPANDED_BYTES :: nat where
  "MAX_SOURCE_ARCHIVE_EXPANDED_BYTES = 1024 * 1024 * 1024"

fun inspect_members :: "nat \<Rightarrow> nat \<Rightarrow> nat \<Rightarrow> archive_member list \<Rightarrow> (nat \<times> nat) res" where
  "inspect_members bound expanded_size file_count [] = Inr (expanded_size, file_count)"
| "inspect_members bound expanded_size file_count (m # ms) =
     bind_res (validate_relative_path (JStr (am_name m)) (''archive member '' @ repr_str (am_name m))) (\<lambda>_.
       if \<not> am_isfile m then Inl (KnowledgeSourceError ''Knowledge Source archive may contain only regular files'')
       else if bound < expanded_size + am_size m
       then Inl (KnowledgeSourceError ''Knowledge Source archive exceeds expanded-size limit'')
       else inspect_members bound (expanded_size + am_size m) (Suc file_count) ms)"

text \<open>\<open>read_archive\<close> is the members of a compressed archive, or why it cannot be read.\<close>

definition inspect_source_archive :: "(bytes \<Rightarrow> archive_member list res) \<Rightarrow> nat \<Rightarrow> bytes \<Rightarrow> (nat \<times> nat) res" where
  "inspect_source_archive read_archive bound content =
     (if bound = 0 then Inl (ValueError ''Expanded source archive limit must be positive'')
      else bind_res (read_archive content) (inspect_members bound 0 0))"

text \<open>A bundle directory: its files, and what \<open>manifest.json\<close> holds.\<close>

record bundle_dir =
  bd_files :: directory
  bd_manifest :: json_file

definition check_artifact :: "directory \<Rightarrow> str \<Rightarrow> json \<Rightarrow> unit res" where
  "check_artifact files name entry =
     (case entry of
        JObj e \<Rightarrow>
          (case dget e ''file'' of
             JStr file_name \<Rightarrow>
               if path_name file_name \<noteq> file_name
               then Inl (KnowledgeSourceError (''Knowledge Source artifact '' @ repr_str name @ '' has an unsafe file name''))
               else (case map_of files file_name of
                  None \<Rightarrow> Inl (KnowledgeSourceError (''Knowledge Source bundle is missing artifact '' @ file_name))
                | Some content \<Rightarrow>
                    if \<not> py_eq (dget e ''size_bytes'') (JInt (int (length content)))
                    then Inl (KnowledgeSourceError (''Knowledge Source artifact '' @ repr_str name @ '' size does not match manifest''))
                    else if dget e ''sha256'' \<noteq> JStr (sha256_file content)
                    then Inl (KnowledgeSourceError (''Knowledge Source artifact '' @ repr_str name @ '' checksum does not match manifest''))
                    else Inr ())
           | _ \<Rightarrow> Inl (KnowledgeSourceError (''Knowledge Source artifact '' @ repr_str name @ '' has an unsafe file name'')))
      | _ \<Rightarrow> Inl (KnowledgeSourceError (''Knowledge Source artifact '' @ repr_str name @ '' has invalid metadata'')))"

fun check_artifacts :: "directory \<Rightarrow> dict \<Rightarrow> str list \<Rightarrow> unit res" where
  "check_artifacts files artifacts [] = Inr ()"
| "check_artifacts files artifacts (name # names) =
     bind_res (check_artifact files name (dget artifacts name)) (\<lambda>_. check_artifacts files artifacts names)"

fun obj_field :: "json \<Rightarrow> str \<Rightarrow> json" where
  "obj_field (JObj d) k = dget d k"
| "obj_field v k = JNull"

definition subscript :: "json \<Rightarrow> str \<Rightarrow> json res" where
  "subscript v k = (case v of JObj d \<Rightarrow> if k \<in> fst ` set d then Inr (dget d k) else Inl (KeyError k) | _ \<Rightarrow> Inl (TypeError k))"

definition check_archive_counts :: "(bytes \<Rightarrow> archive_member list res) \<Rightarrow> nat \<Rightarrow> directory \<Rightarrow> json \<Rightarrow> unit res" where
  "check_archive_counts read_archive bound files entry =
     (case obj_field entry ''file'' of
        JStr file_name \<Rightarrow>
          bind_res (inspect_source_archive read_archive bound (the (map_of files file_name))) (\<lambda>(expanded_size, file_count).
            if \<not> py_eq (obj_field entry ''expanded_size_bytes'') (JInt (int expanded_size))
               \<or> \<not> py_eq (obj_field entry ''file_count'') (JInt (int file_count))
            then Inl (KnowledgeSourceError ''Knowledge Source archive counts do not match manifest'') else Inr ())
      | _ \<Rightarrow> Inl (KeyError ''file''))"

definition BUNDLE_ARTIFACTS :: "str list" where
  "BUNDLE_ARTIFACTS = [''graph'', ''source'', ''report'', ''extraction_log'']"

definition verify_knowledge_source_bundle :: "(bytes \<Rightarrow> archive_member list res) \<Rightarrow> nat \<Rightarrow> bundle_dir \<Rightarrow> dict res" where
  "verify_knowledge_source_bundle read_archive bound b =
     bind_res (load_json_object ''manifest.json'' (bd_manifest b)) (\<lambda>manifest.
       if \<not> py_eq (dget manifest ''schema_version'') (JInt 1)
       then Inl (KnowledgeSourceError ''Unsupported Knowledge Source bundle schema version'')
       else if \<not> is_hex_digest (obj_field (dget manifest ''source'') ''commit_sha'') 40
       then Inl (KnowledgeSourceError ''Knowledge Source bundle has invalid source identity'')
       else case dget manifest ''artifacts'' of
         JObj artifacts \<Rightarrow>
           if set (map fst artifacts) \<noteq> set BUNDLE_ARTIFACTS
           then Inl (KnowledgeSourceError ''Knowledge Source bundle artifact set is incomplete'')
           else bind_res (check_artifacts (bd_files b) artifacts (sort BUNDLE_ARTIFACTS)) (\<lambda>_.
                bind_res (check_archive_counts read_archive bound (bd_files b) (dget artifacts ''source'')) (\<lambda>_. Inr manifest))
       | _ \<Rightarrow> Inl (KnowledgeSourceError ''Knowledge Source bundle has no artifact manifest''))"

text \<open>
  Building: \<open>graphify\<close> is the extraction's output, \<open>files\<close> the snapshot, \<open>write_archive\<close> the
  compressed archive of its files. The caller passes the source's own id, so it is one.
\<close>

record bundle_request =
  br_source_id :: uuid
  br_canonical_alias :: str
  br_repository_url :: str
  br_commit_sha :: str
  br_include_paths :: "str list"
  br_exclude_paths :: "str list"
  br_extraction_config_hash :: str
  br_stdout :: str
  br_stderr :: str

fun normalize_nodes :: "str list \<Rightarrow> json list \<Rightarrow> json list res" where
  "normalize_nodes selected [] = Inr []"
| "normalize_nodes selected (JObj node # nodes) =
     bind_res (case dget node ''source_file'' of
         JNull \<Rightarrow> Inr node
       | JStr p \<Rightarrow> Inr (if p \<noteq> [] \<and> p \<notin> set selected then dset ''source_file'' (JStr []) node else node)
       | JList _ \<Rightarrow> Inl (TypeError ''unhashable type'')
       | JObj _ \<Rightarrow> Inl (TypeError ''unhashable type'')
       | _ \<Rightarrow> Inr (dset ''source_file'' (JStr []) node)) (\<lambda>node'.
     bind_res (normalize_nodes selected nodes) (\<lambda>nodes'. Inr (JObj node' # nodes')))"
| "normalize_nodes selected (_ # nodes) = Inl (AttributeError ''get'')"

definition normalize_graph_source_files :: "str list \<Rightarrow> dict \<Rightarrow> dict res" where
  "normalize_graph_source_files selected graph =
     (case dget graph ''nodes'' of
        JList nodes \<Rightarrow> bind_res (normalize_nodes selected nodes) (\<lambda>nodes'. Inr (dset ''nodes'' (JList nodes') graph))
      | _ \<Rightarrow> Inl (TypeError ''nodes''))"

definition extraction_log :: "bundle_request \<Rightarrow> str" where
  "extraction_log q =
     (if br_stderr q = [] then br_stdout q
      else if br_stdout q = [] then br_stderr q else py_rstrip (br_stdout q) @ [CHR 0x0A] @ br_stderr q)"

definition artifact_entry :: "str \<Rightarrow> bytes \<Rightarrow> dict" where
  "artifact_entry file content = [(''file'', JStr file), (''sha256'', JStr (sha256_file content)), (''size_bytes'', JInt (int (length content)))]"

definition expanded_size :: "directory \<Rightarrow> nat" where
  "expanded_size files = sum_list (map (\<lambda>(_, content). length content) files)"

definition bundle_manifest :: "bundle_request \<Rightarrow> bundle_counts \<Rightarrow> directory \<Rightarrow> bytes \<Rightarrow> bytes \<Rightarrow> bytes \<Rightarrow> bytes \<Rightarrow> dict" where
  "bundle_manifest q c selected graph source report log_text =
     [(''schema_version'', JInt 1),
      (''source'', JObj [(''id'', JStr (uuid_str (br_source_id q))), (''canonical_alias'', JStr (br_canonical_alias q)),
         (''repository_url'', JStr (br_repository_url q)), (''commit_sha'', JStr (br_commit_sha q)),
         (''include_paths'', JList (map JStr (br_include_paths q))), (''exclude_paths'', JList (map JStr (br_exclude_paths q)))]),
      (''graphify'', JObj [(''package'', JStr ''graphifyy''), (''version'', JStr ''0.9.40''),
         (''command'', JList [JStr ''extract'', JStr ''--code-only'']),
         (''extraction_config_hash'', JStr (br_extraction_config_hash q))]),
      (''counts'', JObj [(''source_files'', JInt (int (length selected))), (''graph_files'', JInt (bc_files c)),
         (''nodes'', JInt (bc_nodes c)), (''edges'', JInt (bc_edges c))]),
      (''artifacts'', JObj [(''graph'', JObj (artifact_entry ''graph.json'' graph)),
         (''source'', JObj (artifact_entry ''source.tar.zst'' source @
            [(''expanded_size_bytes'', JInt (int (expanded_size selected))), (''file_count'', JInt (int (length selected)))])),
         (''report'', JObj (artifact_entry ''graph-report.md'' report)),
         (''extraction_log'', JObj (artifact_entry ''extraction.log'' log_text))])]"

text \<open>\<open>json.dumps(v, indent=2)\<close>, at a depth of nesting.\<close>

definition pad_line :: "nat \<Rightarrow> str" where
  "pad_line n = CHR 0x0A # replicate (2 * n) CHR '' ''"

fun json_indent :: "nat \<Rightarrow> json \<Rightarrow> str" where
  "json_indent n (JList xs) = (if xs = [] then ''[]''
     else ''['' @ pad_line (Suc n) @ py_join ('','' @ pad_line (Suc n)) (map (json_indent (Suc n)) xs) @ pad_line n @ '']'')"
| "json_indent n (JObj d) = (if d = [] then ''{}''
     else ''{'' @ pad_line (Suc n) @ py_join ('','' @ pad_line (Suc n))
            (map (\<lambda>(k, v). json_string k @ '': '' @ json_indent (Suc n) v) d) @ pad_line n @ ''}'')"
| "json_indent n v = json_dumps v"

definition manifest_bytes :: "dict \<Rightarrow> bytes" where
  "manifest_bytes m = utf8 (json_indent 0 (sort_keys (JObj m)) @ [CHR 0x0A])"

definition bundle_files :: "bytes \<Rightarrow> bytes \<Rightarrow> bytes \<Rightarrow> bytes \<Rightarrow> dict \<Rightarrow> directory" where
  "bundle_files graph source report log_text manifest =
     [(''graph.json'', graph), (''graph-report.md'', report), (''extraction.log'', log_text), (''source.tar.zst'', source),
      (''manifest.json'', manifest_bytes manifest)]"

record bundle_result =
  kb_dir :: bundle_dir
  kb_artifact_paths :: "(str \<times> str) list"
  kb_artifact_checksums :: "(str \<times> str) list"
  kb_manifest :: dict
  kb_counts :: bundle_counts

definition ARTIFACT_PATHS :: "(str \<times> str) list" where
  "ARTIFACT_PATHS = [(''graph'', ''graph.json''), (''source'', ''source.tar.zst''), (''report'', ''graph-report.md''),
     (''extraction_log'', ''extraction.log''), (''manifest'', ''manifest.json'')]"

definition missing_indexed :: "dict \<Rightarrow> directory \<Rightarrow> str list" where
  "missing_indexed manifest selected = sort (filter (\<lambda>p. p \<notin> fst ` set selected) (map fst manifest))"

definition bundle_result_of :: "bundle_dir \<Rightarrow> dict \<Rightarrow> bundle_counts \<Rightarrow> bundle_result" where
  "bundle_result_of b verified c = \<lparr>kb_dir = b, kb_artifact_paths = ARTIFACT_PATHS,
     kb_artifact_checksums = map (\<lambda>(name, path). (name, ''sha256:'' @ sha256_file (the (map_of (bd_files b) path)))) ARTIFACT_PATHS,
     kb_manifest = verified, kb_counts = c\<rparr>"

text \<open>Writing the files and the manifest, and verifying them: \<open>graph\<close>, \<open>source\<close>, \<open>report\<close> and \<open>log_text\<close> are the files' contents.\<close>

definition assemble_bundle ::
    "(bytes \<Rightarrow> archive_member list res) \<Rightarrow> bundle_request \<Rightarrow> bundle_counts \<Rightarrow> directory \<Rightarrow> bytes \<Rightarrow> bytes \<Rightarrow> bytes \<Rightarrow> bytes
       \<Rightarrow> bundle_result res" where
  "assemble_bundle read_archive q c selected graph source report log_text =
     (let manifest = bundle_manifest q c selected graph source report log_text;
          b = \<lparr>bd_files = bundle_files graph source report log_text manifest, bd_manifest = Json (sort_keys (JObj manifest))\<rparr>
      in bind_res (verify_knowledge_source_bundle read_archive MAX_SOURCE_ARCHIVE_EXPANDED_BYTES b) (\<lambda>verified.
           Inr (bundle_result_of b verified (c\<lparr>bc_files := int (length selected)\<rparr>))))"

definition build_knowledge_source_bundle ::
    "(directory \<Rightarrow> bytes) \<Rightarrow> (bytes \<Rightarrow> archive_member list res) \<Rightarrow> bundle_request \<Rightarrow> graphify_output \<Rightarrow> bundle_counts
       \<Rightarrow> directory \<Rightarrow> bundle_result res" where
  "build_knowledge_source_bundle write_archive read_archive q out c files =
     (if \<not> is_hex_digest (JStr (br_commit_sha q)) 40
      then Inl (KnowledgeSourceError ''Knowledge Source commit must be a 40-character SHA'')
      else if \<not> is_hex_digest (JStr (br_extraction_config_hash q)) 64
      then Inl (KnowledgeSourceError ''Extraction config hash must be a SHA-256 digest'')
      else
        let selected = scoped_source_files (br_include_paths q) (br_exclude_paths q) files
        in bind_res (load_json_object ''manifest.json'' (go_manifest out)) (\<lambda>indexed.
          if missing_indexed indexed selected \<noteq> []
          then Inl (KnowledgeSourceError (''Graphify indexed files are absent from the configured source snapshot: ''
                 @ py_join '', '' (take 3 (missing_indexed indexed selected))))
          else bind_res (load_json_object ''graph.json'' (go_graph out)) (\<lambda>graph0.
               bind_res (normalize_graph_source_files (map fst selected) graph0) (\<lambda>graph1.
               bind_res (case go_report out of None \<Rightarrow> Inl (OSError ''GRAPH_REPORT.md'') | Some r \<Rightarrow> Inr r) (\<lambda>report.
                 assemble_bundle read_archive q c selected (utf8 (json_compact (JObj graph1))) (write_archive selected) report
                   (utf8 (extraction_log q)))))))"

section \<open>Publishing a bundle\<close>

type_synonym bucket = "(str \<times> bytes) list"

definition KNOWLEDGE_SOURCE_OBJECT_PREFIX :: str where
  "KNOWLEDGE_SOURCE_OBJECT_PREFIX = ''knowledge-sources''"

definition ARTIFACT_ORDER :: "str list" where
  "ARTIFACT_ORDER = [''graph'', ''source'', ''report'', ''extraction_log'', ''manifest'']"

record publication =
  pb_bucket :: str
  pb_artifact_keys :: "(str \<times> str) list"
  pb_artifact_checksums :: "(str \<times> str) list"

definition require_matching_object :: "str \<Rightarrow> bytes \<Rightarrow> bytes \<Rightarrow> unit res" where
  "require_matching_object key expected found =
     (if length found \<noteq> length expected \<or> sha256_file found \<noteq> sha256_file expected
      then Inl (KnowledgeSourcePublicationError (''Immutable Knowledge Source object differs at '' @ key)) else Inr ())"

text \<open>
  The object store as the code reaches it. An upload may fail after it has changed the object; a
  download gives no content for a key that is not there, or raises.
\<close>

record object_store =
  os_upload :: "str \<Rightarrow> bytes \<Rightarrow> bucket \<Rightarrow> unit res \<times> bucket"
  os_download :: "str \<Rightarrow> bucket \<Rightarrow> bytes option res"

text \<open>One artifact: an object that is there must match, otherwise it is uploaded; then it is read back.\<close>

definition store_artifact :: "object_store \<Rightarrow> str \<Rightarrow> bytes \<Rightarrow> bucket \<Rightarrow> unit res \<times> bucket" where
  "store_artifact st key content b =
     (case os_download st key b of
        Inl e \<Rightarrow> (Inl e, b)
      | Inr (Some existing) \<Rightarrow> (require_matching_object key content existing, b)
      | Inr None \<Rightarrow> os_upload st key content b)"

definition publish_artifact :: "object_store \<Rightarrow> str \<Rightarrow> bytes \<Rightarrow> bucket \<Rightarrow> unit res \<times> bucket" where
  "publish_artifact st key content b =
     (case store_artifact st key content b of
        (Inl e, b') \<Rightarrow> (Inl e, b')
      | (Inr _, b') \<Rightarrow>
          (case os_download st key b' of
             Inl e \<Rightarrow> (Inl e, b')
           | Inr None \<Rightarrow> (Inl (KnowledgeSourcePublicationError (''Published Knowledge Source artifact is missing: '' @ key)), b')
           | Inr (Some verified) \<Rightarrow> (require_matching_object key content verified, b')))"

fun publish_artifacts ::
    "object_store \<Rightarrow> str \<Rightarrow> (str \<Rightarrow> (str \<times> bytes) option) \<Rightarrow> str list \<Rightarrow> bucket
       \<Rightarrow> ((str \<times> str) list \<times> (str \<times> str) list) res \<times> bucket" where
  "publish_artifacts st base_key artifacts [] b = (Inr ([], []), b)"
| "publish_artifacts st base_key artifacts (name # names) b =
     (case artifacts name of
        None \<Rightarrow> (Inl (OSError name), b)
      | Some (file, content) \<Rightarrow>
          let key = base_key @ ''/'' @ file
          in (case publish_artifact st key content b of
                (Inl e, b') \<Rightarrow> (Inl e, b')
              | (Inr _, b') \<Rightarrow>
                  (case publish_artifacts st base_key artifacts names b' of
                     (Inl e, b2) \<Rightarrow> (Inl e, b2)
                   | (Inr (keys, digests), b2) \<Rightarrow>
                       (Inr ((name, key) # keys, (name, ''sha256:'' @ sha256_file content) # digests), b2))))"

definition bundle_artifact :: "bundle_result \<Rightarrow> str \<Rightarrow> (str \<times> bytes) option" where
  "bundle_artifact r name =
     (case map_of (kb_artifact_paths r) name of
        None \<Rightarrow> None
      | Some file \<Rightarrow> map_option (\<lambda>content. (file, content)) (map_of (bd_files (kb_dir r)) file))"

definition bundle_base_key :: "dict \<Rightarrow> str res" where
  "bundle_base_key manifest =
     bind_res (subscript (JObj manifest) ''source'') (\<lambda>source.
     bind_res (subscript source ''id'') (\<lambda>source_id.
     bind_res (subscript source ''commit_sha'') (\<lambda>commit_sha.
     bind_res (subscript (JObj manifest) ''graphify'') (\<lambda>graphify.
     bind_res (subscript graphify ''extraction_config_hash'') (\<lambda>config_hash.
       Inr (KNOWLEDGE_SOURCE_OBJECT_PREFIX @ ''/'' @ py_str source_id @ ''/'' @ py_str commit_sha @ ''/'' @ py_str config_hash))))))"

definition publish_knowledge_source_bundle ::
    "object_store \<Rightarrow> (bytes \<Rightarrow> archive_member list res) \<Rightarrow> bundle_result \<Rightarrow> str \<Rightarrow> bucket
       \<Rightarrow> publication res \<times> bucket" where
  "publish_knowledge_source_bundle st read_archive r bucket0 b =
     (let bucket = py_strip bucket0 in
      if bucket = [] then (Inl (KnowledgeSourcePublicationError ''Knowledge Source object-store bucket is required''), b)
      else case verify_knowledge_source_bundle read_archive MAX_SOURCE_ARCHIVE_EXPANDED_BYTES (kb_dir r) of
        Inl e \<Rightarrow> (Inl e, b)
      | Inr manifest \<Rightarrow>
          (case bundle_base_key manifest of
             Inl e \<Rightarrow> (Inl e, b)
           | Inr base_key \<Rightarrow>
              (case publish_artifacts st base_key (bundle_artifact r) ARTIFACT_ORDER b of
                (Inl e, b') \<Rightarrow> (Inl e, b')
              | (Inr (keys, digests), b') \<Rightarrow>
                  (Inr \<lparr>pb_bucket = bucket, pb_artifact_keys = keys, pb_artifact_checksums = digests\<rparr>, b'))))"

section \<open>A built bundle verifies\<close>

definition sorted_dict :: "dict \<Rightarrow> dict" where
  "sorted_dict d = sort_key fst (map (\<lambda>(k, v). (k, sort_keys v)) d)"

lemma sort_keys_JObj: "sort_keys (JObj d) = JObj (sorted_dict d)"
  by (simp add: sorted_dict_def)

declare sort_keys.simps(2) [simp del] sort_keys_JObj [simp]

lemma dget_sorted_dict: "distinct (map fst d) \<Longrightarrow> dget (sorted_dict d) k = sort_keys (dget d k)"
proof -
  assume a: "distinct (map fst d)"
  let ?e = "map (\<lambda>(k, v). (k, sort_keys v)) d"
  have k: "map fst ?e = map fst d" by (simp add: case_prod_beta o_def)
  have e: "distinct (map fst ?e)" unfolding k by (rule a)
  moreover from e have "distinct (map fst (sorted_dict d))" by (simp only: sorted_dict_def distinct_map distinct_sort set_sort)
  ultimately have "map_of (sorted_dict d) = map_of ?e" by (subst map_of_inject_set) (simp_all add: sorted_dict_def)
  moreover have "map_of ?e k = map_option sort_keys (map_of d k)" by (induction d) auto
  ultimately show ?thesis by (simp add: dget_def get_default_def split: option.split)
qed

lemma dget_literal:
  "dget [] k = JNull"
  "dget ((k', v) # d) k = (if k = k' then v else dget d k)"
  by (simp_all add: dget_def get_default_def)

lemma fst_sorted_dict: "fst ` set (sorted_dict d) = fst ` set d"
  by (force simp: image_iff sorted_dict_def)

lemma check_artifacts_Inr:
  "check_artifacts files artifacts names = Inr u \<longleftrightarrow> (\<forall>name \<in> set names. check_artifact files name (dget artifacts name) = Inr ())"
proof (induction names)
  case (Cons name names)
  then show ?case by (cases "check_artifact files name (dget artifacts name)") auto
qed simp

lemma check_artifact_entry:
  assumes "map_of files file_name = Some content" "path_name file_name = file_name"
    "distinct (map fst (artifact_entry file_name content @ extra))"
  shows "check_artifact files name (sort_keys (JObj (artifact_entry file_name content @ extra))) = Inr ()"
proof -
  have "dget (sorted_dict (artifact_entry file_name content @ extra)) k = dget (artifact_entry file_name content @ extra) k"
    if "k \<in> set [''file'', ''size_bytes'', ''sha256'']" for k
    unfolding dget_sorted_dict [OF assms(3)] using that by (auto simp: artifact_entry_def dget_def get_default_def)
  then show ?thesis
    using assms(1,2) by (simp add: check_artifact_def artifact_entry_def dget_def get_default_def)
qed

definition as_member :: "str \<times> bytes \<Rightarrow> archive_member" where
  "as_member f = \<lparr>am_name = fst f, am_isfile = True, am_size = length (snd f)\<rparr>"

definition safe_path :: "str \<Rightarrow> bool" where
  "safe_path p \<longleftrightarrow> p \<noteq> [] \<and> CHR 0x5C \<notin> set p \<and> \<not> py_startswith p ''/'' \<and> ''..'' \<notin> set (split_char CHR ''/'' p)"

lemma validate_safe_path: "safe_path p \<Longrightarrow> validate_relative_path (JStr p) label = Inr ()"
  by (simp add: validate_relative_path_def safe_path_def)

lemma inspect_members_ok:
  "\<lbrakk>\<forall>f \<in> set fs. safe_path (fst f); n + expanded_size fs \<le> bound\<rbrakk>
   \<Longrightarrow> inspect_members bound n k (map as_member fs) = Inr (n + expanded_size fs, k + length fs)"
  by (induction fs arbitrary: n k) (auto simp: as_member_def validate_safe_path expanded_size_def)

lemma normalize_checked:
  "check_nodes file_name i ids nodes = Inr r \<Longrightarrow> \<exists>ns. normalize_nodes selected nodes = Inr ns"
proof (induction nodes arbitrary: i ids)
  case (Cons v nodes)
  then obtain node ids' where v: "v = JObj node" "check_nodes file_name (Suc i) ids' nodes = Inr r"
      "dget node ''source_file'' = JNull \<or> (\<exists>p. dget node ''source_file'' = JStr p)"
    by (cases v) (auto simp: Let_def validate_relative_path_def split: json.splits if_splits)
  from Cons.IH [OF v(2)] obtain ns where "normalize_nodes selected nodes = Inr ns" ..
  with v show ?case by auto
qed simp

lemma load_json_object_Inr: "load_json_object file_name f = Inr d \<longleftrightarrow> f = Json (JObj d)"
  by (cases "(file_name, f)" rule: load_json_object.cases) auto

lemma required_list_Inr: "required_list d k file_name = Inr xs \<longleftrightarrow> dget d k = JList xs"
  by (cases "dget d k") (auto simp: required_list_def)

lemma validated_extraction:
  assumes "validate_graphify_output out = Inr c"
  obtains graph nodes indexed report where "go_graph out = Json (JObj graph)" "dget graph ''nodes'' = JList nodes"
    "go_manifest out = Json (JObj indexed)" "go_report out = Some report" "\<exists>ids. check_nodes ''graph.json'' 0 [] nodes = Inr ids"
  using assms
  by (auto simp: validate_graphify_output_def bind_res_Inr_iff load_json_object_Inr required_list_Inr required_file_def
      split: if_splits)

lemmas artifact_path_defs = bundle_files_def path_name_def split_char_def

lemma built_artifacts_ok:
  "check_artifacts (bundle_files graph source report log_text m)
     (sorted_dict [(''graph'', JObj (artifact_entry ''graph.json'' graph)), (''source'', JObj (artifact_entry ''source.tar.zst'' source @
            [(''expanded_size_bytes'', JInt x), (''file_count'', JInt y)])),
         (''report'', JObj (artifact_entry ''graph-report.md'' report)),
         (''extraction_log'', JObj (artifact_entry ''extraction.log'' log_text))]) names = Inr ()"
  if "set names \<subseteq> set BUNDLE_ARTIFACTS"
proof -
  have e: "check_artifact (bundle_files graph source report log_text m) name (JObj (sorted_dict (artifact_entry f c))) = Inr ()"
    if "(f, c) \<in> set [(''graph.json'', graph), (''graph-report.md'', report), (''extraction.log'', log_text)]" for f c name
    using that check_artifact_entry [of "bundle_files graph source report log_text m" f c "[]" name]
    by (auto simp: artifact_path_defs artifact_entry_def)
  have s: "check_artifact (bundle_files graph source report log_text m) name (JObj (sorted_dict (artifact_entry ''source.tar.zst'' source @
            [(''expanded_size_bytes'', JInt x), (''file_count'', JInt y)]))) = Inr ()" for name
    using check_artifact_entry [of "bundle_files graph source report log_text m" "''source.tar.zst''" source
        "[(''expanded_size_bytes'', JInt x), (''file_count'', JInt y)]" name]
    by (simp add: artifact_path_defs artifact_entry_def)
  show ?thesis
    using that e s by (auto simp: check_artifacts_Inr dget_sorted_dict dget_literal BUNDLE_ARTIFACTS_def)
qed

lemma verify_built:
  fixes q c selected graph source report log_text
  defines "m \<equiv> bundle_manifest q c selected graph source report log_text"
  assumes "read_archive source = Inr (map as_member selected)" "\<forall>f \<in> set selected. safe_path (fst f)"
    "expanded_size selected \<le> bound" "0 < bound" "is_hex_digest (JStr (br_commit_sha q)) 40"
  shows "verify_knowledge_source_bundle read_archive bound
     \<lparr>bd_files = bundle_files graph source report log_text m', bd_manifest = Json (sort_keys (JObj m))\<rparr> = Inr (sorted_dict m)"
proof -
  let ?a = "[(''graph'', JObj (artifact_entry ''graph.json'' graph)),
         (''source'', JObj (artifact_entry ''source.tar.zst'' source @
            [(''expanded_size_bytes'', JInt (int (expanded_size selected))), (''file_count'', JInt (int (length selected)))])),
         (''report'', JObj (artifact_entry ''graph-report.md'' report)),
         (''extraction_log'', JObj (artifact_entry ''extraction.log'' log_text))]"
  have d: "dget (sorted_dict m) k = sort_keys (dget m k)" for k
    by (rule dget_sorted_dict) (simp add: m_def bundle_manifest_def)
  have v: "dget (sorted_dict m) ''schema_version'' = JInt 1"
    and sha: "obj_field (dget (sorted_dict m) ''source'') ''commit_sha'' = JStr (br_commit_sha q)"
    and art: "dget (sorted_dict m) ''artifacts'' = JObj (sorted_dict ?a)"
    unfolding d by (simp_all add: m_def bundle_manifest_def dget_literal dget_sorted_dict)
  have ks: "set (map fst (sorted_dict ?a)) = set BUNDLE_ARTIFACTS"
    by (simp add: fst_sorted_dict BUNDLE_ARTIFACTS_def)
  have src: "dget (sorted_dict ?a) ''source'' = JObj (sorted_dict (artifact_entry ''source.tar.zst'' source @
            [(''expanded_size_bytes'', JInt (int (expanded_size selected))), (''file_count'', JInt (int (length selected)))]))"
    by (simp add: dget_sorted_dict dget_literal)
  have "check_archive_counts read_archive bound (bundle_files graph source report log_text m') (dget (sorted_dict ?a) ''source'') = Inr ()"
    unfolding src using assms(2-5) inspect_members_ok [of selected 0 bound 0]
    by (simp add: check_archive_counts_def dget_sorted_dict artifact_entry_def dget_literal inspect_source_archive_def bundle_files_def)
  with v sha art ks assms(6) show ?thesis
    by (simp add: verify_knowledge_source_bundle_def built_artifacts_ok)
qed

lemma bundle_result_checksums:
  assumes "bd_files b = bundle_files graph source report log_text m" "(name, digest) \<in> set (kb_artifact_checksums (bundle_result_of b v c))"
  shows "\<exists>path content. bundle_artifact (bundle_result_of b v c) name = Some (path, content) \<and> digest = ''sha256:'' @ sha256_file content"
  using assms by (auto simp: bundle_result_of_def bundle_artifact_def ARTIFACT_PATHS_def bundle_files_def)

lemma assemble_ok:
  fixes q c selected graph source report log_text
  defines "m \<equiv> bundle_manifest q c selected graph source report log_text"
  assumes "verify_knowledge_source_bundle read_archive MAX_SOURCE_ARCHIVE_EXPANDED_BYTES
     \<lparr>bd_files = bundle_files graph source report log_text m, bd_manifest = Json (sort_keys (JObj m))\<rparr> = Inr w"
  shows "\<exists>r. assemble_bundle read_archive q c selected graph source report log_text = Inr r
     \<and> verify_knowledge_source_bundle read_archive MAX_SOURCE_ARCHIVE_EXPANDED_BYTES (kb_dir r) = Inr (kb_manifest r)
     \<and> (\<forall>name digest. (name, digest) \<in> set (kb_artifact_checksums r) \<longrightarrow>
          (\<exists>path content. bundle_artifact r name = Some (path, content) \<and> digest = ''sha256:'' @ sha256_file content))"
proof -
  let ?b = "\<lparr>bd_files = bundle_files graph source report log_text m, bd_manifest = Json (sort_keys (JObj m))\<rparr>"
  let ?r = "bundle_result_of ?b w (c\<lparr>bc_files := int (length selected)\<rparr>)"
  have "assemble_bundle read_archive q c selected graph source report log_text = Inr ?r"
    unfolding assemble_bundle_def Let_def m_def [symmetric] assms(2) bind_res_simps ..
  moreover have "kb_dir ?r = ?b" "kb_manifest ?r = w" by (simp_all only: bundle_result_of_def bundle_result.simps)
  ultimately show ?thesis
    using assms(2) bundle_result_checksums [of ?b] by (metis bundle_dir.select_convs(1))
qed

text \<open>
  C34. An extraction that passed its validation, of a commit and configuration given by their digests,
  whose indexed files are in the scope and whose files have safe relative paths and stay within the
  size limit: the bundle is built, whenever the archive reads back as it was written. It verifies
  again as it is, to the manifest recorded, and the recorded checksum of each artifact is the digest
  of the file the bundle holds for it.
\<close>

theorem bundle_verifies:
  fixes files :: directory and q :: bundle_request
  defines "selected \<equiv> scoped_source_files (br_include_paths q) (br_exclude_paths q) files"
  assumes "read_archive (write_archive selected) = Inr (map as_member selected)"
    and "validate_graphify_output out = Inr c"
    and "is_hex_digest (JStr (br_commit_sha q)) 40" "is_hex_digest (JStr (br_extraction_config_hash q)) 64"
    and "\<forall>indexed. go_manifest out = Json (JObj indexed) \<longrightarrow> fst ` set indexed \<subseteq> fst ` set selected"
    and "\<forall>f \<in> set selected. safe_path (fst f)" "expanded_size selected \<le> MAX_SOURCE_ARCHIVE_EXPANDED_BYTES"
  shows "\<exists>r. build_knowledge_source_bundle write_archive read_archive q out c files = Inr r
     \<and> verify_knowledge_source_bundle read_archive MAX_SOURCE_ARCHIVE_EXPANDED_BYTES (kb_dir r) = Inr (kb_manifest r)
     \<and> (\<forall>name digest. (name, digest) \<in> set (kb_artifact_checksums r) \<longrightarrow>
          (\<exists>path content. bundle_artifact r name = Some (path, content) \<and> digest = ''sha256:'' @ sha256_file content))"
proof -
  from validated_extraction [OF assms(3)] obtain graph nodes indexed report ids where
    g: "go_graph out = Json (JObj graph)" "dget graph ''nodes'' = JList nodes" "go_manifest out = Json (JObj indexed)"
       "go_report out = Some report" "check_nodes ''graph.json'' 0 [] nodes = Inr ids" by metis
  from normalize_checked [OF g(5)] obtain ns where n: "normalize_nodes (map fst selected) nodes = Inr ns" ..
  from assms(6) g(3) have sub: "fst ` set indexed \<subseteq> fst ` set selected" by blast
  then have "filter (\<lambda>p. p \<notin> fst ` set selected) (map fst indexed) = []" unfolding filter_empty_conv by auto
  then have miss: "missing_indexed indexed selected = []" unfolding missing_indexed_def by (metis sort_key_simps(1))
  have b: "0 < MAX_SOURCE_ARCHIVE_EXPANDED_BYTES" by (simp add: MAX_SOURCE_ARCHIVE_EXPANDED_BYTES_def)
  have "\<exists>r. assemble_bundle read_archive q c selected gr (write_archive selected) report log_text = Inr r
     \<and> verify_knowledge_source_bundle read_archive MAX_SOURCE_ARCHIVE_EXPANDED_BYTES (kb_dir r) = Inr (kb_manifest r)
     \<and> (\<forall>name digest. (name, digest) \<in> set (kb_artifact_checksums r) \<longrightarrow>
          (\<exists>path content. bundle_artifact r name = Some (path, content) \<and> digest = ''sha256:'' @ sha256_file content))" for gr log_text
    by (rule assemble_ok, rule verify_built) (rule assms b)+
  moreover have "\<exists>gr. build_knowledge_source_bundle write_archive read_archive q out c files
      = assemble_bundle read_archive q c selected gr (write_archive selected) report (utf8 (extraction_log q))"
    using assms(4,5) g miss n
    by (auto simp: build_knowledge_source_bundle_def Let_def normalize_graph_source_files_def simp flip: selected_def)
  ultimately show ?thesis by metis
qed

definition demo_request :: bundle_request where
  "demo_request = \<lparr>br_source_id = 1, br_canonical_alias = ''ops'', br_repository_url = ''https://git/o/ops.git'',
     br_commit_sha = replicate 40 CHR ''a'', br_include_paths = [''src/*''], br_exclude_paths = [],
     br_extraction_config_hash = replicate 64 CHR ''0'', br_stdout = ''done'', br_stderr = []\<rparr>"

definition demo_extraction :: graphify_output where
  "demo_extraction = \<lparr>go_graph = Json (JObj [(''nodes'', JList [JObj [(''id'', JStr ''n1''), (''source_file'', JStr ''lib/x.py'')]]),
       (''links'', JList [JObj [(''source'', JStr ''n1''), (''target'', JStr ''n1'')]]), (''hyperedges'', JList [])]),
     go_manifest = Json (JObj [(''src/a.py'', JObj [(''ast_hash'', JStr ''h'')])]), go_report = Some [1, 2]\<rparr>"

definition demo_files :: directory where
  "demo_files = [(''src/b.py'', [7]), (''README'', [5]), (''src/a.py'', [1, 2, 3])]"

definition demo_scoped :: directory where
  "demo_scoped = [(''src/a.py'', [1, 2, 3]), (''src/b.py'', [7])]"

lemma demo_scope: "scoped_source_files (br_include_paths demo_request) (br_exclude_paths demo_request) demo_files = demo_scoped"
  by code_simp

abbreviation demo_write :: "directory \<Rightarrow> bytes" where
  "demo_write fs \<equiv> concat (map snd fs)"

abbreviation demo_read :: "bytes \<Rightarrow> archive_member list res" where
  "demo_read c \<equiv> Inr (if c = demo_write demo_scoped then map as_member demo_scoped else [])"

lemma demo_ok:
  "is_hex_digest (JStr (br_commit_sha demo_request)) 40" "is_hex_digest (JStr (br_extraction_config_hash demo_request)) 64"
  "\<forall>f \<in> set demo_scoped. safe_path (fst f)" "expanded_size demo_scoped \<le> MAX_SOURCE_ARCHIVE_EXPANDED_BYTES"
  "validate_graphify_output demo_extraction = Inr \<lparr>bc_files = 1, bc_nodes = 1, bc_edges = 1\<rparr>"
      apply code_simp
     apply code_simp
    apply code_simp
   apply (simp add: demo_scoped_def expanded_size_def MAX_SOURCE_ARCHIVE_EXPANDED_BYTES_def)
  apply code_simp
  done

theorem bundle_verifies_witness:
  "\<exists>r. build_knowledge_source_bundle demo_write demo_read demo_request demo_extraction
       \<lparr>bc_files = 1, bc_nodes = 1, bc_edges = 1\<rparr> demo_files = Inr r
     \<and> verify_knowledge_source_bundle demo_read MAX_SOURCE_ARCHIVE_EXPANDED_BYTES (kb_dir r) = Inr (kb_manifest r)"
proof -
  have m: "\<forall>indexed. go_manifest demo_extraction = Json (JObj indexed) \<longrightarrow> fst ` set indexed \<subseteq> fst ` set demo_scoped"
    by (simp add: demo_extraction_def demo_scoped_def)
  from bundle_verifies [of demo_read demo_write demo_request demo_files, unfolded demo_scope, OF _ demo_ok(5,1,2) m demo_ok(3,4)]
  show ?thesis by auto
qed

section \<open>Publishing changes no object that is there\<close>

definition store_contract :: "object_store \<Rightarrow> bool" where
  "store_contract st \<longleftrightarrow>
     (\<forall>k c b r b' k'. os_upload st k c b = (r, b') \<longrightarrow> k' \<noteq> k \<longrightarrow> map_of b' k' = map_of b k')
     \<and> (\<forall>k b x. os_download st k b = Inr x \<longrightarrow> x = map_of b k)"

definition matches :: "bytes \<Rightarrow> bytes \<Rightarrow> bool" where
  "matches expected found \<longleftrightarrow> length found = length expected \<and> sha256_file found = sha256_file expected"

lemma require_matching_Inr [simp]: "require_matching_object key expected found = Inr u \<longleftrightarrow> matches expected found"
  by (auto simp: require_matching_object_def matches_def)

definition extends :: "bucket \<Rightarrow> bucket \<Rightarrow> bool" where
  "extends b b' \<longleftrightarrow> (\<forall>k v. map_of b k = Some v \<longrightarrow> map_of b' k = Some v)"

lemma extends_refl [simp]: "extends b b"
  by (simp add: extends_def)

lemma extends_trans: "extends a b \<Longrightarrow> extends b c \<Longrightarrow> extends a c"
  by (simp add: extends_def)

lemma extends_lookup: "extends b b' \<Longrightarrow> map_of b k = Some v \<Longrightarrow> map_of b' k = Some v"
  by (simp add: extends_def)

lemma store_artifact_extends:
  assumes "store_contract st" "store_artifact st key content b = (r, b')"
  shows "extends b b'"
proof (cases "\<exists>e. os_download st key b = Inl e")
  case True
  with assms(2) show ?thesis by (auto simp: store_artifact_def)
next
  case False
  then obtain x where x: "os_download st key b = Inr x" by (metis sum.exhaust)
  with assms(1) have m: "map_of b key = x" by (auto simp: store_contract_def)
  show ?thesis
  proof (cases x)
    case None
    with assms(2) x have "os_upload st key content b = (r, b')" by (simp add: store_artifact_def)
    with assms(1) have "map_of b' k = map_of b k" if "k \<noteq> key" for k
      using that by (auto simp: store_contract_def)
    with m None show ?thesis unfolding extends_def by (metis option.distinct(1))
  next
    case (Some y)
    with assms(2) x show ?thesis by (simp add: store_artifact_def)
  qed
qed

lemma publish_artifact_extends:
  assumes "store_contract st" "publish_artifact st key content b = (r, b')"
  shows "extends b b' \<and> (r = Inr () \<longrightarrow> (\<exists>found. map_of b' key = Some found \<and> matches content found))"
proof -
  obtain r1 b1 where s: "store_artifact st key content b = (r1, b1)" by (metis prod.exhaust)
  from assms(2) s have b1: "b' = b1"
    by (auto simp: publish_artifact_def split: sum.splits option.splits)
  from assms(1) have d: "x = map_of b1 key" if "os_download st key b1 = Inr x" for x
    using that by (auto simp: store_contract_def)
  have "\<exists>found. map_of b1 key = Some found \<and> matches content found" if "r = Inr ()"
  proof -
    from assms(2) s that obtain y where "os_download st key b1 = Inr (Some y)" "matches content y"
      by (auto simp: publish_artifact_def split: sum.splits option.splits)
    with d [of "Some y"] show ?thesis by (auto intro!: exI [of _ y])
  qed
  with store_artifact_extends [OF assms(1) s] b1 show ?thesis by simp
qed

definition published :: "(str \<Rightarrow> (str \<times> bytes) option) \<Rightarrow> (str \<times> str) list \<Rightarrow> (str \<times> str) list \<Rightarrow> bucket \<Rightarrow> bool" where
  "published artifacts keys digests b \<longleftrightarrow>
     (\<forall>name key. (name, key) \<in> set keys \<longrightarrow>
        (\<exists>path content found. artifacts name = Some (path, content) \<and> map_of b key = Some found \<and> matches content found
           \<and> (name, ''sha256:'' @ sha256_file found) \<in> set digests))"

lemma published_Cons:
  assumes "published artifacts keys digests b" "artifacts name = Some (path, content)" "map_of b key = Some found" "matches content found"
  shows "published artifacts ((name, key) # keys) ((name, ''sha256:'' @ sha256_file content) # digests) b"
  using assms unfolding published_def matches_def by fastforce

lemma publish_artifacts_spec:
  assumes "store_contract st" "publish_artifacts st base_key artifacts names b = (r, b')"
  shows "extends b b' \<and> (\<forall>keys digests. r = Inr (keys, digests) \<longrightarrow> map fst keys = names \<and> published artifacts keys digests b')"
  using assms(2)
proof (induction names arbitrary: b r b')
  case Nil
  then show ?case by (auto simp: published_def)
next
  case (Cons name names)
  show ?case
  proof (cases "artifacts name")
    case None
    with Cons.prems show ?thesis by auto
  next
    case (Some fc)
    then obtain path content where fc: "artifacts name = Some (path, content)" by (cases fc) simp
    let ?key = "base_key @ ''/'' @ path"
    obtain r1 b1 where p: "publish_artifact st ?key content b = (r1, b1)" by (metis prod.exhaust)
    obtain r2 b2 where q: "publish_artifacts st base_key artifacts names b1 = (r2, b2)" by (metis prod.exhaust)
    note e1 = publish_artifact_extends [OF assms(1) p] and e2 = Cons.IH [OF q]
    have e: "extends b b2" using e1 e2 extends_trans by blast
    show ?thesis
    proof (cases r1)
      case (Inl e)
      with Cons.prems fc p e1 show ?thesis by (auto simp: Let_def)
    next
      case (Inr u)
      then obtain found where f: "map_of b2 ?key = Some found" "matches content found"
        using e1 e2 extends_lookup by (metis (full_types) unit.exhaust)
      show ?thesis
      proof (cases r2)
        case (Inl e')
        with Cons.prems fc p q Inr e show ?thesis by (auto simp: Let_def)
      next
        case r2: (Inr kd)
        then obtain keys digests where kd: "r2 = Inr (keys, digests)" by (cases kd) simp
        with Cons.prems fc p q Inr have r: "r = Inr ((name, ?key) # keys, (name, ''sha256:'' @ sha256_file content) # digests)" "b' = b2"
          by (auto simp: Let_def)
        from e2 kd have "map fst keys = names" "published artifacts keys digests b2" by auto
        with published_Cons [of artifacts keys digests b2 name path content ?key found] fc f r e show ?thesis by auto
      qed
    qed
  qed
qed

lemma publish_bundle_spec:
  assumes "store_contract st" "publish_knowledge_source_bundle st read_archive bundle name b = (r, b')"
  shows "extends b b' \<and> (\<forall>p. r = Inr p \<longrightarrow> map fst (pb_artifact_keys p) = ARTIFACT_ORDER
      \<and> published (bundle_artifact bundle) (pb_artifact_keys p) (pb_artifact_checksums p) b')"
proof (cases "b' = b \<and> (\<exists>e. r = Inl e)")
  case False
  with assms(2) obtain base_key where
    "(case publish_artifacts st base_key (bundle_artifact bundle) ARTIFACT_ORDER b of
        (Inl e, b2) \<Rightarrow> (Inl e, b2)
      | (Inr (keys, digests), b2) \<Rightarrow>
          (Inr \<lparr>pb_bucket = py_strip name, pb_artifact_keys = keys, pb_artifact_checksums = digests\<rparr>, b2)) = (r, b')"
    by (auto simp: publish_knowledge_source_bundle_def Let_def split: if_splits sum.splits)
  moreover obtain r2 b2 where q: "publish_artifacts st base_key (bundle_artifact bundle) ARTIFACT_ORDER b = (r2, b2)"
    by (metis prod.exhaust)
  ultimately show ?thesis
    using publish_artifacts_spec [OF assms(1) q] by (auto split: sum.splits prod.splits)
qed auto

text \<open>
  C12. Publishing a bundle through a store that changes no other object and reads back what is
  there: every object the bucket held before is there unchanged afterwards, whether publishing
  succeeds or fails. When it succeeds, the five artifacts are recorded in the order of publication,
  and each recorded key holds an object of the artifact's size and digest, the digest recorded.
\<close>

theorem publication_immutable:
  assumes "store_contract st" "publish_knowledge_source_bundle st read_archive bundle name b = (r, b')"
  shows "extends b b' \<and> (\<forall>p. r = Inr p \<longrightarrow> map fst (pb_artifact_keys p) = ARTIFACT_ORDER
      \<and> published (bundle_artifact bundle) (pb_artifact_keys p) (pb_artifact_checksums p) b')"
  by (rule publish_bundle_spec [OF assms])

definition demo_store :: object_store where
  "demo_store = \<lparr>os_upload = \<lambda>k c b. (Inr (), AList.update k c b), os_download = \<lambda>k b. Inr (map_of b k)\<rparr>"

lemma demo_store_contract: "store_contract demo_store"
  by (simp add: store_contract_def demo_store_def update_conv')

definition demo_bundle :: bundle_result where
  "demo_bundle = bundle_result_of
     \<lparr>bd_files = bundle_files [1] (demo_write demo_scoped) [2] [3]
        (bundle_manifest demo_request \<lparr>bc_files = 1, bc_nodes = 1, bc_edges = 1\<rparr> demo_scoped [1] (demo_write demo_scoped) [2] [3]),
      bd_manifest = Json (sort_keys (JObj
        (bundle_manifest demo_request \<lparr>bc_files = 1, bc_nodes = 1, bc_edges = 1\<rparr> demo_scoped [1] (demo_write demo_scoped) [2] [3])))\<rparr>
     [] \<lparr>bc_files = 2, bc_nodes = 1, bc_edges = 1\<rparr>"

theorem publication_immutable_witness:
  "\<exists>p b'. publish_knowledge_source_bundle demo_store demo_read demo_bundle ''kb'' [(''other'', [9])] = (Inr p, b')
     \<and> map_of b' ''other'' = Some [9] \<and> published (bundle_artifact demo_bundle) (pb_artifact_keys p) (pb_artifact_checksums p) b'"
proof -
  let ?p = "publish_knowledge_source_bundle demo_store demo_read demo_bundle ''kb'' [(''other'', [9])]"
  let ?m = "bundle_manifest demo_request \<lparr>bc_files = 1, bc_nodes = 1, bc_edges = 1\<rparr> demo_scoped [1] (demo_write demo_scoped) [2] [3]"
  have "verify_knowledge_source_bundle demo_read MAX_SOURCE_ARCHIVE_EXPANDED_BYTES (kb_dir demo_bundle) = Inr (sorted_dict ?m)"
    unfolding demo_bundle_def bundle_result_of_def bundle_result.simps
    by (rule verify_built) (rule demo_ok | simp add: MAX_SOURCE_ARCHIVE_EXPANDED_BYTES_def)+
  moreover have "\<exists>k. bundle_base_key (sorted_dict ?m) = Inr k"
    by (simp add: bundle_base_key_def subscript_def fst_sorted_dict bundle_manifest_def dget_sorted_dict dget_literal)
  ultimately have "\<exists>p. fst ?p = Inr p" 
    by (auto simp: publish_knowledge_source_bundle_def py_strip_def py_rstrip_def py_lstrip_def py_isspace_def ARTIFACT_ORDER_def
      bundle_artifact_def demo_bundle_def bundle_result_of_def ARTIFACT_PATHS_def bundle_files_def publish_artifact_def store_artifact_def
      demo_store_def require_matching_object_def update_conv' KNOWLEDGE_SOURCE_OBJECT_PREFIX_def Let_def split: option.splits)
  then obtain p b' where p: "?p = (Inr p, b')" by (metis prod.collapse)
  from publication_immutable [OF demo_store_contract p]
  have "extends [(''other'', [9])] b'" "published (bundle_artifact demo_bundle) (pb_artifact_keys p) (pb_artifact_checksums p) b'"
    by simp_all
  moreover from this(1) have "map_of b' ''other'' = Some [9]" by (simp add: extends_def)
  ultimately show ?thesis unfolding p by blast
qed

end
