(* ===== verification/Knowledge_Sources.thy ===== *)
theory Knowledge_Sources
  imports Background_Jobs Control_Plane Knowledge_Bundle
begin

text \<open>
  Knowledge sources: the gateway's handlers over them (\<open>gateway/api.py\<close>), the verification of an
  extraction and of its bundle (\<open>shared/lib/knowledge_source_graphify.py\<close>), the publication of a
  bundle as immutable objects and its promotion (\<open>shared/lib/knowledge_source_publication.py\<close>), and
  the synchronisation that runs them under a lock (\<open>shared/lib/knowledge_source_indexer.py\<close>).

  Outside this model and passed in: what git, Graphify and the archive reader return, the clock,
  and failures of the object store. A bucket is its objects by key.
\<close>

section \<open>Rows\<close>

definition get_source :: "db \<Rightarrow> uuid \<Rightarrow> knowledge_source option" where
  "get_source d i = find (\<lambda>s. ks_id s = i) (knowledge_sources d)"

definition get_version :: "db \<Rightarrow> uuid \<Rightarrow> knowledge_source_version option" where
  "get_version d i = find (\<lambda>v. kv_id v = i) (knowledge_source_versions d)"

definition update_sources :: "(knowledge_source \<Rightarrow> bool) \<Rightarrow> (knowledge_source \<Rightarrow> knowledge_source) \<Rightarrow> db \<Rightarrow> db" where
  "update_sources P f d = d\<lparr>knowledge_sources := update_where P f (knowledge_sources d)\<rparr>"

definition update_versions ::
    "(knowledge_source_version \<Rightarrow> bool) \<Rightarrow> (knowledge_source_version \<Rightarrow> knowledge_source_version) \<Rightarrow> db \<Rightarrow> db" where
  "update_versions P f d = d\<lparr>knowledge_source_versions := update_where P f (knowledge_source_versions d)\<rparr>"

section \<open>The gateway's handlers\<close>

definition juuid :: "uuid option \<Rightarrow> json" where
  "juuid u = (case u of None \<Rightarrow> JNull | Some i \<Rightarrow> JStr (uuid_str i))"

definition background_job_run_response :: "background_job_run \<Rightarrow> json" where
  "background_job_run_response r = JObj
     [(''id'', JStr (uuid_str (b_id r))), (''job_type'', JStr (b_job_type r)), (''scope'', jopt (b_scope r)),
      (''trigger'', jopt (b_trigger r)), (''knowledge_source_id'', juuid (b_knowledge_source_id r)),
      (''knowledge_source_version_id'', juuid (b_knowledge_source_version_id r)), (''status'', JStr (b_status r)),
      (''started_at'', JStr (isoformat (b_started_at r))), (''heartbeat_at'', iso_opt (b_heartbeat_at r)),
      (''finished_at'', iso_opt (b_finished_at r)),
      (''duration_sec'', case b_duration_sec r of None \<Rightarrow> JNull | Some q \<Rightarrow> JFloat q),
      (''summary'', JObj (b_summary r)), (''warnings'', JList (map JStr (b_warnings r))), (''error'', jopt (b_error r))]"

definition knowledge_source_version_response :: "knowledge_source_version \<Rightarrow> json" where
  "knowledge_source_version_response v = JObj
     [(''id'', JStr (uuid_str (kv_id v))), (''commit_sha'', JStr (kv_commit_sha v)), (''status'', JStr (kv_status v)),
      (''graphify_version'', JStr (kv_graphify_version v)), (''extraction_config_hash'', JStr (kv_extraction_config_hash v)),
      (''artifact_keys'', JObj (kv_artifact_keys v)), (''artifact_checksums'', JObj (kv_artifact_checksums v)),
      (''file_count'', JInt (kv_file_count v)), (''node_count'', JInt (kv_node_count v)), (''edge_count'', JInt (kv_edge_count v)),
      (''warnings'', JList (map JStr (kv_warnings v))), (''error'', jopt (kv_error v)),
      (''started_at'', iso_opt (kv_started_at v)), (''finished_at'', iso_opt (kv_finished_at v)),
      (''created_at'', JStr (isoformat (kv_created_at v)))]"

definition knowledge_source_response :: "knowledge_source \<Rightarrow> json" where
  "knowledge_source_response s = JObj
     [(''id'', JStr (uuid_str (ks_id s))), (''canonical_alias'', JStr (ks_canonical_alias s)),
      (''repository_url'', JStr (ks_repository_url s)), (''default_ref'', JStr (ks_default_ref s)),
      (''include_paths'', JList (ks_include_paths s)), (''exclude_paths'', JList (ks_exclude_paths s)),
      (''credential_ref'', jopt (ks_credential_ref s)), (''sync_policy'', JObj (ks_sync_policy s)),
      (''enabled'', JBool (ks_enabled s)),
      (''current_successful_version_id'', juuid (ks_current_successful_version_id s)),
      (''created_at'', JStr (isoformat (ks_created_at s))), (''updated_at'', JStr (isoformat (ks_updated_at s)))]"

record source_request =
  sr_repository :: str
  sr_credential_ref :: str
  sr_default_ref :: str
  sr_include_paths :: "str list"
  sr_exclude_paths :: "str list"
  sr_sync_policy :: dict
  sr_enabled :: bool

record source_values =
  sv_canonical_alias :: str
  sv_repository_url :: str
  sv_default_ref :: str
  sv_credential_ref :: str
  sv_include_paths :: "str list"
  sv_exclude_paths :: "str list"
  sv_sync_policy :: dict
  sv_enabled :: bool

definition unsafe_pattern :: "str \<Rightarrow> bool" where
  "unsafe_pattern p \<longleftrightarrow> p = [] \<or> CHR 0x5C \<in> set p \<or> py_startswith p ''/'' \<or> ''..'' \<in> set (split_char CHR ''/'' p)"

definition check_sync_policy :: "dict \<Rightarrow> unit res" where
  "check_sync_policy policy =
     (if policy = [] then Inr ()
      else case dget policy ''interval_sec'' of
        JInt n \<Rightarrow>
          if set (map fst policy) \<noteq> {''interval_sec''}
          then Inl (HTTPException 422 ''sync_policy supports only a positive integer interval_sec'')
          else if n \<le> 0 then Inl (HTTPException 422 ''sync_policy interval_sec must be positive'') else Inr ()
      | _ \<Rightarrow> Inl (HTTPException 422 ''sync_policy supports only a positive integer interval_sec''))"

text \<open>\<open>connections\<close> are the configured GitHub connections, a name with its web address.\<close>

definition validated_knowledge_source_values :: "(str \<times> str) list \<Rightarrow> source_request \<Rightarrow> source_values res" where
  "validated_knowledge_source_values connections q =
     (let name = py_strip (sr_credential_ref q) in
      case map_of connections name of
        None \<Rightarrow> Inl (HTTPException 422 ''credential_ref must name a configured GitHub connection'')
      | Some web_base_url \<Rightarrow>
          if web_base_url = [] then Inl (HTTPException 422 ''credential_ref must name a configured GitHub connection'')
          else
            let repository = strip_chars ''/'' (py_strip (sr_repository q)); parts = split_char CHR ''/'' repository
            in if length parts \<noteq> 2 \<or> list_ex (\<lambda>p. p = [] \<or> CHR ''.'' \<in> set p \<or> CHR '' '' \<in> set p) parts
               then Inl (HTTPException 422 ''repository must use the format organization/repository'')
               else if py_strip (sr_default_ref q) = [] then Inl (HTTPException 422 ''Knowledge Source default_ref is required'')
               else if list_ex unsafe_pattern (sr_include_paths q @ sr_exclude_paths q)
               then Inl (HTTPException 422 ''Path scopes must be safe repository-relative glob patterns'')
               else bind_res (check_sync_policy (sr_sync_policy q)) (\<lambda>_.
                 Inr \<lparr>sv_canonical_alias = last parts, sv_repository_url = web_base_url @ ''/'' @ repository @ ''.git'',
                   sv_default_ref = py_strip (sr_default_ref q), sv_credential_ref = name,
                   sv_include_paths = sr_include_paths q, sv_exclude_paths = sr_exclude_paths q,
                   sv_sync_policy = sr_sync_policy q, sv_enabled = sr_enabled q\<rparr>))"

definition set_values :: "source_values \<Rightarrow> knowledge_source \<Rightarrow> knowledge_source" where
  "set_values v s = s\<lparr>ks_canonical_alias := sv_canonical_alias v, ks_repository_url := sv_repository_url v,
     ks_default_ref := sv_default_ref v, ks_include_paths := map JStr (sv_include_paths v),
     ks_exclude_paths := map JStr (sv_exclude_paths v), ks_credential_ref := Some (sv_credential_ref v),
     ks_sync_policy := sv_sync_policy v, ks_enabled := sv_enabled v\<rparr>"

definition new_source :: "db \<Rightarrow> source_values \<Rightarrow> knowledge_source" where
  "new_source d v = set_values v \<lparr>ks_id = uuid_gen d, ks_canonical_alias = [], ks_repository_url = [], ks_default_ref = [],
     ks_include_paths = [], ks_exclude_paths = [], ks_credential_ref = None, ks_sync_policy = [], ks_enabled = True,
     ks_current_successful_version_id = None, ks_created_at = db_now d, ks_updated_at = db_now d\<rparr>"

text \<open>The unique index on \<open>canonical_alias\<close> is what makes storing a source fail.\<close>

definition create_knowledge_source :: "(str \<times> str) list \<Rightarrow> source_request \<Rightarrow> db \<Rightarrow> (json \<times> db) res" where
  "create_knowledge_source connections q d =
     bind_res (validated_knowledge_source_values connections q) (\<lambda>v.
       if list_ex (\<lambda>s. ks_canonical_alias s = sv_canonical_alias v) (knowledge_sources d)
       then Inl (HTTPException 409 ''Knowledge Source repository already exists'')
       else Inr (knowledge_source_response (new_source d v),
              d\<lparr>knowledge_sources := knowledge_sources d @ [new_source d v], uuid_gen := Suc (uuid_gen d)\<rparr>))"

definition list_knowledge_sources :: "(str \<Rightarrow> int) \<Rightarrow> db \<Rightarrow> json list" where
  "list_knowledge_sources collate d =
     map knowledge_source_response (sort_key (\<lambda>s. collate (ks_canonical_alias s)) (knowledge_sources d))"

definition list_knowledge_source_github_connections :: "(str \<times> str) list \<Rightarrow> json list" where
  "list_knowledge_source_github_connections connections =
     map (\<lambda>(n, url). JObj [(''name'', JStr n), (''web_base_url'', JStr url)])
       (filter (\<lambda>(n, url). url \<noteq> []) (sort_key fst connections))"

definition get_knowledge_source :: "uuid \<Rightarrow> db \<Rightarrow> json res" where
  "get_knowledge_source i d =
     (case get_source d i of
        None \<Rightarrow> Inl (HTTPException 404 ''Knowledge Source not found'') | Some s \<Rightarrow> Inr (knowledge_source_response s))"

definition update_knowledge_source :: "(str \<times> str) list \<Rightarrow> time \<Rightarrow> uuid \<Rightarrow> source_request \<Rightarrow> db \<Rightarrow> (json \<times> db) res" where
  "update_knowledge_source connections now i q d =
     bind_res (validated_knowledge_source_values connections q) (\<lambda>v.
       case get_source d i of
         None \<Rightarrow> Inl (HTTPException 404 ''Knowledge Source not found'')
       | Some s \<Rightarrow>
           if list_ex (\<lambda>x. ks_id x \<noteq> i \<and> ks_canonical_alias x = sv_canonical_alias v) (knowledge_sources d)
           then Inl (HTTPException 409 ''Knowledge Source repository already exists'')
           else let f = (\<lambda>x. (set_values v x)\<lparr>ks_updated_at := now\<rparr>)
                in Inr (knowledge_source_response (f s), update_sources (\<lambda>x. ks_id x = i) f d))"

definition active_sync :: "uuid \<Rightarrow> background_job_run \<Rightarrow> bool" where
  "active_sync i r \<longleftrightarrow> b_job_type r = ''knowledge_source_sync'' \<and> b_knowledge_source_id r = Some i
     \<and> b_status r \<in> set [QUEUED_STATUS, RUNNING_STATUS]"

definition queue_knowledge_source_sync :: "time \<Rightarrow> uuid \<Rightarrow> db \<Rightarrow> (json \<times> db) res" where
  "queue_knowledge_source_sync now i d =
     (case get_source d i of
        None \<Rightarrow> Inl (HTTPException 404 ''Knowledge Source not found'')
      | Some s \<Rightarrow>
          if \<not> ks_enabled s then Inl (HTTPException 409 ''Knowledge Source is disabled'')
          else case find (active_sync (ks_id s)) (background_job_runs d) of
            Some r \<Rightarrow> Inl (HTTPException 409 (''Knowledge Source sync is already active: '' @ uuid_str (b_id r)))
          | None \<Rightarrow>
              let (run, d') = queue_background_job now \<lparr>js_job_type = ''knowledge_source_sync'',
                    js_scope = Some (ks_canonical_alias s), js_trigger = Some ''manual'',
                    js_knowledge_source_id = Some (ks_id s), js_knowledge_source_version_id = None,
                    js_summary = Some [(''phase'', JStr ''queued'')]\<rparr> None d
              in Inr (background_job_run_response run, d'))"

definition list_knowledge_source_versions :: "nat \<Rightarrow> uuid \<Rightarrow> db \<Rightarrow> json list res" where
  "list_knowledge_source_versions bound i d =
     (case get_source d i of
        None \<Rightarrow> Inl (HTTPException 404 ''Knowledge Source not found'')
      | Some s \<Rightarrow> Inr (map knowledge_source_version_response (take bound
          (sort_key (\<lambda>v. (- kv_created_at v, - int (kv_id v)))
            (filter (\<lambda>v. kv_source_id v = i \<and> kv_status v = ''succeeded'') (knowledge_source_versions d))))))"

record jobs_query =
  jq_limit :: nat
  jq_offset :: nat
  jq_job_type :: "str option"
  jq_status :: "str option"
  jq_trigger :: "str option"
  jq_knowledge_source_id :: "uuid option"
  jq_started_after :: "time option"
  jq_started_before :: "time option"

definition job_matches :: "jobs_query \<Rightarrow> background_job_run \<Rightarrow> bool" where
  "job_matches q r \<longleftrightarrow>
     (opt_truthy (jq_job_type q) \<longrightarrow> jq_job_type q = Some (b_job_type r))
     \<and> (opt_truthy (jq_status q) \<longrightarrow> jq_status q = Some (b_status r))
     \<and> (opt_truthy (jq_trigger q) \<longrightarrow> jq_trigger q = b_trigger r)
     \<and> (jq_knowledge_source_id q \<noteq> None \<longrightarrow> b_knowledge_source_id r = jq_knowledge_source_id q)
     \<and> (case jq_started_after q of None \<Rightarrow> True | Some t \<Rightarrow> t \<le> b_started_at r)
     \<and> (case jq_started_before q of None \<Rightarrow> True | Some t \<Rightarrow> b_started_at r \<le> t)"

definition get_platform_background_jobs :: "jobs_query \<Rightarrow> db \<Rightarrow> json" where
  "get_platform_background_jobs q d =
     (let found = filter (job_matches q) (background_job_runs d);
          ordered = sort_key (\<lambda>r. (- b_started_at r, - int (b_id r))) found
      in JObj [(''items'', JList (map background_job_run_response (take (jq_limit q) (drop (jq_offset q) ordered)))),
               (''total'', JInt (int (length found))), (''limit'', JInt (int (jq_limit q))), (''offset'', JInt (int (jq_offset q)))])"

definition get_platform_background_job :: "uuid \<Rightarrow> db \<Rightarrow> json res" where
  "get_platform_background_job i d =
     (case get_run d i of
        None \<Rightarrow> Inl (HTTPException 404 ''Background job not found'') | Some r \<Rightarrow> Inr (background_job_run_response r))"

section \<open>Promotion and failure\<close>

definition locked_sync_records ::
    "db \<Rightarrow> uuid \<Rightarrow> uuid \<Rightarrow> uuid \<Rightarrow> (knowledge_source \<times> knowledge_source_version \<times> background_job_run) res" where
  "locked_sync_records d source_id version_id run_id =
     (case (get_source d source_id, get_version d version_id, get_run d run_id) of
        (Some s, Some v, Some r) \<Rightarrow>
          if kv_source_id v \<noteq> ks_id s
          then Inl (KnowledgeSourcePublicationError ''Knowledge Source version belongs to another source'')
          else if b_knowledge_source_id r \<noteq> Some (ks_id s) \<or> b_knowledge_source_version_id r \<noteq> Some (kv_id v)
          then Inl (KnowledgeSourcePublicationError ''Background job does not own the Knowledge Source version'')
          else Inr (s, v, r)
      | _ \<Rightarrow> Inl (KnowledgeSourcePublicationError ''Knowledge Source sync records are incomplete''))"

definition str_dict :: "(str \<times> str) list \<Rightarrow> dict" where
  "str_dict xs = map (\<lambda>(k, v). (k, JStr v)) xs"

definition timings_dict :: "(str \<times> rat) list \<Rightarrow> json" where
  "timings_dict ts = JObj (map (\<lambda>(k, q). (k, JFloat q)) ts)"

definition succeed_version :: "publication \<Rightarrow> bundle_counts \<Rightarrow> time \<Rightarrow> knowledge_source_version \<Rightarrow> knowledge_source_version" where
  "succeed_version pub c t v = v\<lparr>kv_status := ''succeeded'', kv_artifact_keys := str_dict (pb_artifact_keys pub),
     kv_artifact_checksums := str_dict (pb_artifact_checksums pub), kv_file_count := bc_files c, kv_node_count := bc_nodes c,
     kv_edge_count := bc_edges c, kv_warnings := [], kv_error := None, kv_finished_at := Some t\<rparr>"

definition succeed_run ::
    "publication \<Rightarrow> bundle_counts \<Rightarrow> (str \<times> rat) list \<Rightarrow> str \<Rightarrow> time \<Rightarrow> background_job_run \<Rightarrow> background_job_run" where
  "succeed_run pub c timings commit t r = r\<lparr>b_status := ''succeeded'', b_heartbeat_at := Some t, b_finished_at := Some t,
     b_duration_sec := Some (elapsed t (b_started_at r)),
     b_summary := [(''commit_sha'', JStr commit), (''phase_timings_sec'', timings_dict timings), (''file_count'', JInt (bc_files c)),
       (''node_count'', JInt (bc_nodes c)), (''edge_count'', JInt (bc_edges c)),
       (''artifact_keys'', JObj (str_dict (pb_artifact_keys pub)))],
     b_warnings := [], b_error := None\<rparr>"

definition promote_knowledge_source_version ::
    "time \<Rightarrow> uuid \<Rightarrow> uuid \<Rightarrow> uuid \<Rightarrow> publication \<Rightarrow> bundle_counts \<Rightarrow> (str \<times> rat) list \<Rightarrow> db \<Rightarrow> db res" where
  "promote_knowledge_source_version now source_id version_id run_id pub c timings d =
     bind_res (locked_sync_records d source_id version_id run_id) (\<lambda>(s, v, r).
       if kv_status v \<notin> set [''pending'', ''running'']
       then Inl (KnowledgeSourcePublicationError (''Knowledge Source version is already '' @ kv_status v))
       else if b_status r \<noteq> ''running''
       then Inl (KnowledgeSourcePublicationError (''Knowledge Source sync run is already '' @ b_status r))
       else Inr (update_runs (\<lambda>x. b_id x = run_id) (succeed_run pub c timings (kv_commit_sha v) now)
              (update_sources (\<lambda>x. ks_id x = source_id) (\<lambda>x. x\<lparr>ks_current_successful_version_id := Some version_id\<rparr>)
                (update_versions (\<lambda>x. kv_id x = version_id) (succeed_version pub c now) d))))"

definition fail_knowledge_source_version ::
    "time \<Rightarrow> uuid \<Rightarrow> uuid \<Rightarrow> uuid \<Rightarrow> str \<Rightarrow> str \<Rightarrow> (str \<times> rat) list \<Rightarrow> db \<Rightarrow> db res" where
  "fail_knowledge_source_version now source_id version_id run_id failure_phase error timings d =
     bind_res (locked_sync_records d source_id version_id run_id) (\<lambda>(s, v, r).
       if b_status r \<noteq> ''running''
       then Inl (KnowledgeSourcePublicationError (''Knowledge Source sync run is already '' @ b_status r))
       else Inr (update_runs (\<lambda>x. b_id x = run_id)
              (\<lambda>x. x\<lparr>b_status := ''failed'', b_heartbeat_at := Some now, b_finished_at := Some now,
                 b_duration_sec := Some (elapsed now (b_started_at x)),
                 b_summary := dmerge (b_summary x) [(''commit_sha'', JStr (kv_commit_sha v)),
                   (''failure_phase'', JStr failure_phase), (''phase_timings_sec'', timings_dict timings)],
                 b_warnings := [], b_error := Some error\<rparr>)
              (update_versions (\<lambda>x. kv_id x = version_id)
                (\<lambda>x. x\<lparr>kv_status := ''failed'', kv_warnings := [], kv_error := Some error, kv_finished_at := Some now\<rparr>) d)))"

section \<open>Synchronisation\<close>

definition GRAPHIFY_VERSION :: str where
  "GRAPHIFY_VERSION = ''0.9.40''"

definition extraction_config_hash :: "knowledge_source \<Rightarrow> str" where
  "extraction_config_hash s = sha256_hexdigest (json_compact (sort_keys (JObj
     [(''schema_version'', JInt 2), (''graphify_version'', JStr GRAPHIFY_VERSION),
      (''include_paths'', JList (ks_include_paths s)), (''exclude_paths'', JList (ks_exclude_paths s))])))"

definition git_ref_char :: "char \<Rightarrow> bool" where
  "git_ref_char c \<longleftrightarrow> py_isdigit c \<or> (let n = (of_char c :: nat) in (65 \<le> n \<and> n \<le> 90) \<or> (97 \<le> n \<and> n \<le> 122))
     \<or> c \<in> set ''._/-''"

definition validated_git_ref :: "str \<Rightarrow> str res" where
  "validated_git_ref value =
     (let ref = py_strip value in
      if ref = [] \<or> 200 < length ref \<or> \<not> list_all git_ref_char ref \<or> hd ref \<in> set ''._/-''
         \<or> py_contains ref ''..'' \<or> py_contains ref ''//'' \<or> last ref \<in> set ''/.'' \<or> py_contains ref ''/.''
      then Inl (KnowledgeSourceError ''Knowledge Source default_ref has invalid Git ref syntax'') else Inr ref)"

record indexer_config =
  ic_object_store_bucket :: str
  ic_graphify_binary :: str
  ic_graphify_timeout_sec :: int

definition validate_config :: "indexer_config \<Rightarrow> unit res" where
  "validate_config c =
     (if ic_object_store_bucket c = [] then Inl (KnowledgeSourceError ''KNOWLEDGE_SOURCE_OBJECT_STORE_BUCKET must be configured'')
      else if ic_graphify_binary c = [] then Inl (KnowledgeSourceError ''KNOWLEDGE_SOURCE_GRAPHIFY_BINARY must be configured'')
      else if ic_graphify_timeout_sec c \<le> 0 then Inl (KnowledgeSourceError ''Knowledge Source Graphify timeout must be positive'')
      else Inr ())"

text \<open>
  What one synchronisation meets: the clocks, the elapsed time of each phase, and what the steps
  outside the model give: the snapshot with its commit, what Graphify leaves with its two texts,
  the archive's writer and reader, and the object store. A failure is its text with the name of its
  class.
\<close>

type_synonym failure = "str \<times> str"

record sync_env =
  sy_trigger :: str
  sy_queued_run :: "uuid option"
  sy_claimed :: time
  sy_started :: time
  sy_beat :: "str \<Rightarrow> time"
  sy_completed :: time
  sy_timing :: "str \<Rightarrow> rat"
  sy_snapshot :: "failure + directory \<times> str"
  sy_extract :: "failure + graphify_output \<times> str \<times> str"
  sy_write_archive :: "directory \<Rightarrow> bytes"
  sy_read_archive :: "bytes \<Rightarrow> archive_member list res"
  sy_store :: object_store

record sync_result =
  sn_status :: str
  sn_source_id :: uuid
  sn_version_id :: uuid
  sn_run_id :: uuid
  sn_commit_sha :: str

fun exc_failure :: "py_error \<Rightarrow> failure" where
  "exc_failure (ValueError m) = (m, ''ValueError'')"
| "exc_failure (TypeError m) = (m, ''TypeError'')"
| "exc_failure (AttributeError m) = (m, ''AttributeError'')"
| "exc_failure (KeyError m) = (repr_str m, ''KeyError'')"
| "exc_failure (OSError m) = (m, ''OSError'')"
| "exc_failure (RuntimeError m) = (m, ''RuntimeError'')"
| "exc_failure (KnowledgeSourceError m) = (m, ''KnowledgeSourceSyncError'')"
| "exc_failure (KnowledgeSourcePublicationError m) = (m, ''KnowledgeSourcePublicationError'')"
| "exc_failure e = ([], ''Exception'')"

definition run_graphify_code_extraction :: "sync_env \<Rightarrow> failure + graphify_output \<times> bundle_counts \<times> str \<times> str" where
  "run_graphify_code_extraction env =
     (case sy_extract env of
        Inl f \<Rightarrow> Inl f
      | Inr (out, stdout, stderr) \<Rightarrow>
          (case validate_graphify_output out of Inl e \<Rightarrow> Inl (exc_failure e) | Inr c \<Rightarrow> Inr (out, c, stdout, stderr)))"

definition source_bundle_request :: "knowledge_source \<Rightarrow> str \<Rightarrow> str \<Rightarrow> str \<Rightarrow> bundle_request" where
  "source_bundle_request s commit_sha stdout stderr =
     \<lparr>br_source_id = ks_id s, br_canonical_alias = ks_canonical_alias s, br_repository_url = ks_repository_url s,
      br_commit_sha = commit_sha, br_include_paths = map py_str (ks_include_paths s),
      br_exclude_paths = map py_str (ks_exclude_paths s), br_extraction_config_hash = extraction_config_hash s,
      br_stdout = stdout, br_stderr = stderr\<rparr>"

definition caught :: "'a res \<Rightarrow> failure + 'a" where
  "caught r = (case r of Inl e \<Rightarrow> Inl (exc_failure e) | Inr x \<Rightarrow> Inr x)"

definition claim_outcome :: "str \<Rightarrow> str \<Rightarrow> job_outcome" where
  "claim_outcome phase error = \<lparr>jo_status = ''failed'', jo_summary = Some [(''failure_phase'', JStr phase)], jo_warnings = None,
     jo_error = Some error, jo_knowledge_source_version_id = None\<rparr>"

definition finish_and_raise :: "time \<Rightarrow> uuid \<Rightarrow> job_outcome \<Rightarrow> py_error \<Rightarrow> db \<Rightarrow> 'a res \<times> db" where
  "finish_and_raise now run_id oc e d =
     (case finish_background_job now run_id oc None d of Inl e' \<Rightarrow> (Inl e', d) | Inr (_, d') \<Rightarrow> (Inl e, d'))"

definition claim_sync_run :: "sync_env \<Rightarrow> uuid \<Rightarrow> db \<Rightarrow> background_job_run res \<times> db" where
  "claim_sync_run env source_id d =
     (case sy_queued_run env of
        Some queued_id \<Rightarrow>
          (case claim_background_job (sy_claimed env) queued_id d of
             Inl (BackgroundJobClaimError m) \<Rightarrow> (Inl (KnowledgeSourceError m), d)
           | Inl e \<Rightarrow> (Inl e, d)
           | Inr (run, d1) \<Rightarrow>
               if b_job_type run \<noteq> ''knowledge_source_sync'' \<or> b_knowledge_source_id run \<noteq> Some source_id
                  \<or> b_trigger run \<noteq> Some (sy_trigger env)
               then finish_and_raise (sy_claimed env) (b_id run)
                      (claim_outcome ''claim'' ''Queued Knowledge Source request does not match worker claim'')
                      (KnowledgeSourceError ''Queued Knowledge Source request does not match worker claim'') d1
               else (Inr run, d1))
      | None \<Rightarrow>
          (case get_source d source_id of
             None \<Rightarrow> (Inl (KnowledgeSourceError (''Knowledge Source '' @ uuid_str source_id @ '' does not exist'')), d)
           | Some s \<Rightarrow>
               let (run, d1) = start_background_job (sy_claimed env) \<lparr>js_job_type = ''knowledge_source_sync'',
                     js_scope = Some (ks_canonical_alias s), js_trigger = Some (sy_trigger env),
                     js_knowledge_source_id = Some (ks_id s), js_knowledge_source_version_id = None,
                     js_summary = Some [(''phase'', JStr ''resolve_ref'')]\<rparr> None d
               in (Inr run, d1)))"

definition existing_version :: "knowledge_source \<Rightarrow> str \<Rightarrow> db \<Rightarrow> knowledge_source_version option" where
  "existing_version s commit_sha d =
     find (\<lambda>v. kv_source_id v = ks_id s \<and> kv_commit_sha v = commit_sha \<and> kv_graphify_version v = GRAPHIFY_VERSION
             \<and> kv_extraction_config_hash v = extraction_config_hash s) (knowledge_source_versions d)"

definition skip_sync :: "sync_env \<Rightarrow> knowledge_source \<Rightarrow> uuid \<Rightarrow> uuid \<Rightarrow> str \<Rightarrow> (str \<times> rat) list \<Rightarrow> db \<Rightarrow> db" where
  "skip_sync env s version_id run_id commit_sha timings d =
     update_runs (\<lambda>x. b_id x = run_id)
       (\<lambda>x. x\<lparr>b_knowledge_source_version_id := Some version_id, b_status := ''skipped'',
          b_heartbeat_at := Some (sy_completed env), b_finished_at := Some (sy_completed env),
          b_duration_sec := Some (elapsed (sy_completed env) (b_started_at x)),
          b_summary := [(''commit_sha'', JStr commit_sha), (''skip_reason'', JStr ''unchanged_commit_and_config''),
            (''phase_timings_sec'', timings_dict timings)]\<rparr>)
       (update_sources (\<lambda>x. ks_id x = ks_id s) (\<lambda>x. x\<lparr>ks_current_successful_version_id := Some version_id\<rparr>) d)"

definition new_version :: "db \<Rightarrow> sync_env \<Rightarrow> knowledge_source \<Rightarrow> str \<Rightarrow> knowledge_source_version" where
  "new_version d env s commit_sha = \<lparr>kv_id = uuid_gen d, kv_source_id = ks_id s, kv_commit_sha = commit_sha,
     kv_status = ''running'', kv_graphify_version = GRAPHIFY_VERSION, kv_extraction_config_hash = extraction_config_hash s,
     kv_artifact_keys = [], kv_artifact_checksums = [], kv_file_count = 0, kv_node_count = 0, kv_edge_count = 0,
     kv_warnings = [], kv_error = None, kv_started_at = Some (sy_started env), kv_finished_at = None, kv_created_at = db_now d\<rparr>"

text \<open>The version the run works on: a row that did not succeed is taken up again.\<close>

definition start_version ::
    "sync_env \<Rightarrow> knowledge_source \<Rightarrow> knowledge_source_version option \<Rightarrow> uuid \<Rightarrow> str \<Rightarrow> db \<Rightarrow> uuid \<times> db" where
  "start_version env s existing run_id commit_sha d =
     (let (version_id, d1) = (case existing of
            Some v \<Rightarrow> (kv_id v, update_versions (\<lambda>x. kv_id x = kv_id v)
               (\<lambda>x. x\<lparr>kv_status := ''running'', kv_started_at := Some (sy_started env), kv_finished_at := None, kv_error := None\<rparr>) d)
          | None \<Rightarrow> (uuid_gen d, d\<lparr>knowledge_source_versions := knowledge_source_versions d @ [new_version d env s commit_sha],
               uuid_gen := Suc (uuid_gen d)\<rparr>))
      in (version_id, update_runs (\<lambda>x. b_id x = run_id) (\<lambda>x. x\<lparr>b_knowledge_source_version_id := Some version_id\<rparr>) d1))"

definition failure_text :: "failure \<Rightarrow> str" where
  "failure_text f = (let t = drop (length (fst f) - 4000) (fst f) in if t \<noteq> [] then t else snd f)"

definition sync_failed ::
    "sync_env \<Rightarrow> knowledge_source \<Rightarrow> uuid \<Rightarrow> uuid option \<Rightarrow> str \<Rightarrow> str \<Rightarrow> (str \<times> rat) list \<Rightarrow> failure \<Rightarrow> db \<Rightarrow> 'a res \<times> db" where
  "sync_failed env s run_id version_id commit_sha phase timings0 f d =
     (let timings = AList.update phase (sy_timing env phase) timings0; error = failure_text f;
          e = KnowledgeSourceError (''Knowledge Source '' @ repr_str (ks_canonical_alias s) @ '' failed during '' @ phase @ '': '' @ error)
      in case version_id of
           None \<Rightarrow> finish_and_raise (sy_completed env) run_id
             \<lparr>jo_status = ''failed'', jo_summary = Some [(''commit_sha'', JStr commit_sha), (''failure_phase'', JStr phase),
                (''phase_timings_sec'', timings_dict timings)], jo_warnings = None, jo_error = Some error,
              jo_knowledge_source_version_id = None\<rparr> e d
         | Some v \<Rightarrow>
             (case fail_knowledge_source_version (sy_completed env) (ks_id s) v run_id phase error timings d of
                Inl e' \<Rightarrow> (Inl e', d) | Inr d' \<Rightarrow> (Inl e, d')))"

definition sync_beat :: "sync_env \<Rightarrow> uuid \<Rightarrow> str \<Rightarrow> str \<Rightarrow> (str \<times> rat) list \<Rightarrow> db \<Rightarrow> db res" where
  "sync_beat env run_id commit_sha phase timings d =
     heartbeat_background_job (sy_beat env phase) run_id
       (Some [(''phase'', JStr phase), (''commit_sha'', JStr commit_sha), (''phase_timings_sec'', timings_dict timings)]) d"

text \<open>
  One phase after the version is started: the heartbeat, the work, and the elapsed time. \<open>k\<close> is what
  follows; the bucket is carried along.
\<close>

definition sync_phase ::
    "sync_env \<Rightarrow> knowledge_source \<Rightarrow> uuid \<Rightarrow> uuid \<Rightarrow> str \<Rightarrow> str \<Rightarrow> (bucket \<Rightarrow> (failure + 'a) \<times> bucket) \<Rightarrow> (str \<times> rat) list
       \<Rightarrow> ('a \<Rightarrow> (str \<times> rat) list \<Rightarrow> db \<Rightarrow> bucket \<Rightarrow> ('b res \<times> db) \<times> bucket) \<Rightarrow> db \<Rightarrow> bucket \<Rightarrow> ('b res \<times> db) \<times> bucket" where
  "sync_phase env s run_id version_id commit_sha phase work timings k d b =
     (case sync_beat env run_id commit_sha phase timings d of
        Inl e \<Rightarrow> (sync_failed env s run_id (Some version_id) commit_sha phase timings (exc_failure e) d, b)
      | Inr d1 \<Rightarrow>
          (case work b of
             (Inl f, b1) \<Rightarrow> (sync_failed env s run_id (Some version_id) commit_sha phase timings f d1, b1)
           | (Inr x, b1) \<Rightarrow> k x (AList.update phase (sy_timing env phase) timings) d1 b1))"

definition sync_promote ::
    "sync_env \<Rightarrow> knowledge_source \<Rightarrow> uuid \<Rightarrow> uuid \<Rightarrow> str \<Rightarrow> bundle_counts \<Rightarrow> publication \<Rightarrow> (str \<times> rat) list \<Rightarrow> db \<Rightarrow> sync_result res \<times> db" where
  "sync_promote env s run_id version_id commit_sha counts pub timings d =
     (case promote_knowledge_source_version (sy_completed env) (ks_id s) version_id run_id pub counts timings d of
        Inl e \<Rightarrow> sync_failed env s run_id (Some version_id) commit_sha ''publish'' timings (exc_failure e) d
      | Inr d' \<Rightarrow> (Inr \<lparr>sn_status = ''succeeded'', sn_source_id = ks_id s, sn_version_id = version_id, sn_run_id = run_id,
                        sn_commit_sha = commit_sha\<rparr>, d'))"

definition sync_version ::
    "indexer_config \<Rightarrow> sync_env \<Rightarrow> knowledge_source \<Rightarrow> uuid \<Rightarrow> uuid \<Rightarrow> str \<Rightarrow> directory \<Rightarrow> (str \<times> rat) list \<Rightarrow> db \<Rightarrow> bucket
       \<Rightarrow> (sync_result res \<times> db) \<times> bucket" where
  "sync_version c env s run_id version_id commit_sha files timings0 d0 b0 =
     sync_phase env s run_id version_id commit_sha ''extract'' (\<lambda>b. (run_graphify_code_extraction env, b)) timings0
       (\<lambda>(out, counts, stdout, stderr) timings1.
     sync_phase env s run_id version_id commit_sha ''bundle''
       (\<lambda>b. (caught (build_knowledge_source_bundle (sy_write_archive env) (sy_read_archive env)
                (source_bundle_request s commit_sha stdout stderr) out counts files), b)) timings1
       (\<lambda>bundle timings2.
     sync_phase env s run_id version_id commit_sha ''publish''
       (\<lambda>b. map_prod caught id
          (publish_knowledge_source_bundle (sy_store env) (sy_read_archive env) bundle (ic_object_store_bucket c) b)) timings2
       (\<lambda>pub timings3 d b. (sync_promote env s run_id version_id commit_sha (kb_counts bundle) pub timings3 d, b)))) d0 b0"

definition sync_source ::
    "indexer_config \<Rightarrow> sync_env \<Rightarrow> knowledge_source \<Rightarrow> uuid \<Rightarrow> db \<Rightarrow> bucket \<Rightarrow> (sync_result res \<times> db) \<times> bucket" where
  "sync_source c env s run_id d b =
     (case sy_snapshot env of
        Inl f \<Rightarrow> (sync_failed env s run_id None [] ''resolve_ref'' [] f d, b)
      | Inr (files, commit_sha) \<Rightarrow>
          let timings = [(''resolve_ref'', sy_timing env ''resolve_ref'')]; existing = existing_version s commit_sha d
          in case existing of
               Some v \<Rightarrow>
                 if kv_status v = ''succeeded''
                 then ((Inr \<lparr>sn_status = ''skipped'', sn_source_id = ks_id s, sn_version_id = kv_id v, sn_run_id = run_id,
                              sn_commit_sha = commit_sha\<rparr>, skip_sync env s (kv_id v) run_id commit_sha timings d), b)
                 else let (version_id, d1) = start_version env s existing run_id commit_sha d
                      in sync_version c env s run_id version_id commit_sha files timings d1 b
             | None \<Rightarrow>
                 let (version_id, d1) = start_version env s existing run_id commit_sha d
                 in sync_version c env s run_id version_id commit_sha files timings d1 b)"

definition sync_unavailable :: "sync_env \<Rightarrow> str \<Rightarrow> uuid \<Rightarrow> db \<Rightarrow> 'a res \<times> db" where
  "sync_unavailable env label run_id d =
     (let error = ''Knowledge Source '' @ repr_str label @ '' is unavailable or disabled''
      in finish_and_raise (sy_claimed env) run_id (claim_outcome ''claim'' error) (KnowledgeSourceError error) d)"

definition run_locked_sync ::
    "indexer_config \<Rightarrow> sync_env \<Rightarrow> uuid \<Rightarrow> db \<Rightarrow> bucket \<Rightarrow> (sync_result res \<times> db) \<times> bucket" where
  "run_locked_sync c env source_id d b =
     (case claim_sync_run env source_id d of
        (Inl e, d1) \<Rightarrow> ((Inl e, d1), b)
      | (Inr run, d1) \<Rightarrow>
          (case get_source d source_id of
             None \<Rightarrow> (sync_unavailable env (uuid_str source_id) (b_id run) d1, b)
           | Some s \<Rightarrow>
               if ks_enabled s then sync_source c env s (b_id run) d1 b
               else (sync_unavailable env (ks_canonical_alias s) (b_id run) d1, b)))"

definition run_knowledge_source_sync ::
    "indexer_config \<Rightarrow> bool \<Rightarrow> sync_env \<Rightarrow> uuid \<Rightarrow> db \<Rightarrow> bucket \<Rightarrow> (sync_result res \<times> db) \<times> bucket" where
  "run_knowledge_source_sync c acquired env source_id d b =
     (if sy_trigger env \<notin> set [''scheduled'', ''manual'', ''retry'']
      then ((Inl (ValueError (''Unsupported Knowledge Source sync trigger: '' @ sy_trigger env)), d), b)
      else case validate_config c of
        Inl e \<Rightarrow> ((Inl e, d), b)
      | Inr _ \<Rightarrow>
          if \<not> acquired
          then ((Inl (KnowledgeSourceError (''Knowledge Source '' @ uuid_str source_id @ '' is already synchronizing'')), d), b)
          else run_locked_sync c env source_id d b)"

section \<open>The indexer's worker\<close>

definition source_is_due :: "dict \<Rightarrow> time option \<Rightarrow> time \<Rightarrow> bool" where
  "source_is_due sync_policy last_started_at now =
     (case dget sync_policy ''interval_sec'' of
        JInt n \<Rightarrow> 0 < n \<and> (case last_started_at of None \<Rightarrow> True | Some t \<Rightarrow> t \<le> now - seconds n)
      | _ \<Rightarrow> False)"

definition sync_run_of :: "uuid \<Rightarrow> background_job_run \<Rightarrow> bool" where
  "sync_run_of i r \<longleftrightarrow> b_job_type r = ''knowledge_source_sync'' \<and> b_knowledge_source_id r = Some i"

definition last_sync_started :: "uuid \<Rightarrow> db \<Rightarrow> time option" where
  "last_sync_started i d = map_option b_started_at
     (first_by (\<lambda>r. (- b_started_at r, - int (b_id r))) (filter (sync_run_of i) (background_job_runs d)))"

definition due_source_ids :: "time \<Rightarrow> db \<Rightarrow> uuid list" where
  "due_source_ids now d =
     map ks_id (filter (\<lambda>s. source_is_due (ks_sync_policy s) (last_sync_started (ks_id s) d) now)
       (sort_key ks_id (filter ks_enabled (knowledge_sources d))))"

definition queued_sync_requests :: "db \<Rightarrow> (uuid \<times> uuid \<times> str) list" where
  "queued_sync_requests d =
     map (\<lambda>r. (b_id r, the (b_knowledge_source_id r), opt_str (b_trigger r)))
       (take 100 (sort_key (\<lambda>r. (b_started_at r, b_id r))
         (filter (\<lambda>r. b_job_type r = ''knowledge_source_sync'' \<and> b_status r = QUEUED_STATUS \<and> b_knowledge_source_id r \<noteq> None
            \<and> b_trigger r \<in> set [Some ''scheduled'', Some ''manual'', Some ''retry'']) (background_job_runs d))))"

definition queue_due_source :: "time \<Rightarrow> uuid \<Rightarrow> db \<Rightarrow> db" where
  "queue_due_source now i d =
     (case get_source d i of
        None \<Rightarrow> d
      | Some s \<Rightarrow> snd (queue_background_job now \<lparr>js_job_type = ''knowledge_source_sync'', js_scope = Some (ks_canonical_alias s),
          js_trigger = Some ''scheduled'', js_knowledge_source_id = Some (ks_id s), js_knowledge_source_version_id = None,
          js_summary = Some [(''phase'', JStr ''queued'')]\<rparr> None d))"

definition queue_due_sources :: "time \<Rightarrow> db \<Rightarrow> db" where
  "queue_due_sources now d = fold (queue_due_source now) (due_source_ids now d) d"

definition reconcile_worker_startup :: "time \<Rightarrow> int \<Rightarrow> db \<Rightarrow> (uuid list \<times> db) res" where
  "reconcile_worker_startup now stale_after d =
     (if stale_after \<le> 0 then Inl (ValueError ''KNOWLEDGE_SOURCE_STALE_RUN_SEC must be positive'')
      else Inr (reconcile_stale_background_jobs now (now - seconds stale_after) (Some ''knowledge_source_sync'') d))"

text \<open>
  The requests of one round: a failed or busy synchronisation is logged, any other exception ends
  the worker. \<open>env\<close> is what each request meets, \<open>acquired\<close> whether its lock is free.
\<close>

fun sync_requests ::
    "indexer_config \<Rightarrow> (uuid \<Rightarrow> bool) \<Rightarrow> (uuid \<Rightarrow> sync_env) \<Rightarrow> (uuid \<times> uuid \<times> str) list \<Rightarrow> db \<Rightarrow> bucket \<Rightarrow> (unit res \<times> db) \<times> bucket" where
  "sync_requests c acquired env [] d b = ((Inr (), d), b)"
| "sync_requests c acquired env ((run_id, source_id, trigger) # rest) d b =
     (case run_knowledge_source_sync c (acquired run_id)
             ((env run_id)\<lparr>sy_trigger := trigger, sy_queued_run := Some run_id\<rparr>) source_id d b of
        ((Inr _, d'), b') \<Rightarrow> sync_requests c acquired env rest d' b'
      | ((Inl (KnowledgeSourceError m), d'), b') \<Rightarrow> sync_requests c acquired env rest d' b'
      | ((Inl e, d'), b') \<Rightarrow> ((Inl e, d'), b'))"

definition worker_pass ::
    "indexer_config \<Rightarrow> (uuid \<Rightarrow> bool) \<Rightarrow> (uuid \<Rightarrow> sync_env) \<Rightarrow> time \<Rightarrow> db \<Rightarrow> bucket \<Rightarrow> (unit res \<times> db) \<times> bucket" where
  "worker_pass c acquired env now d b =
     (let d1 = queue_due_sources now d in sync_requests c acquired env (queued_sync_requests d1) d1 b)"

section \<open>What is served\<close>

definition artifacts_ok :: "bucket \<Rightarrow> knowledge_source_version \<Rightarrow> bool" where
  "artifacts_ok b v \<longleftrightarrow> map fst (kv_artifact_keys v) = ARTIFACT_ORDER
     \<and> (\<forall>(name, k) \<in> set (kv_artifact_keys v). \<exists>key found. k = JStr key \<and> map_of b key = Some found
          \<and> (name, JStr (''sha256:'' @ sha256_file found)) \<in> set (kv_artifact_checksums v))"

definition has_succeeded :: "knowledge_source_version \<Rightarrow> bool" where
  "has_succeeded v \<longleftrightarrow> kv_status v = ''succeeded''"

definition serves :: "db \<Rightarrow> uuid \<Rightarrow> uuid \<Rightarrow> bool" where
  "serves d source_id i \<longleftrightarrow> (\<exists>v \<in> set (knowledge_source_versions d). kv_id v = i \<and> kv_source_id v = source_id \<and> has_succeeded v)"

text \<open>
  The invariant: ids are unique and drawn from the generator; the current version of a source is a
  succeeded version of that source; every succeeded version has its artifacts in the bucket.
\<close>

definition current_ok :: "db \<Rightarrow> bool" where
  "current_ok d \<longleftrightarrow> distinct (map ks_id (knowledge_sources d)) \<and> distinct (map kv_id (knowledge_source_versions d))
     \<and> (\<forall>v \<in> set (knowledge_source_versions d). kv_id v < uuid_gen d)
     \<and> (\<forall>s \<in> set (knowledge_sources d). ks_id s < uuid_gen d
          \<and> (\<forall>i. ks_current_successful_version_id s = Some i \<longrightarrow> serves d (ks_id s) i))"

definition served :: "db \<Rightarrow> bucket \<Rightarrow> bool" where
  "served d b \<longleftrightarrow> current_ok d \<and> (\<forall>v \<in> set (knowledge_source_versions d). has_succeeded v \<longrightarrow> artifacts_ok b v)"

lemmas served_defs = served_def current_ok_def

lemma artifacts_ok_extends: "artifacts_ok b v \<Longrightarrow> extends b b' \<Longrightarrow> artifacts_ok b' v"
  by (fastforce simp: artifacts_ok_def dest: extends_lookup)

text \<open>Operations on background jobs leave sources and versions alone.\<close>

definition jobs_only :: "db \<Rightarrow> db \<Rightarrow> bool" where
  "jobs_only d d' \<longleftrightarrow> knowledge_sources d' = knowledge_sources d
     \<and> knowledge_source_versions d' = knowledge_source_versions d \<and> uuid_gen d \<le> uuid_gen d'"

lemma jobs_only_refl [simp]: "jobs_only d d"
  by (simp add: jobs_only_def)

lemma jobs_only_trans: "jobs_only a b \<Longrightarrow> jobs_only b c \<Longrightarrow> jobs_only a c"
  by (simp add: jobs_only_def)

lemma served_jobs_only: "served d b \<Longrightarrow> jobs_only d d' \<Longrightarrow> extends b b' \<Longrightarrow> served d' b'"
  by (auto simp: served_defs jobs_only_def serves_def intro: artifacts_ok_extends order_less_le_trans)

lemma jobs_only_update_runs [simp]: "jobs_only d (update_runs P f d)"
  by (simp add: jobs_only_def update_runs_def)

lemma jobs_only_add_run [simp]: "add_run r d = (x, d') \<Longrightarrow> jobs_only d d'"
  by (auto simp: jobs_only_def add_run_def)

lemma jobs_only_claim: "claim_background_job now i d = Inr (r, d') \<Longrightarrow> jobs_only d d'"
  by (auto simp: claim_background_job_def Let_def split: option.splits if_splits)

lemma jobs_only_finish: "finish_background_job now i oc f d = Inr (r, d') \<Longrightarrow> jobs_only d d'"
  by (auto simp: finish_background_job_def split: option.splits if_splits)

lemma jobs_only_heartbeat: "heartbeat_background_job now i sm d = Inr d' \<Longrightarrow> jobs_only d d'"
  by (auto simp: heartbeat_background_job_def Let_def split: if_splits)

lemma jobs_only_raise: "finish_and_raise now i oc e d = (r, d') \<Longrightarrow> jobs_only d d' \<and> (\<exists>e'. r = Inl e')"
  by (auto simp: finish_and_raise_def split: sum.splits dest: jobs_only_finish)

lemma jobs_only_start: "start_background_job now sp st d = (r, d') \<Longrightarrow> jobs_only d d'"
  by (auto simp: start_background_job_def Let_def)

lemma jobs_only_queue: "queue_background_job now sp st d = (r, d') \<Longrightarrow> jobs_only d d'"
  by (auto simp: queue_background_job_def)

lemma jobs_only_claim_run: "claim_sync_run env i d = (r, d') \<Longrightarrow> jobs_only d d'"
  by (auto simp: claim_sync_run_def Let_def split: option.splits sum.splits py_error.splits if_splits prod.splits
      dest!: jobs_only_claim jobs_only_raise jobs_only_start intro: jobs_only_trans)

section \<open>What a synchronisation does\<close>

text \<open>
  From \<open>d\<close>, \<open>b\<close> a synchronisation of source \<open>i\<close> that gives \<open>r\<close> leads to \<open>d'\<close>, \<open>b'\<close>: the invariant holds,
  no object and no succeeded version changes, and the sources are as before but for the version
  that source \<open>i\<close> serves when the synchronisation succeeds.
\<close>

definition sync_post :: "uuid \<Rightarrow> db \<Rightarrow> bucket \<Rightarrow> sync_result res \<Rightarrow> db \<Rightarrow> bucket \<Rightarrow> bool" where
  "sync_post i d b r d' b' \<longleftrightarrow> served d' b' \<and> extends b b'
     \<and> (\<forall>v \<in> set (knowledge_source_versions d). has_succeeded v \<longrightarrow> v \<in> set (knowledge_source_versions d'))
     \<and> (case r of
          Inl e \<Rightarrow> knowledge_sources d' = knowledge_sources d
        | Inr res \<Rightarrow> sn_source_id res = i
            \<and> knowledge_sources d' = update_where (\<lambda>x. ks_id x = i)
                (\<lambda>x. x\<lparr>ks_current_successful_version_id := Some (sn_version_id res)\<rparr>) (knowledge_sources d)
            \<and> (\<exists>v \<in> set (knowledge_source_versions d'). kv_id v = sn_version_id res \<and> kv_source_id v = i
                 \<and> kv_commit_sha v = sn_commit_sha res \<and> has_succeeded v))"

lemma sync_post_from:
  "\<lbrakk>sync_post i d1 b1 r d' b'; knowledge_sources d1 = knowledge_sources d; extends b b1;
    \<And>v. v \<in> set (knowledge_source_versions d) \<Longrightarrow> has_succeeded v \<Longrightarrow> v \<in> set (knowledge_source_versions d1)\<rbrakk>
   \<Longrightarrow> sync_post i d b r d' b'"
  by (auto simp: sync_post_def split: sum.splits intro: extends_trans)

lemma sync_post_after:
  "\<lbrakk>sync_post i d1 b1 r d' b'; jobs_only d d1; extends b b1\<rbrakk> \<Longrightarrow> sync_post i d b r d' b'"
  by (erule sync_post_from) (simp_all add: jobs_only_def)

lemma sync_post_jobs_only:
  "\<lbrakk>served d b; jobs_only d d'; extends b b'\<rbrakk> \<Longrightarrow> sync_post i d b (Inl e) d' b'"
  by (auto simp: sync_post_def intro: served_jobs_only) (simp_all add: jobs_only_def)

text \<open>The version a run works on: of the source, at the commit, and not succeeded.\<close>

definition working :: "db \<Rightarrow> uuid \<Rightarrow> uuid \<Rightarrow> str \<Rightarrow> bool" where
  "working d source_id i commit_sha \<longleftrightarrow>
     (\<exists>v \<in> set (knowledge_source_versions d). kv_id v = i \<and> kv_source_id v = source_id \<and> kv_commit_sha v = commit_sha \<and> \<not> has_succeeded v)"

lemma working_jobs_only: "working d x i c \<Longrightarrow> jobs_only d d' \<Longrightarrow> working d' x i c"
  by (simp add: working_def jobs_only_def)

lemma working_not_served: "\<lbrakk>served d b; working d x i c\<rbrakk> \<Longrightarrow> \<not> serves d y i"
  unfolding served_defs working_def serves_def by (metis distinct_key_eq)

lemma version_update_simps [simp]:
  "knowledge_sources (update_versions P f d) = knowledge_sources d" "uuid_gen (update_versions P f d) = uuid_gen d"
  "knowledge_source_versions (update_versions P f d) = update_where P f (knowledge_source_versions d)"
  "knowledge_sources (update_sources Q g d) = update_where Q g (knowledge_sources d)" "uuid_gen (update_sources Q g d) = uuid_gen d"
  "knowledge_source_versions (update_sources Q g d) = knowledge_source_versions d"
  by (simp_all add: update_versions_def update_sources_def)

lemma serves_update_version:
  assumes "served d b" "working d x i c" "serves d y j"
  shows "serves (update_versions (\<lambda>v. kv_id v = i) f d) y j"
proof -
  from assms(3) obtain v where v: "v \<in> set (knowledge_source_versions d)" "kv_id v = j" "kv_source_id v = y" "has_succeeded v"
    by (auto simp: serves_def)
  with working_not_served [OF assms(1,2)] have "kv_id v \<noteq> i" using assms(3) by blast
  with v show ?thesis by (force simp: serves_def set_update_where)
qed

lemma served_update_version:
  assumes "served d b" "working d x i c"
    and "\<And>v. v \<in> set (knowledge_source_versions d) \<Longrightarrow> kv_id v = i \<Longrightarrow> kv_id (f v) = i \<and> (has_succeeded (f v) \<longrightarrow> artifacts_ok b (f v))"
  shows "served (update_versions (\<lambda>v. kv_id v = i) f d) b"
proof -
  have "map kv_id (update_where (\<lambda>v. kv_id v = i) f (knowledge_source_versions d)) = map kv_id (knowledge_source_versions d)"
    using assms(3) by (auto simp: update_where_def)
  then show ?thesis
    using assms(1,3) serves_update_version [OF assms(1,2)]
    by (auto simp: served_defs set_update_where)
qed

lemma has_succeeded_kept:
  assumes "served d b" "working d x i c" "v \<in> set (knowledge_source_versions d)" "has_succeeded v"
  shows "v \<in> set (knowledge_source_versions (update_versions (\<lambda>v. kv_id v = i) f d))"
proof -
  from assms(3,4) have "serves d (kv_source_id v) (kv_id v)" by (auto simp: serves_def)
  with working_not_served [OF assms(1,2)] have "kv_id v \<noteq> i" by blast
  with assms(3) show ?thesis by (force simp: set_update_where)
qed

lemma serves_update_sources [simp]: "serves (update_sources P f d) y j = serves d y j"
  by (simp add: serves_def)

lemma served_update_sources:
  assumes "served d b" and keep: "\<And>x. ks_id (f x) = ks_id x"
    and now_serves: "\<And>x i. \<lbrakk>x \<in> set (knowledge_sources d); P x; ks_current_successful_version_id (f x) = Some i\<rbrakk> \<Longrightarrow> serves d (ks_id x) i"
  shows "served (update_sources P f d) b"
proof -
  have "map ks_id (update_where P f (knowledge_sources d)) = map ks_id (knowledge_sources d)"
    using keep by (simp add: update_where_def)
  moreover have "ks_id s < uuid_gen d \<and> (\<forall>i. ks_current_successful_version_id s = Some i \<longrightarrow> serves d (ks_id s) i)"
    if "s \<in> set (update_where P f (knowledge_sources d))" for s
    using that assms(1) keep now_serves by (fastforce simp: set_update_where served_defs)
  ultimately show ?thesis using assms(1) by (simp add: served_defs)
qed

lemma fail_version_post:
  assumes "fail_knowledge_source_version now sid vid run ph err t d = Inr d'" "served d b" "working d x vid c"
  shows "sync_post i d b (Inl e) d' b"
proof -
  let ?f = "\<lambda>v. v\<lparr>kv_status := ''failed'', kv_warnings := [], kv_error := Some err, kv_finished_at := Some now\<rparr>"
  from assms(1) obtain P g where d': "d' = update_runs P g (update_versions (\<lambda>v. kv_id v = vid) ?f d)"
    by (auto simp: fail_knowledge_source_version_def bind_res_Inr_iff split: if_splits)
  have "served (update_versions (\<lambda>v. kv_id v = vid) ?f d) b"
    by (rule served_update_version [OF assms(2,3)]) (simp_all add: has_succeeded_def)
  then have "served d' b" unfolding d' by (rule served_jobs_only) simp_all
  then show ?thesis
    using has_succeeded_kept [OF assms(2,3)] by (simp add: sync_post_def d' update_runs_def)
qed

lemma sync_failed_post:
  assumes "sync_failed env s run (Some vid) c ph t f d = (r, d')" "served d b" "working d x vid c'"
  shows "sync_post i d b r d' b"
  using assms(1) fail_version_post [OF _ assms(2,3)] sync_post_jobs_only [OF assms(2), of d b]
  by (auto simp: sync_failed_def Let_def split: sum.splits)

lemma sync_failed_early_post:
  assumes "sync_failed env s run None c ph t f d = (r, d')" "served d b"
  shows "sync_post i d b r d' b"
  using assms(1) sync_post_jobs_only [OF assms(2), of _ b]
  by (auto simp: sync_failed_def Let_def dest!: jobs_only_raise)

lemma str_dict_mem: "(name, k) \<in> set (str_dict xs) \<longleftrightarrow> (\<exists>x. k = JStr x \<and> (name, x) \<in> set xs)"
  by (auto simp: str_dict_def)

lemma map_fst_str_dict [simp]: "map fst (str_dict xs) = map fst xs"
  by (simp add: str_dict_def o_def case_prod_beta)

lemma succeed_version_id [simp]: "kv_id (succeed_version p cs t v) = kv_id v"
  by (simp add: succeed_version_def)

lemma published_artifacts_ok:
  assumes "map fst (pb_artifact_keys p) = ARTIFACT_ORDER" "published art (pb_artifact_keys p) (pb_artifact_checksums p) b"
  shows "artifacts_ok b (succeed_version p cs t v)"
proof -
  have "\<exists>key found. k = JStr key \<and> map_of b key = Some found
      \<and> (name, JStr (''sha256:'' @ sha256_file found)) \<in> set (str_dict (pb_artifact_checksums p))"
    if "(name, k) \<in> set (str_dict (pb_artifact_keys p))" for name k
    using that assms(2) unfolding str_dict_mem published_def by blast
  with assms(1) show ?thesis by (auto simp: artifacts_ok_def succeed_version_def)
qed

lemma promote_post:
  assumes "promote_knowledge_source_version now sid vid run p cs t d = Inr d'" "served d b" "working d x vid c"
    "map fst (pb_artifact_keys p) = ARTIFACT_ORDER" "published art (pb_artifact_keys p) (pb_artifact_checksums p) b"
    "sn_source_id res = sid" "sn_version_id res = vid" "sn_commit_sha res = c"
  shows "sync_post sid d b (Inr res) d' b"
proof -
  let ?dv = "update_versions (\<lambda>v. kv_id v = vid) (succeed_version p cs now) d"
  let ?ds = "update_sources (\<lambda>x. ks_id x = sid) (\<lambda>x. x\<lparr>ks_current_successful_version_id := Some vid\<rparr>) ?dv"
  from assms(1) obtain P g v where d': "d' = update_runs P g ?ds" and v: "get_version d vid = Some v" "kv_source_id v = sid"
    by (auto simp: promote_knowledge_source_version_def bind_res_Inr_iff locked_sync_records_def get_source_def
        split: if_splits option.splits dest: find_SomeD)
  from v have vd: "v \<in> set (knowledge_source_versions d)" "kv_id v = vid" by (auto simp: get_version_def dest: find_SomeD)
  have sv: "served ?dv b"
    by (rule served_update_version [OF assms(2,3)])
      (simp add: published_artifacts_ok [OF assms(4,5)])
  have s: "serves ?dv sid vid"
    unfolding serves_def
    by (rule bexI [of _ "succeed_version p cs now v"])
      (use vd v in \<open>auto simp: set_update_where succeed_version_def has_succeeded_def\<close>)
  have "served ?ds b" by (rule served_update_sources [OF sv]) (use s in auto)
  then have "served d' b" unfolding d' by (rule served_jobs_only) simp_all
  moreover have "\<exists>u \<in> set (knowledge_source_versions d'). kv_id u = vid \<and> kv_source_id u = sid \<and> kv_commit_sha u = c \<and> has_succeeded u"
  proof (rule bexI [of _ "succeed_version p cs now v"])
    from assms(2,3) vd have "kv_commit_sha v = c" unfolding served_defs working_def by (metis distinct_key_eq)
    with v vd show "kv_id (succeed_version p cs now v) = vid \<and> kv_source_id (succeed_version p cs now v) = sid
        \<and> kv_commit_sha (succeed_version p cs now v) = c \<and> has_succeeded (succeed_version p cs now v)"
      by (simp add: succeed_version_def has_succeeded_def)
    show "succeed_version p cs now v \<in> set (knowledge_source_versions d')"
      using vd by (auto simp: d' update_runs_def set_update_where)
  qed
  ultimately show ?thesis
    using has_succeeded_kept [OF assms(2,3)] assms(6-8) by (simp add: sync_post_def d' update_runs_def)
qed

lemma sync_promote_post:
  assumes "sync_promote env s run vid c cs p t d = (r, d')" "served d b" "working d (ks_id s) vid c"
    "map fst (pb_artifact_keys p) = ARTIFACT_ORDER" "published art (pb_artifact_keys p) (pb_artifact_checksums p) b"
  shows "sync_post (ks_id s) d b r d' b"
  using assms(1) promote_post [OF _ assms(2-5)] sync_failed_post [OF _ assms(2,3)]
  by (auto simp: sync_promote_def split: sum.splits)

lemma sync_phase_post:
  assumes "sync_phase env s run vid c ph work t k d b = ((r, d'), b')" "served d b" "working d (ks_id s) vid c"
    and work: "\<And>x b1. work b = (x, b1) \<Longrightarrow> extends b b1"
    and k: "\<And>x b1 t1 d1 r d' b'. \<lbrakk>work b = (Inr x, b1); k x t1 d1 b1 = ((r, d'), b'); served d1 b1; working d1 (ks_id s) vid c\<rbrakk>
       \<Longrightarrow> sync_post (ks_id s) d1 b1 r d' b'"
  shows "sync_post (ks_id s) d b r d' b'"
proof (cases "sync_beat env run c ph t d")
  case (Inl e)
  with assms(1) have "sync_failed env s run (Some vid) c ph t (exc_failure e) d = (r, d')" "b' = b" by (simp_all add: sync_phase_def)
  with sync_failed_post [OF _ assms(2,3)] show ?thesis by blast
next
  case (Inr d1)
  then have j: "jobs_only d d1" by (auto simp: sync_beat_def dest: jobs_only_heartbeat)
  obtain x b1 where w: "work b = (x, b1)" by (metis prod.exhaust)
  from work [OF w] have e: "extends b b1" .
  have s1: "served d1 b1" by (rule served_jobs_only [OF assms(2) j e])
  have w1: "working d1 (ks_id s) vid c" by (rule working_jobs_only [OF assms(3) j])
  have "sync_post (ks_id s) d1 b1 r d' b'"
  proof (cases x)
    case (Inl f)
    with assms(1) Inr w have "sync_failed env s run (Some vid) c ph t f d1 = (r, d')" "b' = b1" by (simp_all add: sync_phase_def \<open>sync_beat env run c ph t d = Inr d1\<close>)
    with sync_failed_post [OF _ s1 w1] show ?thesis by blast
  next
    case x: (Inr y)
    with assms(1) Inr w have "k y (AList.update ph (sy_timing env ph) t) d1 b1 = ((r, d'), b')" by (simp add: sync_phase_def)
    from k [OF w [unfolded x] this s1 w1] show ?thesis .
  qed
  then show ?thesis by (rule sync_post_after [OF _ j e])
qed

lemma publish_work:
  assumes "map_prod caught id (publish_knowledge_source_bundle st rd bundle name b) = (x, b1)" "store_contract st"
  shows "extends b b1"
    and "x = Inr p \<Longrightarrow> map fst (pb_artifact_keys p) = ARTIFACT_ORDER
        \<and> published (bundle_artifact bundle) (pb_artifact_keys p) (pb_artifact_checksums p) b1"
proof -
  obtain r where p: "publish_knowledge_source_bundle st rd bundle name b = (r, b1)" "x = caught r"
    using assms(1) by (cases "publish_knowledge_source_bundle st rd bundle name b") auto
  note q = publish_bundle_spec [OF assms(2) p(1)]
  then show "extends b b1" by simp
  show "map fst (pb_artifact_keys p) = ARTIFACT_ORDER
        \<and> published (bundle_artifact bundle) (pb_artifact_keys p) (pb_artifact_checksums p) b1" if "x = Inr p"
    using q p(2) that by (auto simp: caught_def split: sum.splits)
qed

lemma sync_version_post:
  assumes "sync_version cfg env s run vid c files t d b = ((r, d'), b')" "served d b" "working d (ks_id s) vid c"
    "store_contract (sy_store env)"
  shows "sync_post (ks_id s) d b r d' b'"
  using assms(1-3) unfolding sync_version_def
proof (rule sync_phase_post, goal_cases)
  case (2 x b1 t1 d1 r d' b')
  obtain out counts stdout stderr where x: "x = (out, counts, stdout, stderr)" by (metis prod.exhaust)
  from 2(2) show ?case unfolding x prod.case
  proof (rule sync_phase_post, goal_cases)
    case (4 bu b2 t2 d2 r d' b')
    from 4(2) show ?case
    proof (rule sync_phase_post, goal_cases)
      case (3 y b3)
      then show ?case by (rule publish_work [OF _ assms(4)])
    next
      case (4 p b3 t3 d3 r d' b')
      from publish_work(2) [OF 4(1) assms(4) refl] sync_promote_post 4(2-4) show ?case by auto
    qed (use 4 in auto)
  qed (use 2 in auto)
qed auto

lemma existing_versionD:
  "existing_version s c d = Some v \<Longrightarrow> v \<in> set (knowledge_source_versions d) \<and> kv_source_id v = ks_id s \<and> kv_commit_sha v = c"
  by (auto simp: existing_version_def dest: find_SomeD)

lemma served_new_version:
  assumes "served d b"
  shows "served (d\<lparr>knowledge_source_versions := knowledge_source_versions d @ [new_version d env s c], uuid_gen := Suc (uuid_gen d)\<rparr>) b"
proof -
  have "kv_id v \<noteq> uuid_gen d" if "v \<in> set (knowledge_source_versions d)" for v
    using that assms by (auto simp: served_defs)
  then show ?thesis
    using assms by (auto simp: served_defs serves_def new_version_def has_succeeded_def less_Suc_eq)
qed

lemma start_version_post:
  assumes "start_version env s (existing_version s c d) run c d = (vid, d')" "served d b"
    "\<And>v. existing_version s c d = Some v \<Longrightarrow> \<not> has_succeeded v"
  shows "served d' b \<and> working d' (ks_id s) vid c \<and> knowledge_sources d' = knowledge_sources d
     \<and> (\<forall>v \<in> set (knowledge_source_versions d). has_succeeded v \<longrightarrow> v \<in> set (knowledge_source_versions d'))"
proof (cases "existing_version s c d")
  case None
  let ?d1 = "d\<lparr>knowledge_source_versions := knowledge_source_versions d @ [new_version d env s c], uuid_gen := Suc (uuid_gen d)\<rparr>"
  from assms(1) None have d': "d' = update_runs (\<lambda>x. b_id x = run) (\<lambda>x. x\<lparr>b_knowledge_source_version_id := Some (uuid_gen d)\<rparr>) ?d1"
    "vid = uuid_gen d" by (auto simp: start_version_def Let_def)
  have "served d' b" unfolding d' by (rule served_jobs_only [OF served_new_version [OF assms(2)] jobs_only_update_runs]) simp
  then show ?thesis by (simp add: d' update_runs_def working_def new_version_def has_succeeded_def)
next
  case (Some v)
  let ?f = "\<lambda>x. x\<lparr>kv_status := ''running'', kv_started_at := Some (sy_started env), kv_finished_at := None, kv_error := None\<rparr>"
  let ?d1 = "update_versions (\<lambda>x. kv_id x = kv_id v) ?f d"
  from assms(1) Some have d': "d' = update_runs (\<lambda>x. b_id x = run) (\<lambda>x. x\<lparr>b_knowledge_source_version_id := Some (kv_id v)\<rparr>) ?d1"
    "vid = kv_id v" by (auto simp: start_version_def Let_def)
  note v = existing_versionD [OF Some]
  with assms(3) Some have w: "working d (ks_id s) vid c" by (auto simp: working_def d')
  have "served ?d1 b"
    by (rule served_update_version [OF assms(2) w [unfolded d']]) (simp_all add: has_succeeded_def)
  then have "served d' b" unfolding d' by (rule served_jobs_only) simp_all
  moreover have "working d' (ks_id s) vid c"
    unfolding working_def
    by (rule bexI [of _ "?f v"]) (use v in \<open>auto simp: d' update_runs_def set_update_where has_succeeded_def\<close>)
  ultimately show ?thesis
    using has_succeeded_kept [OF assms(2) w] by (simp add: d' update_runs_def)
qed

lemma skip_sync_post:
  assumes "served d b" "existing_version s c d = Some v" "has_succeeded v"
    "sn_source_id res = ks_id s" "sn_version_id res = kv_id v" "sn_commit_sha res = c"
  shows "sync_post (ks_id s) d b (Inr res) (skip_sync env s (kv_id v) run c t d) b"
proof -
  note v = existing_versionD [OF assms(2)]
  let ?d1 = "update_sources (\<lambda>x. ks_id x = ks_id s) (\<lambda>x. x\<lparr>ks_current_successful_version_id := Some (kv_id v)\<rparr>) d"
  have "served ?d1 b"
    by (rule served_update_sources [OF assms(1)]) (use v assms(3) in \<open>auto simp: serves_def\<close>)
  then have "served (skip_sync env s (kv_id v) run c t d) b"
    unfolding skip_sync_def by (rule served_jobs_only) simp_all
  then show ?thesis
    using v assms(3-6) by (auto simp: sync_post_def skip_sync_def update_runs_def)
qed

lemma sync_source_post:
  assumes "sync_source cfg env s run d b = ((r, d'), b')" "served d b" "store_contract (sy_store env)"
  shows "sync_post (ks_id s) d b r d' b'"
proof (cases "sy_snapshot env")
  case (Inl f)
  with assms(1) have "sync_failed env s run None [] ''resolve_ref'' [] f d = (r, d')" "b' = b" by (simp_all add: sync_source_def)
  with sync_failed_early_post [OF _ assms(2)] show ?thesis by blast
next
  case (Inr fc)
  then obtain files c where fc: "sy_snapshot env = Inr (files, c)" by (cases fc) simp
  let ?t = "[(''resolve_ref'', sy_timing env ''resolve_ref'')]"
  show ?thesis
  proof (cases "\<exists>v. existing_version s c d = Some v \<and> has_succeeded v")
    case True
    then obtain v where v: "existing_version s c d = Some v" "has_succeeded v" by blast
    with assms(1) fc have "d' = skip_sync env s (kv_id v) run c ?t d" "b' = b"
        "r = Inr \<lparr>sn_status = ''skipped'', sn_source_id = ks_id s, sn_version_id = kv_id v, sn_run_id = run, sn_commit_sha = c\<rparr>"
      by (auto simp: sync_source_def has_succeeded_def Let_def)
    with skip_sync_post [OF assms(2) v] show ?thesis by simp
  next
    case False
    obtain vid d1 where st: "start_version env s (existing_version s c d) run c d = (vid, d1)" by (metis prod.exhaust)
    from assms(1) fc False st have sv: "sync_version cfg env s run vid c files ?t d1 b = ((r, d'), b')"
      by (cases "existing_version s c d") (auto simp: sync_source_def has_succeeded_def Let_def)
    from start_version_post [OF st assms(2)] False have p: "served d1 b" "working d1 (ks_id s) vid c"
      "knowledge_sources d1 = knowledge_sources d"
      "\<forall>v \<in> set (knowledge_source_versions d). has_succeeded v \<longrightarrow> v \<in> set (knowledge_source_versions d1)" by auto
    from sync_version_post [OF sv p(1,2) assms(3)] p(3,4) show ?thesis by (auto elim: sync_post_from)
  qed
qed

lemma run_locked_sync_post:
  assumes "run_locked_sync cfg env i d b = ((r, d'), b')" "served d b" "store_contract (sy_store env)"
  shows "sync_post i d b r d' b'"
proof -
  obtain cr d1 where cl: "claim_sync_run env i d = (cr, d1)" by (metis prod.exhaust)
  note j = jobs_only_claim_run [OF cl]
  note s1 = served_jobs_only [OF assms(2) j extends_refl]
  show ?thesis
  proof (cases cr)
    case (Inl e)
    with assms(1) cl show ?thesis using sync_post_jobs_only [OF assms(2) j, of b] by (auto simp: run_locked_sync_def)
  next
    case (Inr run)
    have un: "sync_post i d1 b r d' b'" if "(sync_unavailable env l (b_id run) d1, b) = ((r, d'), b')" for l
      using that sync_post_jobs_only [OF s1, of d' b i] by (auto simp: sync_unavailable_def Let_def dest!: jobs_only_raise)
    have "sync_post i d1 b r d' b'"
    proof (cases "get_source d i")
      case None
      with assms(1) cl Inr show ?thesis by (intro un) (auto simp: run_locked_sync_def)
    next
      case (Some s)
      then have "ks_id s = i" by (auto simp: get_source_def dest: find_SomeD)
      with assms(1) cl Inr Some sync_source_post [OF _ s1 assms(3)] un show ?thesis
        by (auto simp: run_locked_sync_def split: if_splits)
    qed
    then show ?thesis by (rule sync_post_after [OF _ j extends_refl])
  qed
qed

lemma run_sync_post:
  assumes "run_knowledge_source_sync cfg acq env i d b = ((r, d'), b')" "served d b" "store_contract (sy_store env)"
  shows "sync_post i d b r d' b'"
  using assms(1) run_locked_sync_post [OF _ assms(2,3)] sync_post_jobs_only [OF assms(2), of d b]
  by (auto simp: run_knowledge_source_sync_def split: if_splits sum.splits)

section \<open>Scheduling\<close>

definition due_request :: "time \<Rightarrow> uuid \<Rightarrow> background_job_run \<Rightarrow> bool" where
  "due_request now i r \<longleftrightarrow> sync_run_of i r \<and> b_started_at r = now \<and> b_status r = QUEUED_STATUS \<and> b_trigger r = Some ''scheduled''"

lemma queue_due_source_frame:
  assumes "get_source d i \<noteq> None"
  shows "\<exists>r. background_job_runs (queue_due_source now i d) = background_job_runs d @ [r] \<and> due_request now i r
     \<and> knowledge_sources (queue_due_source now i d) = knowledge_sources d"
proof -
  from assms obtain s where s: "get_source d i = Some s" by blast
  then have "ks_id s = i" by (auto simp: get_source_def dest: find_SomeD)
  with s show ?thesis
    by (simp add: queue_due_source_def queue_background_job_def add_run_def new_run_def or_now_def due_request_def sync_run_of_def)
qed

lemma queue_due_fold_frame:
  assumes "\<forall>i \<in> set is. get_source d i \<noteq> None"
  shows "\<exists>rs. background_job_runs (fold (queue_due_source now) is d) = background_job_runs d @ rs
     \<and> list_all2 (due_request now) is rs \<and> knowledge_sources (fold (queue_due_source now) is d) = knowledge_sources d"
  using assms
proof (induction "is" arbitrary: d)
  case (Cons i "is")
  from queue_due_source_frame [of d i now] Cons.prems obtain r where r:
    "background_job_runs (queue_due_source now i d) = background_job_runs d @ [r]" "due_request now i r"
    "knowledge_sources (queue_due_source now i d) = knowledge_sources d" by auto
  with Cons.IH [of "queue_due_source now i d"] Cons.prems obtain rs where
    "background_job_runs (fold (queue_due_source now) is (queue_due_source now i d)) = background_job_runs d @ r # rs"
    "list_all2 (due_request now) is rs"
    "knowledge_sources (fold (queue_due_source now) is (queue_due_source now i d)) = knowledge_sources d"
    by (auto simp: get_source_def)
  with r(2) show ?case by (intro exI [of _ "r # rs"]) simp
qed simp

lemma due_ids_exist: "i \<in> set (due_source_ids now d) \<Longrightarrow> get_source d i \<noteq> None"
  by (auto simp: due_source_ids_def get_source_def find_None_iff)

lemma last_sync_at_least:
  assumes "r \<in> set (background_job_runs d)" "sync_run_of i r"
  shows "\<exists>t. last_sync_started i d = Some t \<and> b_started_at r \<le> t"
proof -
  let ?k = "\<lambda>r. (- b_started_at r, - int (b_id r))"
  from assms obtain x where x: "first_by ?k (filter (sync_run_of i) (background_job_runs d)) = Some x"
    by (cases "first_by ?k (filter (sync_run_of i) (background_job_runs d))") (auto simp: filter_empty_conv)
  with first_by_SomeD [OF x] assms have "?k x \<le> ?k r" by auto
  then show ?thesis by (auto simp: last_sync_started_def x less_eq_prod_simp)
qed

text \<open>
  C36. Queueing the due sources adds exactly one scheduled request for each of them, in their order, and
  changes no source and no earlier request. It leaves none due at that moment, so the next round of
  the worker queues a source again only after its interval.
\<close>

theorem due_sources_queued_once:
  "\<exists>rs. background_job_runs (queue_due_sources now d) = background_job_runs d @ rs
     \<and> list_all2 (due_request now) (due_source_ids now d) rs
     \<and> knowledge_sources (queue_due_sources now d) = knowledge_sources d
     \<and> due_source_ids now (queue_due_sources now d) = []"
proof -
  let ?d = "queue_due_sources now d"
  from queue_due_fold_frame [of "due_source_ids now d" d now] due_ids_exist obtain rs where rs:
    "background_job_runs ?d = background_job_runs d @ rs" "list_all2 (due_request now) (due_source_ids now d) rs"
    "knowledge_sources ?d = knowledge_sources d" unfolding queue_due_sources_def by blast
  have "\<not> source_is_due (ks_sync_policy s) (last_sync_started (ks_id s) ?d) now"
    if s: "s \<in> set (knowledge_sources d)" "ks_enabled s" for s
  proof (cases "\<exists>r \<in> set rs. sync_run_of (ks_id s) r")
    case True
    then obtain r where r: "r \<in> set rs" "sync_run_of (ks_id s) r" by blast
    with rs(2) have "b_started_at r = now" by (auto simp: list_all2_conv_all_nth in_set_conv_nth due_request_def)
    with last_sync_at_least [of r ?d "ks_id s"] r rs(1) show ?thesis
      by (auto simp: source_is_due_def seconds_def split: json.splits)
  next
    case False
    then have "filter (sync_run_of (ks_id s)) rs = []" by (auto simp: filter_empty_conv)
    then have same: "last_sync_started (ks_id s) ?d = last_sync_started (ks_id s) d" by (simp add: last_sync_started_def rs(1))
    from False rs(2) have "ks_id s \<notin> set (due_source_ids now d)"
      by (fastforce simp: list_all2_conv_all_nth in_set_conv_nth due_request_def)
    with s show ?thesis by (auto simp: due_source_ids_def same)
  qed
  then have "due_source_ids now ?d = []" by (auto simp: due_source_ids_def rs(3) filter_empty_conv)
  with rs show ?thesis by blast
qed

section \<open>The served version over any course of operations\<close>

lemma served_create:
  assumes "create_knowledge_source cs q d = Inr (j, d')" "served d b"
  shows "served d' b"
proof -
  from assms(1) obtain v where d': "d' = d\<lparr>knowledge_sources := knowledge_sources d @ [new_source d v], uuid_gen := Suc (uuid_gen d)\<rparr>"
    by (auto simp: create_knowledge_source_def bind_res_Inr_iff split: if_splits)
  have "ks_id s \<noteq> uuid_gen d" if "s \<in> set (knowledge_sources d)" for s
    using that assms(2) by (auto simp: served_defs)
  with assms(2) show ?thesis
    unfolding d' by (auto simp: served_defs serves_def new_source_def set_values_def less_Suc_eq)
qed

lemma served_update:
  assumes "update_knowledge_source cs now i q d = Inr (j, d')" "served d b"
  shows "served d' b"
proof -
  from assms(1) obtain v where d': "d' = update_sources (\<lambda>x. ks_id x = i) (\<lambda>x. (set_values v x)\<lparr>ks_updated_at := now\<rparr>) d"
    by (auto simp: update_knowledge_source_def bind_res_Inr_iff Let_def split: if_splits option.splits)
  show ?thesis
    unfolding d' by (rule served_update_sources [OF assms(2)]) (use assms(2) in \<open>auto simp: set_values_def served_defs\<close>)
qed

lemma job_step_jobs_only: "job_step d d' \<Longrightarrow> jobs_only d d'"
  using job_step_cases [of d d'] by (auto simp: add_run_def jobs_only_def update_runs_def)

inductive knowledge_step :: "db \<times> bucket \<Rightarrow> db \<times> bucket \<Rightarrow> bool" where
  created: "create_knowledge_source cs q d = Inr (j, d') \<Longrightarrow> knowledge_step (d, b) (d', b)"
| updated: "update_knowledge_source cs now i q d = Inr (j, d') \<Longrightarrow> knowledge_step (d, b) (d', b)"
| requested: "queue_knowledge_source_sync now i d = Inr (j, d') \<Longrightarrow> knowledge_step (d, b) (d', b)"
| synced: "run_knowledge_source_sync cfg acq env i d b = ((r, d'), b') \<Longrightarrow> store_contract (sy_store env)
     \<Longrightarrow> knowledge_step (d, b) (d', b')"
| job_changed: "job_step d d' \<Longrightarrow> knowledge_step (d, b) (d', b)"

lemma served_step: "knowledge_step (d, b) (d', b') \<Longrightarrow> served d b \<Longrightarrow> served d' b'"
proof (induction "(d, b)" "(d', b')" rule: knowledge_step.induct)
  case (requested now i j)
  then have "jobs_only d d'"
    by (auto simp: queue_knowledge_source_sync_def split: option.splits if_splits prod.splits dest: jobs_only_queue)
  with requested show ?case by (auto intro: served_jobs_only)
next
  case (synced cfg acq env i r)
  from run_sync_post [OF synced(1,3,2)] show ?case by (simp add: sync_post_def)
next
  case job_changed
  then show ?case by (auto intro: served_jobs_only dest: job_step_jobs_only)
qed (blast intro: served_create served_update)+

lemma served_steps: "knowledge_step\<^sup>*\<^sup>* (d, b) (d', b') \<Longrightarrow> served d b \<Longrightarrow> served d' b'"
  by (induction "(d', b')" arbitrary: d' b' rule: rtranclp_induct) (auto dest: served_step split: prod.splits)

definition demo_source :: knowledge_source where
  "demo_source = \<lparr>ks_id = 1, ks_canonical_alias = ''ops'', ks_repository_url = ''https://git/o/ops.git'', ks_default_ref = ''main'',
     ks_include_paths = [], ks_exclude_paths = [], ks_credential_ref = None, ks_sync_policy = [], ks_enabled = True,
     ks_current_successful_version_id = Some 2, ks_created_at = 0, ks_updated_at = 0\<rparr>"

definition demo_version :: knowledge_source_version where
  "demo_version = \<lparr>kv_id = 2, kv_source_id = 1, kv_commit_sha = ''c1'', kv_status = ''succeeded'', kv_graphify_version = GRAPHIFY_VERSION,
     kv_extraction_config_hash = extraction_config_hash demo_source,
     kv_artifact_keys = map (\<lambda>(n, f). (n, JStr f)) ARTIFACT_PATHS,
     kv_artifact_checksums = map (\<lambda>(n, f). (n, JStr (''sha256:'' @ sha256_file [1]))) ARTIFACT_PATHS,
     kv_file_count = 1, kv_node_count = 1, kv_edge_count = 0, kv_warnings = [], kv_error = None, kv_started_at = None,
     kv_finished_at = None, kv_created_at = 0\<rparr>"

definition demo_bucket :: bucket where
  "demo_bucket = map (\<lambda>(n, f). (f, [1])) ARTIFACT_PATHS"

definition demo_served :: db where
  "demo_served = (empty_db 0)\<lparr>knowledge_sources := [demo_source], knowledge_source_versions := [demo_version], uuid_gen := 5\<rparr>"

lemma demo_served_ok: "served demo_served demo_bucket"
  by (simp add: served_defs demo_served_def demo_source_def demo_version_def serves_def has_succeeded_def artifacts_ok_def
      ARTIFACT_PATHS_def ARTIFACT_ORDER_def demo_bucket_def empty_db_def)

definition demo_sync :: "failure + directory \<times> str \<Rightarrow> sync_env" where
  "demo_sync snapshot = \<lparr>sy_trigger = ''manual'', sy_queued_run = None, sy_claimed = 3, sy_started = 4, sy_beat = \<lambda>_. 5, sy_completed = 6,
     sy_timing = \<lambda>_. 1, sy_snapshot = snapshot, sy_extract = Inl (''gone'', ''GraphifyExecutionError''), sy_write_archive = demo_write,
     sy_read_archive = demo_read, sy_store = demo_store\<rparr>"

definition demo_indexer :: indexer_config where
  "demo_indexer = \<lparr>ic_object_store_bucket = ''kb'', ic_graphify_binary = ''graphify'', ic_graphify_timeout_sec = 60\<rparr>"

lemma demo_sync_store: "store_contract (sy_store (demo_sync x))"
  by (simp add: demo_sync_def demo_store_contract)

lemma demo_sync_run:
  "run_knowledge_source_sync demo_indexer True (demo_sync x) 1 demo_served demo_bucket
   = sync_source demo_indexer (demo_sync x) demo_source 5
       (snd (start_background_job 3 \<lparr>js_job_type = ''knowledge_source_sync'', js_scope = Some ''ops'', js_trigger = Some ''manual'',
          js_knowledge_source_id = Some 1, js_knowledge_source_version_id = None, js_summary = Some [(''phase'', JStr ''resolve_ref'')]\<rparr>
          None demo_served)) demo_bucket"
  by (simp add: run_knowledge_source_sync_def demo_sync_def demo_indexer_def validate_config_def run_locked_sync_def claim_sync_run_def
      get_source_def demo_served_def demo_source_def start_background_job_def add_run_def new_run_def Let_def)

text \<open>
  C14. Whatever operators, the scheduler and synchronisations do, in any order and with any failure
  of git, Graphify or the store: the version a source serves is a succeeded version of that
  source, and the bucket holds every artifact the version records, with the digest it records.
\<close>

theorem current_version_served:
  assumes "knowledge_step\<^sup>*\<^sup>* (d0, b0) (d, b)" "served d0 b0"
    and "s \<in> set (knowledge_sources d)" "ks_current_successful_version_id s = Some i"
  shows "\<exists>v. get_version d i = Some v \<and> kv_source_id v = ks_id s \<and> kv_status v = ''succeeded'' \<and> artifacts_ok b v"
proof -
  have sv: "served d b" by (rule served_steps [OF assms(1,2)])
  with assms(3,4) have "serves d (ks_id s) i" by (auto simp: served_defs)
  then obtain v where v: "v \<in> set (knowledge_source_versions d)" "kv_id v = i" "kv_source_id v = ks_id s" "has_succeeded v"
    by (auto simp: serves_def)
  moreover from sv v(1,2) have "get_version d i = Some v"
    unfolding get_version_def by (auto simp: served_defs intro: find_distinct_key)
  ultimately show ?thesis using sv by (auto simp: served_def has_succeeded_def)
qed

theorem current_version_served_witness:
  "\<exists>d b v. knowledge_step\<^sup>*\<^sup>* (demo_served, demo_bucket) (d, b) \<and> d \<noteq> demo_served \<and> get_version d 2 = Some v
     \<and> kv_status v = ''succeeded'' \<and> artifacts_ok b v"
proof -
  obtain r d b where run: "run_knowledge_source_sync demo_indexer True (demo_sync (Inl (''no route'', ''E''))) 1 demo_served demo_bucket
      = ((r, d), b)" by (metis prod.exhaust)
  then have st: "knowledge_step\<^sup>*\<^sup>* (demo_served, demo_bucket) (d, b)"
    by (intro r_into_rtranclp) (rule knowledge_step.synced [OF _ demo_sync_store])
  from run have d: "knowledge_sources d = [demo_source]" "background_job_runs d \<noteq> []"
    unfolding demo_sync_run
    by (auto simp: sync_source_def demo_sync_def sync_failed_def Let_def finish_and_raise_def finish_background_job_def get_run_def
        start_background_job_def add_run_def new_run_def demo_served_def empty_db_def update_runs_def JOB_TERMINAL_STATUSES_def
        or_now_def update_where_def)
  from current_version_served [OF st demo_served_ok, of demo_source 2] d(1)
  obtain v where "get_version d 2 = Some v" "kv_status v = ''succeeded''" "artifacts_ok b v"
    by (auto simp: demo_source_def)
  moreover have "d \<noteq> demo_served" using d(2) by (auto simp: demo_served_def empty_db_def)
  ultimately show ?thesis using st by blast
qed

text \<open>
  C35. One synchronisation of a source, through a store that keeps its contract, keeps every object
  and every succeeded version as it is. When it raises, no source changes, so what was served is
  served on; when it returns, its source serves the version of the commit it names, and no other
  source changes.
\<close>

theorem sync_keeps_serving:
  assumes "run_knowledge_source_sync cfg acquired env i d b = ((r, d'), b')" "served d b" "store_contract (sy_store env)"
  shows "extends b b'
     \<and> (\<forall>v \<in> set (knowledge_source_versions d). has_succeeded v \<longrightarrow> v \<in> set (knowledge_source_versions d'))
     \<and> (case r of
          Inl e \<Rightarrow> knowledge_sources d' = knowledge_sources d
        | Inr res \<Rightarrow>
            knowledge_sources d' = update_where (\<lambda>x. ks_id x = i)
              (\<lambda>x. x\<lparr>ks_current_successful_version_id := Some (sn_version_id res)\<rparr>) (knowledge_sources d)
            \<and> (\<exists>v \<in> set (knowledge_source_versions d'). kv_id v = sn_version_id res \<and> kv_source_id v = i
                 \<and> kv_commit_sha v = sn_commit_sha res \<and> has_succeeded v))"
  using run_sync_post [OF assms] by (auto simp: sync_post_def split: sum.splits)

theorem sync_keeps_serving_witness:
  "\<exists>res d' b'. run_knowledge_source_sync demo_indexer True (demo_sync (Inr ([], ''c1''))) 1 demo_served demo_bucket = ((Inr res, d'), b')
     \<and> sn_status res = ''skipped'' \<and> demo_version \<in> set (knowledge_source_versions d') \<and> extends demo_bucket b'"
proof -
  obtain r d' b' where run: "run_knowledge_source_sync demo_indexer True (demo_sync (Inr ([], ''c1''))) 1 demo_served demo_bucket
      = ((r, d'), b')" by (metis prod.exhaust)
  have "existing_version demo_source ''c1'' (snd (start_background_job t sp x demo_served)) = Some demo_version" for t sp x
    by (simp add: existing_version_def start_background_job_def add_run_def Let_def demo_served_def)
      (simp add: demo_version_def demo_source_def)
  moreover have demo_status: "kv_status demo_version = ''succeeded''" by (simp add: demo_version_def)
  ultimately have "\<exists>res. r = Inr res \<and> sn_status res = ''skipped''"
    using run unfolding demo_sync_run by (auto simp: sync_source_def Let_def demo_sync_def)
  moreover from sync_keeps_serving [OF run demo_served_ok demo_sync_store]
  have "demo_version \<in> set (knowledge_source_versions d')" "extends demo_bucket b'"
    by (simp_all add: demo_served_def has_succeeded_def demo_version_def)
  ultimately show ?thesis using run by blast
qed

end
