(* ===== verification/Housekeeping.thy ===== *)
theory Housekeeping
  imports Task_Api Knowledge_Sources
begin

text \<open>
  \<open>shared/lib/housekeeping.py\<close> and the pass of \<open>session-manager/housekeeping.py\<close>: archiving ended
  tasks, deleting tasks archived long ago, and pruning job history, knowledge-source versions,
  agent-memory archives and learning memories. The memory service is a server as in
  \<open>Message_Apis\<close>; an answer without a JSON body is an empty one. Removing an object from the
  knowledge bucket, and the listing and removal of memory archives, are passed in.

  \<open>unfinished_tasks_untouched\<close>: retention changes no row of a task that has not ended.
  \<open>prune_keeps_current\<close>: pruning keeps what is served, what is being built, and the newest versions.
\<close>

section \<open>Tasks\<close>

record housekeeping_settings =
  hs_task_archive_after_days :: int
  hs_task_delete_after_days :: int
  hs_learning_memory_retention_days :: int
  hs_background_job_run_history_limit :: int
  hs_agent_memory_versions_to_keep :: int
  hs_agent_memory_retention_days :: int
  hs_hindsight_url :: str
  hs_hindsight_request_retries :: int
  hs_knowledge_source_object_store_bucket :: str

definition archive_due :: "time \<Rightarrow> task \<Rightarrow> bool" where
  "archive_due cutoff t \<longleftrightarrow> t_status t \<in> set TERMINAL_STATUSES \<and> t_archived_at t = None \<and> t_created t < cutoff"

definition stamp_runs :: "time option \<Rightarrow> uuid list \<Rightarrow> db \<Rightarrow> db" where
  "stamp_runs stamp ids d = d\<lparr>
     sessions := update_where (\<lambda>s. s_task_id s \<in> Some ` set ids) (\<lambda>s. s\<lparr>s_archived_at := stamp\<rparr>) (sessions d),
     session_events := update_where (\<lambda>e. se_task_id e \<in> Some ` set ids) (\<lambda>e. e\<lparr>se_archived_at := stamp\<rparr>) (session_events d),
     approvals := update_where (\<lambda>a. a_task_id a \<in> set ids) (\<lambda>a. a\<lparr>a_archived_at := stamp\<rparr>) (approvals d)\<rparr>"

definition archive_terminal_tasks :: "int \<Rightarrow> time \<Rightarrow> db \<Rightarrow> nat \<times> db" where
  "archive_terminal_tasks older_than_days now d =
     (let cutoff = now - days older_than_days; due = filter (archive_due cutoff) (tasks d)
      in if older_than_days \<le> 0 \<or> due = [] then (0, d)
         else (length due,
               stamp_runs (Some now) (map t_id due)
                 (add_task_events
                   (map (\<lambda>t. (t_id t, ''task_auto_archived'',
                              [(''cutoff'', JStr (isoformat cutoff)), (''status'', JStr (status_str (t_status t)))])) due)
                   (update_tasks (archive_due cutoff) (\<lambda>t. t\<lparr>t_archived_at := Some now\<rparr>) d))))"

definition delete_due :: "time \<Rightarrow> task \<Rightarrow> bool" where
  "delete_due cutoff t \<longleftrightarrow> (case t_archived_at t of None \<Rightarrow> False | Some a \<Rightarrow> a < cutoff)"

definition delete_tasks :: "uuid list \<Rightarrow> db \<Rightarrow> db" where
  "delete_tasks ids d = d\<lparr>
     approvals := delete_where (\<lambda>a. a_task_id a \<in> set ids) (approvals d),
     session_events := delete_where (\<lambda>e. se_task_id e \<in> Some ` set ids) (session_events d),
     sessions := delete_where (\<lambda>s. s_task_id s \<in> Some ` set ids) (sessions d),
     task_events := delete_where (\<lambda>e. te_task_id e \<in> set ids) (task_events d),
     tasks := delete_where (\<lambda>t. t_id t \<in> set ids) (tasks d)\<rparr>"

definition delete_archived_tasks :: "int \<Rightarrow> time \<Rightarrow> db \<Rightarrow> nat \<times> db" where
  "delete_archived_tasks older_than_days now d =
     (let ids = map t_id (filter (delete_due (now - days older_than_days)) (tasks d))
      in if older_than_days \<le> 0 \<or> ids = [] then (0, d) else (length ids, delete_tasks ids d))"

definition archive_task_and_related :: "time \<Rightarrow> uuid \<Rightarrow> bool \<Rightarrow> db \<Rightarrow> db" where
  "archive_task_and_related now tid archived d =
     (let stamp = (if archived then Some now else None)
      in stamp_runs stamp [tid] (update_tasks (\<lambda>t. t_id t = tid) (\<lambda>t. t\<lparr>t_archived_at := stamp\<rparr>) d))"

section \<open>Learning memories\<close>

definition BANK_WORKFLOW_LEARNING :: str where
  "BANK_WORKFLOW_LEARNING = ''workflow-learning''"

text \<open>\<open>configured\<close> are the banks of the workflows in the platform's configuration.\<close>

definition learning_bank_ids :: "str list \<Rightarrow> str list" where
  "learning_bank_ids configured = sort (remdups (BANK_WORKFLOW_LEARNING # configured))"

text \<open>A timestamp without offset is UTC, which appending the offset says.\<close>

definition parse_hindsight_timestamp :: "json \<Rightarrow> time option" where
  "parse_hindsight_timestamp value =
     (if \<not> truthy value then None
      else let s = py_replace ''Z'' ''+00:00'' (py_str value)
           in case fromisoformat s of
                Inr t \<Rightarrow> Some t
              | Inl (TypeError _) \<Rightarrow>
                  (case fromisoformat (s @ (if length s = 10 then ''T00:00'' else []) @ ''+00:00'') of Inr t \<Rightarrow> Some t | Inl _ \<Rightarrow> None)
              | Inl _ \<Rightarrow> None)"

definition stripped_field :: "dict \<Rightarrow> str \<Rightarrow> str option" where
  "stripped_field item key =
     (let value = py_strip (py_str (py_or (dget item key) (JStr []))) in if value \<noteq> [] then Some value else None)"

definition extract_memory_id :: "dict \<Rightarrow> str option" where
  "extract_memory_id item =
     (case stripped_field item ''id'' of
        Some v \<Rightarrow> Some v
      | None \<Rightarrow> (case stripped_field item ''memory_id'' of Some v \<Rightarrow> Some v | None \<Rightarrow> stripped_field item ''document_id''))"

definition extract_document_id :: "dict \<Rightarrow> str option" where
  "extract_document_id item =
     (case stripped_field item ''document_id'' of
        Some v \<Rightarrow> Some v
      | None \<Rightarrow> (case dget item ''metadata'' of JObj m \<Rightarrow> stripped_field m ''document_id'' | _ \<Rightarrow> None))"

definition should_skip_memory_invalidation :: "dict \<Rightarrow> bool" where
  "should_skip_memory_invalidation item =
     (let fact_type = py_lower (py_strip (py_str (py_or (py_or (py_or (dget item ''fact_type'') (dget item ''type'')) (dget item ''kind'')) (JStr []))))
      in fact_type = ''observation'' \<and> extract_document_id item = None)"

definition hindsight_request :: "str \<Rightarrow> str \<Rightarrow> dict \<Rightarrow> json \<Rightarrow> http_request" where
  "hindsight_request verb url params body =
     \<lparr>rq_method = verb, rq_url = url, rq_params = params, rq_json = body, rq_headers = []\<rparr>"

definition bank_url :: "str \<Rightarrow> str \<Rightarrow> str" where
  "bank_url hindsight_url bank_id = hindsight_url @ ''/v1/default/banks/'' @ bank_id"

definition hindsight_list_request :: "str \<Rightarrow> str \<Rightarrow> http_request" where
  "hindsight_list_request hindsight_url bank_id =
     hindsight_request ''GET'' (bank_url hindsight_url bank_id @ ''/memories/list'') [(''limit'', JInt 500), (''offset'', JInt 0)] JNull"

text \<open>The attempts left after this one: only a request without an answer is tried again.\<close>

fun list_attempts :: "server \<Rightarrow> http_request \<Rightarrow> nat \<Rightarrow> http_log \<Rightarrow> dict res \<times> http_log" where
  "list_attempts srv rq left sent =
     (case srv sent rq of
        Response c body \<Rightarrow>
          (bind_res (raise_for_status (c, body)) (\<lambda>r. bind_res (response_json r) (\<lambda>v.
             case v of JObj payload \<Rightarrow> Inr payload | _ \<Rightarrow> Inl (ValueError ''expected object payload''))), sent @ [rq])
      | NoResponse e \<Rightarrow>
          (case left of 0 \<Rightarrow> (Inl (HTTPError e), sent @ [rq]) | Suc n \<Rightarrow> list_attempts srv rq n (sent @ [rq])))"

definition list_hindsight_memories :: "server \<Rightarrow> housekeeping_settings \<Rightarrow> str \<Rightarrow> http_log \<Rightarrow> dict res \<times> http_log" where
  "list_hindsight_memories srv hs bank_id sent =
     (let retries = hs_hindsight_request_retries hs; attempts = max 1 (if retries = 0 then 1 else retries)
      in list_attempts srv (hindsight_list_request (hs_hindsight_url hs) bank_id) (nat attempts - 1) sent)"

definition delete_document :: "server \<Rightarrow> str \<Rightarrow> http_log \<Rightarrow> int res \<times> http_log" where
  "delete_document srv url = bind_io (send srv (hindsight_request ''DELETE'' url [] JNull)) (\<lambda>r.
     ret_io (bind_res (raise_for_status r) (\<lambda>r.
       bind_res (py_int (py_or (case snd r of Some (JObj p) \<Rightarrow> dget p ''memory_units_deleted'' | _ \<Rightarrow> JInt 0) (JInt 0)))
         (\<lambda>n. Inr (if n > 0 then n else 1)))))"

definition invalidate_memory :: "server \<Rightarrow> str \<Rightarrow> str \<Rightarrow> http_log \<Rightarrow> int res \<times> http_log" where
  "invalidate_memory srv url reason = bind_io
     (send srv (hindsight_request ''PATCH'' url [] (JObj [(''state'', JStr ''invalidated''), (''reason'', JStr reason)])))
     (\<lambda>r. ret_io (bind_res (raise_for_status r) (\<lambda>_. Inr 1)))"

fun caught_http :: "py_error \<Rightarrow> str option" where
  "caught_http (HTTPError m) = Some m"
| "caught_http e = None"

fun caught_http_or_value :: "py_error \<Rightarrow> str option" where
  "caught_http_or_value (HTTPError m) = Some m"
| "caught_http_or_value (ValueError m) = Some m"
| "caught_http_or_value e = None"

definition memory_created_at :: "dict \<Rightarrow> time option" where
  "memory_created_at item = parse_hindsight_timestamp (py_or (py_or (py_or (dget item ''created_at'') (dget item ''timestamp''))
     (dget item ''updated_at'')) (dget item ''date''))"

text \<open>What the loop over a bank's memories carries: the documents deleted, the deleted_count, the warnings.\<close>

type_synonym prune_state = "str list \<times> int \<times> str list"

definition prune_memory ::
    "server \<Rightarrow> str \<Rightarrow> str \<Rightarrow> time \<Rightarrow> str \<Rightarrow> json \<Rightarrow> prune_state \<Rightarrow> http_log \<Rightarrow> prune_state res \<times> http_log" where
  "prune_memory srv url bank_id cutoff reason value st sent =
     (case (value, st) of
        (JObj item, (seen, deleted_count, warnings)) \<Rightarrow>
          (case (memory_created_at item, extract_memory_id item) of
             (Some created_at, Some memory_id) \<Rightarrow>
               if cutoff \<le> created_at then (Inr st, sent)
               else (case extract_document_id item of
                  Some document_id \<Rightarrow>
                    if document_id \<in> set seen then (Inr st, sent)
                    else (case delete_document srv (url @ ''/documents/'' @ document_id) sent of
                       (Inr n, sent') \<Rightarrow> (Inr (document_id # seen, deleted_count + n, warnings), sent')
                     | (Inl e, sent') \<Rightarrow>
                         (case caught_http_or_value e of
                            None \<Rightarrow> (Inl e, sent')
                          | Some m \<Rightarrow> (Inr (document_id # seen, deleted_count, warnings @
                              [''Failed to delete Hindsight learning document '' @ document_id @ '' in '' @ bank_id @ '': '' @ m]), sent')))
                | None \<Rightarrow>
                    if should_skip_memory_invalidation item then (Inr st, sent)
                    else (case invalidate_memory srv (url @ ''/memories/'' @ memory_id) reason sent of
                       (Inr n, sent') \<Rightarrow> (Inr (seen, deleted_count + n, warnings), sent')
                     | (Inl e, sent') \<Rightarrow>
                         (case caught_http e of
                            None \<Rightarrow> (Inl e, sent')
                          | Some m \<Rightarrow> (Inr (seen, deleted_count, warnings @
                              [''Failed to invalidate Hindsight learning memory '' @ memory_id @ '' in '' @ bank_id @ '': '' @ m]), sent'))))
           | _ \<Rightarrow> (Inr st, sent))
      | _ \<Rightarrow> (Inr st, sent))"

fun prune_memories ::
    "server \<Rightarrow> str \<Rightarrow> str \<Rightarrow> time \<Rightarrow> str \<Rightarrow> json list \<Rightarrow> prune_state \<Rightarrow> http_log \<Rightarrow> prune_state res \<times> http_log" where
  "prune_memories srv url bank_id cutoff reason [] st sent = (Inr st, sent)"
| "prune_memories srv url bank_id cutoff reason (v # vs) st sent =
     (case prune_memory srv url bank_id cutoff reason v st sent of
        (Inl e, sent') \<Rightarrow> (Inl e, sent')
      | (Inr st', sent') \<Rightarrow> prune_memories srv url bank_id cutoff reason vs st' sent')"

definition payload_items :: "dict \<Rightarrow> json" where
  "payload_items p = py_or (py_or (py_or (dget p ''items'') (dget p ''memories'')) (dget p ''results'')) (dget p ''data'')"

fun prune_banks ::
    "server \<Rightarrow> housekeeping_settings \<Rightarrow> time \<Rightarrow> str \<Rightarrow> str list \<Rightarrow> int \<times> str list \<Rightarrow> http_log \<Rightarrow> (int \<times> str list) res \<times> http_log" where
  "prune_banks srv hs cutoff reason [] acc sent = (Inr acc, sent)"
| "prune_banks srv hs cutoff reason (bank_id # banks) (deleted_count, warnings) sent =
     (case list_hindsight_memories srv hs bank_id sent of
        (Inl e, sent') \<Rightarrow>
          (case caught_http_or_value e of
             None \<Rightarrow> (Inl e, sent')
           | Some m \<Rightarrow> prune_banks srv hs cutoff reason banks
               (deleted_count, warnings @ [''Failed to list Hindsight learning bank '' @ bank_id @ '': '' @ m]) sent')
      | (Inr payload, sent') \<Rightarrow>
          (case payload_items payload of
             JList items \<Rightarrow>
               (case prune_memories srv (bank_url (hs_hindsight_url hs) bank_id) bank_id cutoff reason items ([], deleted_count, warnings) sent' of
                  (Inl e, sent2) \<Rightarrow> (Inl e, sent2)
                | (Inr (_, acc), sent2) \<Rightarrow> prune_banks srv hs cutoff reason banks acc sent2)
           | _ \<Rightarrow> prune_banks srv hs cutoff reason banks (deleted_count, warnings) sent'))"

definition prune_learning_bank_memories ::
    "server \<Rightarrow> housekeeping_settings \<Rightarrow> str list \<Rightarrow> time \<Rightarrow> http_log \<Rightarrow> (int \<times> str list) res \<times> http_log" where
  "prune_learning_bank_memories srv hs configured now sent =
     (let n = hs_learning_memory_retention_days hs
      in if n \<le> 0 then (Inr (0, []), sent)
         else prune_banks srv hs (now - days n) (''housekeeping retention: older than '' @ str_of_int n @ '' days'')
                (learning_bank_ids configured) (0, []) sent)"

section \<open>Job history and knowledge-source versions\<close>

definition newest_runs :: "background_job_run list \<Rightarrow> background_job_run list" where
  "newest_runs = sort_key (\<lambda>r. (- b_started_at r, - int (b_id r)))"

definition delete_runs :: "uuid list \<Rightarrow> db \<Rightarrow> db" where
  "delete_runs ids d = d\<lparr>background_job_runs := delete_where (\<lambda>r. b_id r \<in> set ids) (background_job_runs d)\<rparr>"

definition prune_background_job_runs :: "str \<Rightarrow> int \<Rightarrow> db \<Rightarrow> nat \<times> db" where
  "prune_background_job_runs job_type keep d =
     (if keep < 0 then (0, d)
      else let ids = map b_id (drop (nat keep) (newest_runs (filter (\<lambda>r. b_job_type r = job_type) (background_job_runs d))))
           in if ids = [] then (0, d) else (length ids, delete_runs ids d))"

text \<open>Deleting a version also clears the columns that refer to it (\<open>ON DELETE SET NULL\<close>).\<close>

definition delete_versions :: "uuid list \<Rightarrow> db \<Rightarrow> db" where
  "delete_versions ids d =
     update_sources (\<lambda>s. ks_current_successful_version_id s \<in> Some ` set ids) (\<lambda>s. s\<lparr>ks_current_successful_version_id := None\<rparr>)
       (update_runs (\<lambda>r. b_knowledge_source_version_id r \<in> Some ` set ids) (\<lambda>r. r\<lparr>b_knowledge_source_version_id := None\<rparr>)
         (d\<lparr>knowledge_source_versions := delete_where (\<lambda>v. kv_id v \<in> set ids) (knowledge_source_versions d)\<rparr>))"

definition newest_versions :: "uuid \<Rightarrow> db \<Rightarrow> knowledge_source_version list" where
  "newest_versions source_id d =
     sort_key (\<lambda>v. (- kv_created_at v, - int (kv_id v))) (filter (\<lambda>v. kv_source_id v = source_id) (knowledge_source_versions d))"

definition retained_version_ids :: "nat \<Rightarrow> knowledge_source \<Rightarrow> knowledge_source_version list \<Rightarrow> uuid set" where
  "retained_version_ids keep s versions = kv_id ` set (take keep versions) \<union> set_option (ks_current_successful_version_id s)"

definition prunable :: "nat \<Rightarrow> knowledge_source \<Rightarrow> db \<Rightarrow> knowledge_source_version list" where
  "prunable keep s d = (let versions = newest_versions (ks_id s) d in
     filter (\<lambda>v. kv_id v \<notin> retained_version_ids keep s versions \<and> kv_status v \<notin> set [''pending'', ''running'']) versions)"

definition string_keys :: "knowledge_source_version \<Rightarrow> str list" where
  "string_keys v = List.map_filter (\<lambda>(_, k). case k of JStr key \<Rightarrow> if key \<noteq> [] then Some key else None | _ \<Rightarrow> None) (kv_artifact_keys v)"

text \<open>\<open>remove\<close> is the store's: the bucket after it, or the text of its exception with what is left.\<close>

fun remove_objects :: "(str \<Rightarrow> bucket \<Rightarrow> str option \<times> bucket) \<Rightarrow> str list \<Rightarrow> bucket \<Rightarrow> str option \<times> bucket" where
  "remove_objects remove [] b = (None, b)"
| "remove_objects remove (key # keys) b =
     (case remove key b of (Some e, b') \<Rightarrow> (Some e, b') | (None, b') \<Rightarrow> remove_objects remove keys b')"

fun prune_versions ::
    "(str \<Rightarrow> bucket \<Rightarrow> str option \<times> bucket) \<Rightarrow> str \<Rightarrow> uuid \<Rightarrow> knowledge_source_version list \<Rightarrow> bucket \<Rightarrow> uuid list \<times> str list \<times> bucket" where
  "prune_versions remove bucket_name source_id [] b = ([], [], b)"
| "prune_versions remove bucket_name source_id (v # vs) b =
     (let keys = string_keys v;
          label = ''Cannot prune Knowledge Source '' @ uuid_str source_id @ '' version '' @ uuid_str (kv_id v) @ '': ''
      in if keys \<noteq> [] \<and> bucket_name = []
         then (let (ids, ws, b') = prune_versions remove bucket_name source_id vs b in (ids, (label @ ''bucket is unset'') # ws, b'))
         else (case remove_objects remove keys b of
            (Some e, b1) \<Rightarrow> (let (ids, ws, b') = prune_versions remove bucket_name source_id vs b1 in (ids, (label @ e) # ws, b'))
          | (None, b1) \<Rightarrow> (let (ids, ws, b') = prune_versions remove bucket_name source_id vs b1 in (kv_id v # ids, ws, b'))))"

definition prunable_runs :: "nat \<Rightarrow> uuid \<Rightarrow> db \<Rightarrow> uuid list" where
  "prunable_runs keep source_id d =
     (let runs = newest_runs (filter (sync_run_of source_id) (background_job_runs d))
      in map b_id (filter (\<lambda>r. b_id r \<notin> b_id ` set (take keep runs) \<and> b_status r \<notin> set [QUEUED_STATUS, RUNNING_STATUS]) runs))"

fun prune_sources ::
    "(str \<Rightarrow> bucket \<Rightarrow> str option \<times> bucket) \<Rightarrow> str \<Rightarrow> nat \<Rightarrow> db \<Rightarrow> knowledge_source list \<Rightarrow> bucket
       \<Rightarrow> uuid list \<times> uuid list \<times> str list \<times> bucket" where
  "prune_sources remove bucket_name keep d [] b = ([], [], [], b)"
| "prune_sources remove bucket_name keep d (s # ss) b =
     (let (ids, ws, b1) = prune_versions remove bucket_name (ks_id s) (prunable keep s d) b;
          (ids', runs', ws', b2) = prune_sources remove bucket_name keep d ss b1
      in (ids @ ids', prunable_runs keep (ks_id s) d @ runs', ws @ ws', b2))"

definition prune_knowledge_source_history ::
    "(str \<Rightarrow> bucket \<Rightarrow> str option \<times> bucket) \<Rightarrow> str \<Rightarrow> int \<Rightarrow> db \<Rightarrow> bucket \<Rightarrow> (nat \<times> nat \<times> str list) \<times> db \<times> bucket" where
  "prune_knowledge_source_history remove bucket_name keep_latest d b =
     (let (versions, runs, ws, b') = prune_sources remove (py_strip bucket_name) (nat (max 0 keep_latest)) d (knowledge_sources d) b
      in ((length versions, length runs, ws), delete_versions versions (delete_runs runs d), b'))"

section \<open>Agent memory\<close>

record memory_object =
  mo_key :: str
  mo_last_modified :: "time option"

definition memory_agent :: "memory_object \<Rightarrow> str" where
  "memory_agent ob = takeWhile (\<lambda>c. c \<noteq> CHR ''/'') (mo_key ob)"

definition backup_objects :: "memory_object list \<Rightarrow> memory_object list" where
  "backup_objects = filter (\<lambda>ob. \<not> py_endswith (mo_key ob) ''/latest.tar.gz'')"

text \<open>An object without a time of change counts as the oldest; \<open>reverse=True\<close> keeps the order of equals.\<close>

definition age_key :: "memory_object \<Rightarrow> nat \<times> int" where
  "age_key ob = (case mo_last_modified ob of None \<Rightarrow> (1, 0) | Some t \<Rightarrow> (0, - t))"

definition expired_backups :: "int \<Rightarrow> int \<Rightarrow> time \<Rightarrow> memory_object list \<Rightarrow> memory_object list" where
  "expired_backups keep retention_days now versions =
     (let ordered = sort_key age_key versions
      in map fst (filter (\<lambda>(ob, index). (0 < keep \<and> keep \<le> int index)
            \<or> (0 < retention_days \<and> (case mo_last_modified ob of None \<Rightarrow> False | Some t \<Rightarrow> t < now - days retention_days)))
          (zip ordered [0..<length ordered])))"

text \<open>\<open>remove\<close> tells whether an object was there to delete.\<close>

definition prune_agent_memory_versions :: "int \<Rightarrow> int \<Rightarrow> time \<Rightarrow> memory_object list \<Rightarrow> (str \<Rightarrow> bool) \<Rightarrow> nat \<times> str list" where
  "prune_agent_memory_versions keep retention_days now memory_objs remove =
     (if keep \<le> 0 \<and> retention_days \<le> 0 then (0, [])
      else let backups = backup_objects memory_objs;
               doomed = concat (map (\<lambda>a. map mo_key (expired_backups keep retention_days now (filter (\<lambda>ob. memory_agent ob = a) backups)))
                 (remdups (map memory_agent backups)))
           in (length (filter remove doomed), doomed))"

section \<open>One pass\<close>

record housekeeping_report =
  hr_archived_tasks :: nat
  hr_deleted_tasks :: nat
  hr_pruned_agent_memory_versions :: nat
  hr_pruned_learning_memories :: int
  hr_pruned_background_job_runs :: nat
  hr_pruned_knowledge_source_versions :: nat
  hr_pruned_knowledge_source_runs :: nat
  hr_warnings :: "str list"

record housekeeping_env =
  he_now :: time
  he_server :: server
  he_configured_banks :: "str list"
  he_memory_objects :: "memory_object list res"
  he_remove_memory :: "str \<Rightarrow> bool"
  he_remove_object :: "str \<Rightarrow> bucket \<Rightarrow> str option \<times> bucket"

text \<open>Each step commits; an exception of a later one leaves the earlier ones in place.\<close>

definition prune_rest ::
    "housekeeping_settings \<Rightarrow> housekeeping_env \<Rightarrow> nat \<times> nat \<times> nat \<Rightarrow> int \<times> str list \<Rightarrow> db \<Rightarrow> bucket
       \<Rightarrow> housekeeping_report \<times> db \<times> bucket" where
  "prune_rest hs env counts learned d b =
     (let ((versions, runs, ws), d1, b1) =
            prune_knowledge_source_history (he_remove_object env) (hs_knowledge_source_object_store_bucket hs) 5 d b;
          limit = hs_background_job_run_history_limit hs;
          (jobs, d2) = (if 0 < limit then prune_background_job_runs ''housekeeping'' (max 0 (limit - 1)) d1 else (0, d1))
      in (\<lparr>hr_archived_tasks = fst counts, hr_deleted_tasks = fst (snd counts), hr_pruned_agent_memory_versions = snd (snd counts),
            hr_pruned_learning_memories = fst learned, hr_pruned_background_job_runs = jobs,
            hr_pruned_knowledge_source_versions = versions, hr_pruned_knowledge_source_runs = runs,
            hr_warnings = snd learned @ ws\<rparr>, d2, b1))"

definition run_housekeeping_once ::
    "housekeeping_settings \<Rightarrow> housekeeping_env \<Rightarrow> db \<Rightarrow> bucket \<Rightarrow> http_log \<Rightarrow> housekeeping_report res \<times> db \<times> bucket \<times> http_log" where
  "run_housekeeping_once hs env d b sent =
     (let (archived, d1) = archive_terminal_tasks (hs_task_archive_after_days hs) (he_now env) d;
          (deleted, d2) = delete_archived_tasks (hs_task_delete_after_days hs) (he_now env) d1
      in case (if hs_agent_memory_versions_to_keep hs \<le> 0 \<and> hs_agent_memory_retention_days hs \<le> 0 then Inr []
               else he_memory_objects env) of
           Inl e \<Rightarrow> (Inl e, d2, b, sent)
         | Inr memory_objs \<Rightarrow>
             let (memories, _) = prune_agent_memory_versions (hs_agent_memory_versions_to_keep hs) (hs_agent_memory_retention_days hs)
                   (he_now env) memory_objs (he_remove_memory env)
             in (case prune_learning_bank_memories (he_server env) hs (he_configured_banks env) (he_now env) sent of
                   (Inl e, sent') \<Rightarrow> (Inl e, d2, b, sent')
                 | (Inr learned, sent') \<Rightarrow>
                     let (report, d3, b') = prune_rest hs env (archived, deleted, memories) learned d2 b
                     in (Inr report, d3, b', sent')))"

definition report_summary :: "housekeeping_report \<Rightarrow> dict" where
  "report_summary r =
     [(''archived_tasks'', JInt (int (hr_archived_tasks r))), (''deleted_tasks'', JInt (int (hr_deleted_tasks r))),
      (''pruned_agent_memory_versions'', JInt (int (hr_pruned_agent_memory_versions r))),
      (''pruned_learning_memories'', JInt (hr_pruned_learning_memories r)),
      (''pruned_background_job_runs'', JInt (int (hr_pruned_background_job_runs r))),
      (''pruned_knowledge_source_versions'', JInt (int (hr_pruned_knowledge_source_versions r))),
      (''pruned_knowledge_source_runs'', JInt (int (hr_pruned_knowledge_source_runs r)))]"

definition record_background_job_run ::
    "str \<Rightarrow> time \<Rightarrow> time \<Rightarrow> dict \<Rightarrow> str list \<Rightarrow> str option \<Rightarrow> db \<Rightarrow> (background_job_run \<times> db) res" where
  "record_background_job_run status started finished_at summary warnings error d =
     record_completed_background_job
       \<lparr>js_job_type = ''housekeeping'', js_scope = Some ''platform'', js_trigger = None, js_knowledge_source_id = None,
        js_knowledge_source_version_id = None, js_summary = Some summary\<rparr>
       \<lparr>jo_status = status, jo_summary = Some summary, jo_warnings = Some warnings, jo_error = error,
        jo_knowledge_source_version_id = None\<rparr> started finished_at d"

text \<open>One turn of the loop: the pass, and the record of how it ended; \<open>text_of\<close> is \<open>str(exc)\<close>.\<close>

definition housekeeping_pass ::
    "(py_error \<Rightarrow> str) \<Rightarrow> housekeeping_settings \<Rightarrow> housekeeping_env \<Rightarrow> time \<Rightarrow> db \<Rightarrow> bucket \<Rightarrow> http_log \<Rightarrow> db \<times> bucket \<times> http_log" where
  "housekeeping_pass text_of hs env finished_at d b sent =
     (case run_housekeeping_once hs env d b sent of
        (Inr report, d', b', sent') \<Rightarrow>
          (case record_background_job_run ''succeeded'' (he_now env) finished_at (report_summary report) (hr_warnings report) None d' of
             Inr (_, d2) \<Rightarrow> (d2, b', sent')
           | Inl e \<Rightarrow> (case record_background_job_run ''failed'' (he_now env) finished_at [] [] (Some (text_of e)) d' of
                Inr (_, d2) \<Rightarrow> (d2, b', sent') | Inl _ \<Rightarrow> (d', b', sent')))
      | (Inl e, d', b', sent') \<Rightarrow>
          (case record_background_job_run ''failed'' (he_now env) finished_at [] [] (Some (text_of e)) d' of
             Inr (_, d2) \<Rightarrow> (d2, b', sent') | Inl _ \<Rightarrow> (d', b', sent')))"

section \<open>What retention leaves of a task\<close>

definition task_rows :: "uuid \<Rightarrow> db \<Rightarrow> sess list \<times> session_event list \<times> approval list \<times> task_event list" where
  "task_rows i d = (filter (\<lambda>s. s_task_id s = Some i) (sessions d), filter (\<lambda>e. se_task_id e = Some i) (session_events d),
     filter (\<lambda>a. a_task_id a = i) (approvals d), filter (\<lambda>e. te_task_id e = i) (task_events d))"

lemma filter_other_add_task_events:
  "\<forall>(tid, ty, x) \<in> set es. tid \<noteq> i \<Longrightarrow>
   filter (\<lambda>e. te_task_id e = i) (task_events (add_task_events es d)) = filter (\<lambda>e. te_task_id e = i) (task_events d)"
proof (induction es arbitrary: d)
  case (Cons e es)
  then show ?case by (cases e) (simp add: add_task_events_def)
qed (simp add: add_task_events_def)

lemma task_rows_add_task_events:
  "\<forall>(tid, ty, x) \<in> set es. tid \<noteq> i \<Longrightarrow> task_rows i (add_task_events es d) = task_rows i d"
  by (simp add: task_rows_def filter_other_add_task_events)

lemma task_rows_update_tasks [simp]: "task_rows i (update_tasks P f d) = task_rows i d"
  by (simp add: task_rows_def update_tasks_def)

lemma filter_update_where_disjoint:
  "(\<And>r. P r \<Longrightarrow> \<not> Q r \<and> \<not> Q (f r)) \<Longrightarrow> filter Q (update_where P f rows) = filter Q rows"
  by (induction rows) (auto simp: update_where_def)

lemma task_rows_stamp: "i \<notin> set ids \<Longrightarrow> task_rows i (stamp_runs stamp ids d) = task_rows i d"
  by (auto simp: task_rows_def stamp_runs_def intro!: filter_update_where_disjoint)

lemma task_rows_delete: "i \<notin> set ids \<Longrightarrow> task_rows i (delete_tasks ids d) = task_rows i d"
  by (auto simp: task_rows_def delete_tasks_def delete_where_def intro!: filter_cong)

lemma tasks_delete_tasks: "tasks (delete_tasks ids d) = delete_where (\<lambda>t. t_id t \<in> set ids) (tasks d)"
  by (simp add: delete_tasks_def)

lemma archive_cases:
  assumes "archive_terminal_tasks n now d = (k, d')"
  obtains "d' = d" | due where "due = filter (archive_due (now - days n)) (tasks d)"
    "d' = stamp_runs (Some now) (map t_id due)
       (add_task_events (map (\<lambda>t. (t_id t, ''task_auto_archived'',
            [(''cutoff'', JStr (isoformat (now - days n))), (''status'', JStr (status_str (t_status t)))])) due)
         (update_tasks (archive_due (now - days n)) (\<lambda>t. t\<lparr>t_archived_at := Some now\<rparr>) d))"
  using assms by (auto simp: archive_terminal_tasks_def Let_def split: if_splits)

lemma delete_cases:
  assumes "delete_archived_tasks n now d = (k, d')"
  obtains "d' = d" | "0 < n" "d' = delete_tasks (map t_id (filter (delete_due (now - days n)) (tasks d))) d"
  using assms by (auto simp: delete_archived_tasks_def Let_def split: if_splits)

lemma stamp_runs_frame [simp]: "tasks (stamp_runs s ids d) = tasks d" "task_events (stamp_runs s ids d) = task_events d"
  by (simp_all add: stamp_runs_def)

lemma archive_spares:
  assumes "archive_terminal_tasks n now d = (k, d')" "distinct (task_ids d)" "t \<in> set (tasks d)" "\<not> archive_due (now - days n) t"
  shows "t \<in> set (tasks d') \<and> task_rows (t_id t) d' = task_rows (t_id t) d \<and> task_ids d' = task_ids d"
  using assms(1)
proof (cases rule: archive_cases)
  case (2 due)
  have "t_id t \<noteq> t_id u" if "u \<in> set due" for u
    using that assms(2-4) distinct_key_eq [of t_id "tasks d" t u] by (auto simp: 2(1) task_ids_def)
  then have ids: "t_id t \<notin> set (map t_id due)" by auto
  have "task_rows (t_id t) d' = task_rows (t_id t) d"
    unfolding 2(2) task_rows_stamp [OF ids]
    using ids by (subst task_rows_add_task_events) (force, simp)
  moreover have "t \<in> set (tasks d')"
    using assms(3,4) by (force simp: 2(2) tasks_update_tasks set_update_where)
  moreover have "task_ids d' = task_ids d"
    by (simp add: 2(2) task_ids_def tasks_update_tasks map_update_where)
  ultimately show ?thesis by simp
qed (use assms(3) in simp)

lemma delete_spares:
  assumes "delete_archived_tasks n now d = (k, d')" "distinct (task_ids d)" "t \<in> set (tasks d)" "t_archived_at t = None"
  shows "t \<in> set (tasks d') \<and> task_rows (t_id t) d' = task_rows (t_id t) d"
  using assms(1)
proof (cases rule: delete_cases)
  case 2
  let ?ids = "map t_id (filter (delete_due (now - days n)) (tasks d))"
  have "t_id t \<noteq> t_id u" if "u \<in> set (tasks d)" "delete_due (now - days n) u" for u
    using that assms(2-4) distinct_key_eq [of t_id "tasks d" t u] by (auto simp: task_ids_def delete_due_def)
  then have ids: "t_id t \<notin> set ?ids" by auto
  with assms(3) show ?thesis unfolding 2(2) task_rows_delete [OF ids] by (simp add: delete_tasks_def delete_where_def)
qed (use assms(3) in simp)

text \<open>Pruning history leaves the tables of tasks alone.\<close>

definition task_tables :: "db \<Rightarrow> task list \<times> sess list \<times> session_event list \<times> approval list \<times> task_event list \<times> nat" where
  "task_tables d = (tasks d, sessions d, session_events d, approvals d, task_events d, uuid_gen d)"

lemma task_tables_prune_rest: "prune_rest hs env c l d b = (r, d', b') \<Longrightarrow> task_tables d' = task_tables d"
  by (auto simp: prune_rest_def Let_def prune_knowledge_source_history_def prune_background_job_runs_def delete_versions_def
      delete_runs_def update_sources_def update_runs_def task_tables_def split: prod.splits if_splits)

lemma task_tables_rows: "task_tables d' = task_tables d \<Longrightarrow> tasks d' = tasks d \<and> task_rows i d' = task_rows i d"
  by (simp add: task_tables_def task_rows_def)

lemma run_housekeeping_tasks:
  assumes "run_housekeeping_once hs env d b sent = (r, d', b', sent')"
  obtains k d1 l d2 where "archive_terminal_tasks (hs_task_archive_after_days hs) (he_now env) d = (k, d1)"
    "delete_archived_tasks (hs_task_delete_after_days hs) (he_now env) d1 = (l, d2)" "task_tables d' = task_tables d2"
  using assms by (auto simp: run_housekeeping_once_def Let_def split: prod.splits sum.splits if_splits dest!: task_tables_prune_rest)

text \<open>
  C15. A pass of the housekeeping, however it ends, leaves a task that has not ended (and that nobody
  archived) exactly as it is, with its sessions, events and approvals.
\<close>

theorem unfinished_tasks_untouched:
  assumes "run_housekeeping_once hs env d b sent = (r, d', b', sent')" "wf_db d"
    and "t \<in> set (tasks d)" "t_status t \<notin> set TERMINAL_STATUSES" "t_archived_at t = None"
  shows "t \<in> set (tasks d') \<and> task_rows (t_id t) d' = task_rows (t_id t) d"
proof -
  from assms(1) obtain k d1 l d2 where p: "archive_terminal_tasks (hs_task_archive_after_days hs) (he_now env) d = (k, d1)"
    "delete_archived_tasks (hs_task_delete_after_days hs) (he_now env) d1 = (l, d2)" "task_tables d' = task_tables d2"
    by (rule run_housekeeping_tasks)
  have ids: "distinct (task_ids d)" using assms(2) by (simp add: wf_db_def)
  have "\<not> archive_due x t" for x using assms(4) by (simp add: archive_due_def)
  note a = archive_spares [OF p(1) ids assms(3) this]
  then have ids1: "distinct (task_ids d1)" using ids by simp
  from a delete_spares [OF p(2) ids1 _ assms(5)] task_tables_rows [OF p(3)] show ?thesis by auto
qed

theorem unfinished_tasks_untouched_witness:
  "\<exists>r d' b' sent'. run_housekeeping_once
       \<lparr>hs_task_archive_after_days = 1, hs_task_delete_after_days = 1, hs_learning_memory_retention_days = 0,
        hs_background_job_run_history_limit = 5, hs_agent_memory_versions_to_keep = 0, hs_agent_memory_retention_days = 0,
        hs_hindsight_url = ''http://h'', hs_hindsight_request_retries = 3, hs_knowledge_source_object_store_bucket = []\<rparr>
       \<lparr>he_now = days 9, he_server = \<lambda>_ _. NoResponse ''down'', he_configured_banks = [], he_memory_objects = Inr [],
        he_remove_memory = \<lambda>_. True, he_remove_object = \<lambda>k b. (None, b)\<rparr> demo_queue [] [] = (r, d', b', sent')
     \<and> demo_task 12 ''a'' queued 2 \<in> set (tasks d')"
  (is "\<exists>r d' b' sent'. ?run = (r, d', b', sent') \<and> _")
proof -
  obtain r d' b' sent' where run: "?run = (r, d', b', sent')" by (metis prod.exhaust)
  have "demo_task 12 ''a'' queued 2 \<in> set (tasks demo_queue)" by (simp add: demo_queue_def demo_defs)
  then have "demo_task 12 ''a'' queued 2 \<in> set (tasks d')"
    using unfinished_tasks_untouched [OF run] demo_queue_facts by (auto simp: demo_defs TERMINAL_STATUSES_def)
  with run show ?thesis by blast
qed

text \<open>
  Deleting the tasks archived before the limit removes exactly these tasks: no session, event or
  approval of a deleted task is left, and every row of every other task stays.
\<close>

lemma expired_tasks_removed:
  assumes "delete_archived_tasks n now d = (k, d')" "wf_db d" "0 < n"
  shows "tasks d' = filter (\<lambda>t. \<not> delete_due (now - days n) t) (tasks d) \<and> k = length (tasks d) - length (tasks d')
     \<and> (\<forall>t \<in> set (tasks d). task_rows (t_id t) d' =
          (if delete_due (now - days n) t then ([], [], [], []) else task_rows (t_id t) d))"
proof -
  let ?ids = "map t_id (filter (delete_due (now - days n)) (tasks d))"
  have dist: "distinct (map t_id (tasks d))" using assms(2) by (simp add: wf_db_def task_ids_def)
  have mem: "t_id t \<in> set ?ids \<longleftrightarrow> delete_due (now - days n) t" if "t \<in> set (tasks d)" for t
    using that distinct_key_eq [OF dist, of t] by auto
  have ts: "delete_where (\<lambda>t. t_id t \<in> set ?ids) (tasks d) = filter (\<lambda>t. \<not> delete_due (now - days n) t) (tasks d)"
    unfolding delete_where_def by (rule filter_cong [OF refl]) (simp only: mem)
  have k: "k = length ?ids" and d': "d' = (if ?ids = [] then d else delete_tasks ?ids d)"
    using assms(1,3) by (auto simp: delete_archived_tasks_def Let_def split: if_splits)
  have e: "delete_tasks ?ids d = d" if "?ids = []" using that by (simp add: delete_tasks_def delete_where_def)
  then have d': "d' = delete_tasks ?ids d" using d' by (auto split: if_splits)
  have gone: "task_rows i (delete_tasks ids d) = ([], [], [], [])" if "i \<in> set ids" for i ids
    using that by (auto simp: task_rows_def delete_tasks_def delete_where_def filter_empty_conv)
  have "task_rows (t_id t) d' = (if delete_due (now - days n) t then ([], [], [], []) else task_rows (t_id t) d)" if "t \<in> set (tasks d)" for t
    using mem [OF that] gone [of "t_id t" ?ids] task_rows_delete [of "t_id t" ?ids d] unfolding d' by auto
  moreover have "tasks d' = filter (\<lambda>t. \<not> delete_due (now - days n) t) (tasks d)"
    unfolding d' tasks_delete_tasks by (rule ts)
  moreover from this have "k = length (tasks d) - length (tasks d')"
    using sum_length_filter_compl [of "delete_due (now - days n)" "tasks d"] by (simp add: k)
  ultimately show ?thesis by blast
qed

lemma expired_tasks_removed_witness:
  "tasks (snd (delete_archived_tasks 1 (days 9) (demo_db [(demo_task 12 ''a'' failed 2)\<lparr>t_archived_at := Some 0\<rparr>, demo_task 13 ''a'' queued 2])))
   = [demo_task 13 ''a'' queued 2]"
proof -
  let ?d = "demo_db [(demo_task 12 ''a'' failed 2)\<lparr>t_archived_at := Some 0\<rparr>, demo_task 13 ''a'' queued 2]"
  have "wf_db ?d" by (simp add: wf_db_def task_ids_def demo_defs)
  from expired_tasks_removed [OF prod.collapse [symmetric, of "delete_archived_tasks 1 (days 9) ?d"] this]
  show ?thesis by (simp add: demo_defs delete_due_def days_def)
qed

section \<open>What pruning keeps\<close>

lemma prune_versions_ids: "prune_versions remove nm i vs b = (ids, ws, b') \<Longrightarrow> set ids \<subseteq> kv_id ` set vs"
proof (induction vs arbitrary: b ids ws b')
  case (Cons v vs)
  obtain e b1 where r: "remove_objects remove (string_keys v) b = (e, b1)" by (metis prod.exhaust)
  obtain ids0 ws0 b0 where p0: "prune_versions remove nm i vs b = (ids0, ws0, b0)" by (metis prod.exhaust)
  obtain ids1 ws1 b2 where p1: "prune_versions remove nm i vs b1 = (ids1, ws1, b2)" by (metis prod.exhaust)
  from Cons.prems r p0 p1 have "ids = ids0 \<or> ids = ids1 \<or> ids = kv_id v # ids1"
    by (auto simp: Let_def split: if_splits option.splits)
  with Cons.IH [OF p0] Cons.IH [OF p1] show ?case by auto
qed simp

lemma prune_sources_ids:
  "prune_sources remove nm keep d ss b = (ids, runs, ws, b') \<Longrightarrow> i \<in> set ids \<Longrightarrow> \<exists>s \<in> set ss. \<exists>v \<in> set (prunable keep s d). i = kv_id v"
proof (induction ss arbitrary: b ids runs ws b')
  case (Cons s ss)
  obtain ids1 ws1 b1 where p1: "prune_versions remove nm (ks_id s) (prunable keep s d) b = (ids1, ws1, b1)" by (metis prod.exhaust)
  obtain ids2 runs2 ws2 b2 where p2: "prune_sources remove nm keep d ss b1 = (ids2, runs2, ws2, b2)" by (metis prod.exhaust)
  from Cons.prems p1 p2 have "i \<in> set ids1 \<or> i \<in> set ids2" by auto
  with prune_versions_ids [OF p1] Cons.IH [OF p2] show ?case by auto
qed simp

text \<open>
  A version that pruning may not touch: one being built, one of the newest of its source, or the one
  that the source serves.
\<close>

definition protected :: "nat \<Rightarrow> db \<Rightarrow> knowledge_source_version \<Rightarrow> bool" where
  "protected keep d v \<longleftrightarrow> kv_status v \<in> set [''pending'', ''running''] \<or> v \<in> set (take keep (newest_versions (kv_source_id v) d))
     \<or> (\<exists>s \<in> set (knowledge_sources d). ks_id s = kv_source_id v \<and> ks_current_successful_version_id s = Some (kv_id v))"

lemma prunable_unprotected:
  assumes "current_ok d" "s \<in> set (knowledge_sources d)" "v \<in> set (prunable keep s d)"
  shows "v \<in> set (knowledge_source_versions d) \<and> \<not> protected keep d v"
proof -
  from assms(3) have v: "v \<in> set (knowledge_source_versions d)" "kv_source_id v = ks_id s"
    "kv_id v \<notin> retained_version_ids keep s (newest_versions (ks_id s) d)" "kv_status v \<notin> set [''pending'', ''running'']"
    by (auto simp: prunable_def Let_def newest_versions_def)
  have "s' = s" if "s' \<in> set (knowledge_sources d)" "ks_id s' = ks_id s" for s'
    using that assms(1,2) distinct_key_eq [of ks_id "knowledge_sources d" s' s] by (auto simp: current_ok_def)
  with v show ?thesis by (auto simp: protected_def retained_version_ids_def)
qed

text \<open>
  C13. Pruning the history of the knowledge sources, whichever objects the store refuses to delete:
  no source changes the version it serves, versions being built and the newest ones of each source
  are kept, and the serving pointers stay sound. Nothing is added.
\<close>

theorem prune_keeps_current:
  assumes "prune_knowledge_source_history remove name keep d b = (res, d', b')" "current_ok d"
  shows "knowledge_sources d' = knowledge_sources d \<and> current_ok d'
     \<and> set (knowledge_source_versions d') \<subseteq> set (knowledge_source_versions d)
     \<and> (\<forall>v \<in> set (knowledge_source_versions d). protected (nat (max 0 keep)) d v \<longrightarrow> v \<in> set (knowledge_source_versions d'))"
proof -
  obtain ids runs ws b2 where p: "prune_sources remove (py_strip name) (nat (max 0 keep)) d (knowledge_sources d) b = (ids, runs, ws, b2)"
    by (metis prod.exhaust)
  with assms(1) have d': "d' = delete_versions ids (delete_runs runs d)" by (auto simp: prune_knowledge_source_history_def Let_def)
  have vs: "knowledge_source_versions d' = filter (\<lambda>v. kv_id v \<notin> set ids) (knowledge_source_versions d)"
    by (simp add: d' delete_versions_def update_runs_def delete_runs_def delete_where_def)
  have un: "\<not> protected (nat (max 0 keep)) d v" if "v \<in> set (knowledge_source_versions d)" "kv_id v \<in> set ids" for v
  proof -
    from prune_sources_ids [OF p that(2)] obtain s w where w: "s \<in> set (knowledge_sources d)" "w \<in> set (prunable (nat (max 0 keep)) s d)"
      "kv_id v = kv_id w" by blast
    note q = prunable_unprotected [OF assms(2) w(1,2)]
    with that(1) w(3) assms(2) have "v = w" using distinct_key_eq [of kv_id "knowledge_source_versions d" v w] by (auto simp: current_ok_def)
    with q show ?thesis by simp
  qed
  have cur: "i \<notin> set ids" if s: "s \<in> set (knowledge_sources d)" "ks_current_successful_version_id s = Some i" for s i
  proof
    assume "i \<in> set ids"
    moreover from s assms(2) obtain v where "v \<in> set (knowledge_source_versions d)" "kv_id v = i" "kv_source_id v = ks_id s"
      unfolding current_ok_def serves_def by blast
    ultimately show False using un [of v] s by (auto simp: protected_def)
  qed
  have src: "knowledge_sources d' = knowledge_sources d"
    using cur by (auto simp: d' delete_versions_def update_runs_def delete_runs_def intro!: update_where_none)
  have "serves d' x i" if "serves d x i" "i \<notin> set ids" for x i
    using that by (auto simp: serves_def vs)
  moreover have "uuid_gen d' = uuid_gen d" by (simp add: d' delete_versions_def update_runs_def delete_runs_def)
  ultimately have "current_ok d'"
    using assms(2) cur by (auto simp: current_ok_def src vs distinct_map_filter)
  with src vs un show ?thesis by auto
qed

definition demo_older :: knowledge_source_version where
  "demo_older = demo_version"

definition demo_newer :: knowledge_source_version where
  "demo_newer = demo_version\<lparr>kv_id := 3, kv_commit_sha := ''c2'', kv_created_at := 1,
     kv_artifact_keys := map (\<lambda>(n, f). (n, JStr (''new/'' @ f))) ARTIFACT_PATHS\<rparr>"

text \<open>A source that has moved on from commit \<open>c1\<close> to \<open>c2\<close>, with the artifacts of both in the bucket.\<close>

definition demo_moved :: db where
  "demo_moved = (empty_db 0)\<lparr>knowledge_sources := [demo_source\<lparr>ks_current_successful_version_id := Some 3\<rparr>],
     knowledge_source_versions := [demo_older, demo_newer], uuid_gen := 5\<rparr>"

definition demo_full_bucket :: bucket where
  "demo_full_bucket = demo_bucket @ map (\<lambda>(n, f). (''new/'' @ f, [1])) ARTIFACT_PATHS"

text \<open>A store that loses the connection when the second artifact is to be deleted.\<close>

definition demo_remove :: "str \<Rightarrow> bucket \<Rightarrow> str option \<times> bucket" where
  "demo_remove k b = (if k = ''source.tar.zst'' then (Some ''timed out'', b) else (None, filter (\<lambda>(x, _). x \<noteq> k) b))"

lemmas demo_version_simps = demo_older_def demo_newer_def demo_version_def demo_source_def

lemma demo_moved_served: "served demo_moved demo_full_bucket"
  by (simp add: served_defs demo_moved_def demo_version_simps serves_def has_succeeded_def artifacts_ok_def
      ARTIFACT_PATHS_def ARTIFACT_ORDER_def demo_full_bucket_def demo_bucket_def empty_db_def)

lemma demo_prunable: "prunable 1 (demo_source\<lparr>ks_current_successful_version_id := Some 3\<rparr>) demo_moved = [demo_older]"
  by (simp add: prunable_def newest_versions_def retained_version_ids_def demo_moved_def demo_version_simps Let_def)

lemma demo_pruned:
  "prune_knowledge_source_history demo_remove ''kb'' 1 demo_moved demo_full_bucket
   = ((0, 0, [''Cannot prune Knowledge Source '' @ uuid_str 1 @ '' version '' @ uuid_str 2 @ '': timed out'']), demo_moved,
      filter (\<lambda>(x, _). x \<noteq> ''graph.json'') demo_full_bucket)"
proof -
  have k: "string_keys demo_older = [''graph.json'', ''source.tar.zst'', ''graph-report.md'', ''extraction.log'', ''manifest.json'']"
    by (simp add: string_keys_def demo_version_simps ARTIFACT_PATHS_def List.map_filter_def)
  have s: "knowledge_sources demo_moved = [demo_source\<lparr>ks_current_successful_version_id := Some 3\<rparr>]" by (simp add: demo_moved_def)
  have i: "ks_id (demo_source\<lparr>ks_current_successful_version_id := Some 3\<rparr>) = 1" "kv_id demo_older = 2" by (simp_all add: demo_version_simps)
  have r: "prunable_runs n x demo_moved = []" for n x
    by (simp add: prunable_runs_def Let_def newest_runs_def demo_moved_def empty_db_def)
  have "delete_versions [] (delete_runs [] demo_moved) = demo_moved"
    by (simp add: delete_versions_def delete_runs_def update_sources_def update_runs_def delete_where_def update_where_def demo_moved_def)
  then show ?thesis
    by (simp add: prune_knowledge_source_history_def s demo_prunable [unfolded One_nat_def] i k r Let_def demo_remove_def py_strip_def py_rstrip_def
        py_lstrip_def py_isspace_def)
qed


theorem prune_keeps_current_witness:
  "\<exists>d'. snd (prune_knowledge_source_history (\<lambda>k b. (None, filter (\<lambda>(x, _). x \<noteq> k) b)) ''kb'' 1 demo_moved demo_full_bucket)
       = (d', snd (snd (prune_knowledge_source_history (\<lambda>k b. (None, filter (\<lambda>(x, _). x \<noteq> k) b)) ''kb'' 1 demo_moved demo_full_bucket)))
     \<and> current_ok d' \<and> demo_newer \<in> set (knowledge_source_versions d')"
proof -
  let ?p = "prune_knowledge_source_history (\<lambda>k b. (None, filter (\<lambda>(x, _). x \<noteq> k) b)) ''kb'' 1 demo_moved demo_full_bucket"
  obtain r d' b' where p: "?p = (r, d', b')" by (metis prod.exhaust)
  have ok: "current_ok demo_moved" using demo_moved_served by (simp add: served_def)
  have "demo_newer \<in> set (knowledge_source_versions demo_moved)" by (simp add: demo_moved_def)
  moreover have "protected 1 demo_moved demo_newer" by (simp add: protected_def demo_moved_def demo_version_simps)
  ultimately have "current_ok d'" "demo_newer \<in> set (knowledge_source_versions d')"
    using prune_keeps_current [OF p ok] by auto
  with p show ?thesis by simp
qed

section \<open>Listing a bank\<close>

lemma list_attempts_requests:
  "\<exists>n. 1 \<le> n \<and> n \<le> Suc left \<and> snd (list_attempts srv rq left sent) = sent @ replicate n rq
     \<and> (\<forall>k < n - 1. \<exists>e. srv (sent @ replicate k rq) rq = NoResponse e)"
proof (induction "left" arbitrary: sent)
  case 0
  then show ?case by (intro exI [of _ 1]) (auto split: http_response.splits)
next
  case (Suc m)
  show ?case
  proof (cases "srv sent rq")
    case (NoResponse e)
    from Suc [of "sent @ [rq]"] obtain n where n: "1 \<le> n" "n \<le> Suc m"
      "snd (list_attempts srv rq m (sent @ [rq])) = (sent @ [rq]) @ replicate n rq"
      "\<forall>k < n - 1. \<exists>e. srv ((sent @ [rq]) @ replicate k rq) rq = NoResponse e" by blast
    have "\<exists>e. srv (sent @ replicate k rq) rq = NoResponse e" if "k < n" for k
      using that n(4) NoResponse by (cases k) auto
    with NoResponse n show ?thesis by (intro exI [of _ "Suc n"]) auto
  next
    case (Response c body)
    then show ?thesis by (intro exI [of _ 1]) auto
  qed
qed

text \<open>
  Listing a bank sends between one and the configured number of requests, all the same, and
  sends a further one only after a request that got no answer: an answer, be it an error, is final.
\<close>

lemma listing_attempts_bounded:
  fixes hs :: housekeeping_settings
  defines "rq bank \<equiv> hindsight_list_request (hs_hindsight_url hs) bank"
  shows "\<exists>n. 1 \<le> n \<and> int n \<le> max 1 (hs_hindsight_request_retries hs)
     \<and> snd (list_hindsight_memories srv hs bank sent) = sent @ replicate n (rq bank)
     \<and> (\<forall>k < n - 1. \<exists>e. srv (sent @ replicate k (rq bank)) (rq bank) = NoResponse e)"
proof -
  let ?a = "nat (max 1 (if hs_hindsight_request_retries hs = 0 then 1 else hs_hindsight_request_retries hs))"
  from list_attempts_requests [of "?a - 1" srv "rq bank" sent] obtain n where
    n: "1 \<le> n" "n \<le> Suc (?a - 1)" "snd (list_attempts srv (rq bank) (?a - 1) sent) = sent @ replicate n (rq bank)"
       "\<forall>k < n - 1. \<exists>e. srv (sent @ replicate k (rq bank)) (rq bank) = NoResponse e" by blast
  moreover from n(2) have "int n \<le> max 1 (hs_hindsight_request_retries hs)" by (auto split: if_splits)
  ultimately show ?thesis unfolding list_hindsight_memories_def Let_def rq_def by blast
qed

lemma listing_attempts_bounded_witness:
  "\<exists>n. 1 \<le> n \<and> n \<le> 3 \<and> snd (list_hindsight_memories (\<lambda>_ _. NoResponse ''down'')
      \<lparr>hs_task_archive_after_days = 1, hs_task_delete_after_days = 1, hs_learning_memory_retention_days = 30,
       hs_background_job_run_history_limit = 5, hs_agent_memory_versions_to_keep = 0, hs_agent_memory_retention_days = 0,
       hs_hindsight_url = ''http://h'', hs_hindsight_request_retries = 3, hs_knowledge_source_object_store_bucket = []\<rparr> ''b'' [])
    = replicate n (hindsight_list_request ''http://h'' ''b'')"
  using listing_attempts_bounded [of "\<lparr>hs_task_archive_after_days = 1, hs_task_delete_after_days = 1, hs_learning_memory_retention_days = 30,
       hs_background_job_run_history_limit = 5, hs_agent_memory_versions_to_keep = 0, hs_agent_memory_retention_days = 0,
       hs_hindsight_url = ''http://h'', hs_hindsight_request_retries = 3, hs_knowledge_source_object_store_bucket = []\<rparr>"
      "\<lambda>_ _. NoResponse ''down''" "''b''" "[]"] by auto

end
