(* ===== verification/Platform.thy ===== *)
theory Platform
  imports Housekeeping
begin

text \<open>
  The components together: every operation that writes the shared tables, as one step relation on
  the database, and the invariant they all keep. The invariant is about what no single table
  constraint says: a task has at most one session row, and a task with a session carries the
  identifier of its runtime, so that the queue consumer never starts it a second time.
\<close>

section \<open>Sessions and runtimes\<close>

definition owners :: "db \<Rightarrow> uuid option list" where
  "owners d = map s_task_id (sessions d)"

definition places :: "db \<Rightarrow> (uuid \<times> str option) list" where
  "places d = map (\<lambda>t. (t_id t, t_container_id t)) (tasks d)"

definition one_session :: "db \<Rightarrow> bool" where
  "one_session d \<longleftrightarrow> distinct (owners d)
     \<and> (\<forall>x \<in> set (owners d). \<exists>(i, c) \<in> set (places d). x = Some i \<and> opt_truthy c)"

definition sound :: "db \<Rightarrow> bool" where
  "sound d \<longleftrightarrow> wf_db d \<and> wf_approvals d"

text \<open>
  Most operations leave sessions with their tasks and tasks with their runtimes alone.
\<close>

definition keeps :: "db \<Rightarrow> db \<Rightarrow> bool" where
  "keeps d d' \<longleftrightarrow> owners d' = owners d \<and> places d' = places d \<and> (sound d \<longrightarrow> sound d')"

named_theorems keeps_intros \<open>steps that keep sessions and runtimes\<close>

lemma keeps_refl [simp, keeps_intros]: "keeps d d"
  by (simp add: keeps_def)

lemma keeps_trans: "keeps d e \<Longrightarrow> keeps e f \<Longrightarrow> keeps d f"
  by (simp add: keeps_def)

lemma sound_cong:
  "sound d \<Longrightarrow> tasks e = tasks d \<Longrightarrow> task_events e = task_events d \<Longrightarrow> approvals e = approvals d
     \<Longrightarrow> uuid_gen d \<le> uuid_gen e \<Longrightarrow> sound e"
  using wf_db_cong wf_approvals_grow by (auto simp: sound_def)

lemma keeps_cong:
  "sessions e = sessions d \<Longrightarrow> tasks e = tasks d \<Longrightarrow> task_events e = task_events d \<Longrightarrow> approvals e = approvals d
     \<Longrightarrow> uuid_gen d \<le> uuid_gen e \<Longrightarrow> keeps d e"
  using sound_cong by (auto simp: keeps_def owners_def places_def)

lemma keeps_update_tasks [keeps_intros]:
  assumes "\<And>t. t_id (f t) = t_id t \<and> t_container_id (f t) = t_container_id t"
  shows "keeps d (update_tasks P f d)"
proof -
  have "places (update_tasks P f d) = places d"
    using assms by (simp add: places_def tasks_update_tasks map_update_where)
  moreover have "wf_db (update_tasks P f d)" if "wf_db d"
    using that assms by (intro wf_db_update_tasks) simp_all
  ultimately show ?thesis
    by (auto simp: keeps_def sound_def owners_def intro: wf_approvals_grow)
qed

lemma keeps_update_sessions [keeps_intros]:
  assumes "\<And>s. s_task_id (f s) = s_task_id s"
  shows "keeps d (update_sessions P f d)"
proof -
  have "owners (update_sessions P f d) = owners d"
    using assms by (simp add: owners_def update_sessions_def map_update_where)
  moreover have "sound (update_sessions P f d)" if "sound d"
    using that by (rule sound_cong) simp_all
  ultimately show ?thesis by (simp add: keeps_def places_def)
qed

lemma keeps_add_task_event [keeps_intros]:
  "tid \<in> set (task_ids d) \<Longrightarrow> keeps d (add_task_event tid ty x d)"
  by (auto simp: keeps_def owners_def places_def sound_def intro: wf_db_add_task_event wf_approvals_grow)

lemma keeps_add_session_event [keeps_intros]: "keeps d (add_session_event tid ty ts x d)"
  by (rule keeps_cong) simp_all

lemma keeps_task_ids: "keeps d e \<Longrightarrow> set (task_ids e) = set (task_ids d)"
proof -
  have "task_ids d = map fst (places d)" for d by (simp add: task_ids_def places_def)
  then show "keeps d e \<Longrightarrow> ?thesis" by (simp add: keeps_def)
qed

lemma keeps_complete: "complete_task tid st r n q e d = Inr d' \<Longrightarrow> keeps d d'"
  by (auto simp: complete_task_def commit_with_event_Inr
      intro!: keeps_trans [OF keeps_update_tasks keeps_add_task_event])

lemma keeps_claim: "t \<in> set (tasks d) \<Longrightarrow> keeps d (snd (claim_task now t d))"
  by (auto simp: claim_task_def Let_def in_task_ids intro!: keeps_trans [OF keeps_update_tasks keeps_add_task_event])

section \<open>Every component keeps them\<close>

lemma keeps_commit:
  assumes "\<And>t. t_id (f t) = t_id t \<and> t_container_id (f t) = t_container_id t"
    and "commit_with_event tid ty x (update_tasks P f d) = Inr d'"
  shows "keeps d d'"
  using assms(2) keeps_trans [OF keeps_update_tasks [OF assms(1)] keeps_add_task_event]
  by (auto simp: commit_with_event_Inr)

lemma keeps_mark_waiting: "mark_task_waiting now tid st reason deadline ty x d = Inr d' \<Longrightarrow> keeps d d'"
  by (auto simp: mark_task_waiting_def split: option.splits if_splits elim!: keeps_commit [rotated])

lemma keeps_mark_resume: "mark_task_resume_pending now tid reason ty x d = Inr d' \<Longrightarrow> keeps d d'"
  by (auto simp: mark_task_resume_pending_def elim!: keeps_commit [rotated])

lemma keeps_mark_running: "mark_task_running now tid reason ty x d = Inr d' \<Longrightarrow> keeps d d'"
  by (auto simp: mark_task_running_def elim!: keeps_commit [rotated])

lemma keeps_add_task_events:
  "\<forall>(tid, ty, x) \<in> set es. tid \<in> set (task_ids d) \<Longrightarrow> keeps d (add_task_events es d)"
proof (induction es arbitrary: d)
  case (Cons e es)
  obtain tid ty x where e: "e = (tid, ty, x)" by (cases e)
  have "keeps (add_task_event tid ty x d) (add_task_events es (add_task_event tid ty x d))"
    using Cons.prems e by (intro Cons.IH) auto
  with Cons.prems e show ?case
    by (auto simp: add_task_events_def intro: keeps_trans [OF keeps_add_task_event])
qed (simp add: add_task_events_def)

lemma keeps_sweep:
  assumes "\<And>t. t_id (f t) = t_id t \<and> t_container_id (f t) = t_container_id t" "set ts \<subseteq> set (tasks d)"
  shows "keeps d (add_task_events (map (\<lambda>t. (t_id t, ty, g t)) ts) (update_tasks P f d))"
  using assms by (intro keeps_trans [OF keeps_update_tasks keeps_add_task_events]) (auto simp: in_task_ids subset_iff)

lemma keeps_waiting_sweep: "keeps d (snd (waiting_timeout_sweep now d))"
  unfolding waiting_timeout_sweep_def Let_def snd_conv
  by (rule keeps_sweep) (auto simp: mark_wait_timed_out_def Let_def)

lemma keeps_maintenance_sweep: "keeps d (snd (maintenance_sweep now n d))"
  unfolding maintenance_sweep_def Let_def snd_conv
  by (rule keeps_sweep) (auto simp: mark_lost_def)

lemma keeps_close_session: "keeps d (close_session st now q e x d)"
  by (auto simp: close_session_def intro!: keeps_update_sessions split: option.split)

lemma keeps_mark_one:
  assumes "\<And>r. t_id (f r) = t_id r \<and> t_container_id (f r) = t_container_id r" "tid \<in> set (task_ids d)"
  shows "keeps d (add_task_event tid ty y (close_session st now q e x (update_tasks P f d)))"
  using assms by (intro keeps_trans [OF keeps_update_tasks keeps_trans [OF keeps_close_session keeps_add_task_event]])
    (simp_all add: task_ids_def tasks_update_tasks map_update_where)

lemma keeps_lost_loop:
  "lost_loop pkg now ts d = Inr (ids, d') \<Longrightarrow> t_id ` set ts \<subseteq> set (task_ids d) \<Longrightarrow> keeps d d'"
proof (induction ts arbitrary: d ids)
  case (Cons t ts)
  have m: "keeps d (mark_one_lost now n t d)" for n
    unfolding mark_one_lost_def Let_def using Cons.prems(2) by (intro keeps_mark_one) simp_all
  from Cons.prems show ?case
    by (auto simp: bind_res_Inr_iff keeps_task_ids [OF m] dest!: Cons.IH intro: keeps_trans [OF m] split: if_splits)
qed simp

lemma keeps_timeout_loop:
  "timeout_loop pkg now ts d = Inr (ids, d') \<Longrightarrow> t_id ` set ts \<subseteq> set (task_ids d) \<Longrightarrow> keeps d d'"
proof (induction ts arbitrary: d ids)
  case (Cons t ts)
  have m: "keeps d (mark_one_timed_out now n t x d)" for n x
    unfolding mark_one_timed_out_def Let_def using Cons.prems(2) by (intro keeps_mark_one) simp_all
  from Cons.prems show ?case
    by (auto simp: bind_res_Inr_iff Let_def keeps_task_ids [OF m] dest!: Cons.IH intro: keeps_trans [OF m] split: if_splits)
qed simp

lemma keeps_monitor_pass: "monitor_pass st pkg now d = (acts, d') \<Longrightarrow> keeps d d'"
proof -
  assume h: "monitor_pass st pkg now d = (acts, d')"
  have l: "keeps d e" if "lost_task_sweep pkg now d = Inr (ids, e)" for ids e
    using that by (auto simp: lost_task_sweep_def in_task_ids intro!: keeps_lost_loop)
  have r: "keeps e f" if "runtime_timeout_sweep pkg now e = Inr (ids, f)" for e ids f
    using that by (auto simp: runtime_timeout_sweep_def in_task_ids intro!: keeps_timeout_loop)
  show ?thesis
  proof (cases "lost_task_sweep pkg now d")
    case (Inr x)
    then obtain ids e where e: "lost_task_sweep pkg now d = Inr (ids, e)" by (cases x) simp
    show ?thesis
    proof (cases "runtime_timeout_sweep pkg now e")
      case (Inr y)
      then obtain ids2 f where f: "runtime_timeout_sweep pkg now e = Inr (ids2, f)" by (cases y) simp
      have "d' = snd (waiting_timeout_sweep now f)"
        using h e f by (simp add: monitor_pass_def split: prod.splits)
      with l [OF e] r [OF f] keeps_waiting_sweep [of f now] show ?thesis by (blast intro: keeps_trans)
    qed (use h e l [OF e] in \<open>simp add: monitor_pass_def\<close>)
  qed (use h in \<open>simp add: monitor_pass_def\<close>)
qed

lemma keeps_apply_approval_event: "keeps d (snd (apply_approval_event d t tid ty ts p))"
proof -
  have s: "sessions (snd (apply_approval_event d t tid ty ts p)) = sessions d"
    by (simp add: apply_approval_event_def apply_permission_callback_def apply_approval_requested_def
        apply_approval_result_def Let_def store_approval_def insert_approval_def split: option.split)
  have "sound (snd (apply_approval_event d t tid ty ts p))" if "sound d"
    using that wf_db_cong [of d "snd (apply_approval_event d t tid ty ts p)"] apply_approval_event_gen
    by (simp add: sound_def wf_apply_approval_event)
  with s show ?thesis by (simp add: keeps_def owners_def places_def)
qed

lemma keeps_record_approval_result:
  assumes "record_approval_result now t a b r w u rep src d = Inr (a', d')"
  shows "keeps d d'"
proof -
  let ?p = "result_payload (a_tool_name a) b src r w u rep"
  let ?d = "add_session_event (Some (t_id t)) ''approval_result'' now ?p d"
  let ?e = "snd (apply_approval_event ?d (Some t) (Some (t_id t)) ''approval_result'' now (Some ?p))"
  have "keeps d ?e" by (rule keeps_trans [OF keeps_add_session_event keeps_apply_approval_event])
  moreover have "d' = ?e \<or> (\<exists>ty ts x. d' = add_session_event (Some (t_id t)) ty ts x ?e)"
    using assms by (auto simp: record_approval_result_def Let_def split: prod.splits option.splits if_splits)
  ultimately show ?thesis by (auto intro: keeps_trans [OF _ keeps_add_session_event])
qed

lemma keeps_resolve_pending: "resolve_pending ts now dec u p c src t a d = Inr (r, d') \<Longrightarrow> keeps d d'"
  unfolding resolve_pending_def Let_def bind_res_Inr_iff
  by (auto dest!: keeps_record_approval_result intro: keeps_trans [OF keeps_add_session_event])

lemma keeps_resolve: "resolve_approval_action now ctx u p c src d = Inr (r, d') \<Longrightarrow> keeps d d'"
proof -
  assume h: "resolve_approval_action now ctx u p c src d = Inr (r, d')"
  then obtain i where i: "uuid_of_str (text_or_empty (dget ctx ''approval_id'')) = Some i"
    unfolding resolve_approval_action_def Let_def by (auto split: if_splits option.splits)
  with h obtain a where a: "get_approval d i = Some a"
    unfolding resolve_approval_action_def Let_def by (auto split: if_splits option.splits)
  from h i a show "keeps d d'"
    by (rule resolve_cases) (auto intro: keeps_resolve_pending)
qed

lemma keeps_message_approval_action: "message_approval_action st now ctx u p c d = Inr (j, d') \<Longrightarrow> keeps d d'"
  unfolding message_approval_action_def bind_res_Inr_iff
  by (auto dest: keeps_resolve split: if_splits sum.splits prod.splits py_error.splits)

lemma keeps_prompt:
  assumes "prompt_for_event st post now ty t ap d = Inr (r, d')" "\<forall>a. ap = Some a \<longrightarrow> a \<in> set (approvals d)"
  shows "keeps d d'"
proof -
  have "sessions d' = sessions d"
  proof (cases "ty = ''approval_requested'' \<and> can_deliver_approval_prompt st (Some t)")
    case True
    with assms(1) have "ensure_approval_prompt_posted st post now (Some t) ap d = Inr (r, d')"
      by (simp add: prompt_for_event_def)
    from ensure_cases [OF this] show ?thesis
      by (auto simp: record_delivery_def set_delivery_def store_approval_def Let_def)
  qed (use assms(1) in \<open>auto simp: prompt_for_event_def\<close>)
  moreover have "sound d'" if "sound d"
    using that prompt_frame [OF assms(1)] assms(2) wf_db_cong [of d d'] by (simp add: sound_def)
  ultimately show ?thesis
    using prompt_frame [OF assms(1)] by (simp add: keeps_def owners_def places_def)
qed

lemma outcome_updates_container: "outcome_updates ty data t = Inr f \<Longrightarrow> t_container_id (f r) = t_container_id r"
  by (auto simp: outcome_updates_def session_failure_def bind_res_Inr_iff Let_def split: if_splits option.splits)

lemma keeps_receive_task_event:
  assumes "receive_task_event st post now ts ty data t d = Inr d'"
  shows "keeps d d'"
proof -
  let ?d1 = "add_session_event (Some (t_id t)) ty ts data d"
  from assms obtain ap0 d2 ap d3 f where
    a: "apply_approval_event ?d1 (Some t) (Some (t_id t)) ty ts (Some data) = (ap0, d2)" and
    p: "prompt_for_event st post now ty t ap0 d2 = Inr (ap, d3)" and
    u: "outcome_updates ty data t = Inr f" and
    d': "d' = update_tasks (\<lambda>r. t_id r = t_id t)
       (\<lambda>r. f (wait_updates now ty (case ap of None \<Rightarrow> False | Some a \<Rightarrow> a_status a = ''pending'') (r\<lparr>t_heartbeat := Some now\<rparr>))) d3"
    by (rule receive_task_event_cases)
  have "keeps ?d1 d2" using keeps_apply_approval_event [of ?d1 "Some t" "Some (t_id t)" ty ts "Some data"] a by simp
  moreover have "keeps d2 d3" using a by (intro keeps_prompt [OF p]) (auto dest: apply_approval_event_row)
  moreover have "keeps d3 d'" unfolding d'
    using outcome_updates_spec [OF u] outcome_updates_container [OF u]
    by (intro keeps_update_tasks) (simp add: wait_updates_def)
  ultimately show ?thesis by (blast intro: keeps_trans keeps_add_session_event)
qed

lemma keeps_receive_event: "receive_event st post now ev d = Inr d' \<Longrightarrow> keeps d d'"
  unfolding receive_event_def bind_res_Inr_iff
  by (auto dest: keeps_receive_task_event intro: keeps_add_session_event split: option.splits)

lemma keeps_record_exit: "keeps d (snd (record_exit now rs d))"
proof (cases "uuid_of_str (rs_task_id rs)")
  case (Some tid)
  have f: "keeps e (finish_sessions tid st now q err e)" for q st err e
    unfolding finish_sessions_def by (rule keeps_update_sessions) simp
  have b: "keeps e (record_breakdown tid x i out n q e)" for x i out n q e
  proof (cases x)
    case (Some m)
    show ?thesis unfolding record_breakdown_def Some option.case
      by (rule keeps_trans [OF keeps_update_tasks keeps_update_sessions]) simp_all
  qed (simp add: record_breakdown_def)
  have "snd (record_exit now rs d) = d \<or> (\<exists>st x m q err d1 i out n. complete_task tid st x m q err d = Inr d1
      \<and> snd (record_exit now rs d) = record_breakdown tid x i out n q (finish_sessions tid st now q err d1))"
    unfolding record_exit_def Let_def Some option.case by (simp split: sum.split prod.split) blast
  then show ?thesis
  proof (elim disjE exE conjE)
    fix st x m q err d1 i out n
    assume "complete_task tid st x m q err d = Inr d1"
      and eq: "snd (record_exit now rs d) = record_breakdown tid x i out n q (finish_sessions tid st now q err d1)"
    from keeps_trans [OF keeps_complete [OF this(1)] keeps_trans [OF f b]] show ?thesis unfolding eq .
  qed simp
qed (simp add: record_exit_def Let_def)

lemma keeps_monitor_runtimes:
  "monitor_runtimes st now backup cleanup rss rc d = (posts, rc', d') \<Longrightarrow> keeps d d'"
proof (induction rss arbitrary: rc d posts)
  case (Cons rs rss)
  show ?case
  proof (cases "rs_status rs = ''exited''")
    case True
    obtain x d1 where r: "record_exit now rs d = (x, d1)" by fastforce
    have k: "keeps d d1" using keeps_record_exit [of d now rs] r by simp
    from Cons.prems True r have "d' = d1 \<or> (\<exists>rc2 posts2. monitor_runtimes st now backup cleanup rss rc2 d1 = (posts2, rc', d'))"
      by (auto simp: Let_def split: prod.splits if_splits)
    with Cons.IH k show ?thesis by (blast intro: keeps_trans)
  qed (use Cons in simp)
qed simp

section \<open>The invariant\<close>

definition platform_inv :: "db \<Rightarrow> bool" where
  "platform_inv d \<longleftrightarrow> wf_db d \<and> wf_approvals d \<and> one_session d"

lemma inv_keeps: "platform_inv d \<Longrightarrow> keeps d d' \<Longrightarrow> platform_inv d'"
  by (simp add: platform_inv_def keeps_def sound_def one_session_def)

lemma one_session_grow:
  "one_session d \<Longrightarrow> owners d' = owners d \<Longrightarrow> set (places d) \<subseteq> set (places d') \<Longrightarrow> one_session d'"
  unfolding one_session_def by (simp add: Bex_def) blast

lemma inv_create_task:
  assumes "platform_inv d" "create_task pkg now w p ch md mc mt key win d = Inr (t, d')"
  shows "platform_inv d'"
proof (cases "coalesce_target now key win d")
  case None
  from create_task_newI [OF assms(2) None] obtain md' mc' where
    t: "t = new_task d w p md' ch mc' mt key" and
    d': "d' = add_task_event (t_id t) ''task_created'' [(''workflow'', JStr w), (''metadata'', JObj md')] (insert_task t d)" .
  have "owners d' = owners d" "set (places d) \<subseteq> set (places d')"
    by (auto simp: d' owners_def places_def insert_task_def)
  moreover have "wf_approvals d'"
    by (rule wf_approvals_grow [of d]) (use assms(1) in \<open>simp_all add: platform_inv_def d' insert_task_def\<close>)
  ultimately show ?thesis
    using assms(1) wf_db_create_task [OF _ assms(2)] one_session_grow [of d d'] unfolding platform_inv_def by simp
next
  case (Some et)
  from create_task_mergeI [OF assms(2) Some] obtain md' m where
    d': "d' = add_task_event (t_id et) ''alert_coalesced'' [(''new_metadata'', JObj md')]
           (update_tasks (\<lambda>t. t_id t = t_id et) (\<lambda>t. t\<lparr>t_metadata := m\<rparr>) d)" .
  have "keeps d d'" unfolding d'
    using coalesce_target_SomeD [OF Some]
    by (intro keeps_trans [OF keeps_update_tasks keeps_add_task_event]) (simp_all add: in_task_ids)
  with assms(1) show ?thesis by (rule inv_keeps)
qed

lemma inv_handle_message:
  assumes "platform_inv d" "handle_message w g m d sent = (r, d', sent')"
  shows "platform_inv d'"
proof -
  have start: "platform_inv e" if "start_message_task w m route prompt d sent = (x, e, y)" for route prompt x e y
    using that assms(1) unfolding start_message_task_def Let_def create_message_task_def
    by (auto split: prod.splits sum.splits option.splits intro: inv_create_task)
  have "platform_inv (snd (record_question_reply m d))"
    using assms(1) inv_keeps keeps_add_session_event by (auto simp: record_question_reply_def split: option.split)
  with assms start show ?thesis
    by (auto simp: handle_message_def route_message_def split: if_splits sum.splits option.splits prod.splits)
qed

lemma inv_handle_event:
  assumes "platform_inv d" "handle_event w g e d sent = (r, d', sent')"
  shows "platform_inv d'"
proof (cases e)
  case (InteractiveAction a)
  have "d' = d \<or> (\<exists>x. resolve_approval_action (ou_now w) (ia_context a) (ia_user_id a) (ia_post_id a)
      (ia_channel_id a) ''slack_interactive'' d = Inr (x, d'))"
    using assms(2) unfolding InteractiveAction handle_event.simps handle_interactive_action_def
    by (auto split: if_splits sum.splits prod.splits py_error.splits)
  with assms(1) show ?thesis by (auto intro: inv_keeps keeps_resolve)
qed (use assms inv_handle_message in auto)

lemma inv_schedule_job:
  assumes "platform_inv d" "schedule_job_handler cron pkg now a s p ch d = (r, d')"
  shows "platform_inv d'"
proof -
  have "platform_inv (e\<lparr>schedules := x\<rparr>)" if "platform_inv e" for e x
    using that by (rule inv_keeps) (rule keeps_cong, simp_all)
  with assms show ?thesis
    unfolding schedule_job_handler_def
    by (auto split: sum.splits option.splits prod.splits if_splits dest: inv_create_task)
qed

lemma keeps_sync_loop: "sync_loop existing i vs configured d = Inr (c, d') \<Longrightarrow> keeps d d'"
proof (induction vs arbitrary: configured d)
  case (Cons v vs)
  have s: "keeps d (d\<lparr>schedules := x\<rparr>)" "keeps d (d\<lparr>schedules := x, uuid_gen := Suc (uuid_gen d)\<rparr>)" for x
    by (rule keeps_cong; simp)+
  from Cons.prems obtain cfg where v: "v = JObj cfg" by (cases v) auto
  from Cons.prems Cons.IH show ?case
    by (auto simp: v Let_def split: if_splits option.splits) (blast intro: keeps_trans [OF s(1)] keeps_trans [OF s(2)])+
qed simp

lemma keeps_sync_schedules: "sync_schedules n cfg d = Inr d' \<Longrightarrow> keeps d d'"
proof -
  have s: "keeps d (d\<lparr>schedules := x\<rparr>)" for d x by (rule keeps_cong) simp_all
  show "sync_schedules n cfg d = Inr d' \<Longrightarrow> ?thesis"
    by (auto simp: sync_schedules_def bind_res_Inr_iff Let_def dest!: keeps_sync_loop intro: keeps_trans [OF _ s]
        split: option.splits)
qed

lemma keeps_update_agents: "keeps d (update_agents P f d)"
  by (rule keeps_cong) (simp_all add: update_agents_def)

lemma keeps_register_workflow: "keeps d (register_workflow now wf0 d)"
proof -
  have "keeps d (d\<lparr>agents := x, uuid_gen := Suc (uuid_gen d)\<rparr>)" for x by (rule keeps_cong) simp_all
  then show ?thesis
    by (auto simp: register_workflow_def Let_def intro: keeps_update_agents split: prod.split option.split)
qed

lemma keeps_provision_loop: "provision_loop now ws d = Inr d' \<Longrightarrow> keeps d d'"
proof (induction ws arbitrary: d)
  case (Cons x ws)
  obtain r config raw where x: "x = (r, config, raw)" by (cases x)
  from Cons.prems obtain d2 where "sync_schedules (config_name config) (get_default config ''schedules'' (JList []))
      (register_workflow now (r, config, raw) d) = Inr d2" and l: "provision_loop now ws d2 = Inr d'"
    by (auto simp: x bind_res_Inr_iff)
  then have "keeps d d2" using keeps_trans [OF keeps_register_workflow keeps_sync_schedules] by blast
  then show ?case using Cons.IH [OF l] by (rule keeps_trans)
qed simp

lemma keeps_provisioner_scan: "run_provisioner_scan now ws d = Inr d' \<Longrightarrow> keeps d d'"
proof -
  assume "run_provisioner_scan now ws d = Inr d'"
  then obtain d1 where l: "provision_loop now ws d = Inr d1" and
    d': "d' = fold (\<lambda>a e. if ag_name a \<in> set (discovered_names ws) then e
           else case find (\<lambda>b. ag_id b = ag_id a) (agents e) of Some b \<Rightarrow> retire_agent b e | None \<Rightarrow> e) (agents d) d1"
    by (auto simp: run_provisioner_scan_def bind_res_Inr_iff)
  have s: "keeps d (d\<lparr>schedules := x\<rparr>)" for d x by (rule keeps_cong) simp_all
  have r: "keeps e (retire_agent b e)" for b e
    by (auto simp: retire_agent_def Let_def intro: keeps_trans [OF keeps_update_agents s] s)
  have "keeps e (fold (\<lambda>a e. if ag_name a \<in> ns then e
           else case find (\<lambda>b. ag_id b = ag_id a) (agents e) of Some b \<Rightarrow> retire_agent b e | None \<Rightarrow> e) as e)" for ns as e
    by (induction as arbitrary: e) (auto intro: keeps_trans [OF r] split: option.split)
  then show "keeps d d'" unfolding d' using keeps_provision_loop [OF l] by (blast intro: keeps_trans)
qed

section \<open>Starting a runtime\<close>

lemma inv_record_launch:
  assumes "platform_inv d" "record_launch now tid h d = Inr d'" "fst h \<noteq> []"
    and "get_task d tid = Some t" "\<not> opt_truthy (t_container_id t)"
  shows "platform_inv d'"
proof -
  from assms(1) have wf: "wf_db d" by (simp add: platform_inv_def)
  let ?d1 = "update_tasks (\<lambda>t. t_id t = tid) (\<lambda>t. t\<lparr>t_container_id := Some (fst h), t_session_id := Some (snd h)\<rparr>) d"
  have d': "d' = ?d1\<lparr>sessions := sessions d @ [new_session ?d1 now tid (fst h)], uuid_gen := Suc (uuid_gen d)\<rparr>"
    and known: "tid \<in> set (task_ids d)"
    using assms(2) by (auto simp: record_launch_def Let_def split: if_splits)
  have own: "owners d' = owners d @ [Some tid]" by (simp add: d' owners_def new_session_def)
  have pl: "places d' = map (\<lambda>(i, c). (i, if i = tid then Some (fst h) else c)) (places d)"
    by (simp add: d' places_def tasks_update_tasks update_where_def)
  have new: "Some tid \<notin> set (owners d)"
  proof
    assume "Some tid \<in> set (owners d)"
    with assms(1) obtain c where "(tid, c) \<in> set (places d)" "opt_truthy c" by (auto simp: platform_inv_def one_session_def)
    with get_task_in [OF wf] assms(4,5) show False by (auto simp: places_def)
  qed
  have "\<exists>(i, c) \<in> set (places d'). x = Some i \<and> opt_truthy c" if "x \<in> set (owners d')" for x
  proof (cases "x = Some tid")
    case True
    obtain c where "(tid, c) \<in> set (places d)" using known by (auto simp: task_ids_def places_def)
    then have "(tid, Some (fst h)) \<in> set (places d')" unfolding pl by force
    with True assms(3) show ?thesis by (intro bexI [of _ "(tid, Some (fst h))"]) (simp_all add: opt_truthy_def)
  next
    case False
    with that assms(1) obtain i c where "(i, c) \<in> set (places d)" "x = Some i" "opt_truthy c"
      by (fastforce simp: own platform_inv_def one_session_def)
    moreover from this False have "(i, c) \<in> set (places d')" unfolding pl by force
    ultimately show ?thesis by blast
  qed
  then have "one_session d'" using assms(1) new by (simp add: one_session_def own platform_inv_def)
  moreover have "wf_db ?d1" using wf by (rule wf_db_update_tasks) simp
  then have "wf_db d'" by (rule wf_db_cong) (simp_all add: d')
  moreover have "wf_approvals d'"
    by (rule wf_approvals_grow [of d]) (use assms(1) in \<open>simp_all add: platform_inv_def d'\<close>)
  ultimately show ?thesis by (simp add: platform_inv_def)
qed

definition names_runtimes :: "spawn_env \<Rightarrow> bool" where
  "names_runtimes sp \<longleftrightarrow> (\<forall>spec h. sp_launch sp spec = Inr h \<longrightarrow> fst h \<noteq> [])"

lemma inv_consume_task:
  assumes "platform_inv d" "names_runtimes sp" "get_task d (t_id t) = Some u" "t_container_id u = t_container_id t"
    and "consume_task sp pkg now live t rc d = Inr (x, rc', d')"
  shows "platform_inv d'"
proof (cases "opt_truthy (t_container_id t)")
  case True
  with assms(1,5) show ?thesis
    by (auto simp: consume_task_def bind_res_Inr_iff split: if_splits dest: keeps_complete intro: inv_keeps)
next
  case False
  with assms(5) obtain h where sp: "spawn_agent_session sp pkg now t rc d = Inr (h, rc', d')"
    by (auto simp: consume_task_def bind_res_Inr_iff)
  have failed: "platform_inv d'" if "spawn_failed (t_id t) y d = Inr (h, rc', d')" for y
    using that assms(1) by (auto simp: spawn_failed_def bind_res_Inr_iff dest: keeps_complete intro: inv_keeps)
  have "platform_inv d'" if "launch_session sp pkg t = Inr k" "record_launch now (t_id t) k d = Inr d'" for k
  proof -
    from that(1) assms(2) have "fst k \<noteq> []" by (cases k) (auto simp: launch_session_def bind_res_Inr_iff names_runtimes_def)
    with inv_record_launch [OF assms(1) that(2) _ assms(3)] assms(4) False show ?thesis by simp
  qed
  with failed sp show ?thesis
    by (auto simp: spawn_agent_session_def Let_def split: sum.splits)
qed

lemma inv_consumer_pass:
  assumes "platform_inv d" "names_runtimes sp" "consumer_pass sp pkg pm locked now clock discover live c d = (r, c', d')"
  shows "platform_inv d'"
proof -
  have "platform_inv e \<and> (\<forall>x rc rc' f. consume_task sp pkg now live t rc e = Inr (x, rc', f) \<longrightarrow> platform_inv f)"
    if q: "dequeue_task a locked now d = Inr (Some (t, e))" for a t e
  proof -
    from q obtain u where lp: "dequeue_loop a locked 0 [] d = Some u" and cl: "(t, e) = claim_task now u d"
      by (rule dequeue_task_SomeE)
    from dequeue_loop_sound [OF lp] have u: "u \<in> set (tasks d)" by simp
    have e: "e = snd (claim_task now u d)" using cl by (metis snd_conv)
    have ie: "platform_inv e" unfolding e using assms(1) by (rule inv_keeps) (rule keeps_claim [OF u])
    have "get_task d (t_id u) = Some u" using assms(1) u by (intro get_task_in) (simp_all add: platform_inv_def)
    with tasks_claim_task [OF cl [symmetric]]
    have "\<exists>v. get_task e (t_id t) = Some v \<and> t_container_id v = t_container_id t"
      by (simp add: get_task_def find_update_where)
    with inv_consume_task [OF ie assms(2)] ie show ?thesis by blast
  qed
  with assms(1,3) show ?thesis
    unfolding consumer_pass_def Let_def by (fastforce split: sum.splits prod.splits option.splits)
qed

section \<open>Rerunning and deleting a task\<close>

lemma delete_where_subset: "set (delete_where P xs) \<subseteq> set xs"
  by (auto simp: delete_where_def)

lemma owners_drop_runs: "owners (drop_runs i d) = filter (\<lambda>x. x \<noteq> Some i) (owners d)"
  by (simp add: owners_def drop_runs_def delete_where_def filter_map comp_def)

lemma drop_runs_frame [simp]:
  "tasks (drop_runs i d) = tasks d" "task_events (drop_runs i d) = task_events d" "approvals (drop_runs i d) = approvals d"
  "uuid_gen (drop_runs i d) = uuid_gen d" "db_now (drop_runs i d) = db_now d" "task_ids (drop_runs i d) = task_ids d"
  by (simp_all add: drop_runs_def task_ids_def)

lemma inv_rerun:
  assumes "platform_inv d" "rerun_task_api s d = Inr (j, d')"
  shows "platform_inv d'"
proof -
  from assms(2) obtain i where d': "d' = update_tasks (\<lambda>u. t_id u = i) reset_task (drop_runs i d)"
    by (auto simp: rerun_task_api_def bind_res_Inr_iff Let_def split: option.splits if_splits)
  have own: "owners d' = filter (\<lambda>x. x \<noteq> Some i) (owners d)"
    using owners_drop_runs [of i d] by (simp add: d' owners_def)
  have pl: "places d' = map (\<lambda>(k, c). (k, if k = i then None else c)) (places d)"
    by (simp add: d' places_def tasks_update_tasks update_where_def reset_task_def)
  have "one_session d'"
    using assms(1) unfolding platform_inv_def one_session_def own pl by (force simp: image_iff)
  moreover have "wf_db (drop_runs i d)" by (rule wf_db_cong [of d]) (use assms(1) in \<open>simp_all add: platform_inv_def\<close>)
  then have "wf_db d'" unfolding d' by (rule wf_db_update_tasks) (simp add: reset_task_def)
  moreover have "wf_approvals d'"
    by (rule wf_approvals_grow [of d]) (use assms(1) in \<open>simp_all add: platform_inv_def d'\<close>)
  ultimately show ?thesis by (simp add: platform_inv_def)
qed

lemma wf_approvals_delete:
  assumes "wf_approvals d" "approvals d' = filter P (approvals d)" "uuid_gen d' = uuid_gen d"
  shows "wf_approvals d'"
  using assms by (auto simp: wf_approvals_def open_unique_def list_all_iff distinct_map_filter)

lemma wf_db_delete_row: "wf_db d \<Longrightarrow> wf_db (delete_task_row i d)"
  by (auto simp: wf_db_def delete_task_row_def delete_where_def task_ids_def list_all_iff distinct_map_filter)

lemma inv_delete:
  assumes "platform_inv d" "delete_task_api cancel s d = Inr (j, d')"
  shows "platform_inv d'"
proof -
  from assms(2) obtain i where d': "d' = delete_task_row i (drop_runs i d)"
    by (auto simp: delete_task_api_def bind_res_Inr_iff split: option.splits)
  have own: "owners d' = filter (\<lambda>x. x \<noteq> Some i) (owners d)"
    using owners_drop_runs [of i d] by (simp add: d' delete_task_row_def owners_def)
  have pl: "places d' = filter (\<lambda>(k, c). k \<noteq> i) (places d)"
    by (simp add: d' delete_task_row_def places_def delete_where_def filter_map comp_def)
  have "one_session d'"
    using assms(1) unfolding platform_inv_def one_session_def own pl by force
  moreover have "wf_db (drop_runs i d)" by (rule wf_db_cong [of d]) (use assms(1) in \<open>simp_all add: platform_inv_def\<close>)
  then have "wf_db d'" unfolding d' by (rule wf_db_delete_row)
  moreover have "wf_approvals d'"
    by (rule wf_approvals_delete [of d _ "\<lambda>a. a_task_id a \<noteq> i"])
      (use assms(1) in \<open>simp_all add: platform_inv_def d' delete_task_row_def delete_where_def\<close>)
  ultimately show ?thesis by (simp add: platform_inv_def)
qed

section \<open>Retention\<close>

lemma wf_approvals_stamp:
  assumes "wf_approvals d" "approvals d' = update_where P (\<lambda>a. a\<lparr>a_archived_at := s\<rparr>) (approvals d)" "uuid_gen d' = uuid_gen d"
  shows "wf_approvals d'"
proof -
  have "map a_id (approvals d') = map a_id (approvals d)" by (simp add: assms(2) map_update_where)
  then have d: "distinct (map a_id (approvals d'))" using assms(1) by (simp add: wf_approvals_def)
  have row: "\<exists>a \<in> set (approvals d). a_id a = a_id x \<and> a_status a = a_status x \<and> a_task_id a = a_task_id x \<and> a_tool_name a = a_tool_name x"
    if "x \<in> set (approvals d')" for x
    using that by (force simp: assms(2) set_update_where)
  have "open_unique (approvals d')"
    unfolding open_unique_def list_all_iff
  proof (intro ballI impI)
    fix x y
    assume "x \<in> set (approvals d')" "y \<in> set (approvals d')"
      and e: "a_status x = ''pending'' \<and> a_status y = ''pending'' \<and> a_task_id x = a_task_id y \<and> a_tool_name x = a_tool_name y"
    then obtain a b where "a \<in> set (approvals d)" "b \<in> set (approvals d)" "a_id a = a_id x" "a_id b = a_id y"
      "a_status a = ''pending''" "a_status b = ''pending''" "a_task_id a = a_task_id b" "a_tool_name a = a_tool_name b"
      by (metis row)
    with assms(1) show "a_id x = a_id y" unfolding wf_approvals_def open_unique_def list_all_iff by metis
  qed
  moreover have "a_id x < uuid_gen d' \<and> tool_ok x" if "x \<in> set (approvals d')" for x
    using row [OF that] assms(1,3) by (auto simp: wf_approvals_def list_all_iff tool_ok_def)
  ultimately show ?thesis using d by (simp add: wf_approvals_def list_all_iff)
qed

lemma keeps_stamp_runs: "keeps d (stamp_runs s ids d)"
proof -
  have "wf_approvals (stamp_runs s ids d)" if "wf_approvals d"
    by (rule wf_approvals_stamp [OF that]) (simp_all add: stamp_runs_def)
  moreover have "wf_db (stamp_runs s ids d)" if "wf_db d"
    by (rule wf_db_cong [OF that]) (simp_all add: stamp_runs_def)
  ultimately show ?thesis
    by (simp add: keeps_def sound_def owners_def places_def) (simp add: stamp_runs_def map_update_where)
qed

lemma keeps_archive: "archive_terminal_tasks n now d = (k, d') \<Longrightarrow> keeps d d'"
  by (erule archive_cases) (auto intro!: keeps_trans [OF keeps_sweep keeps_stamp_runs])

lemma inv_delete_tasks:
  assumes "platform_inv d"
  shows "platform_inv (delete_tasks ids d)"
proof -
  have own: "owners (delete_tasks ids d) = filter (\<lambda>x. x \<notin> Some ` set ids) (owners d)"
    by (simp add: owners_def delete_tasks_def delete_where_def filter_map comp_def)
  have pl: "places (delete_tasks ids d) = filter (\<lambda>(k, c). k \<notin> set ids) (places d)"
    by (simp add: places_def delete_tasks_def delete_where_def filter_map comp_def)
  have "one_session (delete_tasks ids d)"
    using assms unfolding platform_inv_def one_session_def own pl by force
  moreover have "wf_db (delete_tasks ids d)"
    using assms by (auto simp: platform_inv_def wf_db_def delete_tasks_def delete_where_def task_ids_def list_all_iff distinct_map_filter)
  moreover have "wf_approvals (delete_tasks ids d)"
    by (rule wf_approvals_delete [of d _ "\<lambda>a. a_task_id a \<notin> set ids"])
      (use assms in \<open>simp_all add: platform_inv_def delete_tasks_def delete_where_def\<close>)
  ultimately show ?thesis by (simp add: platform_inv_def)
qed

lemma inv_housekeeping:
  assumes "platform_inv d" "run_housekeeping_once hs env d b sent = (r, d', b', sent')"
  shows "platform_inv d'"
  using assms(2)
proof (rule run_housekeeping_tasks)
  fix k d1 l d2
  assume p: "archive_terminal_tasks (hs_task_archive_after_days hs) (he_now env) d = (k, d1)"
    "delete_archived_tasks (hs_task_delete_after_days hs) (he_now env) d1 = (l, d2)" "task_tables d' = task_tables d2"
  have "platform_inv d1" by (rule inv_keeps [OF assms(1) keeps_archive [OF p(1)]])
  moreover from p(2) have "d2 = d1 \<or> (\<exists>ids. d2 = delete_tasks ids d1)" by (cases rule: delete_cases) auto
  ultimately have "platform_inv d2" by (auto intro: inv_delete_tasks)
  then show ?thesis
    by (rule inv_keeps) (rule keeps_cong, use p(3) in \<open>simp_all add: task_tables_def\<close>)
qed

section \<open>The platform as a transition system\<close>

text \<open>
  The operations that write tasks, sessions or approvals, each with whatever arguments and
  environment it is called with; time may pass between them. The order is arbitrary.
\<close>

inductive platform_step :: "db \<Rightarrow> db \<Rightarrow> bool" where
  time_passes: "platform_step d (d\<lparr>db_now := t\<rparr>)"
| task_created: "create_task pkg now w p ch md mc mt key win d = Inr (t, d') \<Longrightarrow> platform_step d d'"
| queue_consumed: "consumer_pass sp pkg pm locked now clock discover live c d = (r, c', d') \<Longrightarrow> names_runtimes sp
     \<Longrightarrow> platform_step d d'"
| heartbeat_received: "platform_step d (heartbeat now tid d)"
| wait_started: "mark_task_waiting now tid st reason deadline ty x d = Inr d' \<Longrightarrow> platform_step d d'"
| resume_requested: "mark_task_resume_pending now tid reason ty x d = Inr d' \<Longrightarrow> platform_step d d'"
| resumed: "mark_task_running now tid reason ty x d = Inr d' \<Longrightarrow> platform_step d d'"
| event_received: "receive_event st post now ev d = Inr d' \<Longrightarrow> platform_step d d'"
| runtimes_monitored: "monitor_runtimes st now backup cleanup rss rc d = (posts, rc', d') \<Longrightarrow> platform_step d d'"
| heartbeats_monitored: "monitor_pass st pkg now d = (acts, d') \<Longrightarrow> platform_step d d'"
| queue_swept: "maintenance_sweep now n d = (ids, d') \<Longrightarrow> platform_step d d'"
| approval_clicked: "message_approval_action st now ctx u p c d = Inr (j, d') \<Longrightarrow> platform_step d d'"
| message_received: "handle_event w g e d sent = (r, d', sent') \<Longrightarrow> platform_step d d'"
| schedule_fired: "schedule_job_handler cron pkg now a s p ch d = (r, d') \<Longrightarrow> platform_step d d'"
| workflows_scanned: "run_provisioner_scan now ws d = Inr d' \<Longrightarrow> platform_step d d'"
| task_rerun: "rerun_task_api s d = Inr (j, d') \<Longrightarrow> platform_step d d'"
| task_deleted: "delete_task_api cancel s d = Inr (j, d') \<Longrightarrow> platform_step d d'"
| housekeeping_ran: "run_housekeeping_once hs env d b sent = (r, d', b', sent') \<Longrightarrow> platform_step d d'"

inductive reachable :: "db \<Rightarrow> bool" where
  initial: "reachable (empty_db t)"
| step: "reachable d \<Longrightarrow> platform_step d d' \<Longrightarrow> reachable d'"

lemma inv_platform_step: "platform_step d d' \<Longrightarrow> platform_inv d \<Longrightarrow> platform_inv d'"
proof (induction rule: platform_step.induct)
  case (time_passes d t)
  then show ?case by (rule inv_keeps) (rule keeps_cong, simp_all)
next
  case (heartbeat_received d now tid)
  then show ?case by (rule inv_keeps) (auto simp: heartbeat_def intro!: keeps_update_tasks)
next
  case (queue_swept now n d ids d')
  then show ?case using keeps_maintenance_sweep [of d now n] by (auto intro: inv_keeps)
next
  case (task_created pkg now w p ch md mc mt key win d t d')
  then show ?case by (blast intro: inv_create_task)
next
  case (queue_consumed sp pkg pm locked now clock discover live c d r c' d')
  then show ?case by (blast intro: inv_consumer_pass)
next
  case (message_received w g e d sent r d' sent')
  then show ?case by (blast intro: inv_handle_event)
next
  case (schedule_fired cron pkg now a s p ch d r d')
  then show ?case by (blast intro: inv_schedule_job)
next
  case (task_rerun s d j d')
  then show ?case by (blast intro: inv_rerun)
next
  case (task_deleted cancel s d j d')
  then show ?case by (blast intro: inv_delete)
next
  case (housekeeping_ran hs env d b sent r d' b' sent')
  then show ?case by (blast intro: inv_housekeeping)
qed (blast intro: inv_keeps keeps_mark_waiting keeps_mark_resume keeps_mark_running keeps_receive_event
    keeps_monitor_runtimes keeps_monitor_pass keeps_message_approval_action keeps_provisioner_scan)+

lemma inv_empty: "platform_inv (empty_db t)"
  using wf_empty_db by (simp add: platform_inv_def wf_approvals_def open_unique_def one_session_def owners_def)
    (simp add: empty_db_def)

lemma inv_reachable: "reachable d \<Longrightarrow> platform_inv d"
  by (induction rule: reachable.induct) (auto intro: inv_empty inv_platform_step)

lemma filter_key_atmost_1: "distinct (map f xs) \<Longrightarrow> length (filter (\<lambda>x. f x = k) xs) \<le> 1"
proof (induction xs)
  case (Cons x xs)
  then have "f x = k \<Longrightarrow> filter (\<lambda>x. f x = k) xs = []" by (auto simp: filter_empty_conv image_iff)
  with Cons show ?case by auto
qed simp

lemma filter_owner: "distinct (owners d) \<Longrightarrow> length (filter (\<lambda>s. s_task_id s = Some i) (sessions d)) \<le> 1"
  unfolding owners_def by (rule filter_key_atmost_1)

end
