(* ===== verification/Session_Settings.thy ===== *)
theory Session_Settings
  imports Task_Api Json_Order
begin

text \<open>
  How the session runtime prepares a session (\<open>runtime/session_entrypoint.py\<close>): the size limit of
  reported texts, the snapshot reported when a session ends early, and the staging of Claude's
  project settings (hooks, sandbox, credential denies, permission patterns, default agent). A
  settings file is what its reader sees (\<open>json_file\<close>); an operation returns the file it leaves.
\<close>

section \<open>The size limit of reported texts\<close>

definition MAX_INLINE_SIZE :: nat where
  "MAX_INLINE_SIZE = 10 * 1024"

definition TRUNCATION_MARKER :: str where
  "TRUNCATION_MARKER = CHR 0x0A # ''...[truncated by runtime harness]''"

text \<open>
  \<open>bytes.decode("utf-8", errors="ignore")\<close> for encodings of code points below 256: an ASCII byte
  is its character, a lead byte C2 or C3 with a continuation byte one character, anything else is
  dropped.
\<close>

fun utf8_decode_ignore :: "8 word list \<Rightarrow> str" where
  "utf8_decode_ignore [] = []"
| "utf8_decode_ignore [a] = (if unat a < 128 then [char_of (unat a)] else [])"
| "utf8_decode_ignore (a # b # bs) =
     (if unat a < 128 then char_of (unat a) # utf8_decode_ignore (b # bs)
      else if unat a \<in> {194, 195} \<and> unat b \<in> {128..191}
      then char_of ((unat a - 192) * 64 + (unat b - 128)) # utf8_decode_ignore bs
      else utf8_decode_ignore (b # bs))"

definition truncate_event_text :: "str \<Rightarrow> nat \<Rightarrow> str" where
  "truncate_event_text value limit =
     (let encoded = utf8 value in
      if length encoded \<le> limit then value
      else utf8_decode_ignore (take (limit - length (utf8 TRUNCATION_MARKER)) encoded) @ TRUNCATION_MARKER)"

section \<open>The progress of a session\<close>

record denial =
  dn_tool_name :: str
  dn_tool_input :: json
  dn_reason :: str

record progress_state =
  ps_input_tokens :: int
  ps_output_tokens :: int
  ps_turns :: int
  ps_total_cost_usd :: rat
  ps_model_usage :: json
  ps_total_messages :: int
  ps_last_assistant_message :: str
  ps_last_result_text :: str
  ps_last_interim_result_text :: "str option"
  ps_last_ask_user_question_turn :: "int option"
  ps_ask_user_question_reminder_sent :: bool
  ps_active_human_waits :: "(str \<times> str \<times> time) list"
  ps_approval_denied :: "denial option"

text \<open>The state before the session runs; the readers take a missing entry for zero or empty.\<close>

definition initial_progress :: progress_state where
  "initial_progress = \<lparr>ps_input_tokens = 0, ps_output_tokens = 0, ps_turns = 0, ps_total_cost_usd = 0,
     ps_model_usage = JObj [], ps_total_messages = 0, ps_last_assistant_message = [], ps_last_result_text = [],
     ps_last_interim_result_text = None, ps_last_ask_user_question_turn = None,
     ps_ask_user_question_reminder_sent = False, ps_active_human_waits = [], ps_approval_denied = None\<rparr>"

definition build_terminal_event_payload :: "progress_state \<Rightarrow> str \<Rightarrow> dict" where
  "build_terminal_event_payload ps error =
     (let payload = [(''error'', JStr (truncate_event_text error MAX_INLINE_SIZE)),
            (''input_tokens'', JInt (ps_input_tokens ps)), (''output_tokens'', JInt (ps_output_tokens ps)),
            (''turns'', JInt (ps_turns ps)), (''total_messages'', JInt (ps_total_messages ps)),
            (''total_cost_usd'', JFloat (ps_total_cost_usd ps)),
            (''model_usage'', py_or (ps_model_usage ps) (JObj []))];
          assistant = py_strip (ps_last_assistant_message ps);
          result = py_strip (ps_last_result_text ps);
          preview = \<lambda>key s. if s \<noteq> [] then [(key, JStr (take 2000 s))] else [];
          large = \<lambda>key s. if s \<noteq> [] then [(key, JStr (truncate_event_text s MAX_INLINE_SIZE))] else []
      in payload @ preview ''last_assistant_message_preview'' assistant
         @ preview ''last_result_text_preview'' result
         @ large ''last_assistant_message'' assistant @ large ''last_result_text'' result)"

definition terminal_error_text :: "str \<Rightarrow> progress_state \<Rightarrow> str" where
  "terminal_error_text error ps =
     (if \<not> py_contains error ''Claude Code returned an error result'' then error
      else let result_text = py_strip (ps_last_result_text ps) in if result_text \<noteq> [] then result_text else error)"

section \<open>Claude's project settings\<close>

fun load_json_settings :: "json_file \<Rightarrow> dict" where
  "load_json_settings (Json (JObj d)) = d"
| "load_json_settings f = []"

definition load_claude_settings :: "json_file \<Rightarrow> dict" where
  "load_claude_settings = load_json_settings"

definition load_project_mcp_servers_config :: "json_file \<Rightarrow> dict option" where
  "load_project_mcp_servers_config f =
     (case dget (load_json_settings f) ''mcpServers'' of
        JObj servers \<Rightarrow> if servers = [] then None else Some [(''mcpServers'', JObj servers)]
      | _ \<Rightarrow> None)"

text \<open>The registrations of one event: those on file without repetitions, then the new ones.\<close>

fun keep_new_matchers :: "json list \<Rightarrow> str list \<Rightarrow> json list \<times> str list" where
  "keep_new_matchers [] seen = ([], seen)"
| "keep_new_matchers (m # ms) seen =
     (let key = json_dumps_sorted m in
      if key \<in> set seen then keep_new_matchers ms seen
      else let (kept, seen') = keep_new_matchers ms (key # seen) in (m # kept, seen'))"

definition merge_matchers :: "json \<Rightarrow> json list \<Rightarrow> json list \<times> bool" where
  "merge_matchers current_matchers matchers =
     (let current = (case current_matchers of JList xs \<Rightarrow> xs | _ \<Rightarrow> []);
          (kept, seen) = keep_new_matchers current [];
          (added, _) = keep_new_matchers matchers seen
      in (kept @ added, length kept \<noteq> length current))"

text \<open>The loop over the hook map: the merged hooks and whether anything changed.\<close>

fun merge_hook_map :: "dict \<Rightarrow> dict \<Rightarrow> bool \<Rightarrow> dict \<times> bool" where
  "merge_hook_map [] existing changed = (existing, changed)"
| "merge_hook_map ((event_name, matchers) # hook_map) existing changed =
     (case matchers of
        JList ms \<Rightarrow>
          let (merged, dropped) = merge_matchers (dget existing event_name) ms
          in if py_eq (dget existing event_name) (JList merged)
             then merge_hook_map hook_map existing (changed \<or> dropped)
             else merge_hook_map hook_map (dset event_name (JList merged) existing) True
      | _ \<Rightarrow> merge_hook_map hook_map existing changed)"

definition merge_plugin_hooks :: "json_file \<Rightarrow> json_file \<Rightarrow> json_file res" where
  "merge_plugin_hooks hooks_file settings_file =
     (case hooks_file of
        NoFile \<Rightarrow> Inr settings_file
      | NotJson \<Rightarrow> Inr settings_file
      | Json (JObj hooks_config) \<Rightarrow>
          (case get_default hooks_config ''hooks'' (JObj hooks_config) of
             JObj hook_map \<Rightarrow>
               let settings = load_claude_settings settings_file;
                   existing_hooks = obj_or_empty (dget settings ''hooks'');
                   (merged, changed) = merge_hook_map hook_map existing_hooks False
               in Inr (if changed then Json (JObj (dset ''hooks'' (JObj merged) settings)) else settings_file)
           | _ \<Rightarrow> Inr settings_file)
      | Json _ \<Rightarrow> Inl (AttributeError ''get''))"

definition apply_runtime_claude_settings_overrides :: "str \<Rightarrow> bool \<Rightarrow> json_file \<Rightarrow> json_file res" where
  "apply_runtime_claude_settings_overrides weaker_nested bubblewrap_supported settings_file =
     (let settings = load_claude_settings settings_file in
      case dget settings ''sandbox'' of
        JObj sandbox \<Rightarrow>
          if \<not> truthy (dget sandbox ''enabled'') then Inr settings_file
          else if py_lower weaker_nested \<in> set [''1'', ''true'', ''yes'', ''on'']
          then let filesystem = obj_or_empty (dget sandbox ''filesystem'');
                   allow_write = (case dget filesystem ''allowWrite'' of JList xs \<Rightarrow> xs | _ \<Rightarrow> []);
                   allow_write' = (if JStr ''/memory'' \<in> set allow_write then allow_write
                                   else allow_write @ [JStr ''/memory'']);
                   sandbox' = dset ''filesystem'' (JObj (dset ''allowWrite'' (JList allow_write') filesystem))
                     (dset ''allowUnsandboxedCommands'' (JBool False)
                       (dset ''failIfUnavailable'' (JBool True)
                         (dset ''enableWeakerNestedSandbox'' (JBool True) sandbox)))
               in Inr (Json (JObj (dset ''sandbox'' (JObj sandbox') settings)))
          else if bubblewrap_supported then Inr settings_file
          else Inl (RuntimeError ''Claude sandbox requires Bubblewrap support in this runtime isolation mode'')
      | _ \<Rightarrow> Inr settings_file)"

section \<open>Credential denies\<close>

definition CREDENTIAL_PLACEHOLDER_PREFIX :: str where
  "CREDENTIAL_PLACEHOLDER_PREFIX = ''EXAMPLE_''"

definition live_secret_name :: "str \<Rightarrow> bool" where
  "live_secret_name name \<longleftrightarrow> name \<noteq> [] \<and> \<not> py_startswith name CREDENTIAL_PLACEHOLDER_PREFIX"

text \<open>
  The declared names of one configuration file. A file that cannot be read is skipped; one whose
  document is neither empty nor a mapping has no \<open>get\<close>.
\<close>

fun declared_secrets :: "json_file \<Rightarrow> str list res" where
  "declared_secrets (Json v) =
     bind_res (case py_or v (JObj []) of JObj data \<Rightarrow> Inr (get_default data ''secrets'' (JObj []))
                                      | _ \<Rightarrow> Inl (AttributeError ''get''))
       (\<lambda>secrets. Inr (case secrets of JObj d \<Rightarrow> filter live_secret_name (map fst d) | _ \<Rightarrow> []))"
| "declared_secrets f = Inr []"

definition collect_secret_env_keys :: "str list \<Rightarrow> json_file \<Rightarrow> json_file \<Rightarrow> str list res" where
  "collect_secret_env_keys secret_env_keys agent_yaml platform_config =
     bind_res (declared_secrets agent_yaml) (\<lambda>a.
     bind_res (declared_secrets platform_config) (\<lambda>p.
       Inr (remdups (filter live_secret_name secret_env_keys @ a @ p))))"

definition authored_entry :: "json \<Rightarrow> (str \<times> str) option" where
  "authored_entry entry =
     (case entry of
        JObj e \<Rightarrow>
          (case dget e ''name'' of
             JStr name \<Rightarrow>
               if live_secret_name name
               then Some (name, case dget e ''mode'' of JStr mode \<Rightarrow> if mode \<noteq> [] then mode else ''deny'' | _ \<Rightarrow> ''deny'')
               else None
           | _ \<Rightarrow> None)
      | _ \<Rightarrow> None)"

definition authored_modes :: "json list \<Rightarrow> (str \<times> str) list" where
  "authored_modes existing_entries =
     fold (\<lambda>entry merged. case authored_entry entry of
         None \<Rightarrow> merged | Some (name, mode) \<Rightarrow> AList.update name mode merged) existing_entries []"

definition add_denies :: "str list \<Rightarrow> (str \<times> str) list \<Rightarrow> (str \<times> str) list" where
  "add_denies names merged =
     fold (\<lambda>name m. if live_secret_name name \<and> map_of m name = None then AList.update name ''deny'' m else m)
       names merged"

definition build_credential_envvars :: "str list \<Rightarrow> json list \<Rightarrow> (str \<times> str) list" where
  "build_credential_envvars discovered_keys existing_entries =
     (let merged = add_denies discovered_keys (authored_modes existing_entries)
      in map (\<lambda>name. (name, the (map_of merged name))) (sort (map fst merged)))"

definition envvar_entry :: "str \<times> str \<Rightarrow> json" where
  "envvar_entry nm = JObj [(''name'', JStr (fst nm)), (''mode'', JStr (snd nm))]"

definition apply_secret_credential_denies :: "str list \<Rightarrow> json_file \<Rightarrow> json_file \<Rightarrow> json_file \<Rightarrow> json_file res" where
  "apply_secret_credential_denies secret_env_keys agent_yaml platform_config settings_file =
     (let settings = load_claude_settings settings_file in
      case dget settings ''sandbox'' of
        JObj sandbox \<Rightarrow>
          let credentials = obj_or_empty (dget sandbox ''credentials'');
              current = (case dget credentials ''envVars'' of JList xs \<Rightarrow> xs | _ \<Rightarrow> [])
          in bind_res (collect_secret_env_keys secret_env_keys agent_yaml platform_config) (\<lambda>discovered.
               let envvars = build_credential_envvars discovered current
               in if envvars = [] then Inr settings_file
                  else Inr (Json (JObj (dset ''sandbox''
                         (JObj (dset ''credentials''
                           (JObj (dset ''envVars'' (JList (map envvar_entry envvars)) credentials)) sandbox)) settings))))
      | _ \<Rightarrow> Inr settings_file)"

section \<open>Command line, permissions and default agent\<close>

definition resolve_claude_cli_path :: "str \<Rightarrow> str option \<Rightarrow> str res" where
  "resolve_claude_cli_path configured discovered =
     (let configured_path = py_strip configured in
      if configured_path \<noteq> [] then Inr configured_path
      else if opt_truthy discovered then Inr (opt_str discovered)
      else Inl (RuntimeError ''Claude CLI not found on PATH; runtime requires the image-installed claude binary''))"

definition load_permission_config :: "json_file \<Rightarrow> (json \<times> json) res" where
  "load_permission_config settings_file =
     (case get_default (load_claude_settings settings_file) ''permissions'' (JObj []) of
        JObj permissions \<Rightarrow> Inr (get_default permissions ''ask'' (JList []), get_default permissions ''deny'' (JList []))
      | _ \<Rightarrow> Inl (AttributeError ''get''))"

definition resolve_default_agent :: "json_file \<Rightarrow> str option" where
  "resolve_default_agent settings_file =
     (case dget (load_claude_settings settings_file) ''agent'' of
        JStr agent \<Rightarrow> if py_strip agent \<noteq> [] then Some (py_strip agent) else None
      | _ \<Rightarrow> None)"

text \<open>The last three steps of \<open>_prepare_workspace\<close>, which work on the staged settings file.\<close>

definition stage_settings ::
    "str \<Rightarrow> bool \<Rightarrow> str list \<Rightarrow> json_file \<Rightarrow> json_file \<Rightarrow> json_file \<Rightarrow> json_file \<Rightarrow> json_file res" where
  "stage_settings weaker_nested bubblewrap_supported secret_env_keys agent_yaml platform_config hooks_file settings_file =
     bind_res (merge_plugin_hooks hooks_file settings_file) (\<lambda>f.
     bind_res (apply_runtime_claude_settings_overrides weaker_nested bubblewrap_supported f) (\<lambda>g.
     apply_secret_credential_denies secret_env_keys agent_yaml platform_config g))"

section \<open>Truncation keeps a prefix within the limit\<close>

lemma utf8_simps [simp]: "utf8 [] = []" "utf8 (c # s) = utf8_char c @ utf8 s" "utf8 (s @ t) = utf8 s @ utf8 t"
  by (simp_all add: utf8_def)

lemma utf8_char_cases:
  obtains (one) "(of_char c :: nat) < 128" "utf8_char c = [of_nat (of_char c)]"
  | (two) "128 \<le> (of_char c :: nat)"
      "utf8_char c = [of_nat (192 + of_char c div 64), of_nat (128 + of_char c mod 64)]"
  by (cases "(of_char c :: nat) < 128") (simp_all add: utf8_char_def Let_def)

lemma of_char_less: "(of_char c :: nat) < 256"
  using of_char_mod_256 [of c] by (metis mod_less_divisor zero_less_numeral)

lemma unat_byte: "n < 256 \<Longrightarrow> unat (of_nat n :: 8 word) = n"
  by (simp add: unat_of_nat)

lemma decode_char: "utf8_decode_ignore (utf8_char c @ bs) = c # utf8_decode_ignore bs"
proof (cases c rule: utf8_char_cases)
  case one
  then show ?thesis by (cases bs) (simp_all add: unat_byte)
next
  case two
  let ?n = "of_char c :: nat"
  have b: "?n < 256" by (rule of_char_less)
  then have "?n div 64 < 4" by linarith
  then have d: "?n div 64 \<in> {2, 3}" using two(1) by auto
  have a: "unat (of_nat (192 + ?n div 64) :: 8 word) = 192 + ?n div 64" using b by (intro unat_byte) linarith
  have m: "unat (of_nat (128 + ?n mod 64) :: 8 word) = 128 + ?n mod 64" by (intro unat_byte) linarith
  have "?n div 64 * 64 + ?n mod 64 = ?n" by simp
  then have "char_of (?n div 64 * 64 + ?n mod 64) = c" by simp
  moreover have "192 + ?n div 64 \<in> {194, 195}" "128 + ?n mod 64 \<in> {128..191}" using d by auto
  ultimately show ?thesis by (simp only: two(2) append_Cons append_Nil utf8_decode_ignore.simps a m) simp
qed

lemma decode_cut: "128 \<le> n \<Longrightarrow> n < 256 \<Longrightarrow> utf8_decode_ignore [of_nat n] = []"
  by (simp add: unat_byte)

text \<open>Decoding the first \<open>n\<close> bytes gives the longest prefix of the text whose encoding fits.\<close>

lemma decode_take:
  "\<exists>k \<le> length s. utf8_decode_ignore (take n (utf8 s)) = take k s \<and> length (utf8 (take k s)) \<le> n
     \<and> (k < length s \<longrightarrow> n < length (utf8 (take (Suc k) s)))"
proof (induction s arbitrary: n)
  case (Cons c s)
  show ?case
  proof (cases "n < length (utf8_char c)")
    case True
    have "utf8_decode_ignore (take n (utf8_char c)) = []"
    proof (cases c rule: utf8_char_cases)
      case two
      then have "n = 0 \<or> n = 1" using True by auto
      moreover have "192 + (of_char c :: nat) div 64 < 256" using of_char_less [of c] by linarith
      then have "utf8_decode_ignore [of_nat (192 + of_char c div 64)] = []" by (intro decode_cut) simp_all
      ultimately show ?thesis using two(2) by auto
    qed (use True in simp)
    then show ?thesis using True by (intro exI [of _ 0]) simp
  next
    case False
    then obtain m where m: "n = length (utf8_char c) + m" using le_Suc_ex not_less by blast
    from Cons [of m] obtain k where "k \<le> length s" "utf8_decode_ignore (take m (utf8 s)) = take k s"
      "length (utf8 (take k s)) \<le> m" "k < length s \<longrightarrow> m < length (utf8 (take (Suc k) s))" by blast
    then show ?thesis by (intro exI [of _ "Suc k"]) (simp add: m decode_char)
  qed
qed simp

lemma utf8_ascii_length: "list_all (\<lambda>c. (of_char c :: nat) < 128) s \<Longrightarrow> length (utf8 s) = length s"
  by (induction s) (auto simp: utf8_char_def)

lemma marker_length: "length (utf8 TRUNCATION_MARKER) = 34"
  by (simp add: TRUNCATION_MARKER_def utf8_char_def)

text \<open>
  A reported text never exceeds its limit in bytes: it is the text itself when that fits, and
  otherwise the longest prefix of it that leaves room for the truncation marker, never a broken
  character.
\<close>

lemma truncate_event_text_bounded:
  assumes "34 \<le> limit"
  shows "length (utf8 (truncate_event_text value limit)) \<le> limit
    \<and> (if length (utf8 value) \<le> limit then truncate_event_text value limit = value
       else \<exists>k < length value. truncate_event_text value limit = take k value @ TRUNCATION_MARKER
              \<and> limit < length (utf8 (take (Suc k) value)) + 34)"
proof (cases "length (utf8 value) \<le> limit")
  case False
  obtain k where k: "k \<le> length value" "utf8_decode_ignore (take (limit - 34) (utf8 value)) = take k value"
    "length (utf8 (take k value)) \<le> limit - 34"
    "k < length value \<longrightarrow> limit - 34 < length (utf8 (take (Suc k) value))"
    using decode_take by blast
  have "k \<noteq> length value" using k(3) False by auto
  with k False assms show ?thesis by (auto simp: truncate_event_text_def marker_length intro!: exI [of _ k])
qed (simp add: truncate_event_text_def)

lemma truncate_event_text_bounded_witness:
  "34 \<le> MAX_INLINE_SIZE \<and> length (utf8 (truncate_event_text (replicate 20000 CHR 0xE9) MAX_INLINE_SIZE)) \<le> MAX_INLINE_SIZE
   \<and> (\<exists>k < 20000. truncate_event_text (replicate 20000 CHR 0xE9) MAX_INLINE_SIZE
         = replicate k CHR 0xE9 @ TRUNCATION_MARKER)"
proof -
  have len: "length (utf8 (replicate n CHR 0xE9)) = 2 * n" for n by (induction n) (simp_all add: utf8_char_def)
  show ?thesis
    using truncate_event_text_bounded [of MAX_INLINE_SIZE "replicate 20000 CHR 0xE9"]
    by (auto simp: MAX_INLINE_SIZE_def len min_def split: if_splits)
qed

section \<open>Every declared secret is denied\<close>

lemma distinct_authored: "distinct (map fst (authored_modes entries))"
proof -
  have "distinct (map fst m) \<Longrightarrow> distinct (map fst (fold (\<lambda>entry merged. case authored_entry entry of
         None \<Rightarrow> merged | Some (name, mode) \<Rightarrow> AList.update name mode merged) es m))" for es m
    by (induction es arbitrary: m) (auto simp: distinct_update split: option.split)
  then show ?thesis by (simp add: authored_modes_def)
qed

lemma map_of_add_denies:
  "map_of (add_denies names m) name =
     (case map_of m name of Some mode \<Rightarrow> Some mode
      | None \<Rightarrow> if name \<in> set names \<and> live_secret_name name then Some ''deny'' else None)"
proof (induction names arbitrary: m)
  case (Cons n ns)
  have "add_denies (n # ns) m =
      add_denies ns (if live_secret_name n \<and> map_of m n = None then AList.update n ''deny'' m else m)"
    by (simp add: add_denies_def)
  with Cons show ?case by (auto simp: update_conv' split: option.split)
qed (simp add: add_denies_def split: option.split)

lemma distinct_add_denies: "distinct (map fst m) \<Longrightarrow> distinct (map fst (add_denies names m))"
proof (induction names arbitrary: m)
  case (Cons n ns)
  have "add_denies (n # ns) m =
      add_denies ns (if live_secret_name n \<and> map_of m n = None then AList.update n ''deny'' m else m)"
    by (simp add: add_denies_def)
  with Cons show ?case by (simp add: distinct_update)
qed (simp add: add_denies_def)

text \<open>The list is sorted by name, each name once, and carries the merged modes.\<close>

lemma build_credential_envvars_spec:
  "map fst (build_credential_envvars names entries) = sort (map fst (add_denies names (authored_modes entries)))"
  "distinct (map fst (build_credential_envvars names entries))"
  "map_of (build_credential_envvars names entries) name = map_of (add_denies names (authored_modes entries)) name"
proof -
  let ?m = "add_denies names (authored_modes entries)"
  show a: "map fst (build_credential_envvars names entries) = sort (map fst ?m)"
    by (simp add: build_credential_envvars_def Let_def o_def)
  show "distinct (map fst (build_credential_envvars names entries))"
    by (simp add: a distinct_add_denies distinct_authored)
  have "map_of (map (\<lambda>k. (k, the (map_of ?m k))) ks) name
      = (if name \<in> set ks then Some (the (map_of ?m name)) else None)" for ks
    by (induction ks) auto
  then have "map_of (build_credential_envvars names entries) name
      = (if name \<in> fst ` set ?m then Some (the (map_of ?m name)) else None)"
    by (simp add: build_credential_envvars_def Let_def)
  moreover have "name \<in> fst ` set ?m \<longleftrightarrow> map_of ?m name \<noteq> None" by (simp add: map_of_eq_None_iff)
  ultimately show "map_of (build_credential_envvars names entries) name = map_of ?m name" by auto
qed

lemma live_collected:
  "collect_secret_env_keys keys ay pc = Inr names \<Longrightarrow> name \<in> set names \<Longrightarrow> live_secret_name name"
proof -
  assume c: "collect_secret_env_keys keys ay pc = Inr names" and n: "name \<in> set names"
  have d: "declared_secrets f = Inr ns \<Longrightarrow> n \<in> set ns \<Longrightarrow> live_secret_name n" for f ns n
    by (cases f) (auto simp: bind_res_Inr_iff split: json.splits)
  from c n show ?thesis
    by (auto simp: collect_secret_env_keys_def bind_res_Inr_iff dest: d)
qed

text \<open>The credential entries a settings file holds, and their names.\<close>

definition credential_entries :: "json_file \<Rightarrow> json list" where
  "credential_entries f =
     (case dget (obj_or_empty (dget (obj_or_empty (dget (load_claude_settings f) ''sandbox'')) ''credentials'')) ''envVars''
      of JList xs \<Rightarrow> xs | _ \<Rightarrow> [])"

definition entry_name :: "json \<Rightarrow> json" where
  "entry_name e = dget (obj_or_empty e) ''name''"

lemma entry_name_envvar [simp]: "entry_name (envvar_entry nm) = JStr (fst nm)"
  by (simp add: entry_name_def envvar_entry_def dget_def get_default_def)

lemma filter_entries:
  "distinct (map fst xs) \<Longrightarrow> map_of xs name = Some mode \<Longrightarrow>
     filter (\<lambda>e. entry_name e = JStr name) (map envvar_entry xs) = [envvar_entry (name, mode)]"
proof (induction xs)
  case (Cons x xs)
  have "name \<notin> fst ` set ys \<Longrightarrow> filter (\<lambda>e. entry_name e = JStr name) (map envvar_entry ys) = []" for ys
    by (induction ys) auto
  with Cons show ?case by (cases x) (auto split: if_splits)
qed simp


lemma apply_denies_total:
  "collect_secret_env_keys keys ay pc = Inr names \<Longrightarrow> \<exists>g. apply_secret_credential_denies keys ay pc f = Inr g"
  by (auto simp: apply_secret_credential_denies_def Let_def split: json.split)

definition demo_claude_settings :: json_file where
  "demo_claude_settings = Json (JObj [(''sandbox'', JObj [(''enabled'', JBool True), (''credentials'', JObj [(''envVars'',
     JList [JObj [(''name'', JStr ''EXAMPLE_SECRET'')], JObj [(''name'', JStr ''DEBUG_KEY''), (''mode'', JStr ''allow'')]])])])])"

definition demo_agent_yaml :: json_file where
  "demo_agent_yaml = Json (JObj [(''secrets'', JObj [(''SPLUNK_TOKEN'', JStr ''vault''), (''EXAMPLE_TOKEN'', JStr ''x'')])])"

definition demo_platform_config :: json_file where
  "demo_platform_config = Json (JObj [(''secrets'', JObj [(''DEBUG_KEY'', JStr ''vault'')])])"


section \<open>Merging the plugin's hooks\<close>

lemma keep_new_matchers_spec:
  "keep_new_matchers ms seen = (kept, seen') \<Longrightarrow>
     set seen' = set seen \<union> json_dumps_sorted ` set ms \<and> set kept \<subseteq> set ms
     \<and> json_dumps_sorted ` set kept = json_dumps_sorted ` set ms - set seen \<and> distinct (map json_dumps_sorted kept)"
proof (induction ms seen arbitrary: kept seen' rule: keep_new_matchers.induct)
  case (2 m ms seen)
  show ?case
  proof (cases "json_dumps_sorted m \<in> set seen")
    case True
    with 2(3) have "keep_new_matchers ms seen = (kept, seen')" by (simp add: Let_def)
    from 2(1) [OF refl True this] True show ?thesis by auto
  next
    case False
    with 2(3) obtain rest where r: "keep_new_matchers ms (json_dumps_sorted m # seen) = (rest, seen')" "kept = m # rest"
      by (auto simp: Let_def split: prod.splits)
    from 2(2) [OF refl False r(1)] False r(2) show ?thesis by auto
  qed
qed simp

lemma keep_new_matchers_all:
  "distinct (map json_dumps_sorted ms) \<Longrightarrow> json_dumps_sorted ` set ms \<inter> set seen = {} \<Longrightarrow>
     fst (keep_new_matchers ms seen) = ms"
proof (induction ms arbitrary: seen)
  case (Cons m ms)
  then have "fst (keep_new_matchers ms (json_dumps_sorted m # seen)) = ms" by auto
  with Cons.prems show ?case by (auto simp: Let_def split: prod.split)
qed simp

lemma keep_new_matchers_none:
  "json_dumps_sorted ` set ms \<subseteq> set seen \<Longrightarrow> keep_new_matchers ms seen = ([], seen)"
  by (induction ms) (auto simp: Let_def)

lemma merge_matchers_spec:
  assumes "merge_matchers (JList current) ms = (merged, dropped)"
  shows "distinct (map json_dumps_sorted merged)" "set merged \<subseteq> set current \<union> set ms"
    "json_dumps_sorted ` set merged = json_dumps_sorted ` (set current \<union> set ms)"
proof -
  obtain kept seen added seen' where k: "keep_new_matchers current [] = (kept, seen)"
      "keep_new_matchers ms seen = (added, seen')" "merged = kept @ added"
    using assms by (auto simp: merge_matchers_def Let_def split: prod.splits)
  from keep_new_matchers_spec [OF k(1)] keep_new_matchers_spec [OF k(2)] k(3)
  show "distinct (map json_dumps_sorted merged)" "set merged \<subseteq> set current \<union> set ms"
    "json_dumps_sorted ` set merged = json_dumps_sorted ` (set current \<union> set ms)"
    by (auto simp: image_Un)
qed

text \<open>Merging the same registrations into the result changes nothing.\<close>

lemma merge_matchers_again:
  assumes "merge_matchers v ms = (merged, dropped)"
  shows "merge_matchers (JList merged) ms = (merged, False)"
proof -
  let ?current = "case v of JList xs \<Rightarrow> xs | _ \<Rightarrow> []"
  have "merge_matchers (JList ?current) ms = (merged, dropped)" using assms by (simp add: merge_matchers_def)
  note spec = merge_matchers_spec [OF this]
  obtain kept seen where k: "keep_new_matchers merged [] = (kept, seen)" by fastforce
  have kept: "kept = merged" using keep_new_matchers_all [OF spec(1), of "[]"] k by simp
  have "set seen = json_dumps_sorted ` set merged" using keep_new_matchers_spec [OF k] by simp
  then have "keep_new_matchers ms seen = ([], seen)" using spec(3) by (intro keep_new_matchers_none) auto
  then show ?thesis by (simp add: merge_matchers_def k kept)
qed

text \<open>What the loop leaves for an event, and that a second run over its result leaves it as it is.\<close>

definition merged_event :: "json \<Rightarrow> json \<Rightarrow> json" where
  "merged_event current matchers =
     (case matchers of
        JList ms \<Rightarrow> let merged = JList (fst (merge_matchers current ms)) in if py_eq current merged then current else merged
      | _ \<Rightarrow> current)"

definition after_event :: "str \<Rightarrow> json \<Rightarrow> dict \<Rightarrow> dict" where
  "after_event event matchers existing =
     (case matchers of
        JList ms \<Rightarrow> let merged = JList (fst (merge_matchers (dget existing event) ms))
          in if py_eq (dget existing event) merged then existing else dset event merged existing
      | _ \<Rightarrow> existing)"

lemma merge_hook_map_step:
  "\<exists>changed'. merge_hook_map ((event, m) # hook_map) existing changed
     = merge_hook_map hook_map (after_event event m existing) changed'"
  by (cases m) (auto simp: after_event_def Let_def split: prod.split)

lemma dget_after_event:
  "dget (after_event event m existing) k = (if k = event then merged_event (dget existing event) m else dget existing k)"
  by (cases m) (simp_all add: after_event_def merged_event_def Let_def)

lemma after_event_again:
  assumes "unique_keys (merged_event (dget existing event) m)"
  shows "dget e' event = merged_event (dget existing event) m \<Longrightarrow> after_event event m e' = e'"
proof (cases m)
  case (JList ms)
  assume e: "dget e' event = merged_event (dget existing event) m"
  let ?merged = "JList (fst (merge_matchers (dget existing event) ms))"
  show ?thesis
  proof (cases "py_eq (dget existing event) ?merged")
    case True
    with e show ?thesis by (simp add: JList merged_event_def after_event_def Let_def)
  next
    case False
    then have d: "dget e' event = ?merged" using e by (simp add: JList merged_event_def Let_def)
    have "merge_matchers ?merged ms = (fst (merge_matchers (dget existing event) ms), False)"
      using merge_matchers_again [of "dget existing event" ms] by (metis prod.collapse)
    moreover have "unique_keys ?merged" using assms False by (simp add: JList merged_event_def Let_def)
    ultimately show ?thesis by (simp add: JList after_event_def d py_eq_refl del: unique_keys.simps py_eq.simps)
  qed
qed (simp_all add: after_event_def)

lemma merge_hook_map_event:
  "distinct (map fst hook_map) \<Longrightarrow>
     dget (fst (merge_hook_map hook_map existing changed)) event =
       (case map_of hook_map event of None \<Rightarrow> dget existing event | Some m \<Rightarrow> merged_event (dget existing event) m)"
proof (induction hook_map arbitrary: existing changed)
  case (Cons em hook_map)
  obtain e m where em: "em = (e, m)" by fastforce
  obtain ch where step: "merge_hook_map (em # hook_map) existing changed = merge_hook_map hook_map (after_event e m existing) ch"
    using merge_hook_map_step em by blast
  have "map_of hook_map e = None" using Cons.prems em by (simp add: map_of_eq_None_iff)
  then show ?case unfolding step using Cons em by (auto simp: dget_after_event split: option.split)
qed simp

lemma merge_hook_map_again:
  assumes "distinct (map fst hook_map)"
    and "\<And>event m. (event, m) \<in> set hook_map \<Longrightarrow>
      unique_keys (merged_event (dget existing event) m) \<and> dget e' event = merged_event (dget existing event) m"
  shows "fst (merge_hook_map hook_map e' changed) = e'"
  using assms
proof (induction hook_map arbitrary: changed)
  case (Cons em hook_map)
  obtain e m where em: "em = (e, m)" by fastforce
  have h: "unique_keys (merged_event (dget existing e) m)" "dget e' e = merged_event (dget existing e) m"
    using Cons.prems(2) [of e m] em by simp_all
  have "after_event e m e' = e'" by (rule after_event_again [OF h])
  then show ?case using merge_hook_map_step [of e m hook_map e' changed] Cons em by auto
qed simp

lemma unique_merged_event:
  assumes "unique_keys current" "unique_keys matchers"
  shows "unique_keys (merged_event current matchers)"
proof (cases matchers)
  case (JList ms)
  let ?cs = "case current of JList xs \<Rightarrow> xs | _ \<Rightarrow> []"
  have cs: "list_all unique_keys ?cs" using assms(1) by (cases current) auto
  have "merge_matchers current ms = merge_matchers (JList ?cs) ms" by (simp add: merge_matchers_def)
  then have "set (fst (merge_matchers current ms)) \<subseteq> set ?cs \<union> set ms"
    using merge_matchers_spec(2) by (metis prod.collapse)
  with assms cs JList have "list_all unique_keys (fst (merge_matchers current ms))"
    by (auto simp: list_all_iff simp del: split_paired_All)
  with assms show ?thesis by (simp add: JList merged_event_def Let_def)
qed (use assms in \<open>simp_all add: merged_event_def\<close>)

text \<open>
  Merging the plugin's hooks into the settings is idempotent: however often a workspace is
  staged again over the settings it wrote, the registrations do not pile up.
\<close>

lemma plugin_hooks_merge_once:
  assumes merged: "merge_plugin_hooks (Json hooks) f = Inr g"
    and keys: "unique_keys hooks" "unique_keys (JObj (load_claude_settings f))"
  shows "merge_plugin_hooks (Json hooks) g = Inr g"
proof -
  obtain cfg where cfg: "hooks = JObj cfg" using merged by (cases hooks) (auto simp: merge_plugin_hooks_def)
  let ?settings = "load_claude_settings f"
  let ?existing = "obj_or_empty (dget ?settings ''hooks'')"
  show ?thesis
  proof (cases "g = f")
    case False
    then obtain hook_map where hm: "get_default cfg ''hooks'' (JObj cfg) = JObj hook_map"
      using merged by (auto simp: merge_plugin_hooks_def cfg split: json.splits)
    have uh: "unique_keys (JObj hook_map)"
      using keys(1) unique_keys_dget [of cfg "''hooks''"] hm
      by (auto simp: cfg dget_def get_default_def split: option.splits)
    let ?m = "fst (merge_hook_map hook_map ?existing False)"
    have g: "g = Json (JObj (dset ''hooks'' (JObj ?m) ?settings))"
      using merged False by (auto simp: merge_plugin_hooks_def cfg hm Let_def split: prod.splits if_splits)
    have ue: "unique_keys (JObj ?existing)"
      using unique_keys_dget [OF keys(2), of "''hooks''"] by (cases "dget ?settings ''hooks''") auto
    have "fst (merge_hook_map hook_map ?m ch) = ?m" for ch
    proof (rule merge_hook_map_again [where existing = ?existing])
      show "distinct (map fst hook_map)" using uh by simp
    next
      fix event m assume em: "(event, m) \<in> set hook_map"
      then have "unique_keys m" using uh by (auto simp: list_all_iff)
      moreover have "map_of hook_map event = Some m" using em uh by simp
      ultimately show "unique_keys (merged_event (dget ?existing event) m)
          \<and> dget ?m event = merged_event (dget ?existing event) m"
        using uh unique_keys_dget [OF ue] by (simp add: merge_hook_map_event unique_merged_event)
    qed
    then obtain ch where "merge_hook_map hook_map ?m False = (?m, ch)" by (metis prod.collapse)
    moreover have "dset ''hooks'' v (dset ''hooks'' v d) = dset ''hooks'' v d" for v and d :: dict
      by (induction d) auto
    ultimately show ?thesis
      by (simp add: merge_plugin_hooks_def cfg hm g load_claude_settings_def Let_def split: prod.split)
  qed (use merged in simp)
qed

definition demo_hooks :: json where
  "demo_hooks = JObj [(''hooks'', JObj [(''Stop'', JList [JObj [(''command'', JStr ''audit.py'')],
     JObj [(''command'', JStr ''audit.py'')]])])]"

lemma plugin_hooks_merge_once_witness:
  "\<exists>g. merge_plugin_hooks (Json demo_hooks) demo_claude_settings = Inr g \<and> g \<noteq> demo_claude_settings
     \<and> merge_plugin_hooks (Json demo_hooks) g = Inr g"
proof -
  have "case merge_plugin_hooks (Json demo_hooks) demo_claude_settings of Inl e \<Rightarrow> False | Inr g \<Rightarrow> g \<noteq> demo_claude_settings" by code_simp
  then obtain g where g: "merge_plugin_hooks (Json demo_hooks) demo_claude_settings = Inr g" "g \<noteq> demo_claude_settings"
    by (auto split: sum.splits)
  moreover have "unique_keys demo_hooks" "unique_keys (JObj (load_claude_settings demo_claude_settings))" by code_simp+
  ultimately show ?thesis using plugin_hooks_merge_once [OF g(1)] by blast
qed

end
