(* ===== verification/Tool_Patterns.thy ===== *)
theory Tool_Patterns
  imports Regex Json_Order
begin

text \<open>
  Which tool calls an approval pattern covers (\<open>_tool_matches_pattern\<close> of
  \<open>runtime/session_entrypoint.py\<close>). The code turns a glob into a regular expression by escaping it
  and replacing every escaped star; the definitions do the same on the text, compile the result
  with the parser of \<open>Regex\<close> and match it from the start of the text, with case. The results
  are that such an expression always compiles, that it matches exactly what a direct definition
  of globbing matches, and what that means for a command of several lines.
\<close>

section \<open>\<open>re.escape\<close>, \<open>re.match\<close>, \<open>str.split\<close> and \<open>str.count\<close>\<close>

definition re_special :: "char list" where
  "re_special = ''()[]{}?*+-|^$.&~# '' @ [CHR 0x5C, CHR 0x09, CHR 0x0A, CHR 0x0D, CHR 0x0B, CHR 0x0C]"

definition re_escape :: "str \<Rightarrow> str" where
  "re_escape s = concat (map (\<lambda>c. if c \<in> set re_special then [CHR 0x5C, c] else [c]) s)"

fun exact_atom :: "atom \<Rightarrow> char \<Rightarrow> bool" where
  "exact_atom AnyChar c = (c \<noteq> CHR 0x0A)"
| "exact_atom (Class negated items) c = (negated \<noteq> list_ex (\<lambda>i. item_has i c) items)"

fun match_exact :: "node list \<Rightarrow> str \<Rightarrow> str \<Rightarrow> bool" where
  "match_exact [] passed s = True"
| "match_exact (Anchor a # ns) passed s = (anchor_holds a passed s \<and> match_exact ns passed s)"
| "match_exact (Single a # ns) passed s =
     (case s of [] \<Rightarrow> False | c # t \<Rightarrow> exact_atom a c \<and> match_exact ns (c # passed) t)"
| "match_exact (Opt greedy a # ns) passed s =
     (match_exact ns passed s \<or> (case s of [] \<Rightarrow> False | c # t \<Rightarrow> exact_atom a c \<and> match_exact ns (c # passed) t))"
| "match_exact (Star greedy a # ns) passed s =
     (match_exact ns passed s \<or>
      (case s of [] \<Rightarrow> False | c # t \<Rightarrow> exact_atom a c \<and> match_exact (Star greedy a # ns) (c # passed) t))"

declare match_exact.simps(5) [simp del]

definition re_match :: "str \<Rightarrow> str \<Rightarrow> bool res" where
  "re_match pattern text =
     (case re_compile pattern of None \<Rightarrow> Inl (PatternError pattern) | Some ns \<Rightarrow> Inr (match_exact ns [] text))"

text \<open>\<open>s.split(sep)\<close> for a separator of any positive length, and \<open>s.count(sep)\<close>.\<close>

function split_on :: "str \<Rightarrow> str \<Rightarrow> str \<Rightarrow> str list" where
  "split_on sep w [] = [rev w]"
| "split_on sep w (c # s) =
     (if sep \<noteq> [] \<and> py_startswith (c # s) sep then rev w # split_on sep [] (drop (length sep) (c # s))
      else split_on sep (c # w) s)"
  by pat_completeness auto
termination
  by (relation "measure (\<lambda>(sep, w, s). length s)") (auto simp: neq_Nil_conv)

definition py_split_on :: "str \<Rightarrow> str \<Rightarrow> str list" where
  "py_split_on sep s = split_on sep [] s"

definition py_count :: "str \<Rightarrow> str \<Rightarrow> nat" where
  "py_count s sep = length (py_split_on sep s) - 1"

section \<open>Matching a tool call\<close>

text \<open>\<open>re.match(r"^(\w+)\((.+)\)$", pattern)\<close>: the two groups.\<close>

definition tool_and_glob :: "str \<Rightarrow> (str \<times> str) option" where
  "tool_and_glob pattern =
     (let body = (if pattern \<noteq> [] \<and> last pattern = CHR 0x0A then butlast pattern else pattern);
          tool = takeWhile is_word body; rest = dropWhile is_word body
      in case rest of
           [] \<Rightarrow> None
         | c # r \<Rightarrow>
             if tool \<noteq> [] \<and> c = CHR ''('' \<and> r \<noteq> [] \<and> last r = CHR '')'' \<and> butlast r \<noteq> []
                \<and> CHR 0x0A \<notin> set (butlast r)
             then Some (tool, butlast r) else None)"

definition glob_regex :: "str \<Rightarrow> str" where
  "glob_regex pat_arg = ''^'' @ py_replace [CHR 0x5C, CHR ''*''] ''.*'' (re_escape pat_arg) @ ''$''"

fun first_string :: "dict \<Rightarrow> str" where
  "first_string [] = []"
| "first_string ((k, JStr s) # d) = s"
| "first_string (_ # d) = first_string d"

definition tool_matches_pattern :: "str \<Rightarrow> dict \<Rightarrow> str \<Rightarrow> bool res" where
  "tool_matches_pattern tool_name tool_input pattern =
     (case tool_and_glob pattern of
        Some (pat_tool, pat_arg) \<Rightarrow>
          if tool_name \<noteq> pat_tool then Inr False
          else if tool_name = ''Bash''
          then (case get_default tool_input ''command'' (JStr []) of
                  JStr cmd \<Rightarrow> re_match (glob_regex pat_arg) cmd
                | _ \<Rightarrow> Inl (TypeError ''expected string or bytes-like object''))
          else re_match (glob_regex pat_arg) (first_string tool_input)
      | None \<Rightarrow>
          if py_startswith pattern ''mcp__''
          then if py_count pattern ''__'' = 1
               then Inr (tool_name = pattern \<or> py_startswith tool_name (pattern @ ''__''))
               else re_match (glob_regex pattern) tool_name
          else Inr (tool_name = pattern))"

section \<open>Globbing, directly\<close>

text \<open>
  A star stands for any characters of one line, every other character for itself, and a line feed
  may follow at the very end.
\<close>

fun glob :: "str \<Rightarrow> str \<Rightarrow> bool" where
  "glob [] s = (s = [] \<or> s = [CHR 0x0A])"
| "glob (p # ps) s =
     (if p = CHR ''*''
      then glob ps s \<or> (case s of [] \<Rightarrow> False | c # t \<Rightarrow> c \<noteq> CHR 0x0A \<and> glob (p # ps) t)
      else (case s of [] \<Rightarrow> False | c # t \<Rightarrow> c = p \<and> glob ps t))"

definition glob_text :: "char \<Rightarrow> str" where
  "glob_text c = (if c = CHR ''*'' then ''.*'' else if c \<in> set re_special then [CHR 0x5C, c] else [c])"

definition glob_node :: "char \<Rightarrow> node" where
  "glob_node c = (if c = CHR ''*'' then Star True AnyChar else Single (Class False [One c]))"

lemma re_escape_Cons: "re_escape (c # s) = (if c \<in> set re_special then [CHR 0x5C, c] else [c]) @ re_escape s"
  by (simp add: re_escape_def)

lemma re_escape_hd: "\<not> py_startswith (c # re_escape s) [CHR 0x5C, CHR ''*'']"
proof (cases s)
  case (Cons d t)
  have "CHR ''*'' \<in> set re_special" by (simp add: re_special_def)
  then show ?thesis using Cons by (auto simp: re_escape_Cons py_startswith_def)
qed (simp add: re_escape_def py_startswith_def)

lemma glob_regex_text: "glob_regex p = ''^'' @ concat (map glob_text p) @ ''$''"
proof -
  have "py_replace [CHR 0x5C, CHR ''*''] ''.*'' (re_escape p) = concat (map glob_text p)"
  proof (induction p)
    case (Cons c p)
    have star: "CHR ''*'' \<in> set re_special" by (simp add: re_special_def)
    show ?case
    proof (cases "c = CHR ''*''")
      case True
      then show ?thesis using Cons star by (simp add: re_escape_Cons glob_text_def py_startswith_def)
    next
      case False
      then show ?thesis using Cons re_escape_hd [of c p]
        by (auto simp: re_escape_Cons glob_text_def py_startswith_def)
    qed
  qed (simp add: re_escape_def)
  then show ?thesis by (simp add: glob_regex_def)
qed

text \<open>What follows an element of the expression is never a repetition.\<close>

definition no_repeat :: "str \<Rightarrow> bool" where
  "no_repeat s \<longleftrightarrow> s \<noteq> [] \<and> hd s \<notin> set ''*?+''"

lemma no_repeat_rest: "no_repeat (concat (map glob_text p) @ ''$'')"
  by (cases p) (auto simp: no_repeat_def glob_text_def re_special_def)

lemma parse_repeat_none: "no_repeat s \<Longrightarrow> parse_repeat n s = Some (n, s)"
  by (cases s) (auto simp: no_repeat_def parse_repeat_def)

definition plain_escape :: "char \<Rightarrow> bool" where
  "plain_escape c \<longleftrightarrow> c \<notin> set ''AZbBdDsSwWxuU0'' \<and> \<not> py_isdigit c \<and> control_escape c = None \<and> \<not> is_ascii_letter c"

lemma special_plain: "list_all plain_escape re_special"
  by code_simp

lemma outer_escape_plain: "plain_escape c \<Longrightarrow> outer_escape (c # r) = Some (EChar c, r)"
  by (simp add: plain_escape_def outer_escape_def del: control_escape.simps)

lemma special_not_letter:
  "c \<in> set re_special \<Longrightarrow> outer_escape (c # r) = Some (EChar c, r)"
  using special_plain by (simp add: list_all_iff outer_escape_plain)

lemma parse_glob_char:
  assumes "no_repeat r"
  shows "(case parse_element (glob_text c @ r) of None \<Rightarrow> None | Some (n, q) \<Rightarrow> parse_repeat n q) = Some (glob_node c, r)"
proof -
  consider (star) "c = CHR ''*''" | (special) "c \<noteq> CHR ''*''" "c \<in> set re_special" | (plain) "c \<notin> set re_special"
    by (auto simp: re_special_def)
  then show ?thesis
  proof cases
    case star
    have "parse_element (CHR ''.'' # CHR ''*'' # r) = Some (Single AnyChar, CHR ''*'' # r)"
      by (simp add: parse_element_def)
    moreover have "parse_repeat (Single AnyChar) (CHR ''*'' # r) = Some (Star True AnyChar, r)"
      using assms by (auto simp: parse_repeat_def no_repeat_def Let_def)
    ultimately show ?thesis using star by (simp add: glob_text_def glob_node_def)
  next
    case special
    then have "parse_element (glob_text c @ r) = Some (Single (Class False [One c]), r)"
      using special_not_letter [OF special(2), of r] by (simp add: glob_text_def parse_element_def)
    then show ?thesis using special parse_repeat_none [OF assms] by (simp add: glob_node_def)
  next
    case plain
    then have "parse_element (c # r) = Some (Single (Class False [One c]), r)"
      by (auto simp: parse_element_def re_special_def)
    moreover have "c \<noteq> CHR ''*''" using plain by (auto simp: re_special_def)
    ultimately show ?thesis using plain parse_repeat_none [OF assms] by (simp add: glob_text_def glob_node_def)
  qed
qed

lemma parse_glob:
  "length (concat (map glob_text p)) < n \<Longrightarrow>
     parse_nodes n (concat (map glob_text p) @ ''$'') = Some (map glob_node p @ [Anchor AtEnd])"
proof (induction p arbitrary: n)
  case Nil
  then obtain m where "n = Suc m" by (cases n) auto
  then show ?case by (cases m) (simp_all add: parse_element_def parse_repeat_def)
next
  case (Cons c p)
  let ?rest = "concat (map glob_text p) @ ''$''"
  from Cons.prems obtain m where n: "n = Suc m" by (cases n) auto
  have "glob_text c \<noteq> []" by (simp add: glob_text_def)
  then have "length (concat (map glob_text p)) < m" "glob_text c @ ?rest \<noteq> []"
    using Cons.prems by (auto simp: n neq_Nil_conv)
  moreover have "(case parse_element (glob_text c @ ?rest) of None \<Rightarrow> None | Some (k, q) \<Rightarrow> parse_repeat k q)
      = Some (glob_node c, ?rest)" by (rule parse_glob_char [OF no_repeat_rest])
  ultimately show ?case using Cons.IH [of m] by (auto simp: n split: option.splits)
qed

lemma glob_compiles: "re_compile (glob_regex p) = Some (Anchor AtBeginning # map glob_node p @ [Anchor AtEnd])"
proof -
  let ?s = "concat (map glob_text p) @ ''$''"
  have "parse_element (CHR ''^'' # ?s) = Some (Anchor AtBeginning, ?s)" by (simp add: parse_element_def)
  moreover have "parse_repeat (Anchor AtBeginning) ?s = Some (Anchor AtBeginning, ?s)"
    by (rule parse_repeat_none [OF no_repeat_rest])
  moreover have "parse_nodes (length ?s) ?s = Some (map glob_node p @ [Anchor AtEnd])"
    by (rule parse_glob) simp
  ultimately show ?thesis by (simp add: re_compile_def glob_regex_text)
qed

lemma match_glob: "match_exact (map glob_node p @ [Anchor AtEnd]) passed s = glob p s"
proof (induction p s arbitrary: passed rule: glob.induct)
  case (2 p ps s)
  show ?case
  proof (cases "p = CHR ''*''")
    case True
    let ?ns = "map glob_node ps @ [Anchor AtEnd]"
    have n: "map glob_node (p # ps) @ [Anchor AtEnd] = Star True AnyChar # ?ns" using True by (simp add: glob_node_def)
    have g: "glob (p # ps) u = (glob ps u \<or> (case u of [] \<Rightarrow> False | c # t \<Rightarrow> c \<noteq> CHR 0x0A \<and> glob (p # ps) t))" for u
      unfolding glob.simps(2) [of p ps u] by (rule if_P [OF True])
    show ?thesis
    proof (cases s)
      case Nil
      then show ?thesis unfolding n g [of s] using 2(1) [OF True, of passed] by (simp add: match_exact.simps(5))
    next
      case (Cons c t)
      have "match_exact (Star True AnyChar # ?ns) (c # passed) t = glob (p # ps) t"
        using 2(2) [OF True Cons, of "c # passed"] unfolding n .
      moreover have "match_exact (Star True AnyChar # ?ns) passed (c # t)
          = (match_exact ?ns passed (c # t) \<or> c \<noteq> CHR 0x0A \<and> match_exact (Star True AnyChar # ?ns) (c # passed) t)"
        by (subst match_exact.simps(5)) simp
      ultimately show ?thesis unfolding n g [of s] using 2(1) [OF True, of passed] Cons by (simp only: list.case)
    qed
  next
    case False
    then show ?thesis using 2(3) by (cases s) (auto simp: glob_node_def)
  qed
qed simp

text \<open>
  C32. The regular expression built for a pattern always compiles, and it matches exactly what
  the glob matches: no character of a pattern but the star is special, however it is spelled.
\<close>

theorem pattern_is_glob: "re_match (glob_regex pat_arg) text = Inr (glob pat_arg text)"
  by (simp add: re_match_def glob_compiles match_glob)

text \<open>No star reaches over the end of a line.\<close>

lemma glob_stars_one_line:
  "CHR 0x0A \<notin> set p \<Longrightarrow> glob p s \<Longrightarrow> CHR 0x0A \<notin> set (butlast s)"
proof (induction p s rule: glob.induct)
  case (2 p ps s)
  show ?case
  proof (cases s)
    case (Cons c t)
    have p: "CHR 0x0A \<notin> set ps" "p \<noteq> CHR 0x0A" using 2(4) by auto
    consider "p = CHR ''*''" "glob ps s" | "p = CHR ''*''" "c \<noteq> CHR 0x0A" "glob (p # ps) t" | "p \<noteq> CHR ''*''" "c = p" "glob ps t"
      using 2(5) Cons by (auto split: if_splits)
    then show ?thesis
    proof cases
      case 1
      then show ?thesis using 2(1) p by blast
    next
      case a: 2
      then have "CHR 0x0A \<notin> set (butlast t)" using 2(2) [OF a(1) Cons] 2(4) by blast
      then show ?thesis using a Cons by simp
    next
      case a: 3
      then have "CHR 0x0A \<notin> set (butlast t)" using 2(3) [OF a(1) Cons] p by blast
      then show ?thesis using a Cons p by auto
    qed
  qed simp
qed auto

lemma glob_prefix: "CHR ''*'' \<notin> set p \<Longrightarrow> CHR 0x0A \<notin> set s \<Longrightarrow> glob (p @ ''*'') s = prefix p s"
proof (induction p arbitrary: s)
  case Nil
  then show ?case by (induction s) auto
next
  case (Cons c p)
  then show ?case by (cases s) auto
qed

lemma glob_prefix_line_end:
  "CHR ''*'' \<notin> set p \<Longrightarrow> CHR 0x0A \<notin> set p \<Longrightarrow> CHR 0x0A \<notin> set s \<Longrightarrow> glob (p @ ''*'') (s @ [CHR 0x0A]) = prefix p s"
proof (induction p arbitrary: s)
  case Nil
  then show ?case by (induction s) auto
next
  case (Cons c p)
  then show ?case by (cases s) auto
qed

lemma bash_tool_and_glob: "p \<noteq> [] \<Longrightarrow> CHR 0x0A \<notin> set p \<Longrightarrow> tool_and_glob (''Bash('' @ p @ '')'') = Some (''Bash'', p)"
proof -
  have w: "is_word CHR ''B''" "is_word CHR ''a''" "is_word CHR ''s''" "is_word CHR ''h''" "\<not> is_word CHR ''(''" by code_simp+
  assume "p \<noteq> []" "CHR 0x0A \<notin> set p"
  with w show ?thesis by (simp add: tool_and_glob_def Let_def butlast_append)
qed

text \<open>
  C33. A Bash pattern \<open>prefix *\<close> covers every one-line command that starts with the prefix, and no
  command that has a line after its first one, whatever it starts with: such a command is run
  without the approval the pattern asks for.
\<close>

theorem bash_prefix_pattern:
  assumes "p \<noteq> []" "CHR ''*'' \<notin> set p" "CHR 0x0A \<notin> set p"
  shows "tool_matches_pattern ''Bash'' [(''command'', JStr cmd)] (''Bash('' @ p @ ''*)'')
     = Inr (if CHR 0x0A \<in> set (butlast cmd) then False
            else prefix p (if CHR 0x0A \<in> set cmd then butlast cmd else cmd))"
proof -
  have "tool_and_glob (''Bash('' @ (p @ ''*'') @ '')'') = Some (''Bash'', p @ ''*'')"
    using assms by (intro bash_tool_and_glob) auto
  then have "tool_matches_pattern ''Bash'' [(''command'', JStr cmd)] (''Bash('' @ p @ ''*)'') = Inr (glob (p @ ''*'') cmd)"
    by (simp add: tool_matches_pattern_def get_default_def re_match_def glob_compiles match_glob del: map_append)
  moreover have "glob (p @ ''*'') cmd = (if CHR 0x0A \<in> set (butlast cmd) then False
            else prefix p (if CHR 0x0A \<in> set cmd then butlast cmd else cmd))"
  proof (cases "CHR 0x0A \<in> set (butlast cmd)")
    case True
    then show ?thesis using glob_stars_one_line [of "p @ ''*''" cmd] assms by auto
  next
    case False
    show ?thesis
    proof (cases "CHR 0x0A \<in> set cmd")
      case True
      then have "cmd = butlast cmd @ [CHR 0x0A]" using False
        by (metis append_butlast_last_id empty_iff empty_set rotate1.simps(2) set_ConsD set_rotate1)
      then show ?thesis using glob_prefix_line_end [OF assms(2,3) False] True False by metis
    next
      case no: False
      then show ?thesis using glob_prefix [OF assms(2) no] False by simp
    qed
  qed
  ultimately show ?thesis by simp
qed

theorem bash_prefix_pattern_witness:
  "tool_matches_pattern ''Bash'' [(''command'', JStr ''rm -rf /data'')] ''Bash(rm *)'' = Inr True
   \<and> tool_matches_pattern ''Bash'' [(''command'', JStr (''rm -rf /data'' @ CHR 0x0A # ''echo done''))] ''Bash(rm *)'' = Inr False"
  using bash_prefix_pattern [of "''rm ''" "''rm -rf /data''"]
    bash_prefix_pattern [of "''rm ''" "''rm -rf /data'' @ CHR 0x0A # ''echo done''"] by simp

end
