(* ===== verification/Session_Gate.thy ===== *)
theory Session_Gate
  imports Session_Settings Tool_Patterns
begin

text \<open>
  The permission gate of a running session (\<open>runtime/session_entrypoint.py\<close>): the callback the
  Agent SDK asks before a tool runs, the hook that answers the model's questions, and the polling
  of the gateway both wait in.

  What the session sees of its surroundings is passed in: a poll is the clock at the test of the
  loop and the gateway's answer, and a wait over a list of polls returns \<open>None\<close> while the list has
  not decided it. What the session reports to the gateway and adds to its transcript is returned
  as a list of emissions; a report that fails is only logged and changes nothing.
\<close>

section \<open>Waiting\<close>

type_synonym 'a wait = "'a res option"
type_synonym poll = "time \<times> http_response"

datatype emission = Reported str dict | Transcribed dict

type_synonym 'a gate = "'a wait \<times> emission list"

definition ret_gate :: "'a res \<Rightarrow> 'a gate" where
  "ret_gate r = (Some r, [])"

definition emit :: "emission list \<Rightarrow> unit gate" where
  "emit es = (Some (Inr ()), es)"

definition bind_gate :: "'a gate \<Rightarrow> ('a \<Rightarrow> 'b gate) \<Rightarrow> 'b gate" where
  "bind_gate m f =
     (case m of
        (None, es) \<Rightarrow> (None, es)
      | (Some (Inl e), es) \<Rightarrow> (Some (Inl e), es)
      | (Some (Inr x), es) \<Rightarrow> (let (r, es') = f x in (r, es @ es')))"

definition wait_gate :: "'a wait \<Rightarrow> 'a gate" where
  "wait_gate w = (w, [])"

text \<open>A response that does not parse, or is no success, makes the loop try again.\<close>

fun poll_payload :: "http_response \<Rightarrow> json option" where
  "poll_payload (NoResponse e) = None"
| "poll_payload (Response code body) =
     (if code = 404 then None
      else case bind_res (raise_for_status (code, body)) response_json of Inl e \<Rightarrow> None | Inr v \<Rightarrow> Some v)"

definition poll_status :: "dict \<Rightarrow> str" where
  "poll_status payload = py_lower (py_strip (text_or_empty (dget payload ''status'')))"

definition resume_terminal_statuses :: "str list" where
  "resume_terminal_statuses = [''failed'', ''lost'', ''timed_out'', ''succeeded'']"

fun wait_for_resume_admission :: "str \<Rightarrow> time \<Rightarrow> poll list \<Rightarrow> unit wait" where
  "wait_for_resume_admission reason deadline [] = None"
| "wait_for_resume_admission reason deadline ((t, r) # ps) =
     (if \<not> t < deadline
      then Some (Inl (TimeoutError (''Timed out waiting for scheduler admission after '' @ reason @ '' resolved'')))
      else case poll_payload r of
        None \<Rightarrow> wait_for_resume_admission reason deadline ps
      | Some (JObj payload) \<Rightarrow>
          if poll_status payload = ''running'' then Some (Inr ())
          else if poll_status payload \<in> set resume_terminal_statuses
          then Some (Inl (RuntimeError (''Task left wait-resume flow while waiting for scheduler admission: '' @ poll_status payload)))
          else wait_for_resume_admission reason deadline ps
      | Some _ \<Rightarrow> Some (Inl (AttributeError ''get'')))"

section \<open>Human waits and the progress watchdog\<close>

definition enter_human_wait :: "str \<Rightarrow> str \<Rightarrow> time \<Rightarrow> progress_state \<Rightarrow> progress_state" where
  "enter_human_wait wait_id kind now ps =
     ps\<lparr>ps_active_human_waits := AList.update wait_id (kind, now) (ps_active_human_waits ps)\<rparr>"

definition leave_human_wait :: "str \<Rightarrow> progress_state \<Rightarrow> progress_state" where
  "leave_human_wait wait_id ps = ps\<lparr>ps_active_human_waits := AList.delete wait_id (ps_active_human_waits ps)\<rparr>"

definition has_active_human_wait :: "progress_state \<Rightarrow> bool" where
  "has_active_human_wait ps = (ps_active_human_waits ps \<noteq> [])"

text \<open>
  The progress watchdog: each round the queue either yields within the timeout or it does not, in
  which case \<open>waiting\<close> tells whether a human is being waited for.
\<close>

datatype 'm queue_round = Yielded 'm | Silent bool

fun next_query_event :: "str \<Rightarrow> bool \<Rightarrow> 'm queue_round list \<Rightarrow> 'm wait" where
  "next_query_event timeout_text first_message_received [] = None"
| "next_query_event timeout_text first_message_received (Yielded m # rs) = Some (Inr m)"
| "next_query_event timeout_text first_message_received (Silent waiting # rs) =
     (if waiting then next_query_event timeout_text first_message_received rs
      else Some (Inl (TimeoutError (''No Claude SDK messages for '' @ timeout_text @ ''s ('' @
             (if first_message_received then ''between_messages'' else ''before_first_message'') @ '')''))))"

section \<open>Operator approval\<close>

fun collapse_ws :: "bool \<Rightarrow> str \<Rightarrow> str" where
  "collapse_ws inside [] = []"
| "collapse_ws inside (c # s) =
     (if py_isspace c then (if inside then collapse_ws True s else CHR '' '' # collapse_ws True s)
      else c # collapse_ws False s)"

definition task_prompt_summary :: "str \<Rightarrow> nat \<Rightarrow> str" where
  "task_prompt_summary prompt limit =
     (let summary = py_strip (collapse_ws False prompt) in
      if length summary \<le> limit then summary else py_rstrip (take (limit - 3) summary) @ ''...'')"

fun await_approval :: "time \<Rightarrow> poll list \<Rightarrow> dict option wait" where
  "await_approval deadline [] = None"
| "await_approval deadline ((t, r) # ps) =
     (if \<not> t < deadline then Some (Inr None)
      else case poll_payload r of
        None \<Rightarrow> await_approval deadline ps
      | Some (JObj payload) \<Rightarrow>
          if poll_status payload = ''pending'' then await_approval deadline ps else Some (Inr (Some payload))
      | Some _ \<Rightarrow> Some (Inl (AttributeError ''get'')))"

definition actor_field :: "str \<Rightarrow> str \<Rightarrow> dict \<Rightarrow> (str \<times> str) list" where
  "actor_field key name payload = (if truthy (dget payload key) then [(name, py_str (dget payload key))] else [])"

text \<open>The surroundings of one request: the clocks its two loops start at and the polls they see.\<close>

record approval_env =
  ae_request_id :: str
  ae_deadline :: time
  ae_polls :: "poll list"
  ae_resume_deadline :: time
  ae_resume_polls :: "poll list"

definition request_operator_approval ::
    "str \<Rightarrow> approval_env \<Rightarrow> str \<Rightarrow> dict \<Rightarrow> (bool \<times> (str \<times> str) list) gate" where
  "request_operator_approval prompt env tool_name tool_input =
     bind_gate (emit [Reported ''approval_requested''
        [(''tool_name'', JStr tool_name), (''tool_input_preview'', JStr (take 1000 (json_dumps (JObj tool_input)))),
         (''request_id'', JStr (ae_request_id env)), (''task_prompt_summary'', JStr (task_prompt_summary prompt 220))]]) (\<lambda>_.
     bind_gate (wait_gate (await_approval (ae_deadline env) (ae_polls env))) (\<lambda>answer.
       case answer of
         None \<Rightarrow> ret_gate (Inr (False, []))
       | Some payload \<Rightarrow>
           let approved = (poll_status payload = ''approved'');
               actor = actor_field ''resolved_by'' ''approved_by'' payload
                 @ actor_field ''resolved_by_user_id'' ''approved_by_user_id'' payload
                 @ (if approved then [(''approval_reply'', ''approve'')]
                    else (''approval_reply'', ''reject'') # actor_field ''reason'' ''reason'' payload)
           in bind_gate (emit [Reported ''approval_wait_resolved''
                  [(''tool_name'', JStr tool_name), (''approved'', JBool approved)]]) (\<lambda>_.
              bind_gate (wait_gate (wait_for_resume_admission ''approval'' (ae_resume_deadline env) (ae_resume_polls env))) (\<lambda>_.
              ret_gate (Inr (approved, actor))))))"

section \<open>The permission callback\<close>

datatype permission_result = PermissionResultAllow json | PermissionResultDeny str bool

fun json_safe_value :: "json \<Rightarrow> json" where
  "json_safe_value (JObj d) = JObj (map (\<lambda>(k, v). (k, json_safe_value v)) d)"
| "json_safe_value (JList xs) = JList (map json_safe_value xs)"
| "json_safe_value v = v"

text \<open>\<open>any(_tool_matches_pattern(...) for pat in approval_patterns)\<close>, which stops at the first match.\<close>

fun needs_approval :: "str \<Rightarrow> dict \<Rightarrow> json list \<Rightarrow> bool res" where
  "needs_approval tool_name tool_input [] = Inr False"
| "needs_approval tool_name tool_input (JStr pat # pats) =
     bind_res (tool_matches_pattern tool_name tool_input pat) (\<lambda>m.
       if m then Inr True else needs_approval tool_name tool_input pats)"
| "needs_approval tool_name tool_input (_ # pats) = Inl (TypeError ''expected string or bytes-like object'')"

definition approval_denial_error :: "str \<Rightarrow> str" where
  "approval_denial_error tool_name =
     ''Approval not granted for '' @ tool_name @ ''. If you can continue without this tool, do so. '' @
     ''Otherwise, synthesize the findings you already have for this session, explain what remains unverified, '' @
     ''and finish without retrying the blocked action.''"

definition can_use_tool ::
    "json \<Rightarrow> str \<Rightarrow> str \<Rightarrow> approval_env \<Rightarrow> str \<Rightarrow> dict \<Rightarrow> progress_state \<Rightarrow> (permission_result \<times> progress_state) gate" where
  "can_use_tool approval_patterns prompt thread_id env tool_name tool_input ps =
     bind_gate (ret_gate (bind_res (py_list approval_patterns) (needs_approval tool_name tool_input))) (\<lambda>needed.
       if \<not> needed then ret_gate (Inr (PermissionResultAllow (JObj tool_input), ps))
       else
         bind_gate (emit [Reported ''permission_callback''
             [(''tool_name'', JStr tool_name), (''kind'', JStr ''operator_approval''),
              (''thread_id_present'', JBool (thread_id \<noteq> []))]]) (\<lambda>_.
         bind_gate (request_operator_approval prompt env tool_name tool_input) (\<lambda>(approved, actor).
           if approved then ret_gate (Inr (PermissionResultAllow (JObj tool_input), ps))
           else
             let reason = (case map_of actor ''reason'' of Some r \<Rightarrow> if r \<noteq> [] then r else approval_denial_error tool_name
                             | None \<Rightarrow> approval_denial_error tool_name)
             in ret_gate (Inr (PermissionResultDeny (approval_denial_error tool_name) False,
                  ps\<lparr>ps_approval_denied := Some \<lparr>dn_tool_name = tool_name,
                      dn_tool_input = json_safe_value (JObj tool_input), dn_reason = reason\<rparr>\<rparr>)))))"

section \<open>Questions to a human\<close>

text \<open>A posted message: an HTTP failure is \<open>None\<close>, a body that is not JSON an error.\<close>

fun post_thread_message :: "http_response \<Rightarrow> json option res" where
  "post_thread_message (NoResponse e) = Inr None"
| "post_thread_message (Response code body) =
     (case raise_for_status (code, body) of
        Inl e \<Rightarrow> Inr None
      | Inr r \<Rightarrow> bind_res (response_json r) (\<lambda>v. Inr (Some v)))"

fun wait_for_thread_reply :: "time \<Rightarrow> poll list \<Rightarrow> str option wait" where
  "wait_for_thread_reply deadline [] = None"
| "wait_for_thread_reply deadline ((t, r) # ps) =
     (if \<not> t < deadline then Some (Inr None)
      else case post_thread_message r of
        Inl e \<Rightarrow> Some (Inl e)
      | Inr None \<Rightarrow> wait_for_thread_reply deadline ps
      | Inr (Some reply) \<Rightarrow>
          if \<not> truthy reply then wait_for_thread_reply deadline ps
          else (case reply of
                  JObj d \<Rightarrow> if truthy (dget d ''message'') then Some (Inr (Some (py_str (dget d ''message''))))
                            else wait_for_thread_reply deadline ps
                | _ \<Rightarrow> Some (Inl (AttributeError ''get''))))"

fun int_parts :: "str list \<Rightarrow> int list option" where
  "int_parts [] = Some []"
| "int_parts (p # ps) =
     (case int_of_str p of None \<Rightarrow> None | Some i \<Rightarrow> map_option (Cons i) (int_parts ps))"

fun option_label :: "json \<Rightarrow> json res" where
  "option_label (JObj d) = (case map_of d ''label'' of None \<Rightarrow> Inl (KeyError ''label'') | Some v \<Rightarrow> Inr v)"
| "option_label v = Inl (TypeError ''indices must be integers'')"

fun map_labels :: "('a \<Rightarrow> 'b res) \<Rightarrow> 'a list \<Rightarrow> 'b list res" where
  "map_labels f [] = Inr []"
| "map_labels f (x # xs) = bind_res (f x) (\<lambda>y. bind_res (map_labels f xs) (\<lambda>ys. Inr (y # ys)))"

fun join_text :: "str \<Rightarrow> json list \<Rightarrow> str res" where
  "join_text sep vs =
     (if list_all is_str vs then Inr (py_join sep (map py_str vs))
      else Inl (TypeError ''sequence item: expected str instance''))"

text \<open>
  A number out of range picks no option; a part that is no number makes the whole reply free
  text. The indices are read in order, so a label is looked up before a later part is parsed: a
  missing label would raise first, but the prompt has read every label already.
\<close>

definition parse_question_response :: "str \<Rightarrow> bool \<Rightarrow> json list \<Rightarrow> json res" where
  "parse_question_response response0 multi_select options =
     (let response = py_strip response0;
          parts = filter (\<lambda>p. p \<noteq> []) (map py_strip (split_char CHR '','' response))
      in case int_parts parts of
           None \<Rightarrow> Inr (JStr response)
         | Some indices \<Rightarrow>
             bind_res (map_labels option_label
                 (map (\<lambda>i. options ! nat (i - 1)) (filter (\<lambda>i. 1 \<le> i \<and> i \<le> int (length options)) indices))) (\<lambda>labels.
               if labels = [] then Inr (JStr response)
               else if multi_select then bind_res (join_text '', '' labels) (\<lambda>s. Inr (JStr s))
               else Inr (hd labels)))"

fun option_lines :: "nat \<Rightarrow> json list \<Rightarrow> str list res" where
  "option_lines index [] = Inr []"
| "option_lines index (opt # opts) =
     bind_res (case opt of JObj d \<Rightarrow> Inr d | _ \<Rightarrow> Inl (AttributeError ''get'')) (\<lambda>d.
     bind_res (option_label (JObj d)) (\<lambda>label.
     bind_res (option_lines (Suc index) opts) (\<lambda>lines.
       let description = get_default d ''description'' (JStr []);
           head = str_of_nat index @ ''. **'' @ py_str label @ ''**''
       in Inr ((if truthy description then head @ '' -- '' @ py_str description else head) # lines))))"

definition question_prompt :: "dict \<Rightarrow> str res" where
  "question_prompt question =
     bind_res (py_list (get_default question ''options'' (JList []))) (\<lambda>options.
     bind_res (option_lines 1 options) (\<lambda>lines.
       join_text [CHR 0x0A] ([JStr '':question: **Clarification Needed**'', JStr [],
         JStr (''**'' @ py_str (get_default question ''header'' (JStr ''Question'')) @ ''**''),
         get_default question ''question'' (JStr []), JStr []] @ map JStr lines @
         [JStr [], JStr (if truthy (dget question ''multiSelect'')
            then ''Reply with option numbers separated by commas, or type your own answer.''
            else ''Reply with an option number, or type your own answer.'')])))"

definition transcript_text_message :: "time \<Rightarrow> str \<Rightarrow> str \<Rightarrow> str \<Rightarrow> dict \<Rightarrow> dict" where
  "transcript_text_message now role text source meta =
     [(''timestamp'', JFloat (total_seconds now)), (''type'', JStr role),
      (''content'', JList [JObj [(''type'', JStr ''text''), (''text'', JStr (take 4000 text))]]),
      (''meta'', JObj (dmerge [(''source'', JStr source)] (obj_or_empty (json_safe_value (JObj meta)))))]"

text \<open>What one question meets: the clock, the gateway's answer to the post, and the polls for a reply.\<close>

record question_env =
  qe_now :: time
  qe_posted :: http_response
  qe_deadline :: time
  qe_polls :: "poll list"
  qe_answered :: time

datatype question_outcome = Answered str json | NotDelivered | NoReply

definition ask_one :: "str \<Rightarrow> nat \<Rightarrow> question_env \<Rightarrow> dict \<Rightarrow> question_outcome gate" where
  "ask_one thread_id question_count env question =
     bind_gate (ret_gate (question_prompt question)) (\<lambda>prompt.
       let asked = get_default question ''question'' (JStr []);
           count = (''question_count'', JInt (int question_count));
           present = (''thread_id_present'', JBool (thread_id \<noteq> []))
       in bind_gate (emit [Transcribed (transcript_text_message (qe_now env) ''assistant'' prompt
              ''ask_user_question_prompt'' [(''question'', asked)]),
            Reported ''user_question_requested'' [count, present]]) (\<lambda>_.
          bind_gate (ret_gate (post_thread_message (qe_posted env))) (\<lambda>posted.
            if posted = None \<or> \<not> truthy (the posted)
            then bind_gate (emit [Reported ''user_question_delivery_failed''
                    [count, (''error'', JStr ''Unable to deliver AskUserQuestion through the configured message bus''), present]])
                  (\<lambda>_. ret_gate (Inr NotDelivered))
            else if \<not> is_obj (the posted) then ret_gate (Inl (AttributeError ''get''))
            else bind_gate (wait_gate (wait_for_thread_reply (qe_deadline env) (qe_polls env))) (\<lambda>reply.
                  case reply of
                    None \<Rightarrow> ret_gate (Inr NoReply)
                  | Some message \<Rightarrow>
                      bind_gate (emit [Transcribed (transcript_text_message (qe_answered env) ''user'' message
                          ''ask_user_question_response'' [(''question'', asked)])]) (\<lambda>_.
                      bind_gate (ret_gate (bind_res (py_list (get_default question ''options'' (JList [])))
                          (parse_question_response message (truthy (dget question ''multiSelect''))))) (\<lambda>answer.
                        ret_gate (Inr (Answered (py_str asked) answer))))))))"

text \<open>The loop over the questions: the answers, or the denial that ends it.\<close>

fun ask_all :: "str \<Rightarrow> nat \<Rightarrow> question_env list \<Rightarrow> json list \<Rightarrow> dict \<Rightarrow> (permission_result option \<times> dict) gate" where
  "ask_all thread_id question_count envs [] answers = ret_gate (Inr (None, answers))"
| "ask_all thread_id question_count [] (q # qs) answers = wait_gate None"
| "ask_all thread_id question_count (env # envs) (q # qs) answers =
     (case q of
        JObj question \<Rightarrow>
          bind_gate (ask_one thread_id question_count env question) (\<lambda>outcome.
            case outcome of
              Answered asked answer \<Rightarrow> ask_all thread_id question_count envs qs (dset asked answer answers)
            | NotDelivered \<Rightarrow> ret_gate (Inr (Some (PermissionResultDeny
                ''Unable to deliver AskUserQuestion through the configured message bus'' True), answers))
            | NoReply \<Rightarrow> ret_gate (Inr (Some (PermissionResultDeny
                ''Timed out waiting for user input through the configured message bus'' True), answers)))
      | _ \<Rightarrow> ret_gate (Inl (AttributeError ''get'')))"

record ask_env =
  ak_questions :: "question_env list"
  ak_resume_deadline :: time
  ak_resume_polls :: "poll list"

definition handle_ask_user_question :: "str \<Rightarrow> ask_env \<Rightarrow> dict \<Rightarrow> permission_result gate" where
  "handle_ask_user_question thread_id env tool_input =
     bind_gate (emit [Reported ''permission_callback''
        [(''tool_name'', JStr ''AskUserQuestion''), (''kind'', JStr ''ask_user_question''),
         (''thread_id_present'', JBool (thread_id \<noteq> []))]]) (\<lambda>_.
     let questions = get_default tool_input ''questions'' (JList [])
     in bind_gate (ret_gate (py_list questions)) (\<lambda>qs.
        bind_gate (ask_all thread_id (length qs) (ak_questions env) qs []) (\<lambda>(denied, answers).
          case denied of
            Some deny \<Rightarrow> ret_gate (Inr deny)
          | None \<Rightarrow>
              bind_gate (emit [Reported ''user_question_resolved'' [(''question_count'', JInt (int (length answers)))]]) (\<lambda>_.
              bind_gate (wait_gate (wait_for_resume_admission ''user_input'' (ak_resume_deadline env) (ak_resume_polls env))) (\<lambda>_.
              ret_gate (Inr (PermissionResultAllow (JObj [(''questions'', questions), (''answers'', JObj answers)]))))))))"

text \<open>Asking also notes the turn of the latest question.\<close>

definition note_question :: "progress_state \<Rightarrow> progress_state" where
  "note_question ps = ps\<lparr>ps_last_ask_user_question_turn := Some (ps_turns ps)\<rparr>"

fun hook_output :: "permission_result \<Rightarrow> json" where
  "hook_output (PermissionResultAllow updated_input) = JObj [(''hookSpecificOutput'', JObj
     [(''hookEventName'', JStr ''PreToolUse''), (''permissionDecision'', JStr ''allow''), (''updatedInput'', updated_input)])]"
| "hook_output (PermissionResultDeny message interrupt) = JObj [(''hookSpecificOutput'', JObj
     [(''hookEventName'', JStr ''PreToolUse''), (''permissionDecision'', JStr ''deny''),
      (''permissionDecisionReason'', JStr message)])]"

definition pre_tool_use_hook :: "str \<Rightarrow> ask_env \<Rightarrow> dict \<Rightarrow> progress_state \<Rightarrow> json gate \<times> progress_state" where
  "pre_tool_use_hook thread_id env input_data ps =
     (if text_or_empty (dget input_data ''tool_name'') \<noteq> ''AskUserQuestion''
      then (ret_gate (Inr (JObj [(''continue_'', JBool True)])), ps)
      else case py_or (dget input_data ''tool_input'') (JObj []) of
        JObj tool_input \<Rightarrow>
          (bind_gate (handle_ask_user_question thread_id env tool_input) (\<lambda>r. ret_gate (Inr (hook_output r))),
           note_question ps)
      | _ \<Rightarrow> (bind_gate (emit [Reported ''permission_callback''
            [(''tool_name'', JStr ''AskUserQuestion''), (''kind'', JStr ''ask_user_question''),
             (''thread_id_present'', JBool (thread_id \<noteq> []))]]) (\<lambda>_. ret_gate (Inl (AttributeError ''get''))), note_question ps))"

section \<open>The gate waits only so long\<close>

lemma bind_gate_simps [simp]:
  "bind_gate (ret_gate (Inr x)) f = f x"
  "bind_gate (ret_gate (Inl e)) f = (Some (Inl e), [])"
  "bind_gate (wait_gate None) g = (None, [])"
  "bind_gate (wait_gate (Some (Inr y))) h = h y"
  "bind_gate (wait_gate (Some (Inl e))) h = (Some (Inl e), [])"
  "bind_gate (emit es) k = (fst (k ()), es @ snd (k ()))"
  by (simp_all add: bind_gate_def ret_gate_def wait_gate_def emit_def Let_def split: prod.split)

lemma bind_gate_returned:
  "fst (bind_gate m f) = Some (Inr y) \<longleftrightarrow> (\<exists>x. fst m = Some (Inr x) \<and> fst (f x) = Some (Inr y))"
  by (auto simp: bind_gate_def Let_def split: prod.splits option.splits sum.splits)

text \<open>A gate that has come to a result, be it an exception.\<close>

definition decided :: "'a gate \<Rightarrow> bool" where
  "decided g \<longleftrightarrow> fst g \<noteq> None"

lemma decided_basic: "decided (ret_gate r)" "decided (emit es)"
  by (simp_all add: decided_def ret_gate_def emit_def)

lemma decided_wait: "w \<noteq> None \<Longrightarrow> decided (wait_gate w)"
  by (simp add: decided_def wait_gate_def)

lemma decided_bind:
  assumes "decided m" "\<And>x. decided (f x)"
  shows "decided (bind_gate m f)"
proof (cases m)
  case (Pair w es)
  then obtain r where w: "w = Some r" using assms(1) by (auto simp: decided_def)
  show ?thesis
  proof (cases r)
    case (Inr x)
    then have "fst (bind_gate m f) = fst (f x)" by (simp add: Pair w bind_gate_def Let_def split: prod.split)
    then show ?thesis using assms(2) [of x] by (simp add: decided_def)
  qed (simp add: Pair w decided_def bind_gate_def)
qed

lemma decided_if: "decided g \<Longrightarrow> decided h \<Longrightarrow> decided (if b then g else h)"
  by simp

lemma decided_pair: "(\<And>a b. decided (f a b)) \<Longrightarrow> decided (case p of (a, b) \<Rightarrow> f a b)"
  by (cases p) simp

lemma decided_option: "decided g \<Longrightarrow> (\<And>x. decided (f x)) \<Longrightarrow> decided (case v of None \<Rightarrow> g | Some x \<Rightarrow> f x)"
  by (cases v) simp_all

lemmas decided_intros = decided_basic decided_bind decided_if decided_pair decided_option

lemma fst_gate_simps [simp]: "fst (ret_gate r) = Some r" "fst (emit es) = Some (Inr ())" "fst (wait_gate w) = w"
  by (simp_all add: ret_gate_def emit_def wait_gate_def)

definition reaches :: "time \<Rightarrow> poll list \<Rightarrow> bool" where
  "reaches deadline ps = list_ex (\<lambda>(t, r). deadline \<le> t) ps"

text \<open>
  What the three polling loops have in common: a test past the deadline decides, and what a later
  poll decides an earlier one does not undo.
\<close>

locale poll_loop =
  fixes wait :: "time \<Rightarrow> poll list \<Rightarrow> 'a wait"
  assumes past: "deadline \<le> t \<Longrightarrow> wait deadline ((t, r) # ps) \<noteq> None"
    and later: "wait deadline ps \<noteq> None \<Longrightarrow> wait deadline ((t, r) # ps) \<noteq> None"
begin

lemma decides: "reaches deadline ps \<Longrightarrow> wait deadline ps \<noteq> None"
proof (induction ps)
  case (Cons p ps)
  obtain t r where p: "p = (t, r)" by fastforce
  show ?case
  proof (cases "deadline \<le> t")
    case True
    then show ?thesis unfolding p by (rule past)
  next
    case False
    then have "reaches deadline ps" using Cons.prems p by (simp add: reaches_def)
    then show ?thesis unfolding p by (intro later Cons.IH)
  qed
qed (simp add: reaches_def)

end

interpretation approval_poll: poll_loop await_approval
  by unfold_locales (auto split: option.split json.split)

interpretation resume_poll: poll_loop "wait_for_resume_admission reason" for reason
  by unfold_locales (auto split: option.split json.split)

lemma reply_later:
  assumes "wait_for_thread_reply deadline ps \<noteq> None"
  shows "wait_for_thread_reply deadline ((t, r) # ps) \<noteq> None"
proof (cases "post_thread_message r")
  case (Inr posted)
  then show ?thesis
  proof (cases posted)
    case (Some v)
    then show ?thesis using Inr assms by (cases v) simp_all
  qed (use assms in simp)
qed simp

interpretation reply_poll: poll_loop wait_for_thread_reply
  by unfold_locales (simp, rule reply_later)

text \<open>
  Both loops sleep at least a second between two tests, so as many tests as the wait has
  seconds, and one more, reach its deadline.
\<close>

definition paced :: "time \<Rightarrow> poll list \<Rightarrow> bool" where
  "paced start ps \<longleftrightarrow> (\<forall>i < length ps. start + int i * seconds 1 \<le> fst (ps ! i))"

lemma paced_reaches:
  assumes "paced start ps" "n < length ps" "deadline \<le> start + int n * seconds 1"
  shows "reaches deadline ps"
proof -
  obtain t r where p: "ps ! n = (t, r)" by fastforce
  have "start + int n * seconds 1 \<le> fst (ps ! n)" using assms(1,2) by (simp add: paced_def)
  with assms(3) p have "deadline \<le> t" by simp
  moreover have "(t, r) \<in> set ps" using assms(2) p by (metis nth_mem)
  ultimately show ?thesis by (auto simp: reaches_def list_ex_iff)
qed

lemma request_decided:
  assumes "reaches (ae_deadline env) (ae_polls env)" "reaches (ae_resume_deadline env) (ae_resume_polls env)"
  shows "decided (request_operator_approval prompt env tool input)"
  unfolding request_operator_approval_def Let_def
  by (intro decided_intros decided_wait approval_poll.decides [OF assms(1)] resume_poll.decides [OF assms(2)])

text \<open>
  C9. The permission callback always comes to a decision (or an exception): with a test of its
  loops at least every second, it has one after as many tests as either wait has seconds.
\<close>

theorem permission_gate_decides:
  assumes "paced start (ae_polls env)" "n < length (ae_polls env)" "ae_deadline env \<le> start + int n * seconds 1"
    and "paced start' (ae_resume_polls env)" "m < length (ae_resume_polls env)"
      "ae_resume_deadline env \<le> start' + int m * seconds 1"
  shows "decided (can_use_tool patterns prompt thread_id env tool_name tool_input ps)"
proof -
  have r: "decided (request_operator_approval prompt env tool_name tool_input)"
    using paced_reaches [OF assms(1-3)] paced_reaches [OF assms(4-6)] by (rule request_decided)
  show ?thesis unfolding can_use_tool_def Let_def by (intro decided_intros r)
qed

section \<open>A gated tool runs only after an approval\<close>

lemma await_approval_answer:
  "await_approval deadline ps = Some (Inr (Some payload)) \<Longrightarrow>
     \<exists>t r. (t, r) \<in> set ps \<and> t < deadline \<and> poll_payload r = Some (JObj payload)"
proof (induction ps)
  case (Cons p ps)
  obtain t r where p: "p = (t, r)" by fastforce
  show ?case
  proof (cases "\<exists>q. poll_payload r = Some (JObj q) \<and> poll_status q \<noteq> ''pending''")
    case True
    then show ?thesis using Cons.prems p by (auto split: if_splits)
  next
    case False
    then have "await_approval deadline ps = Some (Inr (Some payload))"
      using Cons.prems p by (auto split: if_splits option.splits json.splits)
    with Cons.IH show ?thesis by auto
  qed
qed simp

lemma request_approved:
  assumes "fst (request_operator_approval prompt env tool input) = Some (Inr (True, actor))"
  shows "\<exists>t r payload. (t, r) \<in> set (ae_polls env) \<and> t < ae_deadline env
     \<and> poll_payload r = Some (JObj payload) \<and> poll_status payload = ''approved''"
proof -
  obtain answer where a: "await_approval (ae_deadline env) (ae_polls env) = Some (Inr answer)"
      "answer \<noteq> None" "poll_status (the answer) = ''approved''"
    using assms unfolding request_operator_approval_def
    by (auto simp: bind_gate_returned Let_def split: option.splits)
  then show ?thesis using await_approval_answer by force
qed

text \<open>The gateway's answer to a status poll: its handler on the database of that moment.\<close>

fun gateway_answer :: "json res \<Rightarrow> http_response" where
  "gateway_answer (Inr v) = Response 200 (Some v)"
| "gateway_answer (Inl (HTTPException code detail)) = Response code (Some (JObj [(''detail'', JStr detail)]))"
| "gateway_answer (Inl e) = Response 500 None"

lemma gateway_payload: "poll_payload (gateway_answer r) = Some v \<Longrightarrow> (\<exists>c m. r = Inl (HTTPException c m) \<and> v = JObj [(''detail'', JStr m)]) \<or> r = Inr v"
  by (cases r rule: gateway_answer.cases) (auto simp: raise_for_status_def response_json_def split: if_splits)

lemma scan_request_found:
  "scan_request rid as = Inr (Some a) \<Longrightarrow> a \<in> set as \<and>
     (\<exists>v. attr_get (get_default (a_metadata a) ''approval_requested'' (JObj [])) ''request_id'' = Inr v \<and> text_or_empty v = rid)"
  by (induction as) (auto simp: bind_res_Inr_iff split: if_splits)

definition request_id_of :: "approval \<Rightarrow> str" where
  "request_id_of a = text_or_empty (dget (obj_or_empty (get_default (a_metadata a) ''approval_requested'' (JObj []))) ''request_id'')"

lemma approval_status_row:
  assumes "get_runtime_approval_status task_id tool rid d = Inr (JObj payload)"
  shows "\<exists>a \<in> set (approvals d). uuid_of_str task_id = Some (a_task_id a) \<and> a_tool_name a = tool
     \<and> request_id_of a = rid \<and> poll_status payload = py_lower (py_strip (a_status a))"
proof -
  obtain i where i: "uuid_of_str task_id = Some i"
    using assms by (cases "uuid_of_str task_id") (auto simp: get_runtime_approval_status_def)
  then obtain found where f: "find_approval_by_request d i tool rid = Inr found" "found \<noteq> None"
    using assms by (auto simp: get_runtime_approval_status_def get_runtime_approval_def bind_res_Inr_iff split: option.splits)
  then obtain a where a: "find_approval_by_request d i tool rid = Inr (Some a)" by auto
  with assms i have p: "dget payload ''status'' = JStr (a_status a)"
    by (auto simp: get_runtime_approval_status_def get_runtime_approval_def bind_res_Inr_iff Let_def dget_def get_default_def)
  from a have s: "scan_request rid (sort_key (\<lambda>a. (- a_requested_at a, - a_created_at a))
       (filter (\<lambda>a. a_task_id a = i \<and> a_tool_name a = tool) (approvals d))) = Inr (Some a)"
    by (simp add: find_approval_by_request_def)
  have "request_id_of a = rid"
    using scan_request_found [OF s] by (auto simp: request_id_of_def attr_get_def split: json.splits)
  with scan_request_found [OF s] i p show ?thesis by (auto simp: poll_status_def)
qed

lemma detail_status: "poll_status [(''detail'', JStr m)] = []"
  by (simp add: poll_status_def dget_def get_default_def py_lower_def py_strip_def py_lstrip_def py_rstrip_def)

text \<open>
  C6. A tool that an approval pattern covers runs only when, before the deadline, the gateway's
  database held a record for that task, that tool and this very request whose status was
  approved; its input is passed on unchanged.
\<close>

theorem gated_tool_needs_approved_record:
  assumes needed: "bind_res (py_list patterns) (needs_approval tool_name tool_input) = Inr True"
    and polls: "ae_polls env =
      map (\<lambda>(t, d). (t, gateway_answer (get_runtime_approval_status task_id tool_name (ae_request_id env) d))) history"
    and allowed: "fst (can_use_tool patterns prompt thread_id env tool_name tool_input ps)
      = Some (Inr (PermissionResultAllow v, ps'))"
  shows "v = JObj tool_input \<and> ps' = ps \<and>
    (\<exists>(t, d) \<in> set history. t < ae_deadline env \<and>
       (\<exists>a \<in> set (approvals d). uuid_of_str task_id = Some (a_task_id a) \<and> a_tool_name a = tool_name
          \<and> request_id_of a = ae_request_id env \<and> py_lower (py_strip (a_status a)) = ''approved''))"
proof -
  obtain actor where req: "fst (request_operator_approval prompt env tool_name tool_input) = Some (Inr (True, actor))"
    and v: "v = JObj tool_input" "ps' = ps"
    using allowed by (auto simp: can_use_tool_def needed bind_gate_returned Let_def split: if_splits prod.splits)
  obtain t r payload where r: "(t, r) \<in> set (ae_polls env)" "t < ae_deadline env"
      "poll_payload r = Some (JObj payload)" "poll_status payload = ''approved''"
    using request_approved [OF req] by blast
  obtain d where d: "(t, d) \<in> set history"
      "r = gateway_answer (get_runtime_approval_status task_id tool_name (ae_request_id env) d)"
    using r(1) by (auto simp: polls)
  have "get_runtime_approval_status task_id tool_name (ae_request_id env) d = Inr (JObj payload)"
    using gateway_payload [of _ "JObj payload"] r(3,4) d(2) detail_status by fastforce
  from approval_status_row [OF this] r(2,4) d(1) v show ?thesis by (fastforce intro!: bexI [of _ "(t, d)"])
qed

definition demo_approved_db :: db where
  "demo_approved_db = demo_approval_db\<lparr>approvals := [demo_approval\<lparr>a_status := ''approved''\<rparr>]\<rparr>"

definition demo_history :: "(time \<times> db) list" where
  "demo_history = [(seconds 1, demo_approval_db), (seconds 3, demo_approved_db)]"

definition demo_gate_env :: approval_env where
  "demo_gate_env = \<lparr>ae_request_id = ''r7'', ae_deadline = seconds 3600,
     ae_polls = map (\<lambda>(t, d). (t, gateway_answer (get_runtime_approval_status (uuid_str 11) ''Bash'' ''r7'' d))) demo_history,
     ae_resume_deadline = seconds 3600, ae_resume_polls = [(seconds 4, Response 200 (Some (JObj [(''status'', JStr ''running'')])))]\<rparr>"

definition demo_patterns :: json where
  "demo_patterns = JList [JStr ''Write(*)'', JStr ''Bash(rm *)'']"

definition demo_call :: dict where
  "demo_call = [(''command'', JStr ''rm x'')]"

lemma can_use_tool_approved:
  assumes "bind_res (py_list patterns) (needs_approval tool_name tool_input) = Inr True"
    and "await_approval (ae_deadline env) (ae_polls env) = Some (Inr (Some payload))"
    and "wait_for_resume_admission ''approval'' (ae_resume_deadline env) (ae_resume_polls env) = Some (Inr ())"
    and "poll_status payload = ''approved''"
  shows "fst (can_use_tool patterns prompt thread_id env tool_name tool_input ps) = Some (Inr (PermissionResultAllow (JObj tool_input), ps))"
proof -
  have "\<exists>actor. fst (request_operator_approval prompt env tool_name tool_input) = Some (Inr (True, actor))"
    using assms(2-4) by (simp add: request_operator_approval_def Let_def)
  then show ?thesis using assms(1) by (simp add: can_use_tool_def bind_gate_returned) force
qed

lemma demo_status:
  "\<exists>p. get_runtime_approval_status (uuid_str 11) ''Bash'' ''r7'' (demo_approval_db\<lparr>approvals := [demo_approval\<lparr>a_status := s\<rparr>]\<rparr>)
     = Inr (JObj p) \<and> dget p ''status'' = JStr s"
  by (simp add: get_runtime_approval_status_def get_runtime_approval_def uuid_roundtrip find_approval_by_request_def
      demo_approval_def attr_get_def dget_def get_default_def)

theorem gated_tool_needs_approved_record_witness:
  "\<exists>v ps'. fst (can_use_tool demo_patterns ''p'' [] demo_gate_env ''Bash'' demo_call initial_progress)
       = Some (Inr (PermissionResultAllow v, ps')) \<and> v = JObj demo_call
     \<and> (\<exists>(t, d) \<in> set demo_history. t < ae_deadline demo_gate_env \<and>
         (\<exists>a \<in> set (approvals d). uuid_of_str (uuid_str 11) = Some (a_task_id a) \<and> a_tool_name a = ''Bash''
            \<and> request_id_of a = ae_request_id demo_gate_env \<and> py_lower (py_strip (a_status a)) = ''approved''))"
proof -
  have needed: "bind_res (py_list demo_patterns) (needs_approval ''Bash'' demo_call) = Inr True" by code_simp
  obtain p q where p: "get_runtime_approval_status (uuid_str 11) ''Bash'' ''r7'' demo_approval_db = Inr (JObj p)"
      "dget p ''status'' = JStr ''pending''"
    and q: "get_runtime_approval_status (uuid_str 11) ''Bash'' ''r7'' demo_approved_db = Inr (JObj q)"
      "dget q ''status'' = JStr ''approved''"
    using demo_status [of "''pending''"] demo_status [of "''approved''"] by (auto simp: demo_approved_db_def demo_approval_db_def demo_approval_def)
  have st: "poll_status p = ''pending''" "poll_status q = ''approved''"
    by (simp_all add: poll_status_def p q) code_simp+
  have "await_approval (ae_deadline demo_gate_env) (ae_polls demo_gate_env) = Some (Inr (Some q))"
    by (simp add: demo_gate_env_def demo_history_def p q st seconds_def raise_for_status_def response_json_def)
  moreover have "wait_for_resume_admission ''approval'' (ae_resume_deadline demo_gate_env) (ae_resume_polls demo_gate_env) = Some (Inr ())"
  proof -
    have "poll_status [(''status'', JStr ''running'')] = ''running''" by code_simp
    then show ?thesis by (simp add: demo_gate_env_def seconds_def raise_for_status_def response_json_def)
  qed
  ultimately have a: "fst (can_use_tool demo_patterns ''p'' [] demo_gate_env ''Bash'' demo_call initial_progress)
      = Some (Inr (PermissionResultAllow (JObj demo_call), initial_progress))"
    using needed st(2) by (intro can_use_tool_approved)
  have polls: "ae_polls demo_gate_env = map (\<lambda>(t, d). (t, gateway_answer
      (get_runtime_approval_status (uuid_str 11) ''Bash'' (ae_request_id demo_gate_env) d))) demo_history"
    by (simp add: demo_gate_env_def)
  show ?thesis using gated_tool_needs_approved_record [OF needed polls a] a by blast
qed

theorem permission_gate_decides_witness:
  "decided (can_use_tool demo_patterns ''p'' [] (demo_gate_env\<lparr>ae_deadline := seconds 2, ae_resume_deadline := seconds 2,
      ae_polls := [(seconds 0, NoResponse ''down''), (seconds 1, Response 404 None), (seconds 3, NoResponse ''down'')],
      ae_resume_polls := [(seconds 0, NoResponse ''down''), (seconds 2, NoResponse ''down''), (seconds 4, NoResponse ''down'')]\<rparr>)
     ''Bash'' demo_call initial_progress)"
  by (rule permission_gate_decides [where start = 0 and n = 2 and start' = 0 and m = 2])
    (auto simp: paced_def seconds_def demo_gate_env_def less_Suc_eq)

section \<open>Answering by number\<close>

lemma digit_not_space: "py_isdigit c \<Longrightarrow> \<not> py_isspace c \<and> c \<noteq> CHR '','' \<and> c \<noteq> CHR ''-'' \<and> c \<noteq> CHR ''+''"
  by (auto simp: py_isdigit_def py_isspace_def Let_def)

lemma strip_digits: "list_all py_isdigit s \<Longrightarrow> py_strip s = s"
proof -
  assume d: "list_all py_isdigit s"
  then have "\<forall>c \<in> set s. \<not> py_isspace c" using digit_not_space by (auto simp: list_all_iff)
  then show ?thesis by (simp add: py_strip_def py_lstrip_def py_rstrip_def dropWhile_absent)
qed

lemma split_digits: "list_all py_isdigit s \<Longrightarrow> split_char CHR '','' s = [s]"
proof -
  have "list_all py_isdigit s \<Longrightarrow> split_char_aux CHR '','' w s = [rev w @ s]" for w
    by (induction s arbitrary: w) (auto dest: digit_not_space)
  then show "list_all py_isdigit s \<Longrightarrow> split_char CHR '','' s = [s]" by (simp add: split_char_def)
qed

lemma int_of_str_nat: "int_of_str (str_of_nat n) = Some (int n)"
proof -
  obtain c r where s: "str_of_nat n = c # r" by (metis list.exhaust str_of_nat_not_Nil)
  then have "c \<noteq> CHR ''-''" "c \<noteq> CHR ''+''" using str_of_nat_digits [of n] digit_not_space by auto
  then show ?thesis
    using nat_of_str_str_of_nat [of n] strip_digits [OF str_of_nat_digits [of n]] s
    by (simp add: int_of_str_def Let_def)
qed

lemma option_lines_nth:
  "option_lines k options = Inr lines \<Longrightarrow> i < length options \<Longrightarrow>
     length lines = length options \<and>
     (\<exists>label rest. option_label (options ! i) = Inr label \<and>
        lines ! i = str_of_nat (k + i) @ ''. **'' @ py_str label @ ''**'' @ rest)"
proof (induction k options arbitrary: lines i rule: option_lines.induct)
  case (2 index opt opts)
  from 2(2) obtain d label ls where o: "opt = JObj d" "option_label (JObj d) = Inr label" "option_lines (Suc index) opts = Inr ls"
      and l: "\<exists>rest. lines = (str_of_nat index @ ''. **'' @ py_str label @ ''**'' @ rest) # ls"
    by (auto simp: bind_res_Inr_iff Let_def split: json.splits if_splits)
  have ih: "j < length opts \<Longrightarrow> length ls = length opts \<and>
     (\<exists>label rest. option_label (opts ! j) = Inr label \<and>
        ls ! j = str_of_nat (Suc index + j) @ ''. **'' @ py_str label @ ''**'' @ rest)" for j
    using 2(1) [OF o(3)] o by auto
  have len: "length ls = length opts"
    using ih [of 0] o(3) by (cases opts) auto
  show ?case
  proof (cases i)
    case 0
    then show ?thesis using o l len by auto
  next
    case (Suc j)
    then show ?thesis using ih [of j] 2(3) l len by auto
  qed
qed simp

text \<open>
  The number printed in front of an option is the reply that selects it: the prompt's line
  for an option starts with its number and label, and answering with that number alone is parsed
  to exactly that label, while any other number is taken as free text.
\<close>

lemma option_number_selects:
  assumes "option_lines 1 options = Inr lines"
  shows "if 1 \<le> n \<and> n \<le> length options
     then \<exists>label rest. lines ! (n - 1) = str_of_nat n @ ''. **'' @ py_str label @ ''**'' @ rest
            \<and> parse_question_response (str_of_nat n) False options = Inr label
     else parse_question_response (str_of_nat n) multi options = Inr (JStr (str_of_nat n))"
proof -
  have strip: "py_strip (str_of_nat n) = str_of_nat n" by (rule strip_digits [OF str_of_nat_digits])
  have split: "split_char CHR '','' (str_of_nat n) = [str_of_nat n]" by (rule split_digits [OF str_of_nat_digits])
  show ?thesis
  proof (cases "1 \<le> n \<and> n \<le> length options")
    case True
    then have i: "n - 1 < length options" "1 + (n - 1) = n" by auto
    obtain label rest where l: "option_label (options ! (n - 1)) = Inr label"
        "lines ! (n - 1) = str_of_nat n @ ''. **'' @ py_str label @ ''**'' @ rest"
      using option_lines_nth [OF assms i(1)] i(2) by auto
    have "nat (int n - 1) = n - 1" using True by simp
    then have "parse_question_response (str_of_nat n) False options = Inr label"
      using l(1) True by (simp add: parse_question_response_def strip split int_of_str_nat)
    with l True show ?thesis by auto
  next
    case False
    then have none: "filter (\<lambda>i. 1 \<le> i \<and> i \<le> int (length options)) [int n] = []" by auto
    have "parse_question_response (str_of_nat n) multi options = Inr (JStr (str_of_nat n))"
      unfolding parse_question_response_def Let_def strip split
      by (simp add: int_of_str_nat none strip del: filter.simps(2))
    with False show ?thesis by (simp only: if_False)
  qed
qed

definition demo_options :: "json list" where
  "demo_options = [JObj [(''label'', JStr ''Restart'')], JObj [(''label'', JStr ''Wait''), (''description'', JStr ''no change'')]]"

lemma option_number_selects_witness:
  "\<exists>lines label rest. option_lines 1 demo_options = Inr lines
     \<and> lines ! 1 = str_of_nat 2 @ ''. **'' @ py_str label @ ''**'' @ rest
     \<and> parse_question_response (str_of_nat 2) False demo_options = Inr label"
proof -
  obtain lines where l: "option_lines 1 demo_options = Inr lines"
    by (simp add: demo_options_def Let_def)
  then show ?thesis using option_number_selects [OF l, of 2] by (auto simp: demo_options_def)
qed

end
