(* ===== verification/Session_Loop.thy ===== *)
theory Session_Loop
  imports Session_Gate
begin

text \<open>
  The message loop of a session (\<open>run_agent_session\<close> and \<open>main\<close> of \<open>runtime/session_entrypoint.py\<close>).
  The Agent SDK yields messages, of which the code distinguishes the shapes of \<open>sdk_message\<close>. Next to
  the loop run a timer that flushes the transcript, a timer for the reminder, and the hooks of the
  permission gate, which add to the transcript; the coroutines interleave at their awaits, and the
  model takes each of their turns as one \<open>activity\<close>. The session's state carries the local
  variables of \<open>run_agent_session\<close>, the prompts put into the input stream (\<open>None\<close> closes it) and the
  reports sent to the gateway.

  The batch size is taken to be positive: the code reads it from the environment unchecked, and
  with zero its flush would never return.
\<close>

section \<open>Texts\<close>

definition ask_user_question_reminder_text :: str where
  "ask_user_question_reminder_text =
     ''Harness reminder: if you are stuck, missing key facts, or need a human decision, '' @
     ''first review the active specialists. You may use SendMessage with each active agent id to ask '' @
     ''whether it is nearing completion, blocked, or needs a specific decision; include the required '' @
     ''short summary with every SendMessage. Use their replies to synthesize a conclusion or one '' @
     ''specific AskUserQuestion for the human. Do not ask a human question merely to check specialist '' @
     ''progress. If the investigation is progressing and you are close to a conclusion, continue without asking.''"

definition subagent_no_output_retry_text :: str where
  "subagent_no_output_retry_text =
     ''The previous Agent subagent completed without returning any output. If that branch is still '' @
     ''important, retry once with a narrower prompt and a clearly stated deliverable. If you already '' @
     ''have enough verified evidence, continue the investigation yourself instead of retrying.''"

definition is_subagent_no_output_result :: "str \<Rightarrow> bool" where
  "is_subagent_no_output_result preview = py_contains preview ''Subagent completed but returned no output.''"

fun first_agent_name :: "dict \<Rightarrow> str list \<Rightarrow> str" where
  "first_agent_name input [] = []"
| "first_agent_name input (k # ks) =
     (case dget input k of JStr s \<Rightarrow> if py_strip s \<noteq> [] then py_strip s else first_agent_name input ks
                         | _ \<Rightarrow> first_agent_name input ks)"

definition tool_input_preview :: "str \<Rightarrow> json \<Rightarrow> str" where
  "tool_input_preview tool_name tool_input =
     take 500 (json_dumps (case tool_input of
        JObj d \<Rightarrow>
          if tool_name = ''Agent''
          then let agent_name = first_agent_name d [''subagent_type'', ''agent'', ''agent_name'', ''name''];
                   description = py_strip (text_or_empty (dget d ''description''));
                   prompt = py_strip (text_or_empty (dget d ''prompt''));
                   payload = (if agent_name \<noteq> [] then [(''subagent_type'', JStr agent_name)] else [])
                     @ (if description \<noteq> [] then [(''description'', JStr description)] else [])
                     @ (if prompt \<noteq> [] then [(''prompt_preview'', JStr (take 300 prompt))] else [])
               in JObj (if payload = [] then map (\<lambda>(k, v). (k, json_safe_value v)) d else payload)
          else JObj d
      | v \<Rightarrow> v))"

definition humanize_tool_name :: "str \<Rightarrow> str" where
  "humanize_tool_name tool_name =
     (let raw = py_strip tool_name; spaced = \<lambda>s. py_strip (py_replace ''_'' '' '' s);
          fallback = py_strip (py_replace ''_'' '' '' (py_replace ''__'' '' '' raw))
      in if raw = [] then ''the requested tool''
         else if py_startswith raw ''mcp__'' \<and> 3 \<le> length (py_split_on ''__'' raw)
         then let parts = py_split_on ''__'' raw;
                  combined = py_strip (spaced (parts ! 1) @ '' '' @ spaced (parts ! 2))
              in if combined \<noteq> [] then combined else fallback
         else fallback)"

definition priority_keys :: "str list" where
  "priority_keys = [''query'', ''prompt'', ''command'', ''description'', ''record_id'', ''object_type'', ''path'',
     ''file_path'', ''url'', ''endpoint'', ''workflow'', ''name'', ''id'']"

definition denied_value_text :: "json \<Rightarrow> str" where
  "denied_value_text value =
     (if is_obj value \<or> is_list value then take 120 (json_dumps value)
      else take 120 (py_strip (text_or_empty value)))"

text \<open>The parts taken from the priority keys, at most two, and the keys they came from.\<close>

fun priority_parts :: "dict \<Rightarrow> str list \<Rightarrow> (str \<times> str) list \<Rightarrow> (str \<times> str) list" where
  "priority_parts input [] parts = parts"
| "priority_parts input (k # ks) parts =
     (if 2 \<le> length parts then parts
      else case map_of input k of
        None \<Rightarrow> priority_parts input ks parts
      | Some v \<Rightarrow>
          let value_text = denied_value_text (json_safe_value v)
          in if value_text = [] then priority_parts input ks parts
             else priority_parts input ks (parts @ [(k, value_text)]))"

fun other_parts :: "dict \<Rightarrow> str list \<Rightarrow> (str \<times> str) list \<Rightarrow> (str \<times> str) list" where
  "other_parts [] seen parts = parts"
| "other_parts ((k, v) # input) seen parts =
     (if 2 \<le> length parts then parts
      else if k \<in> set seen \<or> v = JNull \<or> is_obj v \<or> is_list v \<or> take 120 (py_strip (py_str v)) = []
      then other_parts input seen parts
      else other_parts input seen (parts @ [(k, take 120 (py_strip (py_str v)))]))"

definition summarize_denied_tool_input :: "json \<Rightarrow> str" where
  "summarize_denied_tool_input tool_input =
     (case tool_input of
        JObj d \<Rightarrow>
          if d = [] then []
          else let parts = priority_parts d priority_keys []
               in py_join '', '' (map (\<lambda>(k, t). k @ ''='' @ t) (other_parts d (map fst parts) parts))
      | _ \<Rightarrow> [])"

definition approval_denied_result_text :: "denial \<Rightarrow> str" where
  "approval_denied_result_text dn =
     (let tool_label = humanize_tool_name (py_strip (dn_tool_name dn));
          input_summary = summarize_denied_tool_input (if is_obj (dn_tool_input dn) then dn_tool_input dn else JObj [])
      in ''I could not complete the requested action because access to '' @ tool_label @ '' was not approved.'' @
         (if input_summary \<noteq> [] then '' Blocked request: '' @ input_summary @ ''.'' else []) @
         '' I can only answer from already available information, and I do not have enough verified evidence '' @
         ''to complete this reliably right now.'')"

section \<open>Configuration, messages and state\<close>

definition thinking_config :: "str \<Rightarrow> (dict option \<times> str) res" where
  "thinking_config env_value =
     (let mode = py_lower (py_strip env_value)
      in if mode \<in> set [[], ''auto'', ''default'', ''on'', ''enabled'', ''true'', ''1''] then Inr (None, ''provider_default'')
         else if mode \<in> set [''off'', ''disabled'', ''false'', ''0''] then Inr (Some [(''type'', JStr ''disabled'')], ''disabled'')
         else Inl (ValueError ''CLAUDE_CODE_THINKING_MODE must be one of: default, on, off''))"

record session_config =
  cf_batch_size :: nat
  cf_batch_max_age :: time
  cf_max_turns :: int
  cf_runtime_timeout_sec :: int
  cf_reminder_enabled :: bool
  cf_reminder_min_turns :: int
  cf_reminder_turn_ratio :: rat
  cf_reminder_time_ratio :: rat
  cf_reminder_window :: int

datatype block = TextBlock "str option" | ToolUseBlock str str json | ThinkingBlock str | OtherBlock

record result_message =
  rm_result :: "str option"
  rm_num_turns :: int
  rm_total_cost_usd :: "rat option"
  rm_usage :: "dict option"
  rm_model_usage :: json

text \<open>
  The shapes the loop tells apart: an assistant message, a bare tool result, a user message whose
  content holds a tool result, a result, a system message, and anything else by its \<open>repr\<close>.
\<close>

datatype sdk_message =
    AssistantMessage str json "block list"
  | ToolResultBlock json json bool
  | WrappedToolResult json json json bool
  | ResultMessage result_message
  | SystemMessage str json
  | OtherMessage str

text \<open>An exception of the query by its text, and whether it is a \<open>TimeoutError\<close>.\<close>

datatype session_error = SessionTimeout str | SessionFailure str

datatype query_event = QueryMessage sdk_message | QueryDone | QueryError session_error

record session =
  ss_input_tokens :: int
  ss_output_tokens :: int
  ss_final_text :: str
  ss_num_turns :: int
  ss_total_cost_usd :: rat
  ss_model_usage :: json
  ss_conversation :: "dict list"
  ss_flushed :: nat
  ss_pending_since :: "time option"
  ss_tool_names :: "(str \<times> str) list"
  ss_retried :: "str list"
  ss_token_totals :: "(str \<times> int) list"
  ss_pending_subagents :: "str list"
  ss_subagent_owners :: "(str \<times> str) list"
  ss_had_subagents :: bool
  ss_coordinator_result :: bool
  ss_observed_turns :: int
  ss_stream_closed :: bool
  ss_prompts :: "str option list"
  ss_reports :: "(str \<times> dict) list"
  ss_progress :: progress_state
  ss_first_message :: bool

definition start_session :: "str \<Rightarrow> session" where
  "start_session prompt = \<lparr>ss_input_tokens = 0, ss_output_tokens = 0, ss_final_text = [], ss_num_turns = 0,
     ss_total_cost_usd = 0, ss_model_usage = JObj [], ss_conversation = [], ss_flushed = 0, ss_pending_since = None,
     ss_tool_names = [], ss_retried = [], ss_token_totals = [], ss_pending_subagents = [], ss_subagent_owners = [],
     ss_had_subagents = False, ss_coordinator_result = False, ss_observed_turns = 0, ss_stream_closed = False,
     ss_prompts = [Some prompt], ss_reports = [], ss_progress = initial_progress, ss_first_message = False\<rparr>"

abbreviation upd_progress :: "(progress_state \<Rightarrow> progress_state) \<Rightarrow> session \<Rightarrow> session" where
  "upd_progress f s \<equiv> s\<lparr>ss_progress := f (ss_progress s)\<rparr>"

definition report :: "str \<Rightarrow> dict \<Rightarrow> session \<Rightarrow> session" where
  "report ty data s = s\<lparr>ss_reports := ss_reports s @ [(ty, data)]\<rparr>"

section \<open>Flushing the transcript\<close>

definition batch_report :: "nat \<Rightarrow> session \<Rightarrow> session" where
  "batch_report boundary s =
     (report ''conversation_batch''
        [(''messages'', JList (map JObj (take (boundary - ss_flushed s) (drop (ss_flushed s) (ss_conversation s))))),
         (''turn_index'', JInt (int boundary))] s)\<lparr>ss_flushed := boundary\<rparr>"

function full_batches :: "nat \<Rightarrow> session \<Rightarrow> session" where
  "full_batches bs s =
     (if 0 < bs \<and> bs \<le> length (ss_conversation s) - ss_flushed s
      then full_batches bs (batch_report (ss_flushed s + bs) s) else s)"
  by pat_completeness auto
termination
  by (relation "measure (\<lambda>(bs, s). length (ss_conversation s) - ss_flushed s)") (auto simp: batch_report_def report_def)

declare full_batches.simps [simp del]

definition flush_conversation_batches :: "session_config \<Rightarrow> bool \<Rightarrow> time \<Rightarrow> session \<Rightarrow> session" where
  "flush_conversation_batches cf force now s0 =
     (let s1 = full_batches (cf_batch_size cf) s0;
          s2 = (if force \<and> ss_flushed s1 < length (ss_conversation s1)
                then batch_report (length (ss_conversation s1)) s1 else s1)
      in s2\<lparr>ss_pending_since :=
            (if ss_flushed s2 < length (ss_conversation s2)
             then (case ss_pending_since s2 of None \<Rightarrow> Some now | Some t \<Rightarrow> Some t) else None)\<rparr>)"

definition flush_tick :: "session_config \<Rightarrow> time \<Rightarrow> session \<Rightarrow> session" where
  "flush_tick cf now s =
     (case ss_pending_since s of
        None \<Rightarrow> s
      | Some t \<Rightarrow> if now - t < cf_batch_max_age cf then s else flush_conversation_batches cf True now s)"

definition append_transcript_messages :: "session_config \<Rightarrow> time \<Rightarrow> dict list \<Rightarrow> session \<Rightarrow> session" where
  "append_transcript_messages cf now messages s =
     (if messages = [] then s
      else let s1 = s\<lparr>ss_conversation := ss_conversation s @ messages\<rparr>
           in flush_conversation_batches cf False now
                (upd_progress (\<lambda>ps. ps\<lparr>ps_total_messages := int (length (ss_conversation s1))\<rparr>) s1))"

section \<open>The reminder\<close>

text \<open>\<open>round(q, 3)\<close>, a tie going to the even neighbour.\<close>

definition round3 :: "rat \<Rightarrow> rat" where
  "round3 q =
     (let x = q * 1000; n = \<lfloor>x\<rfloor>; f = x - of_int n
      in of_int (if f < 1/2 then n else if 1/2 < f then n + 1 else if even n then n else n + 1) / 1000)"

text \<open>\<open>elapsed\<close> is the monotonic time since the query started.\<close>

definition should_send_reminder :: "session_config \<Rightarrow> time \<Rightarrow> progress_state \<Rightarrow> dict option" where
  "should_send_reminder cf elapsed0 ps =
     (let turns = ps_turns ps; elapsed = max 0 elapsed0;
          time_threshold = (if 0 < cf_runtime_timeout_sec cf
             then of_int (cf_runtime_timeout_sec cf) * cf_reminder_time_ratio cf else 0);
          time_triggered = (0 < time_threshold \<and> time_threshold \<le> total_seconds elapsed);
          turn_threshold = max (cf_reminder_min_turns cf) (trunc_rat (of_int (cf_max_turns cf) * cf_reminder_turn_ratio cf));
          turn_triggered = (0 < cf_max_turns cf \<and> turn_threshold \<le> turns)
      in if \<not> cf_reminder_enabled cf \<or> ps_ask_user_question_reminder_sent ps
            \<or> py_strip (ps_last_result_text ps) \<noteq> []
            \<or> (turns < cf_reminder_min_turns cf \<and> \<not> time_triggered)
            \<or> (case ps_last_ask_user_question_turn ps of None \<Rightarrow> False | Some t \<Rightarrow> turns - t \<le> cf_reminder_window cf)
            \<or> \<not> (turn_triggered \<or> time_triggered)
         then None
         else Some [(''turns'', JInt turns), (''elapsed_sec'', JFloat (round3 (total_seconds elapsed))),
            (''turn_threshold'', JInt turn_threshold), (''time_threshold_sec'', JFloat (round3 time_threshold)),
            (''trigger'', JStr (if turn_triggered then ''turn_budget'' else ''time_budget''))])"

definition inject_reminder :: "session_config \<Rightarrow> time \<Rightarrow> dict \<Rightarrow> session \<Rightarrow> session" where
  "inject_reminder cf now ctx s =
     (if ps_ask_user_question_reminder_sent (ss_progress s) then s
      else let s1 = (upd_progress (\<lambda>ps. ps\<lparr>ps_ask_user_question_reminder_sent := True\<rparr>) s)
                 \<lparr>ss_prompts := ss_prompts s @ [Some ask_user_question_reminder_text]\<rparr>
           in report ''ask_user_question_reminder'' ctx
                (append_transcript_messages cf now
                  [transcript_text_message now ''user'' ask_user_question_reminder_text ''ask_user_question_reminder'' ctx] s1))"

definition reminder_tick :: "session_config \<Rightarrow> time \<Rightarrow> time \<Rightarrow> session \<Rightarrow> session" where
  "reminder_tick cf now elapsed s =
     (case should_send_reminder cf elapsed (ss_progress s) of None \<Rightarrow> s | Some ctx \<Rightarrow> inject_reminder cf now ctx s)"

section \<open>Handling one message\<close>

definition resumed_subagent_recipient :: "str \<Rightarrow> json \<Rightarrow> (str \<times> str) list \<Rightarrow> str list \<Rightarrow> str option" where
  "resumed_subagent_recipient tool_name tool_input owners pending =
     (case tool_input of
        JObj d \<Rightarrow>
          let recipient = text_or_empty (py_or (dget d ''recipient'') (dget d ''to''))
          in if tool_name = ''SendMessage'' \<and> recipient \<noteq> []
                \<and> (case map_of owners recipient of None \<Rightarrow> False | Some o' \<Rightarrow> o' \<notin> set pending)
             then Some recipient else None
      | _ \<Rightarrow> None)"

definition set_pending_subagent_owner :: "str \<Rightarrow> str \<Rightarrow> session \<Rightarrow> session" where
  "set_pending_subagent_owner task_id tool_use_id s =
     (let pending = (case map_of (ss_subagent_owners s) task_id of
            Some prev \<Rightarrow> if prev \<noteq> [] \<and> prev \<noteq> tool_use_id then removeAll prev (ss_pending_subagents s) else ss_pending_subagents s
          | None \<Rightarrow> ss_pending_subagents s)
      in s\<lparr>ss_subagent_owners := AList.update task_id tool_use_id (ss_subagent_owners s),
           ss_pending_subagents := List.insert tool_use_id pending\<rparr>)"

definition annotate_workflow_usage :: "dict \<Rightarrow> (str \<times> int) list \<Rightarrow> dict \<times> (str \<times> int) list" where
  "annotate_workflow_usage data totals =
     (let task_id = py_strip (text_or_empty (dget data ''task_id''));
          observed = (case dget data ''usage'' of JObj u \<Rightarrow> dget u ''total_tokens'' | _ \<Rightarrow> JNull)
      in case (num_value observed, task_id) of
           (Some q, _ # _) \<Rightarrow>
             let totals' = AList.update task_id (max (case map_of totals task_id of None \<Rightarrow> 0 | Some n \<Rightarrow> n) (trunc_rat q)) totals
             in (dset ''workflow_usage'' (JObj [(''total_tokens'', JInt (sum_list (map snd totals'))),
                   (''agent_count'', JInt (int (length totals')))]) data, totals')
         | _ \<Rightarrow> (data, totals))"

text \<open>One content block of an assistant message: its record and its effect on the subagents.\<close>

fun assistant_block :: "block \<Rightarrow> session \<Rightarrow> json list \<times> str \<times> session" where
  "assistant_block (TextBlock t) s = ([JObj [(''type'', JStr ''text''), (''text'', JStr (take 2000 (opt_str t)))]], opt_str t, s)"
| "assistant_block (ToolUseBlock tool_name tool_use_id input) s =
     (let s1 = s\<lparr>ss_tool_names := AList.update tool_use_id tool_name (ss_tool_names s)\<rparr>;
          s2 = (if tool_name \<in> set [''Agent'', ''Task'']
                then s1\<lparr>ss_had_subagents := True, ss_pending_subagents := List.insert tool_use_id (ss_pending_subagents s1)\<rparr>
                else case resumed_subagent_recipient tool_name input (ss_subagent_owners s1) (ss_pending_subagents s1) of
                  None \<Rightarrow> s1
                | Some task_id \<Rightarrow> s1\<lparr>ss_pending_subagents := List.insert tool_use_id (ss_pending_subagents s1),
                    ss_subagent_owners := AList.update task_id tool_use_id (ss_subagent_owners s1)\<rparr>)
      in ([JObj [(''type'', JStr ''tool_use''), (''name'', JStr tool_name), (''id'', JStr tool_use_id),
            (''input_preview'', JStr (tool_input_preview tool_name input))]], [], s2))"
| "assistant_block (ThinkingBlock t) s = ([JObj [(''type'', JStr ''thinking''), (''preview'', JStr (take 500 t))]], [], s)"
| "assistant_block OtherBlock s = ([], [], s)"

fun assistant_blocks :: "block list \<Rightarrow> session \<Rightarrow> json list \<times> str list \<times> session" where
  "assistant_blocks [] s = ([], [], s)"
| "assistant_blocks (b # bs) s =
     (let (j, t, s1) = assistant_block b s; (js, ts, s2) = assistant_blocks bs s1
      in (j @ js, (if t \<noteq> [] then t # ts else ts), s2))"

definition token_count :: "dict \<Rightarrow> str \<Rightarrow> int" where
  "token_count usage k = (case dget usage k of JInt n \<Rightarrow> n | _ \<Rightarrow> 0)"

definition close_prompt_stream_when_idle :: "session \<Rightarrow> session" where
  "close_prompt_stream_when_idle s =
     (if ps_last_result_text (ss_progress s) \<noteq> [] \<and> ss_pending_subagents s = [] \<and> \<not> ss_stream_closed s
      then s\<lparr>ss_stream_closed := True, ss_prompts := ss_prompts s @ [None]\<rparr> else s)"

text \<open>The branches of the dispatch: the fields of the record, the state, and whether the session ends.\<close>

definition on_assistant :: "str \<Rightarrow> json \<Rightarrow> block list \<Rightarrow> session \<Rightarrow> dict \<times> session" where
  "on_assistant model parent content s =
     (let (blocks, texts, s1) = assistant_blocks content (s\<lparr>ss_observed_turns := ss_observed_turns s + 1\<rparr>);
          assistant_text = py_strip (py_join [CHR 0x0A] texts)
      in ([(''type'', JStr ''assistant''), (''model'', JStr model), (''parent_tool_use_id'', parent), (''content'', JList blocks)],
          if assistant_text \<noteq> [] then upd_progress (\<lambda>ps. ps\<lparr>ps_last_assistant_message := assistant_text\<rparr>) s1 else s1))"

definition take_usage :: "dict option \<Rightarrow> session \<Rightarrow> dict \<times> session" where
  "take_usage usage s =
     (if usage = None \<or> usage = Some [] then ([], s)
      else let i = token_count (the usage) ''input_tokens''; out = token_count (the usage) ''output_tokens''
           in ([(''usage'', JObj [(''input_tokens'', JInt i), (''output_tokens'', JInt out), (''total_tokens'', JInt (i + out))])],
               s\<lparr>ss_input_tokens := i, ss_output_tokens := out\<rparr>))"

text \<open>A result that arrives while subagents run is interim; otherwise it is the session's so far.\<close>

definition settle_result :: "str \<Rightarrow> session \<Rightarrow> session" where
  "settle_result result_text s =
     (if ss_had_subagents s \<and> ss_pending_subagents s \<noteq> []
      then upd_progress (\<lambda>ps. ps\<lparr>ps_last_interim_result_text := Some result_text\<rparr>) s
      else upd_progress (\<lambda>ps. ps\<lparr>ps_last_result_text := result_text\<rparr>) (s\<lparr>ss_final_text := result_text\<rparr>))"

definition take_result :: "result_message \<Rightarrow> session \<Rightarrow> dict \<times> session" where
  "take_result m s =
     (let result_text = opt_str (rm_result m);
          cost = (case rm_total_cost_usd m of None \<Rightarrow> 0 | Some q \<Rightarrow> q);
          (usage, s1) = take_usage (rm_usage m) (s\<lparr>ss_num_turns := rm_num_turns m, ss_total_cost_usd := cost,
             ss_model_usage := py_or (rm_model_usage m) (JObj [])\<rparr>)
      in ([(''type'', JStr ''result'')] @ usage @ [(''result_preview'', JStr (take 2000 result_text)),
            (''num_turns'', JInt (rm_num_turns m)), (''total_cost_usd'', JFloat cost)],
          settle_result result_text s1))"

definition on_result :: "result_message \<Rightarrow> session \<Rightarrow> dict \<times> session \<times> bool" where
  "on_result m s =
     (let (record_fields, s1) = take_result m s
      in if ss_had_subagents s1 \<and> ss_pending_subagents s1 = []
         then (record_fields, s1\<lparr>ss_coordinator_result := True\<rparr>, True)
         else if \<not> ss_had_subagents s1 then (record_fields, close_prompt_stream_when_idle s1, False)
         else (record_fields, s1, False))"

definition terminal_subagent_statuses :: "str list" where
  "terminal_subagent_statuses = [''completed'', ''failed'', ''cancelled'', ''canceled'']"

definition track_subagent :: "str \<Rightarrow> json \<Rightarrow> session \<Rightarrow> session" where
  "track_subagent subtype safe_data s =
     (let d = obj_or_empty safe_data; task_id = text_or_empty (dget d ''task_id'')
      in if subtype = ''task_started''
         then let s1 = s\<lparr>ss_had_subagents := True\<rparr>; tool_use_id = text_or_empty (dget d ''tool_use_id'')
              in if tool_use_id \<noteq> [] \<and> task_id \<noteq> [] then set_pending_subagent_owner task_id tool_use_id s1
                 else if tool_use_id \<noteq> [] then s1\<lparr>ss_pending_subagents := List.insert tool_use_id (ss_pending_subagents s1)\<rparr>
                 else s1
         else if subtype = ''task_notification'' \<and> is_obj safe_data
         then let owner = (case map_of (ss_subagent_owners s) task_id of None \<Rightarrow> [] | Some o' \<Rightarrow> o');
                  tool_use_id = py_str (py_or (dget d ''tool_use_id'') (JStr owner));
                  s1 = (if tool_use_id \<noteq> [] \<and> task_id \<noteq> []
                        then s\<lparr>ss_subagent_owners := AList.update task_id tool_use_id (ss_subagent_owners s)\<rparr> else s)
              in if tool_use_id \<noteq> [] \<and> py_lower (text_or_empty (dget d ''status'')) \<in> set terminal_subagent_statuses
                 then s1\<lparr>ss_pending_subagents := removeAll tool_use_id (ss_pending_subagents s1)\<rparr> else s1
         else s)"

definition on_system :: "str \<Rightarrow> json \<Rightarrow> session \<Rightarrow> dict \<times> session" where
  "on_system subtype data s =
     (let safe = json_safe_value (py_or data (JObj []));
          (annotated, totals) = (case safe of
             JObj d \<Rightarrow> if subtype \<in> set [''task_progress'', ''task_notification'']
               then (let (d', t) = annotate_workflow_usage d (ss_token_totals s) in (JObj d', t))
               else (safe, ss_token_totals s)
           | _ \<Rightarrow> (safe, ss_token_totals s))
      in ([(''type'', JStr ''system''), (''subtype'', JStr subtype), (''data'', annotated)],
          track_subagent subtype annotated (s\<lparr>ss_token_totals := totals\<rparr>)))"

fun on_message :: "sdk_message \<Rightarrow> session \<Rightarrow> dict \<times> session \<times> bool" where
  "on_message (AssistantMessage model parent content) s = (let (r, s1) = on_assistant model parent content s in (r, s1, False))"
| "on_message (ToolResultBlock tool_use_id content is_error) s =
     ([(''type'', JStr ''tool_result''), (''tool_use_id'', tool_use_id),
       (''content_preview'', JStr (take 2000 (if truthy content then py_str content else []))),
       (''is_error'', JBool is_error)], s, False)"
| "on_message (WrappedToolResult tool_use_id parent content is_error) s =
     ([(''type'', JStr ''tool_result''), (''tool_use_id'', tool_use_id), (''parent_tool_use_id'', parent),
       (''content_preview'', JStr (take 2000 (if content = JNull then [] else py_str content))),
       (''is_error'', JBool is_error)], s, False)"
| "on_message (ResultMessage m) s = on_result m s"
| "on_message (SystemMessage subtype data) s = (let (r, s1) = on_system subtype data s in (r, s1, False))"
| "on_message (OtherMessage r) s = ([(''type'', JStr ''unknown''), (''repr'', JStr (take 500 r))], s, False)"

definition record_message :: "session_config \<Rightarrow> time \<Rightarrow> dict \<Rightarrow> session \<Rightarrow> session" where
  "record_message cf now fields0 s =
     (let s1 = s\<lparr>ss_conversation := ss_conversation s @ [(''timestamp'', JFloat (total_seconds now)) # fields0]\<rparr>
      in flush_conversation_batches cf False now (upd_progress (\<lambda>ps. ps\<lparr>
           ps_input_tokens := ss_input_tokens s1, ps_output_tokens := ss_output_tokens s1,
           ps_turns := max (ss_num_turns s1) (ss_observed_turns s1), ps_total_cost_usd := ss_total_cost_usd s1,
           ps_model_usage := ss_model_usage s1, ps_total_messages := int (length (ss_conversation s1))\<rparr>) s1))"

definition inject_retry :: "session_config \<Rightarrow> time \<Rightarrow> str \<Rightarrow> session \<Rightarrow> session" where
  "inject_retry cf now tool_use_id s =
     report ''subagent_no_output'' [(''tool_use_id'', JStr tool_use_id), (''retry_injected'', JBool True)]
       (append_transcript_messages cf now
         [transcript_text_message now ''user'' subagent_no_output_retry_text ''subagent_no_output_retry''
            [(''tool_use_id'', JStr tool_use_id)]]
         (s\<lparr>ss_retried := tool_use_id # ss_retried s, ss_prompts := ss_prompts s @ [Some subagent_no_output_retry_text]\<rparr>))"

text \<open>An \<open>Agent\<close> call that failed is no longer pending; one that returned nothing is retried once.\<close>

definition retry_subagent :: "session_config \<Rightarrow> time \<Rightarrow> dict \<Rightarrow> session \<Rightarrow> session" where
  "retry_subagent cf now fields0 s =
     (let tool_use_id = text_or_empty (dget fields0 ''tool_use_id'');
          preview = text_or_empty (dget fields0 ''content_preview'')
      in if dget fields0 ''type'' = JStr ''tool_result'' \<and> map_of (ss_tool_names s) tool_use_id = Some ''Agent''
         then let s1 = (if truthy (dget fields0 ''is_error'')
                        then s\<lparr>ss_pending_subagents := removeAll tool_use_id (ss_pending_subagents s)\<rparr> else s)
              in if tool_use_id \<noteq> [] \<and> tool_use_id \<notin> set (ss_retried s1) \<and> is_subagent_no_output_result preview
                 then inject_retry cf now tool_use_id s1
                 else s1
         else s)"

datatype loop_end = Going | Finished | Raised session_error

definition handle_sdk_message :: "session_config \<Rightarrow> time \<Rightarrow> time \<Rightarrow> sdk_message \<Rightarrow> session \<Rightarrow> session \<times> loop_end" where
  "handle_sdk_message cf now elapsed m s =
     (let (fields0, s1, finish) = on_message m (s\<lparr>ss_first_message := True\<rparr>);
          s2 = record_message cf now fields0 s1
      in if finish then (s2, Finished)
         else (reminder_tick cf now elapsed (retry_subagent cf now fields0 s2), Going))"

fun handle_query_event :: "session_config \<Rightarrow> time \<Rightarrow> time \<Rightarrow> query_event \<Rightarrow> session \<Rightarrow> session \<times> loop_end" where
  "handle_query_event cf now elapsed QueryDone s =
     (if ss_had_subagents s \<and> \<not> ss_coordinator_result s
      then (s, Raised (SessionFailure ''Async subagent session ended before coordinator terminal result''))
      else (s, Finished))"
| "handle_query_event cf now elapsed (QueryError e) s = (s, Raised e)"
| "handle_query_event cf now elapsed (QueryMessage m) s = handle_sdk_message cf now elapsed m s"

section \<open>The whole session\<close>

definition report_precompact :: "dict \<Rightarrow> emission list" where
  "report_precompact input_data = [Reported ''hook_event'' [(''hook_name'', JStr ''runtime''), (''hook_event'', JStr ''PreCompact''),
     (''status'', JStr ''observed''), (''detail'', JStr (take 2000 (json_dumps (json_safe_value (JObj input_data)))))]]"

text \<open>
  A turn of one of the coroutines, with the clock and the time since the query started: the loop
  takes a query event or gives up waiting, the timers tick, a hook adds to the transcript or
  changes the progress state (a denial, a question asked).
\<close>

datatype activity =
    FromQuery time time query_event
  | Watchdog session_error
  | FlushTick time
  | ReminderTick time time
  | HookEmits time "emission list"
  | HookDenied denial
  | HookAsked

fun hook_emission :: "session_config \<Rightarrow> time \<Rightarrow> emission \<Rightarrow> session \<Rightarrow> session" where
  "hook_emission cf now (Reported ty data) s = report ty data s"
| "hook_emission cf now (Transcribed m) s = append_transcript_messages cf now [m] s"

fun session_step :: "session_config \<Rightarrow> activity \<Rightarrow> session \<Rightarrow> session \<times> loop_end" where
  "session_step cf (FromQuery now elapsed e) s = handle_query_event cf now elapsed e s"
| "session_step cf (Watchdog e) s = (s, Raised e)"
| "session_step cf (FlushTick now) s = (flush_tick cf now s, Going)"
| "session_step cf (ReminderTick now elapsed) s = (reminder_tick cf now elapsed s, Going)"
| "session_step cf (HookEmits now es) s = (fold (hook_emission cf now) es s, Going)"
| "session_step cf (HookDenied dn) s = (upd_progress (\<lambda>ps. ps\<lparr>ps_approval_denied := Some dn\<rparr>) s, Going)"
| "session_step cf HookAsked s = (upd_progress note_question s, Going)"

fun session_loop :: "session_config \<Rightarrow> activity list \<Rightarrow> session \<Rightarrow> session \<times> loop_end" where
  "session_loop cf [] s = (s, Going)"
| "session_loop cf (a # as) s =
     (case session_step cf a s of (s1, Going) \<Rightarrow> session_loop cf as s1 | (s1, e) \<Rightarrow> (s1, e))"

definition finish_session :: "session_config \<Rightarrow> time \<Rightarrow> session \<Rightarrow> dict \<times> session" where
  "finish_session cf now s =
     (let s1 = flush_conversation_batches cf True now s;
          final_text = (case ps_approval_denied (ss_progress s1) of
             Some dn \<Rightarrow> if ss_final_text s1 = [] then approval_denied_result_text dn else ss_final_text s1
           | None \<Rightarrow> ss_final_text s1);
          s2 = report ''session_phase'' [(''phase'', JStr ''claude_query_complete''),
                 (''total_messages'', JInt (int (length (ss_conversation s1))))] s1
      in ([(''result'', JStr (truncate_event_text final_text MAX_INLINE_SIZE)), (''result_preview'', JStr (take 5000 final_text)),
           (''input_tokens'', JInt (ss_input_tokens s2)), (''output_tokens'', JInt (ss_output_tokens s2)),
           (''total_cost_usd'', JFloat (ss_total_cost_usd s2)), (''model_usage'', ss_model_usage s2),
           (''turns'', JInt (max (ss_num_turns s2) (ss_observed_turns s2))),
           (''total_messages'', JInt (int (length (ss_conversation s2))))], s2))"

text \<open>
  The part of \<open>main\<close> around the session: the last report, and the exception it raises again.
\<close>

definition conclude :: "session_config \<Rightarrow> time \<Rightarrow> session \<times> loop_end \<Rightarrow> session \<times> session_error option" where
  "conclude cf now r =
     (case r of
        (s, Going) \<Rightarrow> (s, None)
      | (s, Finished) \<Rightarrow> (let (result, s1) = finish_session cf now s in (report ''session_complete'' result s1, None))
      | (s, Raised e) \<Rightarrow>
          (case e of
             SessionTimeout m \<Rightarrow>
               (report ''session_timeout'' (build_terminal_event_payload (ss_progress s)
                  (if m \<noteq> [] then m else ''Session timed out'')) s, Some e)
           | SessionFailure m \<Rightarrow>
               (report ''session_error'' (build_terminal_event_payload (ss_progress s)
                  (terminal_error_text m (ss_progress s))) s, Some e)))"

definition run_session :: "session_config \<Rightarrow> str \<Rightarrow> dict \<Rightarrow> dict \<Rightarrow> activity list \<Rightarrow> time \<Rightarrow> session \<times> session_error option" where
  "run_session cf prompt start_data phase_data acts now =
     conclude cf now (session_loop cf acts
       (report ''session_phase'' phase_data (report ''session_start'' start_data (start_session prompt))))"

section \<open>The transcript reaches the gateway in order\<close>

text \<open>The messages of the batches reported so far.\<close>

fun batch_messages :: "(str \<times> dict) list \<Rightarrow> dict list" where
  "batch_messages [] = []"
| "batch_messages ((ty, data) # rs) =
     (if ty = ''conversation_batch'' then (case dget data ''messages'' of JList ms \<Rightarrow> map obj_or_empty ms | _ \<Rightarrow> []) else [])
     @ batch_messages rs"

lemma batch_messages_append [simp]: "batch_messages (rs @ rs') = batch_messages rs @ batch_messages rs'"
  by (induction rs) auto

definition transcript_inv :: "session \<Rightarrow> bool" where
  "transcript_inv s \<longleftrightarrow> ss_flushed s \<le> length (ss_conversation s)
     \<and> batch_messages (ss_reports s) = take (ss_flushed s) (ss_conversation s)"

text \<open>The part of the state the transcript lives in; most of what the loop does leaves it alone.\<close>

definition transcript :: "session \<Rightarrow> (str \<times> dict) list \<times> nat \<times> dict list" where
  "transcript s = (ss_reports s, ss_flushed s, ss_conversation s)"

lemma transcript_inv_cong: "transcript s = transcript s' \<Longrightarrow> transcript_inv s = transcript_inv s'"
  by (simp add: transcript_def transcript_inv_def)

lemma report_inv: "ty \<noteq> ''conversation_batch'' \<Longrightarrow> transcript_inv (report ty data s) = transcript_inv s"
  by (simp add: report_def transcript_inv_def)

lemma report_fields [simp]:
  "ss_flushed (report ty data s) = ss_flushed s" "ss_conversation (report ty data s) = ss_conversation s"
  "ss_pending_subagents (report ty data s) = ss_pending_subagents s" "ss_final_text (report ty data s) = ss_final_text s"
  "ss_had_subagents (report ty data s) = ss_had_subagents s" "ss_coordinator_result (report ty data s) = ss_coordinator_result s"
  "ss_progress (report ty data s) = ss_progress s" "ss_prompts (report ty data s) = ss_prompts s"
  "ss_retried (report ty data s) = ss_retried s" "ss_stream_closed (report ty data s) = ss_stream_closed s"
  by (simp_all add: report_def)

lemma batch_report_fields [simp]:
  "ss_flushed (batch_report n s) = n" "ss_conversation (batch_report n s) = ss_conversation s"
  "ss_pending_subagents (batch_report n s) = ss_pending_subagents s" "ss_final_text (batch_report n s) = ss_final_text s"
  "ss_had_subagents (batch_report n s) = ss_had_subagents s" "ss_coordinator_result (batch_report n s) = ss_coordinator_result s"
  "ss_progress (batch_report n s) = ss_progress s" "ss_prompts (batch_report n s) = ss_prompts s"
  "ss_retried (batch_report n s) = ss_retried s" "ss_stream_closed (batch_report n s) = ss_stream_closed s"
  by (simp_all add: batch_report_def)

lemma batch_report_inv:
  assumes "transcript_inv s" "ss_flushed s \<le> n" "n \<le> length (ss_conversation s)"
  shows "transcript_inv (batch_report n s)"
proof -
  let ?k = "ss_flushed s" let ?c = "ss_conversation s"
  have "take ?k ?c @ take (n - ?k) (drop ?k ?c) = take n ?c" using assms(2) by (metis le_add_diff_inverse take_add)
  then show ?thesis using assms by (simp add: transcript_inv_def batch_report_def report_def dget_def get_default_def o_def)
qed

lemma full_batches_fields [simp]:
  "ss_conversation (full_batches n s) = ss_conversation s"
  "ss_pending_subagents (full_batches n s) = ss_pending_subagents s" "ss_final_text (full_batches n s) = ss_final_text s"
  "ss_had_subagents (full_batches n s) = ss_had_subagents s" "ss_coordinator_result (full_batches n s) = ss_coordinator_result s"
  "ss_progress (full_batches n s) = ss_progress s" "ss_prompts (full_batches n s) = ss_prompts s"
  "ss_retried (full_batches n s) = ss_retried s" "ss_stream_closed (full_batches n s) = ss_stream_closed s"
  by (induction n s rule: full_batches.induct; subst full_batches.simps; simp)+

lemma full_batches_inv: "transcript_inv s \<Longrightarrow> transcript_inv (full_batches n s)"
proof (induction n s rule: full_batches.induct)
  case (1 n s)
  show ?case
  proof (cases "0 < n \<and> n \<le> length (ss_conversation s) - ss_flushed s")
    case True
    then have "transcript_inv (batch_report (ss_flushed s + n) s)"
      using 1(2) by (intro batch_report_inv) (auto simp: transcript_inv_def)
    with 1(1) True show ?thesis by (subst full_batches.simps) simp
  qed (use 1(2) in \<open>subst full_batches.simps, auto\<close>)
qed

lemma full_batches_tail: "0 < n \<Longrightarrow> length (ss_conversation s) - ss_flushed (full_batches n s) < n"
proof (induction n s rule: full_batches.induct)
  case (1 n s)
  then show ?case by (subst full_batches.simps) auto
qed

lemma flush_fields [simp]:
  "ss_conversation (flush_conversation_batches cf force now s) = ss_conversation s"
  "ss_pending_subagents (flush_conversation_batches cf force now s) = ss_pending_subagents s"
  "ss_final_text (flush_conversation_batches cf force now s) = ss_final_text s"
  "ss_had_subagents (flush_conversation_batches cf force now s) = ss_had_subagents s"
  "ss_coordinator_result (flush_conversation_batches cf force now s) = ss_coordinator_result s"
  "ss_progress (flush_conversation_batches cf force now s) = ss_progress s"
  "ss_prompts (flush_conversation_batches cf force now s) = ss_prompts s"
  "ss_retried (flush_conversation_batches cf force now s) = ss_retried s"
  "ss_stream_closed (flush_conversation_batches cf force now s) = ss_stream_closed s"
  by (simp_all add: flush_conversation_batches_def Let_def)

text \<open>What a flush establishes: fewer messages than a batch are left, and none when it is forced.\<close>

definition tail_left :: "session_config \<Rightarrow> session \<Rightarrow> nat" where
  "tail_left cf s = length (ss_conversation s) - ss_flushed s"

lemma flush_inv: "transcript_inv s \<Longrightarrow> transcript_inv (flush_conversation_batches cf force now s)"
proof -
  assume "transcript_inv s"
  then have i: "transcript_inv (full_batches (cf_batch_size cf) s)" by (rule full_batches_inv)
  then have "transcript_inv (batch_report (length (ss_conversation s)) (full_batches (cf_batch_size cf) s))"
    by (intro batch_report_inv) (auto simp: transcript_inv_def)
  with i show ?thesis
    by (auto simp: flush_conversation_batches_def Let_def transcript_inv_def)
qed

lemma flush_tail: "0 < cf_batch_size cf \<Longrightarrow> tail_left cf (flush_conversation_batches cf force now s) < cf_batch_size cf"
  using full_batches_tail [of "cf_batch_size cf" s]
  by (auto simp: flush_conversation_batches_def Let_def tail_left_def)

lemma flush_forced: "transcript_inv s \<Longrightarrow> ss_flushed (flush_conversation_batches cf True now s) = length (ss_conversation s)"
  using full_batches_inv [of s "cf_batch_size cf"]
  by (auto simp: flush_conversation_batches_def Let_def transcript_inv_def)

text \<open>
  An invariant of the turns of the coroutines is one of the whole loop.
\<close>

locale turn_invariant =
  fixes cf :: session_config and ok :: "activity \<Rightarrow> bool" and I :: "session \<Rightarrow> bool"
  assumes turn: "I s \<Longrightarrow> ok a \<Longrightarrow> I (fst (session_step cf a s))"
begin

lemma loop_inv: "I s \<Longrightarrow> list_all ok as \<Longrightarrow> I (fst (session_loop cf as s))"
proof (induction as arbitrary: s)
  case (Cons a as)
  have "I (fst (session_step cf a s))" using Cons.prems by (intro turn) simp_all
  with Cons show ?case by (auto split: prod.split loop_end.split)
qed simp

end

definition flushed_inv :: "session_config \<Rightarrow> session \<Rightarrow> bool" where
  "flushed_inv cf s \<longleftrightarrow> 0 < cf_batch_size cf \<longrightarrow> transcript_inv s \<and> tail_left cf s < cf_batch_size cf"

lemma flushed_inv_cong: "transcript s = transcript s' \<Longrightarrow> flushed_inv cf s = flushed_inv cf s'"
  by (simp add: transcript_def transcript_inv_def flushed_inv_def tail_left_def)

lemma flush_flushed_inv: "transcript_inv s \<Longrightarrow> flushed_inv cf (flush_conversation_batches cf force now s)"
  by (simp add: flushed_inv_def flush_inv flush_tail)

text \<open>Appending to the conversation keeps what has been reported a prefix of it.\<close>

lemma append_transcript_inv: "transcript_inv s \<Longrightarrow> transcript_inv (s\<lparr>ss_conversation := ss_conversation s @ ms\<rparr>)"
  by (auto simp: transcript_inv_def)

lemma report_flushed_inv: "ty \<noteq> ''conversation_batch'' \<Longrightarrow> flushed_inv cf (report ty data s) = flushed_inv cf s"
  by (simp add: flushed_inv_def report_inv tail_left_def)

lemma progress_inv: "flushed_inv cf (upd_progress f s) = flushed_inv cf s" "transcript_inv (upd_progress f s) = transcript_inv s"
  by (simp_all add: flushed_inv_def transcript_inv_def tail_left_def)

lemma append_messages_inv:
  assumes "flushed_inv cf s" "0 < cf_batch_size cf"
  shows "flushed_inv cf (append_transcript_messages cf now ms s)"
proof (cases "ms = []")
  case False
  have "transcript_inv s" using assms by (simp add: flushed_inv_def)
  then have "transcript_inv (s\<lparr>ss_conversation := ss_conversation s @ ms\<rparr>)" by (rule append_transcript_inv)
  then show ?thesis
    using False by (auto simp: append_transcript_messages_def Let_def transcript_inv_def intro!: flush_flushed_inv)
qed (use assms in \<open>simp add: append_transcript_messages_def\<close>)

lemma assistant_block_transcript: "transcript (snd (snd (assistant_block b s))) = transcript s"
  by (cases b) (auto simp: transcript_def Let_def split: option.split)

lemma assistant_blocks_transcript: "transcript (snd (snd (assistant_blocks bs s))) = transcript s"
proof (induction bs arbitrary: s)
  case (Cons b bs)
  obtain j t s1 where b: "assistant_block b s = (j, t, s1)" by (metis prod.exhaust)
  obtain js ts s2 where bs: "assistant_blocks bs s1 = (js, ts, s2)" by (metis prod.exhaust)
  show ?case using assistant_block_transcript [of b s] Cons.IH [of s1] by (simp add: b bs)
qed simp

lemma track_subagent_transcript: "transcript (track_subagent ty d s) = transcript s"
  by (simp add: track_subagent_def set_pending_subagent_owner_def transcript_def Let_def)

lemma take_usage_fields:
  "transcript (snd (take_usage u s)) = transcript s" "ss_prompts (snd (take_usage u s)) = ss_prompts s"
  "ss_stream_closed (snd (take_usage u s)) = ss_stream_closed s" "ss_retried (snd (take_usage u s)) = ss_retried s"
  "ss_had_subagents (snd (take_usage u s)) = ss_had_subagents s" "ss_progress (snd (take_usage u s)) = ss_progress s"
  "ss_pending_subagents (snd (take_usage u s)) = ss_pending_subagents s" "ss_final_text (snd (take_usage u s)) = ss_final_text s"
  "ss_coordinator_result (snd (take_usage u s)) = ss_coordinator_result s"
  by (simp_all add: take_usage_def transcript_def Let_def)

lemma settle_result_fields:
  "transcript (settle_result t s) = transcript s" "ss_prompts (settle_result t s) = ss_prompts s"
  "ss_stream_closed (settle_result t s) = ss_stream_closed s" "ss_retried (settle_result t s) = ss_retried s"
  "ss_had_subagents (settle_result t s) = ss_had_subagents s" "ss_pending_subagents (settle_result t s) = ss_pending_subagents s"
  "ss_coordinator_result (settle_result t s) = ss_coordinator_result s"
  "ps_ask_user_question_reminder_sent (ss_progress (settle_result t s)) = ps_ask_user_question_reminder_sent (ss_progress s)"
  "ss_final_text (settle_result t s) = (if ss_had_subagents s \<and> ss_pending_subagents s \<noteq> [] then ss_final_text s else t)"
  by (simp_all add: settle_result_def transcript_def)

lemma take_result_snd:
  "snd (take_result m s) = settle_result (opt_str (rm_result m)) (snd (take_usage (rm_usage m) (s\<lparr>ss_num_turns := rm_num_turns m,
      ss_total_cost_usd := (case rm_total_cost_usd m of None \<Rightarrow> 0 | Some q \<Rightarrow> q), ss_model_usage := py_or (rm_model_usage m) (JObj [])\<rparr>)))"
  by (simp add: take_result_def Let_def case_prod_beta)

lemma take_result_fields:
  "transcript (snd (take_result m s)) = transcript s" "ss_prompts (snd (take_result m s)) = ss_prompts s"
  "ss_stream_closed (snd (take_result m s)) = ss_stream_closed s" "ss_retried (snd (take_result m s)) = ss_retried s"
  "ss_had_subagents (snd (take_result m s)) = ss_had_subagents s"
  "ss_pending_subagents (snd (take_result m s)) = ss_pending_subagents s"
  "ss_coordinator_result (snd (take_result m s)) = ss_coordinator_result s"
  "ps_ask_user_question_reminder_sent (ss_progress (snd (take_result m s))) = ps_ask_user_question_reminder_sent (ss_progress s)"
  "ss_final_text (snd (take_result m s))
     = (if ss_had_subagents s \<and> ss_pending_subagents s \<noteq> [] then ss_final_text s else opt_str (rm_result m))"
  unfolding take_result_snd settle_result_fields take_usage_fields by (simp_all add: transcript_def)

lemma on_result_state:
  "fst (snd (on_result m s)) =
     (if ss_had_subagents s \<and> ss_pending_subagents s = [] then (snd (take_result m s))\<lparr>ss_coordinator_result := True\<rparr>
      else if \<not> ss_had_subagents s then close_prompt_stream_when_idle (snd (take_result m s)) else snd (take_result m s))"
  "snd (snd (on_result m s)) = (ss_had_subagents s \<and> ss_pending_subagents s = [])"
  unfolding on_result_def Let_def case_prod_beta take_result_fields(5,6) by simp_all

lemma close_fields [simp]:
  "ss_had_subagents (close_prompt_stream_when_idle s) = ss_had_subagents s"
  "ss_pending_subagents (close_prompt_stream_when_idle s) = ss_pending_subagents s"
  "ss_retried (close_prompt_stream_when_idle s) = ss_retried s" "ss_final_text (close_prompt_stream_when_idle s) = ss_final_text s"
  "ss_coordinator_result (close_prompt_stream_when_idle s) = ss_coordinator_result s"
  "transcript (close_prompt_stream_when_idle s) = transcript s"
  by (simp_all add: close_prompt_stream_when_idle_def transcript_def)

lemma on_result_transcript: "transcript (fst (snd (on_result m s))) = transcript s"
  using take_result_fields(1) [of m s] by (auto simp: on_result_state transcript_def close_prompt_stream_when_idle_def)

lemma on_message_transcript: "transcript (fst (snd (on_message m s))) = transcript s"
proof (cases m)
  case (AssistantMessage model parent content)
  then show ?thesis
    using assistant_blocks_transcript [of content "s\<lparr>ss_observed_turns := ss_observed_turns s + 1\<rparr>"]
    by (auto simp: on_assistant_def transcript_def Let_def split: prod.split)
next
  case (SystemMessage ty data)
  then show ?thesis
    by (auto simp: on_system_def track_subagent_transcript Let_def split: prod.split) (simp add: transcript_def)
qed (simp_all add: on_result_transcript)

lemma record_message_inv:
  assumes "transcript_inv s"
  shows "flushed_inv cf (record_message cf now r s)"
proof -
  have "transcript_inv (s\<lparr>ss_conversation := ss_conversation s @ [(''timestamp'', JFloat (total_seconds now)) # r]\<rparr>)"
    using assms by (rule append_transcript_inv)
  then show ?thesis by (auto simp: record_message_def Let_def transcript_inv_def intro!: flush_flushed_inv)
qed

lemma inject_reminder_inv:
  assumes "flushed_inv cf s" "0 < cf_batch_size cf"
  shows "flushed_inv cf (inject_reminder cf now ctx s)"
proof -
  let ?s1 = "(upd_progress (\<lambda>ps. ps\<lparr>ps_ask_user_question_reminder_sent := True\<rparr>) s)
                 \<lparr>ss_prompts := ss_prompts s @ [Some ask_user_question_reminder_text]\<rparr>"
  have "flushed_inv cf ?s1" using assms(1) flushed_inv_cong [of ?s1 s cf] by (simp add: transcript_def)
  then have "flushed_inv cf (append_transcript_messages cf now ms ?s1)" for ms
    using assms(2) by (rule append_messages_inv)
  then show ?thesis using assms(1) by (simp add: inject_reminder_def Let_def report_flushed_inv)
qed

lemma reminder_tick_inv: "flushed_inv cf s \<Longrightarrow> 0 < cf_batch_size cf \<Longrightarrow> flushed_inv cf (reminder_tick cf now elapsed s)"
  by (simp add: reminder_tick_def inject_reminder_inv split: option.split)

lemma inject_retry_inv:
  assumes "flushed_inv cf s" "0 < cf_batch_size cf"
  shows "flushed_inv cf (inject_retry cf now i s)"
proof -
  let ?s1 = "s\<lparr>ss_retried := i # ss_retried s, ss_prompts := ss_prompts s @ [Some subagent_no_output_retry_text]\<rparr>"
  have "flushed_inv cf ?s1" using assms(1) flushed_inv_cong [of ?s1 s cf] by (simp add: transcript_def)
  then have "flushed_inv cf (append_transcript_messages cf now ms ?s1)" for ms
    using assms(2) by (rule append_messages_inv)
  then show ?thesis by (simp add: inject_retry_def report_flushed_inv)
qed

text \<open>
  The state after the bookkeeping of a tool result; then either it is the result, or a retry is
  injected into it.
\<close>

lemma if_or_ex: "x = (if b then f i else y) \<Longrightarrow> (b \<Longrightarrow> P i) \<Longrightarrow> x = y \<or> (\<exists>i. P i \<and> x = f i)"
  by (cases b) auto

lemma retry_subagent_cases:
  obtains s1 where "transcript s1 = transcript s" "ss_prompts s1 = ss_prompts s" "ss_retried s1 = ss_retried s"
    "ss_progress s1 = ss_progress s" "ss_stream_closed s1 = ss_stream_closed s" "ss_coordinator_result s1 = ss_coordinator_result s"
    "retry_subagent cf now r s = s1 \<or> (\<exists>i. i \<notin> set (ss_retried s) \<and> retry_subagent cf now r s = inject_retry cf now i s1)"
proof -
  let ?i = "text_or_empty (dget r ''tool_use_id'')"
  define s1 where "s1 = (if dget r ''type'' = JStr ''tool_result'' \<and> map_of (ss_tool_names s) ?i = Some ''Agent''
      \<and> truthy (dget r ''is_error'') then s\<lparr>ss_pending_subagents := removeAll ?i (ss_pending_subagents s)\<rparr> else s)"
  have f: "transcript s1 = transcript s" "ss_prompts s1 = ss_prompts s" "ss_retried s1 = ss_retried s"
    "ss_progress s1 = ss_progress s" "ss_stream_closed s1 = ss_stream_closed s" "ss_coordinator_result s1 = ss_coordinator_result s"
    by (simp_all add: s1_def transcript_def)
  let ?agent = "dget r ''type'' = JStr ''tool_result'' \<and> map_of (ss_tool_names s) ?i = Some ''Agent''"
  let ?again = "?i \<noteq> [] \<and> ?i \<notin> set (ss_retried s) \<and> is_subagent_no_output_result (text_or_empty (dget r ''content_preview''))"
  have "retry_subagent cf now r s = (if ?agent \<and> ?again then inject_retry cf now ?i s1 else s1)"
  proof (cases ?agent)
    case True
    then show ?thesis using f(3) unfolding retry_subagent_def Let_def s1_def by (simp only: if_True simp_thms)
  next
    case False
    then show ?thesis unfolding retry_subagent_def Let_def s1_def by auto
  qed
  then have "retry_subagent cf now r s = s1
      \<or> (\<exists>i. i \<notin> set (ss_retried s) \<and> retry_subagent cf now r s = inject_retry cf now i s1)"
    by (rule if_or_ex) blast
  then show ?thesis by (rule that [OF f])
qed

lemma retry_subagent_inv:
  assumes "flushed_inv cf s" "0 < cf_batch_size cf"
  shows "flushed_inv cf (retry_subagent cf now r s)"
proof -
  obtain s1 where "transcript s1 = transcript s"
    "retry_subagent cf now r s = s1 \<or> (\<exists>i. i \<notin> set (ss_retried s) \<and> retry_subagent cf now r s = inject_retry cf now i s1)"
    by (rule retry_subagent_cases)
  then show ?thesis using flushed_inv_cong [of s1 s cf] assms inject_retry_inv [of cf s1] by auto
qed

lemma handle_sdk_message_inv:
  assumes "flushed_inv cf s" "0 < cf_batch_size cf"
  shows "flushed_inv cf (fst (handle_sdk_message cf now elapsed m s))"
proof -
  obtain r s1 fin where m: "on_message m (s\<lparr>ss_first_message := True\<rparr>) = (r, s1, fin)" by (metis prod.exhaust)
  have "transcript s1 = transcript s"
    using on_message_transcript [of m "s\<lparr>ss_first_message := True\<rparr>"] m by (simp add: transcript_def)
  then have "transcript_inv s1" using assms transcript_inv_cong [of s1 s] by (simp add: flushed_inv_def)
  then have "flushed_inv cf (record_message cf now r s1)" by (rule record_message_inv)
  with assms(2) show ?thesis
    by (simp add: handle_sdk_message_def m Let_def retry_subagent_inv reminder_tick_inv)
qed

text \<open>The reports of the permission gate are no conversation batches.\<close>

fun quiet :: "emission \<Rightarrow> bool" where
  "quiet (Reported ty data) = (ty \<noteq> ''conversation_batch'')"
| "quiet (Transcribed m) = True"

fun quiet_hooks :: "activity \<Rightarrow> bool" where
  "quiet_hooks (HookEmits now es) = list_all quiet es"
| "quiet_hooks a = True"

lemma quiet_basic: "list_all quiet (snd (ret_gate r))" "list_all quiet (snd (wait_gate w))"
  "list_all quiet es \<Longrightarrow> list_all quiet (snd (emit es))"
  by (simp_all add: ret_gate_def wait_gate_def emit_def)

lemma quiet_bind:
  "list_all quiet (snd m) \<Longrightarrow> (\<And>x. list_all quiet (snd (f x))) \<Longrightarrow> list_all quiet (snd (bind_gate m f))"
  by (auto simp: bind_gate_def Let_def split: prod.split option.split sum.split) (metis snd_conv)

lemma quiet_if: "list_all quiet (snd g) \<Longrightarrow> list_all quiet (snd h) \<Longrightarrow> list_all quiet (snd (if b then g else h))"
  by simp

lemma quiet_pair: "(\<And>a b. list_all quiet (snd (f a b))) \<Longrightarrow> list_all quiet (snd (case p of (a, b) \<Rightarrow> f a b))"
  by (cases p) simp

lemma quiet_option:
  "list_all quiet (snd g) \<Longrightarrow> (\<And>x. list_all quiet (snd (f x))) \<Longrightarrow> list_all quiet (snd (case v of None \<Rightarrow> g | Some x \<Rightarrow> f x))"
  by (cases v) simp_all

lemmas quiet_intros = quiet_bind quiet_if quiet_pair quiet_option quiet_basic

lemma request_quiet: "list_all quiet (snd (request_operator_approval prompt env tool input))"
  unfolding request_operator_approval_def Let_def by (intro quiet_intros) simp_all

lemma can_use_tool_quiet: "list_all quiet (snd (can_use_tool patterns prompt thread env tool input ps))"
  unfolding can_use_tool_def Let_def by (intro quiet_intros request_quiet) simp_all

lemma ask_one_quiet: "list_all quiet (snd (ask_one thread n env q))"
  unfolding ask_one_def Let_def by (intro quiet_intros) simp_all

lemma ask_all_quiet: "list_all quiet (snd (ask_all thread n envs qs answers))"
proof (induction thread n envs qs answers rule: ask_all.induct)
  case (3 thread n env envs q qs answers)
  show ?case
  proof (cases q)
    case (JObj question)
    have "list_all quiet (snd (case outcome of
              Answered asked answer \<Rightarrow> ask_all thread n envs qs (dset asked answer answers)
            | NotDelivered \<Rightarrow> ret_gate x | NoReply \<Rightarrow> ret_gate y))" for outcome x y
      using 3 [OF JObj] by (cases outcome) (simp_all add: quiet_basic)
    then show ?thesis using JObj by (auto intro!: quiet_bind ask_one_quiet)
  qed (simp_all add: quiet_basic)
qed (simp_all add: quiet_basic)

lemma handle_question_quiet: "list_all quiet (snd (handle_ask_user_question thread env input))"
  unfolding handle_ask_user_question_def Let_def by (intro quiet_intros ask_all_quiet) simp_all

lemma hook_emissions_inv:
  "flushed_inv cf s \<Longrightarrow> 0 < cf_batch_size cf \<Longrightarrow> list_all quiet es \<Longrightarrow> flushed_inv cf (fold (hook_emission cf now) es s)"
proof (induction es arbitrary: s)
  case (Cons e es)
  then have "flushed_inv cf (hook_emission cf now e s)"
    by (cases e) (simp_all add: report_flushed_inv append_messages_inv)
  with Cons show ?case by simp
qed simp

lemma flush_tick_inv: "flushed_inv cf s \<Longrightarrow> 0 < cf_batch_size cf \<Longrightarrow> flushed_inv cf (flush_tick cf now s)"
  by (auto simp: flush_tick_def flushed_inv_def flush_inv flush_tail split: option.split)

lemma session_step_inv:
  assumes "flushed_inv cf s" "quiet_hooks a"
  shows "flushed_inv cf (fst (session_step cf a s))"
proof (cases "0 < cf_batch_size cf")
  case True
  show ?thesis
  proof (cases a)
    case (FromQuery now elapsed e)
    then show ?thesis using assms True by (cases e) (simp_all add: handle_sdk_message_inv)
  next
    case (HookEmits now es)
    then show ?thesis using assms True by (simp add: hook_emissions_inv)
  qed (use assms True in \<open>simp_all add: flush_tick_inv reminder_tick_inv progress_inv\<close>)
qed (simp add: flushed_inv_def)

interpretation transcript_turns: turn_invariant cf quiet_hooks "flushed_inv cf" for cf
  by unfold_locales (rule session_step_inv)

lemma start_inv: "flushed_inv cf (report ''session_phase'' phase_data (report ''session_start'' start_data (start_session prompt)))"
  by (simp add: report_flushed_inv) (simp add: flushed_inv_def start_session_def transcript_inv_def tail_left_def)

abbreviation begun :: "str \<Rightarrow> dict \<Rightarrow> dict \<Rightarrow> session" where
  "begun prompt start_data phase_data \<equiv>
     report ''session_phase'' phase_data (report ''session_start'' start_data (start_session prompt))"


definition demo_session_config :: session_config where
  "demo_session_config = \<lparr>cf_batch_size = 5, cf_batch_max_age = seconds 30, cf_max_turns = 50, cf_runtime_timeout_sec = 0,
     cf_reminder_enabled = False, cf_reminder_min_turns = 10, cf_reminder_turn_ratio = 7/10, cf_reminder_time_ratio = 3/4,
     cf_reminder_window = 8\<rparr>"

text \<open>A run that fails after its first message.\<close>

definition demo_failing :: "activity list" where
  "demo_failing = [FromQuery 1 1 (QueryMessage (OtherMessage ''m'')), FromQuery 2 2 (QueryError (SessionFailure ''x''))]"


section \<open>A session with subagents ends with the coordinator's result\<close>

lemma append_messages_fields [simp]:
  "ss_pending_subagents (append_transcript_messages cf now ms s) = ss_pending_subagents s"
  "ss_final_text (append_transcript_messages cf now ms s) = ss_final_text s"
  "ss_had_subagents (append_transcript_messages cf now ms s) = ss_had_subagents s"
  "ss_coordinator_result (append_transcript_messages cf now ms s) = ss_coordinator_result s"
  "ss_prompts (append_transcript_messages cf now ms s) = ss_prompts s"
  "ss_retried (append_transcript_messages cf now ms s) = ss_retried s"
  "ss_stream_closed (append_transcript_messages cf now ms s) = ss_stream_closed s"
  "ps_ask_user_question_reminder_sent (ss_progress (append_transcript_messages cf now ms s))
     = ps_ask_user_question_reminder_sent (ss_progress s)"
  by (simp_all add: append_transcript_messages_def Let_def)

lemma record_message_fields [simp]:
  "ss_pending_subagents (record_message cf now r s) = ss_pending_subagents s"
  "ss_final_text (record_message cf now r s) = ss_final_text s"
  "ss_had_subagents (record_message cf now r s) = ss_had_subagents s"
  "ss_coordinator_result (record_message cf now r s) = ss_coordinator_result s"
  "ss_prompts (record_message cf now r s) = ss_prompts s"
  "ss_retried (record_message cf now r s) = ss_retried s"
  "ss_stream_closed (record_message cf now r s) = ss_stream_closed s"
  "ps_ask_user_question_reminder_sent (ss_progress (record_message cf now r s)) = ps_ask_user_question_reminder_sent (ss_progress s)"
  by (simp_all add: record_message_def Let_def)

lemma reminder_coordinator [simp]: "ss_coordinator_result (reminder_tick cf now elapsed s) = ss_coordinator_result s"
  by (simp add: reminder_tick_def inject_reminder_def Let_def split: option.split)

lemma retry_coordinator [simp]: "ss_coordinator_result (retry_subagent cf now r s) = ss_coordinator_result s"
  by (rule retry_subagent_cases [of s cf now r]) (auto simp: inject_retry_def)

lemma hook_coordinator [simp]: "ss_coordinator_result (fold (hook_emission cf now) es s) = ss_coordinator_result s"
proof (induction es arbitrary: s)
  case (Cons e es)
  then show ?case by (cases e) simp_all
qed simp

text \<open>What an assistant message leaves alone.\<close>

lemma assistant_block_kept:
  "ss_coordinator_result (snd (snd (assistant_block b s))) = ss_coordinator_result s
   \<and> ss_prompts (snd (snd (assistant_block b s))) = ss_prompts s \<and> ss_retried (snd (snd (assistant_block b s))) = ss_retried s
   \<and> ss_stream_closed (snd (snd (assistant_block b s))) = ss_stream_closed s
   \<and> ss_progress (snd (snd (assistant_block b s))) = ss_progress s"
  by (cases b) (auto simp: Let_def split: option.split)

lemma assistant_blocks_kept:
  "ss_coordinator_result (snd (snd (assistant_blocks bs s))) = ss_coordinator_result s
   \<and> ss_prompts (snd (snd (assistant_blocks bs s))) = ss_prompts s \<and> ss_retried (snd (snd (assistant_blocks bs s))) = ss_retried s
   \<and> ss_stream_closed (snd (snd (assistant_blocks bs s))) = ss_stream_closed s
   \<and> ss_progress (snd (snd (assistant_blocks bs s))) = ss_progress s"
proof (induction bs arbitrary: s)
  case (Cons b bs)
  obtain j t s1 where b: "assistant_block b s = (j, t, s1)" by (metis prod.exhaust)
  obtain js ts s2 where bs: "assistant_blocks bs s1 = (js, ts, s2)" by (metis prod.exhaust)
  show ?case using assistant_block_kept [of b s] Cons.IH [of s1] by (simp add: b bs)
qed simp

lemma track_subagent_kept [simp]:
  "ss_coordinator_result (track_subagent ty d s) = ss_coordinator_result s" "ss_prompts (track_subagent ty d s) = ss_prompts s"
  "ss_retried (track_subagent ty d s) = ss_retried s" "ss_stream_closed (track_subagent ty d s) = ss_stream_closed s"
  "ss_progress (track_subagent ty d s) = ss_progress s"
  by (simp_all add: track_subagent_def set_pending_subagent_owner_def Let_def)

text \<open>A result as the rest of the loop sees it, by whether subagents are still pending.\<close>

lemma on_result_kept:
  "ss_had_subagents (fst (snd (on_result m s))) = ss_had_subagents s"
  "ss_pending_subagents (fst (snd (on_result m s))) = ss_pending_subagents s"
  "ss_retried (fst (snd (on_result m s))) = ss_retried s"
  "snd (snd (on_result m s)) = (ss_had_subagents s \<and> ss_pending_subagents s = [])"
  "ss_coordinator_result (fst (snd (on_result m s))) = (ss_coordinator_result s \<or> ss_had_subagents s \<and> ss_pending_subagents s = [])"
  "ss_final_text (fst (snd (on_result m s)))
     = (if ss_had_subagents s \<and> ss_pending_subagents s \<noteq> [] then ss_final_text s else opt_str (rm_result m))"
  by (simp_all add: on_result_state take_result_fields)

lemma on_message_coordinator:
  "on_message m s = (r, s1, fin) \<Longrightarrow> fin \<or> ss_coordinator_result s1 = ss_coordinator_result s"
proof (cases m)
  case (AssistantMessage model parent content)
  moreover assume "on_message m s = (r, s1, fin)"
  ultimately show ?thesis
    using assistant_blocks_kept [of content "s\<lparr>ss_observed_turns := ss_observed_turns s + 1\<rparr>"]
    by (auto simp: on_assistant_def Let_def split: prod.splits if_splits)
next
  case (SystemMessage ty data)
  moreover assume "on_message m s = (r, s1, fin)"
  ultimately show ?thesis by (auto simp: on_system_def Let_def split: prod.splits)
next
  case (ResultMessage rm)
  moreover assume "on_message m s = (r, s1, fin)"
  ultimately show ?thesis using on_result_kept(4,5) [of rm s] by auto
qed auto

lemma on_message_finish:
  "on_message m s = (r, s1, True) \<Longrightarrow>
     (\<exists>rm. m = ResultMessage rm \<and> ss_final_text s1 = opt_str (rm_result rm)) \<and> ss_had_subagents s \<and> ss_pending_subagents s = []
     \<and> ss_pending_subagents s1 = []"
proof (cases m)
  case (ResultMessage rm)
  moreover assume "on_message m s = (r, s1, True)"
  ultimately show ?thesis using on_result_kept [of rm s] by auto
qed (auto split: prod.splits)

lemma step_coordinator:
  assumes "session_step cf a s = (s1, Going)"
  shows "ss_coordinator_result s1 = ss_coordinator_result s"
proof (cases a)
  case (FromQuery now elapsed e)
  then obtain m where m: "e = QueryMessage m" using assms by (cases e) (auto split: if_splits)
  obtain r s2 fin where o: "on_message m (s\<lparr>ss_first_message := True\<rparr>) = (r, s2, fin)" by (metis prod.exhaust)
  have "\<not> fin" "s1 = reminder_tick cf now elapsed (retry_subagent cf now r (record_message cf now r s2))"
    using assms FromQuery m o by (auto simp: handle_sdk_message_def Let_def split: if_splits)
  then show ?thesis using on_message_coordinator [OF o] by simp
qed (use assms in \<open>auto simp: flush_tick_def split: option.splits if_splits\<close>)

lemma step_finished:
  assumes "session_step cf a s = (s1, Finished)" "\<not> ss_coordinator_result s" "ss_had_subagents s1"
  shows "\<exists>now elapsed rm. a = FromQuery now elapsed (QueryMessage (ResultMessage rm)) \<and> ss_had_subagents s
     \<and> ss_pending_subagents s = [] \<and> ss_pending_subagents s1 = [] \<and> ss_final_text s1 = opt_str (rm_result rm)"
proof (cases a)
  case (FromQuery now elapsed e)
  then show ?thesis
  proof (cases e)
    case (QueryMessage m)
    obtain r s2 fin where o: "on_message m (s\<lparr>ss_first_message := True\<rparr>) = (r, s2, fin)" by (metis prod.exhaust)
    then have "fin" "s1 = record_message cf now r s2"
      using assms(1) FromQuery QueryMessage by (auto simp: handle_sdk_message_def Let_def split: if_splits)
    then show ?thesis using on_message_finish [of m "s\<lparr>ss_first_message := True\<rparr>" r s2] o FromQuery QueryMessage by auto
  qed (use assms FromQuery in \<open>auto split: if_splits\<close>)
qed (use assms in auto)


definition demo_subagent_run :: "activity list" where
  "demo_subagent_run =
     [FromQuery 1 1 (QueryMessage (AssistantMessage ''m'' JNull [ToolUseBlock ''Agent'' ''t1'' (JObj [(''prompt'', JStr ''look'')])])),
      FromQuery 2 2 (QueryMessage (ResultMessage \<lparr>rm_result = Some ''interim'', rm_num_turns = 1, rm_total_cost_usd = None,
         rm_usage = None, rm_model_usage = JNull\<rparr>)),
      FromQuery 3 3 (QueryMessage (SystemMessage ''task_notification''
         (JObj [(''task_id'', JStr ''k''), (''tool_use_id'', JStr ''t1''), (''status'', JStr ''completed'')]))),
      FromQuery 4 4 (QueryMessage (ResultMessage \<lparr>rm_result = Some ''done'', rm_num_turns = 2, rm_total_cost_usd = None,
         rm_usage = None, rm_model_usage = JNull\<rparr>))]"


section \<open>What the harness injects into the prompt stream\<close>

definition injected :: "str option \<Rightarrow> session \<Rightarrow> nat" where
  "injected p s = length (filter (\<lambda>q. q = p) (tl (ss_prompts s)))"

definition prompts_inv :: "session \<Rightarrow> bool" where
  "prompts_inv s \<longleftrightarrow> ss_prompts s \<noteq> []
     \<and> injected None s = (if ss_stream_closed s then 1 else 0)
     \<and> injected (Some ask_user_question_reminder_text) s = (if ps_ask_user_question_reminder_sent (ss_progress s) then 1 else 0)
     \<and> injected (Some subagent_no_output_retry_text) s = length (ss_retried s) \<and> distinct (ss_retried s)"

lemma prompts_inv_cong:
  "ss_prompts s' = ss_prompts s \<Longrightarrow> ss_stream_closed s' = ss_stream_closed s \<Longrightarrow> ss_retried s' = ss_retried s \<Longrightarrow>
   ps_ask_user_question_reminder_sent (ss_progress s') = ps_ask_user_question_reminder_sent (ss_progress s) \<Longrightarrow>
   prompts_inv s \<Longrightarrow> prompts_inv s'"
  by (simp add: prompts_inv_def injected_def)

lemma injected_snoc:
  "ss_prompts s \<noteq> [] \<Longrightarrow> ss_prompts s' = ss_prompts s @ [q] \<Longrightarrow> injected p s' = injected p s + (if q = p then 1 else 0)"
  by (simp add: injected_def tl_append2)

lemma texts_differ: "ask_user_question_reminder_text \<noteq> subagent_no_output_retry_text"
  by (simp add: ask_user_question_reminder_text_def subagent_no_output_retry_text_def)

lemma close_inv: "prompts_inv s \<Longrightarrow> prompts_inv (close_prompt_stream_when_idle s)"
proof -
  assume i: "prompts_inv s"
  let ?s' = "s\<lparr>ss_stream_closed := True, ss_prompts := ss_prompts s @ [None]\<rparr>"
  have "injected p ?s' = injected p s + (if None = p then 1 else 0)" for p
    by (rule injected_snoc) (use i in \<open>simp_all add: prompts_inv_def\<close>)
  with i show ?thesis by (auto simp: close_prompt_stream_when_idle_def prompts_inv_def)
qed

lemma reminder_inv: "prompts_inv s \<Longrightarrow> prompts_inv (reminder_tick cf now elapsed s)"
proof -
  assume i: "prompts_inv s"
  have "prompts_inv (inject_reminder cf now ctx s)" for ctx
  proof (cases "ps_ask_user_question_reminder_sent (ss_progress s)")
    case False
    let ?s' = "inject_reminder cf now ctx s"
    have f: "ss_prompts ?s' = ss_prompts s @ [Some ask_user_question_reminder_text]" "ss_stream_closed ?s' = ss_stream_closed s"
      "ss_retried ?s' = ss_retried s" "ps_ask_user_question_reminder_sent (ss_progress ?s')"
      using False by (simp_all add: inject_reminder_def Let_def)
    have "injected p ?s' = injected p s + (if Some ask_user_question_reminder_text = p then 1 else 0)" for p
      by (rule injected_snoc) (use i f in \<open>simp_all add: prompts_inv_def\<close>)
    with i f False texts_differ show ?thesis by (simp add: prompts_inv_def)
  qed (use i in \<open>simp add: inject_reminder_def\<close>)
  then show ?thesis using i by (simp add: reminder_tick_def split: option.split)
qed

lemma retry_inv:
  assumes i: "prompts_inv s"
  shows "prompts_inv (retry_subagent cf now r s)"
proof (rule retry_subagent_cases [of s cf now r])
  fix s1
  assume f: "ss_prompts s1 = ss_prompts s" "ss_retried s1 = ss_retried s" "ss_progress s1 = ss_progress s"
      "ss_stream_closed s1 = ss_stream_closed s"
    and c: "retry_subagent cf now r s = s1 \<or> (\<exists>i. i \<notin> set (ss_retried s) \<and> retry_subagent cf now r s = inject_retry cf now i s1)"
  have "prompts_inv (inject_retry cf now k s1)" if "k \<notin> set (ss_retried s)" for k
  proof -
    let ?s' = "inject_retry cf now k s1"
    have g: "ss_prompts ?s' = ss_prompts s @ [Some subagent_no_output_retry_text]" "ss_stream_closed ?s' = ss_stream_closed s"
      "ss_retried ?s' = k # ss_retried s"
      "ps_ask_user_question_reminder_sent (ss_progress ?s') = ps_ask_user_question_reminder_sent (ss_progress s)"
      using f by (simp_all add: inject_retry_def)
    have "injected p ?s' = injected p s + (if Some subagent_no_output_retry_text = p then 1 else 0)" for p
      by (rule injected_snoc) (use i g in \<open>simp_all add: prompts_inv_def\<close>)
    with i g that texts_differ show ?thesis by (simp add: prompts_inv_def)
  qed
  moreover have "prompts_inv s1" by (rule prompts_inv_cong [OF _ _ _ _ i]) (simp_all add: f)
  ultimately show ?thesis using c by auto
qed

lemma on_result_prompts: "prompts_inv s \<Longrightarrow> prompts_inv (fst (snd (on_result m s)))"
proof -
  assume i: "prompts_inv s"
  have t: "prompts_inv (snd (take_result m s))" by (rule prompts_inv_cong [OF _ _ _ _ i]) (simp_all add: take_result_fields)
  then have "prompts_inv ((snd (take_result m s))\<lparr>ss_coordinator_result := True\<rparr>)" by (simp add: prompts_inv_def injected_def)
  with t close_inv [OF t] show ?thesis by (simp add: on_result_state)
qed

lemma on_message_prompts:
  assumes i: "prompts_inv s"
  shows "prompts_inv (fst (snd (on_message m s)))"
proof (cases m)
  case (AssistantMessage model parent content)
  have "prompts_inv (snd (on_assistant model parent content s))"
    by (rule prompts_inv_cong [OF _ _ _ _ i];
        use assistant_blocks_kept [of content "s\<lparr>ss_observed_turns := ss_observed_turns s + 1\<rparr>"] in
        \<open>auto simp: on_assistant_def Let_def split: prod.split\<close>)
  then show ?thesis using AssistantMessage by (cases "on_assistant model parent content s") simp
next
  case (SystemMessage ty data)
  have "prompts_inv (snd (on_system ty data s))"
    by (rule prompts_inv_cong [OF _ _ _ _ i]) (simp_all add: on_system_def Let_def split: prod.split)
  then show ?thesis using SystemMessage by (cases "on_system ty data s") simp
qed (simp_all add: i on_result_prompts)

lemma hook_emission_prompts: "prompts_inv s \<Longrightarrow> prompts_inv (fold (hook_emission cf now) es s)"
proof (induction es arbitrary: s)
  case (Cons e es)
  have "prompts_inv (hook_emission cf now e s)"
    by (rule prompts_inv_cong [OF _ _ _ _ Cons.prems]; cases e) simp_all
  then show ?case using Cons.IH by simp
qed simp

lemma session_step_prompts:
  assumes i: "prompts_inv s"
  shows "prompts_inv (fst (session_step cf a s))"
proof (cases a)
  case (FromQuery now elapsed e)
  show ?thesis
  proof (cases e)
    case (QueryMessage m)
    obtain r s2 fin where o: "on_message m (s\<lparr>ss_first_message := True\<rparr>) = (r, s2, fin)" by (metis prod.exhaust)
    have "prompts_inv (s\<lparr>ss_first_message := True\<rparr>)" by (rule prompts_inv_cong [OF _ _ _ _ i]) simp_all
    then have "prompts_inv s2" using on_message_prompts [of "s\<lparr>ss_first_message := True\<rparr>" m] o by simp
    then have "prompts_inv (record_message cf now r s2)" by (rule prompts_inv_cong [rotated 4]) simp_all
    then show ?thesis by (simp add: FromQuery QueryMessage handle_sdk_message_def o Let_def reminder_inv retry_inv)
  qed (use i FromQuery in simp_all)
next
  case (FlushTick now)
  have "prompts_inv (flush_tick cf now s)"
    by (rule prompts_inv_cong [OF _ _ _ _ i]) (simp_all add: flush_tick_def split: option.split)
  then show ?thesis by (simp add: FlushTick)
next
  case (HookDenied dn)
  then show ?thesis by (auto intro!: prompts_inv_cong [OF _ _ _ _ i])
next
  case HookAsked
  then show ?thesis by (auto simp: note_question_def intro!: prompts_inv_cong [OF _ _ _ _ i])
qed (simp_all add: i reminder_inv hook_emission_prompts)

interpretation prompt_turns: turn_invariant cf "\<lambda>a. True" prompts_inv for cf
  by unfold_locales (rule session_step_prompts)

text \<open>
  However the coroutines interleave, the harness closes the prompt stream at most once, reminds
  the model at most once, and asks for a retry at most once per subagent call that returned nothing.
\<close>

lemma prompts_injected_once:
  "injected None (fst (session_loop cf acts (begun prompt start_data phase_data))) \<le> 1
   \<and> injected (Some ask_user_question_reminder_text) (fst (session_loop cf acts (begun prompt start_data phase_data))) \<le> 1
   \<and> injected (Some subagent_no_output_retry_text) (fst (session_loop cf acts (begun prompt start_data phase_data)))
       = length (ss_retried (fst (session_loop cf acts (begun prompt start_data phase_data))))
   \<and> distinct (ss_retried (fst (session_loop cf acts (begun prompt start_data phase_data))))"
proof -
  have "prompts_inv (begun prompt start_data phase_data)"
    by (simp add: prompts_inv_def injected_def start_session_def initial_progress_def)
  then have "prompts_inv (fst (session_loop cf acts (begun prompt start_data phase_data)))"
    by (rule prompt_turns.loop_inv) (simp add: list_all_iff)
  then show ?thesis by (simp add: prompts_inv_def)
qed

end
