(* ===== verification/Workflow_Bundles.thy ===== *)
theory Workflow_Bundles
  imports Control_Plane Sha256 Json_Order
begin

text \<open>
  \<open>shared/lib/workflow_bundles.py\<close>: the bundle of a workflow, assembled from three layers of files (the
  platform's, the team's and the workflow's own), scanned for secrets in plain text, and described
  by a manifest. A directory tree is the list of its regular files, each under its path as a list
  of parts; a text stands for the bytes of a file. The YAML library is passed in.

  \<open>bundle_layers\<close>: a file of the bundle is the one of the most specific layer that has it.
  \<open>bundle_hides_no_secret\<close>: a bundle is built only when no configuration file of it holds a secret.
\<close>

section \<open>Files and layers\<close>

type_synonym path = "str list"

type_synonym files = "(path \<times> str) list"

record layer =
  ly_path :: path
  ly_files :: files

definition SKIP_DIRS :: "str list" where
  "SKIP_DIRS = [''.git'', ''__pycache__'', ''.pytest_cache'', ''.runtime-mount'', ''node_modules'', ''.next'']"

definition SKIP_FILES :: "str list" where
  "SKIP_FILES = [''.DS_Store'']"

definition WORKFLOW_TOP_LEVEL_FILES :: "str list" where
  "WORKFLOW_TOP_LEVEL_FILES = [''agent.yaml'', ''settings.json'', ''.mcp.json'', ''README.md'', ''CLAUDE.md'']"

definition WORKFLOW_TOP_LEVEL_DIRS :: "str list" where
  "WORKFLOW_TOP_LEVEL_DIRS = [''agents'', ''skills'', ''hooks'']"

definition path_str :: "path \<Rightarrow> str" where
  "path_str p = py_join ''/'' p"

text \<open>\<open>path.parts\<close> is absolute, so a directory above the tree counts too.\<close>

definition skipped_path :: "layer \<Rightarrow> path \<Rightarrow> bool" where
  "skipped_path l p \<longleftrightarrow> list_ex (\<lambda>x. x \<in> set SKIP_DIRS) (ly_path l @ p) \<or> last p \<in> set SKIP_FILES"

definition is_above :: "path \<Rightarrow> path \<Rightarrow> bool" where
  "is_above p q \<longleftrightarrow> length p < length q \<and> take (length p) q = p"

definition dir_exists :: "path \<Rightarrow> files \<Rightarrow> bool" where
  "dir_exists p fs \<longleftrightarrow> list_ex (\<lambda>f. is_above p (fst f)) fs"

definition path_exists :: "path \<Rightarrow> files \<Rightarrow> bool" where
  "path_exists p fs \<longleftrightarrow> map_of fs p \<noteq> None \<or> dir_exists p fs"

text \<open>
  \<open>dest.parent.mkdir(parents=True, exist_ok=True)\<close>, then \<open>shutil.copy2\<close>: a file in the place of a parent
  directory raises; a directory in the place of the file takes the file under its own name.
\<close>

definition copy_to :: "path \<Rightarrow> str \<Rightarrow> files \<Rightarrow> files res" where
  "copy_to p content fs =
     (if list_ex (\<lambda>f. is_above (fst f) p) fs then Inl (OSError (path_str p))
      else let q = (if dir_exists p fs then p @ [last p] else p)
           in if dir_exists q fs then Inl (OSError (path_str q)) else Inr (AList.update q content fs))"

section \<open>Assembling the layers\<close>

record assembly =
  as_files :: files
  as_shadowed :: "(str \<times> str) list"
  as_sources :: "(str \<times> str) list"

record placement =
  pl_layer :: str
  pl_shadow :: str
  pl_path :: path
  pl_content :: str

definition place :: "placement \<Rightarrow> assembly \<Rightarrow> assembly res" where
  "place p a =
     (let shadowed = (if path_exists (pl_path p) (as_files a) then as_shadowed a @ [(pl_shadow p, pl_layer p)] else as_shadowed a)
      in bind_res (copy_to (pl_path p) (pl_content p) (as_files a)) (\<lambda>fs.
           Inr \<lparr>as_files = fs, as_shadowed = shadowed, as_sources = AList.update (path_str (pl_path p)) (pl_layer p) (as_sources a)\<rparr>))"

text \<open>The files that are in place when one cannot be copied stay: the exception leaves the directory.\<close>

fun place_all :: "placement list \<Rightarrow> assembly \<Rightarrow> py_error option \<times> assembly" where
  "place_all [] a = (None, a)"
| "place_all (p # ps) a = (case place p a of Inl e \<Rightarrow> (Some e, a) | Inr a' \<Rightarrow> place_all ps a')"

text \<open>
  A top-level file is reported as shadowed under the name of the bundle directory
  (\<open>dest.relative_to(dest.parents[1])\<close>), a file of a directory without it.
\<close>

definition copy_file_if_exists :: "str \<Rightarrow> str \<Rightarrow> layer \<Rightarrow> str \<Rightarrow> placement list" where
  "copy_file_if_exists bundle_name layer_name l name =
     (case map_of (ly_files l) [name] of
        None \<Rightarrow> []
      | Some content \<Rightarrow> if name \<in> set SKIP_FILES then [] else
          [\<lparr>pl_layer = layer_name, pl_shadow = bundle_name @ ''/'' @ name, pl_path = [name], pl_content = content\<rparr>])"

definition files_under :: "layer \<Rightarrow> path \<Rightarrow> files" where
  "files_under l p = sort_key fst (filter (\<lambda>f. is_above p (fst f) \<and> \<not> skipped_path l (fst f)) (ly_files l))"

definition overlay_dir :: "str \<Rightarrow> layer \<Rightarrow> str \<Rightarrow> placement list" where
  "overlay_dir layer_name l name =
     map (\<lambda>(p, content). \<lparr>pl_layer = layer_name, pl_shadow = path_str p, pl_path = p, pl_content = content\<rparr>) (files_under l [name])"

definition shared_layer :: "str \<Rightarrow> str \<Rightarrow> layer \<Rightarrow> placement list" where
  "shared_layer bundle_name layer_name l =
     copy_file_if_exists bundle_name layer_name l ''CLAUDE.md'' @ overlay_dir layer_name l ''skills'' @ overlay_dir layer_name l ''hooks''"

definition workflow_layer :: "str \<Rightarrow> layer \<Rightarrow> placement list" where
  "workflow_layer bundle_name l =
     concat (map (copy_file_if_exists bundle_name ''workflow'' l) WORKFLOW_TOP_LEVEL_FILES)
     @ concat (map (overlay_dir ''workflow'' l) WORKFLOW_TOP_LEVEL_DIRS)"

definition bundle_placements :: "str \<Rightarrow> layer \<Rightarrow> layer \<Rightarrow> layer \<Rightarrow> placement list" where
  "bundle_placements bundle_name core team package =
     shared_layer bundle_name ''core'' core @ shared_layer bundle_name ''team'' team @ workflow_layer bundle_name package"

section \<open>Digests\<close>

definition hash_text :: "str \<times> str \<Rightarrow> str" where
  "hash_text f = fst f @ [CHR 0x00] @ snd f @ [CHR 0x00]"

definition hash_file_at :: "layer \<Rightarrow> str \<Rightarrow> str" where
  "hash_file_at l name = (case map_of (ly_files l) [name] of None \<Rightarrow> [] | Some content \<Rightarrow> hash_text (name, content))"

definition hash_tree :: "layer \<Rightarrow> path \<Rightarrow> str" where
  "hash_tree l p = concat (map (\<lambda>(q, content). hash_text (path_str (drop (length p) q), content)) (files_under l p))"

definition hash_sources :: "str list \<Rightarrow> str" where
  "hash_sources texts = ''sha256:'' @ sha256_hexdigest (concat texts)"

definition shared_hash :: "layer \<Rightarrow> str" where
  "shared_hash l = hash_sources [hash_file_at l ''CLAUDE.md'', hash_tree l [''skills''], hash_tree l [''hooks'']]"

section \<open>Secrets in plain text\<close>

definition SECRET_KEY_MARKERS :: "str list" where
  "SECRET_KEY_MARKERS = [''secret'', ''token'', ''password'', ''api_key'', ''apikey'', ''private_key'']"

definition looks_secret_key :: "str \<Rightarrow> bool" where
  "looks_secret_key key =
     (let normalized = py_replace ''-'' ''_'' (py_lower key) in list_ex (\<lambda>marker. py_contains normalized marker) SECRET_KEY_MARKERS)"

definition is_safe_secret_reference :: "str \<Rightarrow> bool" where
  "is_safe_secret_reference v =
     (let stripped = py_strip v in
      stripped = [] \<or> py_startswith stripped ''${'' \<or> py_startswith stripped ''ENC['' \<or> py_startswith stripped ''<''
      \<or> py_contains (py_lower stripped) ''replace'')"

fun plain_secret :: "json \<Rightarrow> bool" where
  "plain_secret (JStr v) = (\<not> is_safe_secret_reference v)"
| "plain_secret _ = False"

definition nested_location :: "str \<Rightarrow> str \<Rightarrow> str" where
  "nested_location location key = (if location \<noteq> [] then location @ ''.'' @ key else key)"

definition entry_warnings :: "str \<Rightarrow> str \<Rightarrow> str \<Rightarrow> json \<Rightarrow> str list" where
  "entry_warnings file_name location key nested =
     (let warning = file_name @ '' contains plaintext-looking secret at '' @ nested_location location key
      in (if looks_secret_key key \<and> plain_secret nested then [warning] else [])
         @ (if py_endswith location ''secrets'' \<and> plain_secret nested then [warning] else []))"

fun visit_value :: "str \<Rightarrow> str \<Rightarrow> json \<Rightarrow> str list"
  and visit_entries :: "str \<Rightarrow> str \<Rightarrow> (str \<times> json) list \<Rightarrow> str list"
  and visit_items :: "str \<Rightarrow> str \<Rightarrow> nat \<Rightarrow> json list \<Rightarrow> str list" where
  "visit_value f location (JObj d) = visit_entries f location d"
| "visit_value f location (JList xs) = visit_items f location 0 xs"
| "visit_value f location _ = []"
| "visit_entries f location [] = []"
| "visit_entries f location ((key, nested) # d) =
     entry_warnings f location key nested @ visit_value f (nested_location location key) nested @ visit_entries f location d"
| "visit_items f location index [] = []"
| "visit_items f location index (nested # xs) =
     visit_value f (location @ ''['' @ str_of_nat index @ '']'') nested @ visit_items f location (Suc index) xs"

text \<open>\<open>Path(name).suffix\<close>: from the last dot, unless it opens or ends the name.\<close>

definition path_suffix :: "str \<Rightarrow> str" where
  "path_suffix name =
     (let tail = takeWhile (\<lambda>c. c \<noteq> CHR ''.'') (rev name)
      in if tail = [] \<or> length name \<le> Suc (length tail) then [] else ''.'' @ rev tail)"

definition scanned_file :: "path \<Rightarrow> path \<Rightarrow> bool" where
  "scanned_file bundle_dir p \<longleftrightarrow> \<not> list_ex (\<lambda>x. x \<in> set SKIP_DIRS) (bundle_dir @ p)
     \<and> (py_lower (path_suffix (last p)) \<in> set [''.yaml'', ''.yml''] \<or> last p \<in> set [''.mcp.json'', ''settings.json''])"

definition structured_value :: "(str \<Rightarrow> json option) \<Rightarrow> path \<Rightarrow> str \<Rightarrow> json option" where
  "structured_value yaml_load p content =
     (if py_lower (path_suffix (last p)) = ''.json'' \<or> py_endswith (last p) ''.json'' then json_loads content else yaml_load content)"

definition scan_structured_secret_values :: "(str \<Rightarrow> json option) \<Rightarrow> path \<times> str \<Rightarrow> str list" where
  "scan_structured_secret_values yaml_load f =
     (case structured_value yaml_load (fst f) (snd f) of None \<Rightarrow> [] | Some v \<Rightarrow> visit_value (path_str (fst f)) [] v)"

definition validate_no_plaintext_secrets :: "(str \<Rightarrow> json option) \<Rightarrow> path \<Rightarrow> files \<Rightarrow> str list" where
  "validate_no_plaintext_secrets yaml_load bundle_dir fs =
     concat (map (scan_structured_secret_values yaml_load) (sort_key fst (filter (\<lambda>f. scanned_file bundle_dir (fst f)) fs)))"

section \<open>The bundle\<close>

record workflow_repo_metadata =
  rm_name :: str
  rm_url :: str
  rm_ref :: str
  rm_commit :: str

text \<open>
  What building meets: the files below a directory, the platform's own directory and the output
  directory, YAML, the \<open>pyproject.toml\<close> of the platform, the commit of a directory and the clock.
\<close>

record build_env =
  be_tree :: "path \<Rightarrow> files"
  be_platform_root :: path
  be_output_dir :: path
  be_yaml_load :: "str \<Rightarrow> json option"
  be_yaml_dump :: "dict \<Rightarrow> str"
  be_pyproject :: "str option"
  be_commit :: "path \<Rightarrow> str"
  be_now :: time

record bundle_build =
  bb_workflow :: str
  bb_files :: files
  bb_manifest_text :: str
  bb_manifest :: dict

definition layer_at :: "build_env \<Rightarrow> path \<Rightarrow> layer" where
  "layer_at env p = \<lparr>ly_path = p, ly_files = be_tree env p\<rparr>"

definition path_parts :: "str \<Rightarrow> path" where
  "path_parts s = filter (\<lambda>x. x \<noteq> []) (split_char (CHR ''/'') s)"

definition team_root_for_package :: "path \<Rightarrow> path" where
  "team_root_for_package workflow_dir =
     (let parent = butlast workflow_dir in if parent \<noteq> [] \<and> last parent = ''workflows'' then butlast parent else parent)"

definition line_breaks :: "char list" where
  "line_breaks = [CHR 0x0A, CHR 0x0B, CHR 0x0C, CHR 0x0D, CHR 0x1C, CHR 0x1D, CHR 0x1E, CHR 0x85]"

definition py_splitlines :: "str \<Rightarrow> str list" where
  "py_splitlines s = split_char (CHR 0x0A)
     (map (\<lambda>c. if c \<in> set line_breaks then CHR 0x0A else c) (py_replace [CHR 0x0D, CHR 0x0A] [CHR 0x0A] s))"

definition platform_version_for_root :: "str option \<Rightarrow> str" where
  "platform_version_for_root pyproject =
     (case pyproject of
        None \<Rightarrow> ''0.0.0''
      | Some content \<Rightarrow>
          (case find (\<lambda>line. py_startswith (py_strip line) ''version'' \<and> CHR ''='' \<in> set line) (py_splitlines content) of
             None \<Rightarrow> ''0.0.0''
           | Some line \<Rightarrow> strip_chars [CHR 0x22] (py_strip (tl (dropWhile (\<lambda>c. c \<noteq> CHR ''='') line)))))"

definition created_text :: "time \<Rightarrow> str" where
  "created_text now = py_replace ''+00:00'' ''Z'' (isoformat (now - now mod 1000000))"

definition bundle_manifest_of ::
    "build_env \<Rightarrow> workflow_package \<Rightarrow> workflow_repo_metadata \<Rightarrow> layer \<Rightarrow> layer \<Rightarrow> layer \<Rightarrow> assembly \<Rightarrow> dict" where
  "bundle_manifest_of env package md core team own a =
     [(''bundle_version'', JInt 1),
      (''platform_version'', JStr (platform_version_for_root (be_pyproject env))),
      (''workflow'', JObj [(''name'', JStr (wp_name package)),
         (''config_hash'', JStr (''sha256:'' @ sha256_hexdigest (wp_raw_yaml package))), (''path'', JStr (wp_path package))]),
      (''repo'', JObj [(''name'', JStr (rm_name md)), (''url'', JStr (rm_url md)), (''ref'', JStr (rm_ref md)),
         (''commit'', JStr (if rm_commit md \<noteq> [] then rm_commit md else be_commit env (ly_path team)))]),
      (''assets'', JObj [(''core_sha'', JStr (shared_hash core)), (''team_sha'', JStr (shared_hash team)),
         (''workflow_sha'', JStr (hash_sources [hash_tree own []])),
         (''sources'', JObj (map (\<lambda>(p, l). (p, JStr l)) (sort_key fst (as_sources a)))),
         (''shadowed'', JList (map (\<lambda>(p, l). JObj [(''path'', JStr p), (''by'', JStr l)]) (as_shadowed a)))]),
      (''created_at'', JStr (created_text (be_now env)))]"

definition secret_error :: "str list \<Rightarrow> py_error" where
  "secret_error warnings =
     ValueError (''Workflow bundle validation failed:'' @ [CHR 0x0A] @ py_join [CHR 0x0A] (map (\<lambda>w. ''- '' @ w) warnings))"

definition known_workflows :: "workflow_package list \<Rightarrow> str" where
  "known_workflows packages =
     (let names = py_join '', '' (sort (map wp_name packages)) in if names \<noteq> [] then names else ''none'')"

definition assemble_package :: "build_env \<Rightarrow> workflow_package \<Rightarrow> py_error option \<times> assembly" where
  "assemble_package env package =
     (let own = path_parts (wp_path package)
      in place_all (bundle_placements (wp_name package) (layer_at env (be_platform_root env))
           (layer_at env (team_root_for_package own)) (layer_at env own))
           \<lparr>as_files = [], as_shadowed = [], as_sources = []\<rparr>)"

text \<open>\<open>dirs\<close> are the bundle directories of the output directory, by the name of the workflow.\<close>

definition build_workflow_bundle ::
    "build_env \<Rightarrow> workflow_package list res \<Rightarrow> workflow_repo_metadata \<Rightarrow> str \<Rightarrow> (str \<times> files) list
       \<Rightarrow> bundle_build res \<times> (str \<times> files) list" where
  "build_workflow_bundle env discovered md workflow dirs =
     (case discovered of
        Inl e \<Rightarrow> (Inl e, dirs)
      | Inr packages \<Rightarrow>
          (case find (\<lambda>p. wp_name p = workflow \<or> wp_dir_name p = workflow) packages of
             None \<Rightarrow> (Inl (ValueError (''Workflow '' @ repr_str workflow @ '' was not found. Discovered workflows: '' @
                        known_workflows packages)), dirs)
           | Some package \<Rightarrow>
               (case assemble_package env package of
                  (Some e, a) \<Rightarrow> (Inl e, AList.update (wp_name package) (as_files a) dirs)
                | (None, a) \<Rightarrow>
                    let warnings = validate_no_plaintext_secrets (be_yaml_load env) (be_output_dir env @ [wp_name package]) (as_files a);
                        own = path_parts (wp_path package);
                        manifest = bundle_manifest_of env package md (layer_at env (be_platform_root env))
                          (layer_at env (team_root_for_package own)) (layer_at env own) a;
                        manifest_text = be_yaml_dump env manifest;
                        fs = AList.update [''manifest.yaml''] manifest_text (as_files a)
                    in if warnings \<noteq> [] then (Inl (secret_error warnings), AList.delete (wp_name package) dirs)
                       else (Inr \<lparr>bb_workflow = wp_name package, bb_files = fs, bb_manifest_text = manifest_text, bb_manifest = manifest\<rparr>,
                             AList.update (wp_name package) fs dirs))))"

section \<open>The most specific layer wins\<close>

text \<open>What a layer contributes at a path.\<close>

definition shared_file :: "layer \<Rightarrow> path \<Rightarrow> str option" where
  "shared_file l p =
     (if p = [''CLAUDE.md''] \<or> (is_above [''skills''] p \<or> is_above [''hooks''] p) \<and> \<not> skipped_path l p then map_of (ly_files l) p else None)"

definition workflow_file :: "layer \<Rightarrow> path \<Rightarrow> str option" where
  "workflow_file l p =
     (if (\<exists>name \<in> set WORKFLOW_TOP_LEVEL_FILES. p = [name])
         \<or> (\<exists>name \<in> set WORKFLOW_TOP_LEVEL_DIRS. is_above [name] p) \<and> \<not> skipped_path l p then map_of (ly_files l) p else None)"

definition tree_paths :: "layer \<Rightarrow> path set" where
  "tree_paths l = fst ` set (ly_files l)"

text \<open>No file of the three trees is in the place of a directory of another.\<close>

definition trees_agree :: "layer list \<Rightarrow> bool" where
  "trees_agree ls \<longleftrightarrow> (\<forall>l \<in> set ls. \<forall>m \<in> set ls. \<forall>p \<in> tree_paths l. \<forall>q \<in> tree_paths m. \<not> is_above p q)
     \<and> (\<forall>l \<in> set ls. distinct (map fst (ly_files l)))"

lemma place_clear:
  assumes "\<And>q. q \<in> fst ` set (as_files a) \<Longrightarrow> \<not> is_above (pl_path p) q \<and> \<not> is_above q (pl_path p)"
  shows "\<exists>sh so. place p a = Inr \<lparr>as_files = AList.update (pl_path p) (pl_content p) (as_files a), as_shadowed = sh, as_sources = so\<rparr>"
proof -
  have "\<not> dir_exists (pl_path p) (as_files a)" "\<not> list_ex (\<lambda>f. is_above (fst f) (pl_path p)) (as_files a)"
    using assms by (auto simp: dir_exists_def list_ex_iff)
  then have "copy_to (pl_path p) (pl_content p) (as_files a) = Inr (AList.update (pl_path p) (pl_content p) (as_files a))"
    by (simp add: copy_to_def)
  then show ?thesis by (simp add: place_def Let_def)
qed

lemma place_all_clear:
  assumes "\<And>p q. p \<in> paths \<Longrightarrow> q \<in> paths \<Longrightarrow> \<not> is_above p q" "fst ` set (as_files a) \<subseteq> paths" "pl_path ` set ps \<subseteq> paths"
  shows "\<exists>a'. place_all ps a = (None, a') \<and> map_of (as_files a') = map_of (as_files a) ++ map_of (rev (map (\<lambda>p. (pl_path p, pl_content p)) ps))"
  using assms(2,3)
proof (induction ps arbitrary: a)
  case (Cons p ps)
  then have "q \<in> fst ` set (as_files a) \<Longrightarrow> \<not> is_above (pl_path p) q \<and> \<not> is_above q (pl_path p)" for q
    using assms(1) by auto
  then obtain sh so where p: "place p a = Inr \<lparr>as_files = AList.update (pl_path p) (pl_content p) (as_files a), as_shadowed = sh, as_sources = so\<rparr>"
    using place_clear [of a p] by blast
  have "fst ` set (AList.update (pl_path p) (pl_content p) (as_files a)) \<subseteq> paths"
    using Cons.prems by (simp add: dom_map_of_conv_image_fst [symmetric] update_conv')
  with Cons.IH [of "\<lparr>as_files = AList.update (pl_path p) (pl_content p) (as_files a), as_shadowed = sh, as_sources = so\<rparr>"] Cons.prems
  obtain a' where a': "place_all ps \<lparr>as_files = AList.update (pl_path p) (pl_content p) (as_files a), as_shadowed = sh, as_sources = so\<rparr> = (None, a')"
    "map_of (as_files a') = map_of (AList.update (pl_path p) (pl_content p) (as_files a)) ++ map_of (rev (map (\<lambda>p. (pl_path p, pl_content p)) ps))"
    by auto
  have "map_of (AList.update (pl_path p) (pl_content p) (as_files a)) = map_of (as_files a) ++ [pl_path p \<mapsto> pl_content p]"
    by (rule ext) (simp add: update_conv')
  with a' p show ?case by (intro exI [of _ a']) (simp del: map_add_upd)
qed simp

lemma map_of_eqI:
  assumes "\<And>k v. (k, v) \<in> set xs \<longleftrightarrow> f k = Some v"
  shows "map_of xs = f"
proof
  fix k
  show "map_of xs k = f k"
  proof (cases "map_of xs k")
    case None
    then have "\<forall>v. (k, v) \<notin> set xs" by (auto simp: map_of_eq_None_iff image_iff)
    with assms None show ?thesis by (metis not_None_eq)
  next
    case (Some v)
    with assms show ?thesis by (metis map_of_SomeD)
  qed
qed

definition contents :: "placement list \<Rightarrow> files" where
  "contents ps = map (\<lambda>p. (pl_path p, pl_content p)) ps"

lemma contents_simps [simp]:
  "contents [] = []" "contents (ps @ qs) = contents ps @ contents qs" "contents (concat pss) = concat (map contents pss)"
  by (simp_all add: contents_def [abs_def] map_concat)

lemma set_copy_file:
  "set (contents (copy_file_if_exists b w l name)) = {(p, c). p = [name] \<and> name \<notin> set SKIP_FILES \<and> map_of (ly_files l) p = Some c}"
  by (auto simp: copy_file_if_exists_def contents_def split: option.splits)

lemma set_overlay:
  assumes "distinct (map fst (ly_files l))"
  shows "set (contents (overlay_dir w l name)) = {(p, c). is_above [name] p \<and> \<not> skipped_path l p \<and> map_of (ly_files l) p = Some c}"
  using assms by (auto simp: overlay_dir_def contents_def files_under_def image_iff)

lemma top_level_not_skipped: "name \<in> set WORKFLOW_TOP_LEVEL_FILES \<Longrightarrow> name \<notin> set SKIP_FILES" "''CLAUDE.md'' \<notin> set SKIP_FILES"
  by (auto simp: WORKFLOW_TOP_LEVEL_FILES_def SKIP_FILES_def)

lemma shared_contents:
  assumes "distinct (map fst (ly_files l))"
  shows "map_of (rev (contents (shared_layer b w l))) = shared_file l"
  by (rule map_of_eqI) (auto simp: shared_layer_def set_copy_file set_overlay [OF assms] top_level_not_skipped shared_file_def)

lemma workflow_contents:
  assumes "distinct (map fst (ly_files l))"
  shows "map_of (rev (contents (workflow_layer b l))) = workflow_file l"
  by (rule map_of_eqI)
    (use top_level_not_skipped in \<open>auto simp: workflow_layer_def set_copy_file set_overlay [OF assms] workflow_file_def\<close>)

lemma placed_paths: "pl_path ` set (bundle_placements b core team own) \<subseteq> tree_paths core \<union> tree_paths team \<union> tree_paths own"
  by (auto simp: bundle_placements_def shared_layer_def workflow_layer_def copy_file_if_exists_def overlay_dir_def files_under_def
      tree_paths_def image_iff split: option.splits if_splits dest: map_of_SomeD) (metis map_of_SomeD fst_conv)+

lemma place_bundle:
  assumes "trees_agree [core, team, own]"
  shows "\<exists>a. place_all (bundle_placements b core team own) \<lparr>as_files = [], as_shadowed = [], as_sources = []\<rparr> = (None, a)
     \<and> map_of (as_files a) = shared_file core ++ shared_file team ++ workflow_file own"
proof -
  let ?paths = "tree_paths core \<union> tree_paths team \<union> tree_paths own"
  have "\<not> is_above p q" if "p \<in> ?paths" "q \<in> ?paths" for p q
    using that assms by (auto simp: trees_agree_def)
  from place_all_clear [OF this _ placed_paths [of b core team own], where a = "\<lparr>as_files = [], as_shadowed = [], as_sources = []\<rparr>"]
  obtain a where "place_all (bundle_placements b core team own) \<lparr>as_files = [], as_shadowed = [], as_sources = []\<rparr> = (None, a)"
    "map_of (as_files a) = map_of (rev (contents (bundle_placements b core team own)))"
    by (auto simp: contents_def)
  moreover have "map_of (rev (contents (bundle_placements b core team own))) = shared_file core ++ shared_file team ++ workflow_file own"
    using assms by (simp add: bundle_placements_def shared_contents workflow_contents trees_agree_def)
  ultimately show ?thesis by auto
qed

text \<open>
  C40. Where no file of the three trees stands in the place of a directory of another: assembling a
  package succeeds, and each file of the result is the workflow's own where the workflow has it,
  otherwise the team's, otherwise the platform's; nothing else is in it.
\<close>

theorem bundle_layers:
  assumes "trees_agree [layer_at env (be_platform_root env), layer_at env (team_root_for_package (path_parts (wp_path package))),
       layer_at env (path_parts (wp_path package))]"
  shows "\<exists>a. assemble_package env package = (None, a)
     \<and> map_of (as_files a) p =
         (case workflow_file (layer_at env (path_parts (wp_path package))) p of
            Some c \<Rightarrow> Some c
          | None \<Rightarrow> (case shared_file (layer_at env (team_root_for_package (path_parts (wp_path package)))) p of
               Some c \<Rightarrow> Some c
             | None \<Rightarrow> shared_file (layer_at env (be_platform_root env)) p))"
  using place_bundle [OF assms, of "wp_name package"] by (auto simp: assemble_package_def Let_def map_add_def)

definition demo_tree :: "path \<Rightarrow> files" where
  "demo_tree p =
     (if p = [''platform''] then [([''CLAUDE.md''], ''core''), ([''skills'', ''triage''], ''core'')]
      else if p = [''team''] then [([''skills'', ''triage''], ''team''), ([''hooks'', ''log''], ''team'')]
      else if p = [''team'', ''workflows'', ''sre''] then [([''agent.yaml''], ''name: sre''), ([''hooks'', ''log''], ''own'')] else [])"

definition demo_build :: build_env where
  "demo_build = \<lparr>be_tree = demo_tree, be_platform_root = [''platform''], be_output_dir = [''out''],
     be_yaml_load = \<lambda>s. if s = ''name: sre'' then Some (JObj [(''name'', JStr ''sre'')]) else None, be_yaml_dump = \<lambda>d. ''m'',
     be_pyproject = None, be_commit = \<lambda>p. [], be_now = 0\<rparr>"

definition demo_package :: workflow_package where
  "demo_package = \<lparr>wp_name = ''sre'', wp_path = ''/team/workflows/sre'', wp_dir_name = ''sre'',
     wp_config = [(''name'', JStr ''sre'')], wp_raw_yaml = ''name: sre''\<rparr>"

lemma demo_package_paths: "path_parts (wp_path demo_package) = [''team'', ''workflows'', ''sre'']"
  "team_root_for_package [''team'', ''workflows'', ''sre''] = [''team'']"
  by (simp_all add: demo_package_def path_parts_def split_char_def team_root_for_package_def)

lemma demo_layers: "layer_at demo_build [''platform''] = \<lparr>ly_path = [''platform''], ly_files = [([''CLAUDE.md''], ''core''), ([''skills'', ''triage''], ''core'')]\<rparr>"
  "layer_at demo_build [''team''] = \<lparr>ly_path = [''team''], ly_files = [([''skills'', ''triage''], ''team''), ([''hooks'', ''log''], ''team'')]\<rparr>"
  "layer_at demo_build [''team'', ''workflows'', ''sre''] =
     \<lparr>ly_path = [''team'', ''workflows'', ''sre''], ly_files = [([''agent.yaml''], ''name: sre''), ([''hooks'', ''log''], ''own'')]\<rparr>"
  "be_platform_root demo_build = [''platform'']"
  by (simp_all add: layer_at_def demo_build_def demo_tree_def)

theorem bundle_layers_witness:
  "\<exists>a. assemble_package demo_build demo_package = (None, a) \<and> map_of (as_files a) [''hooks'', ''log''] = Some ''own''"
proof -
  have "trees_agree [layer_at demo_build (be_platform_root demo_build),
      layer_at demo_build (team_root_for_package (path_parts (wp_path demo_package))), layer_at demo_build (path_parts (wp_path demo_package))]"
    by (simp add: demo_package_paths demo_layers trees_agree_def tree_paths_def is_above_def)
  from bundle_layers [OF this, of "[''hooks'', ''log'']"] show ?thesis
    by (auto simp: demo_package_paths demo_layers workflow_file_def WORKFLOW_TOP_LEVEL_FILES_def WORKFLOW_TOP_LEVEL_DIRS_def
        is_above_def skipped_path_def SKIP_DIRS_def SKIP_FILES_def)
qed

section \<open>No secret in plain text\<close>

text \<open>\<open>has_entry v k w\<close>: somewhere in \<open>v\<close> an object has the key \<open>k\<close> with the value \<open>w\<close>.\<close>

inductive has_entry :: "json \<Rightarrow> str \<Rightarrow> json \<Rightarrow> bool" where
  here: "(k, w) \<in> set d \<Longrightarrow> has_entry (JObj d) k w"
| in_object: "(k', v) \<in> set d \<Longrightarrow> has_entry v k w \<Longrightarrow> has_entry (JObj d) k w"
| in_list: "v \<in> set xs \<Longrightarrow> has_entry v k w \<Longrightarrow> has_entry (JList xs) k w"

inductive_simps has_entry_simps: "has_entry (JObj d) k w" "has_entry (JList xs) k w" "has_entry (JStr s) k w"
  "has_entry JNull k w" "has_entry (JBool b) k w" "has_entry (JInt n) k w" "has_entry (JFloat q) k w"

definition exposed :: "json \<Rightarrow> bool" where
  "exposed v \<longleftrightarrow> (\<exists>k s. has_entry v k (JStr s) \<and> looks_secret_key k \<and> \<not> is_safe_secret_reference s)
     \<or> (\<exists>k d k' s. has_entry v k (JObj d) \<and> py_endswith k ''secrets'' \<and> (k', JStr s) \<in> set d \<and> \<not> is_safe_secret_reference s)"

lemma plain_secret_iff: "plain_secret v \<longleftrightarrow> (\<exists>s. v = JStr s \<and> \<not> is_safe_secret_reference s)"
  by (cases v) auto

lemma visit_entries_Nil_iff:
  "visit_entries f loc d = [] \<longleftrightarrow> (\<forall>(k, v) \<in> set d. entry_warnings f loc k v = [] \<and> visit_value f (nested_location loc k) v = [])"
  by (induction d) auto

lemma visit_items_Nil:
  "visit_items f loc n xs = [] \<Longrightarrow> v \<in> set xs \<Longrightarrow> \<exists>i. visit_value f (loc @ ''['' @ str_of_nat i @ '']'') v = []"
  by (induction xs arbitrary: n) auto

lemma startswith_append: "py_startswith s p \<Longrightarrow> py_startswith (s @ t) p"
  by (auto simp: py_startswith_def dest: arg_cong [where f = length])

lemma endswith_nested: "py_endswith k ''secrets'' \<Longrightarrow> py_endswith (nested_location loc k) ''secrets''"
  by (auto simp: py_endswith_def nested_location_def intro: startswith_append)

lemma visit_finds_secret:
  assumes "has_entry v k w" "visit_value f loc v = []"
  shows "\<not> (looks_secret_key k \<and> plain_secret w)
     \<and> (case w of JObj d \<Rightarrow> py_endswith k ''secrets'' \<longrightarrow> (\<forall>(k', x) \<in> set d. \<not> plain_secret x) | _ \<Rightarrow> True)"
  using assms
proof (induction arbitrary: loc rule: has_entry.induct)
  case (here k w d)
  then have e: "entry_warnings f loc k w = []" "visit_value f (nested_location loc k) w = []" by (auto simp: visit_entries_Nil_iff)
  have "\<forall>(k', x) \<in> set d'. \<not> plain_secret x" if "w = JObj d'" "py_endswith k ''secrets''" for d'
    using e(2) that endswith_nested [of k loc] by (auto simp: visit_entries_Nil_iff entry_warnings_def Let_def split: if_splits)
  with e(1) show ?case by (auto simp: entry_warnings_def Let_def split: json.splits if_splits)
next
  case (in_object k' v d k w)
  then have "visit_value f (nested_location loc k') v = []" by (auto simp: visit_entries_Nil_iff)
  then show ?case by (rule in_object.IH)
next
  case (in_list v xs k w)
  from visit_items_Nil [of f loc 0 xs v] in_list obtain i where "visit_value f (loc @ ''['' @ str_of_nat i @ '']'') v = []" by auto
  then show ?case by (rule in_list.IH)
qed

lemma scan_clean: "scan_structured_secret_values yaml_load (p, c) = [] \<Longrightarrow> structured_value yaml_load p c = Some v \<Longrightarrow> \<not> exposed v"
  unfolding exposed_def scan_structured_secret_values_def
  by (fastforce simp: plain_secret_iff dest!: visit_finds_secret)

text \<open>
  C11. A bundle is built only when each of its configuration files (YAML, \<open>.mcp.json\<close> and \<open>settings.json\<close>)
  is free of exposed secrets: no key that looks like a secret, and no key of a section of secrets,
  has a string that is neither empty nor a reference or placeholder, at whatever depth. When the
  scan finds one, the bundle's directory is removed.
\<close>

theorem bundle_hides_no_secret:
  assumes "build_workflow_bundle env (Inr packages) md workflow dirs = (r, dirs')"
    and "find (\<lambda>p. wp_name p = workflow \<or> wp_dir_name p = workflow) packages = Some package"
    and "assemble_package env package = (None, a)"
  shows "case r of
      Inl e \<Rightarrow> map_of dirs' (wp_name package) = None
    | Inr b \<Rightarrow> map_of dirs' (wp_name package) = Some (bb_files b) \<and> bb_files b = AList.update [''manifest.yaml''] (bb_manifest_text b) (as_files a)
        \<and> (\<forall>(p, c) \<in> set (as_files a). scanned_file (be_output_dir env @ [wp_name package]) p
             \<longrightarrow> (\<forall>v. structured_value (be_yaml_load env) p c = Some v \<longrightarrow> \<not> exposed v))"
proof -
  let ?w = "validate_no_plaintext_secrets (be_yaml_load env) (be_output_dir env @ [wp_name package]) (as_files a)"
  have "\<not> exposed v" if "?w = []" "(p, c) \<in> set (as_files a)" "scanned_file (be_output_dir env @ [wp_name package]) p"
    "structured_value (be_yaml_load env) p c = Some v" for p c v
    by (rule scan_clean [OF _ that(4)]) (use that(1-3) in \<open>auto simp: validate_no_plaintext_secrets_def\<close>)
  with assms show ?thesis
    by (auto simp: build_workflow_bundle_def Let_def update_conv' delete_conv' split: if_splits)
qed

lemma demo_found: "find (\<lambda>p. wp_name p = ''sre'' \<or> wp_dir_name p = ''sre'') [demo_package] = Some demo_package"
  by (simp add: demo_package_def)

lemma demo_assembled:
  obtains a where "assemble_package demo_build demo_package = (None, a)"
    "as_files a = [([''CLAUDE.md''], ''core''), ([''skills'', ''triage''], ''team''), ([''hooks'', ''log''], ''own''), ([''agent.yaml''], ''name: sre'')]"
    "validate_no_plaintext_secrets (be_yaml_load demo_build) (be_output_dir demo_build @ [wp_name demo_package]) (as_files a) = []"
proof -
  obtain a where a: "assemble_package demo_build demo_package = (None, a)"
    "as_files a = [([''CLAUDE.md''], ''core''), ([''skills'', ''triage''], ''team''), ([''hooks'', ''log''], ''own''), ([''agent.yaml''], ''name: sre'')]"
    by (simp add: assemble_package_def Let_def demo_package_paths demo_layers bundle_placements_def shared_layer_def workflow_layer_def
        copy_file_if_exists_def overlay_dir_def files_under_def skipped_path_def SKIP_DIRS_def SKIP_FILES_def is_above_def
        WORKFLOW_TOP_LEVEL_FILES_def WORKFLOW_TOP_LEVEL_DIRS_def place_def copy_to_def dir_exists_def path_exists_def)
  moreover have "validate_no_plaintext_secrets (be_yaml_load demo_build) (be_output_dir demo_build @ [wp_name demo_package]) (as_files a) = []"
    by (simp add: a(2) validate_no_plaintext_secrets_def scanned_file_def SKIP_DIRS_def path_suffix_def Let_def py_lower_def py_lower_char_def
        scan_structured_secret_values_def structured_value_def demo_build_def demo_package_def entry_warnings_def looks_secret_key_def
        SECRET_KEY_MARKERS_def py_startswith_def py_endswith_def sort_key_def)
  ultimately show ?thesis by (rule that)
qed

lemma demo_built: "\<exists>b dirs'. build_workflow_bundle demo_build (Inr [demo_package]) md ''sre'' dirs = (Inr b, dirs')"
proof -
  obtain a where a: "assemble_package demo_build demo_package = (None, a)"
    "validate_no_plaintext_secrets (be_yaml_load demo_build) (be_output_dir demo_build @ [wp_name demo_package]) (as_files a) = []"
    by (rule demo_assembled)
  then show ?thesis unfolding build_workflow_bundle_def sum.case demo_found option.case a(1) prod.case Let_def by simp
qed

theorem bundle_hides_no_secret_witness:
  "\<exists>a b dirs. build_workflow_bundle demo_build (Inr [demo_package]) \<lparr>rm_name = [], rm_url = [], rm_ref = [], rm_commit = []\<rparr> ''sre'' [] = (Inr b, dirs)
     \<and> map_of dirs ''sre'' = Some (bb_files b) \<and> assemble_package demo_build demo_package = (None, a)
     \<and> map_of (as_files a) [''agent.yaml''] = Some ''name: sre''"
proof -
  let ?md = "\<lparr>rm_name = [], rm_url = [], rm_ref = [], rm_commit = []\<rparr>"
  obtain a where a: "assemble_package demo_build demo_package = (None, a)"
    "as_files a = [([''CLAUDE.md''], ''core''), ([''skills'', ''triage''], ''team''), ([''hooks'', ''log''], ''own''), ([''agent.yaml''], ''name: sre'')]"
    by (rule demo_assembled)
  obtain b dirs where r: "build_workflow_bundle demo_build (Inr [demo_package]) ?md ''sre'' [] = (Inr b, dirs)" using demo_built by blast
  from bundle_hides_no_secret [OF r demo_found a(1)] have "map_of dirs ''sre'' = Some (bb_files b)" by (simp add: demo_package_def)
  moreover have "map_of (as_files a) [''agent.yaml''] = Some ''name: sre''" by (simp add: a(2))
  ultimately show ?thesis using r a(1) by blast
qed

end
