(* ===== verification/Workflow_Releases.thy ===== *)
theory Workflow_Releases
  imports Workflow_Bundles Lifecycle Knowledge_Bundle
begin

text \<open>
  \<open>shared/lib/workflow_repo_sync.py\<close> with the checkout of \<open>workflow_paths.py\<close>, the handlers of the API
  over it, and what \<open>container_lifecycle.py\<close> reads of a release. A synchronisation checks out the
  repository, discovers the workflows, builds and uploads a bundle of each, and moves the pointer to
  the active release only when all of them are in the bucket. Git, the archive format and the
  object store are passed in. An object is its text.

  \<open>active_release_complete\<close>: what the pointer names is always a complete release.
  \<open>released_bundles_resolve\<close>: the session manager finds the bundle of every released workflow.
  \<open>pinned_ref_not_built\<close>: discovery checks the configured reference out again, over the pinned one.
\<close>

section \<open>Compatibility\<close>

definition major_version :: "str \<Rightarrow> nat option" where
  "major_version v =
     (let first_segment = takeWhile (\<lambda>c. c \<noteq> CHR ''.'') (py_strip v)
      in if first_segment \<noteq> [] \<and> list_all py_isdigit first_segment then Some (nat_of_digits first_segment) else None)"

definition check_bundle_compatibility :: "str \<Rightarrow> str \<Rightarrow> str" where
  "check_bundle_compatibility bundle_platform_version running_platform_version =
     (case (major_version bundle_platform_version, major_version running_platform_version) of
        (Some b, Some r) \<Rightarrow> if r < b then ''incompatible'' else if b < r then ''warning'' else ''ok''
      | _ \<Rightarrow> ''ok'')"

section \<open>The repository\<close>

record repo_settings =
  rs_workflow_repo_url :: str
  rs_workflow_repo_source :: str
  rs_workflow_repo_ref :: str
  rs_workflow_repo_local_path :: str
  rs_workflow_repo_display_path :: str
  rs_platform_config_file :: str
  rs_runtime_bundle_root :: str
  rs_runtime_bundle_object_store_bucket :: str

type_synonym objects_map = "(str \<times> str) list"

text \<open>
  What a synchronisation meets. The working copy is known by its head; \<open>rv_checkout\<close> gives the head after
  a checkout or the text of its failure. \<open>rv_roots\<close> are the other workflow roots with their resolved
  paths, \<open>rv_tree\<close> the working copy as a root, \<open>rv_file\<close> the files that are read, all at a head.
\<close>

record repo_env =
  rv_git :: bool
  rv_token :: "unit res"
  rv_fetch :: "str + unit"
  rv_checkout :: "str \<Rightarrow> str \<Rightarrow> str + str"
  rv_tree :: "str \<Rightarrow> workflow_dir list option"
  rv_roots :: "str \<Rightarrow> (str \<times> workflow_dir list option) list"
  rv_commit :: "str \<Rightarrow> str"
  rv_file :: "str \<Rightarrow> str \<Rightarrow> str option"
  rv_build :: "str \<Rightarrow> build_env"
  rv_now :: time
  rv_tar :: "files \<Rightarrow> str"
  rv_put :: "str \<Rightarrow> str \<Rightarrow> objects_map \<Rightarrow> unit res \<times> objects_map"
  rv_text :: "py_error \<Rightarrow> str"

definition remote_repo :: "repo_settings \<Rightarrow> bool" where
  "remote_repo s \<longleftrightarrow> py_strip (rs_workflow_repo_url s) \<noteq> [] \<and> py_lower (py_strip (rs_workflow_repo_source s)) \<noteq> ''local''"

definition checkout_failed :: "repo_settings \<Rightarrow> bool \<Rightarrow> str \<Rightarrow> bool res" where
  "checkout_failed s raise_on_error detail =
     (if raise_on_error
      then Inl (RuntimeError (''Failed to sync workflow repo '' @ py_strip (rs_workflow_repo_url s) @ '' into '' @
             rs_workflow_repo_local_path s @ '': '' @ detail))
      else Inr False)"

text \<open>The result says whether the working copy is a root; the head is the one after it.\<close>

definition sync_configured_workflow_repo :: "repo_settings \<Rightarrow> repo_env \<Rightarrow> str option \<Rightarrow> bool \<Rightarrow> str \<Rightarrow> bool res \<times> str" where
  "sync_configured_workflow_repo s env ref_override raise_on_error head =
     (if \<not> remote_repo s \<or> \<not> rv_git env then (Inr False, head)
      else let ref = py_strip (case ref_override of Some r \<Rightarrow> r | None \<Rightarrow> rs_workflow_repo_ref s)
           in case rv_token env of
                Inl e \<Rightarrow> (Inl e, head)
              | Inr _ \<Rightarrow>
                  (case rv_fetch env of
                     Inl detail \<Rightarrow> (checkout_failed s raise_on_error detail, head)
                   | Inr _ \<Rightarrow>
                       if ref = [] then (Inr True, head)
                       else (case rv_checkout env ref head of
                               Inl detail \<Rightarrow> (checkout_failed s raise_on_error detail, head)
                             | Inr head' \<Rightarrow> (Inr True, head'))))"

definition sync_workflow_repo_to_ref :: "repo_settings \<Rightarrow> repo_env \<Rightarrow> str option \<Rightarrow> str \<Rightarrow> bool res \<times> str" where
  "sync_workflow_repo_to_ref s env ref head = sync_configured_workflow_repo s env ref True head"

fun dedupe_roots :: "str list \<Rightarrow> (str \<times> 'a) list \<Rightarrow> (str \<times> 'a) list" where
  "dedupe_roots seen [] = []"
| "dedupe_roots seen ((key, r) # rs) =
     (if key \<in> set seen then dedupe_roots seen rs else (key, r) # dedupe_roots (key # seen) rs)"

definition configured_workflow_roots :: "repo_settings \<Rightarrow> repo_env \<Rightarrow> str \<Rightarrow> (str \<times> workflow_dir list option) list res \<times> str" where
  "configured_workflow_roots s env head =
     (case sync_configured_workflow_repo s env None False head of
        (Inl e, h) \<Rightarrow> (Inl e, h)
      | (Inr synced, h) \<Rightarrow>
          (Inr (dedupe_roots [] ((if synced then [(rs_workflow_repo_local_path s, rv_tree env h)] else []) @ rv_roots env h)), h))"

text \<open>\<open>discover_workflow_packages(roots)\<close>: no roots given, or an empty list, are the configured ones.\<close>

definition discover_packages ::
    "repo_settings \<Rightarrow> repo_env \<Rightarrow> (str \<times> workflow_dir list option) list \<Rightarrow> str \<Rightarrow> workflow_package list res \<times> str" where
  "discover_packages s env roots head =
     (if roots \<noteq> [] then (discover_workflow_packages (map snd roots), head)
      else case configured_workflow_roots s env head of
        (Inl e, h) \<Rightarrow> (Inl e, h)
      | (Inr rs, h) \<Rightarrow> (discover_workflow_packages (map snd rs), h))"

section \<open>The state row\<close>

definition new_repo_state :: "db \<Rightarrow> workflow_repo_state" where
  "new_repo_state d = \<lparr>wr_pinned_ref = None, wr_last_synced_ref = None, wr_last_synced_commit = None, wr_last_synced_at = None,
     wr_last_sync_status = None, wr_last_sync_error = None, wr_discovered_workflows = [], wr_bundle_errors = [], wr_updated = db_now d\<rparr>"

definition load_state :: "db \<Rightarrow> workflow_repo_state" where
  "load_state d = (case workflow_repo d of Some st \<Rightarrow> st | None \<Rightarrow> new_repo_state d)"

definition opt_text :: "str \<Rightarrow> str option" where
  "opt_text v = (if v \<noteq> [] then Some v else None)"

definition pin_workflow_repo_ref :: "str \<Rightarrow> db \<Rightarrow> workflow_repo_state \<times> db" where
  "pin_workflow_repo_ref ref d =
     (let st = (load_state d)\<lparr>wr_pinned_ref := opt_text (py_strip ref)\<rparr> in (st, d\<lparr>workflow_repo := Some st\<rparr>))"

definition effective_ref :: "repo_settings \<Rightarrow> str option \<Rightarrow> str option" where
  "effective_ref s pinned =
     (let ref = py_strip (opt_str pinned) in opt_text (if ref \<noteq> [] then ref else py_strip (rs_workflow_repo_ref s)))"

section \<open>Publishing a release\<close>

definition timestamp_text :: "time \<Rightarrow> str" where
  "timestamp_text t =
     (let us = t mod 1000000; sec = t div 1000000; tod = sec mod 86400; (y, m, d) = civil_from_days (sec div 86400)
      in pad0 4 y @ pad0 2 m @ pad0 2 d @ ''T'' @ pad0 2 (tod div 3600) @ pad0 2 (tod div 60 mod 60) @ pad0 2 (tod mod 60)
         @ pad0 6 us @ ''Z'')"

definition release_id_text :: "time \<Rightarrow> str \<Rightarrow> str option \<Rightarrow> str" where
  "release_id_text now commit ref =
     (if commit \<noteq> [] then take 12 commit @ ''-'' @ timestamp_text now
      else if opt_truthy ref then py_replace ''/'' ''-'' (opt_str ref) @ ''-'' @ timestamp_text now
      else timestamp_text now)"

definition release_config_key :: "str \<Rightarrow> str" where
  "release_config_key release_id = ''releases/'' @ release_id @ ''/platform-config.yaml''"

definition release_manifest_key :: "str \<Rightarrow> str" where
  "release_manifest_key release_id = ''releases/'' @ release_id @ ''/manifest.json''"

definition release_bundle_key :: "str \<Rightarrow> str \<Rightarrow> str" where
  "release_bundle_key release_id workflow = ''releases/'' @ release_id @ ''/bundles/'' @ workflow @ ''.tar.gz''"

definition ACTIVE_KEY :: str where
  "ACTIVE_KEY = ''releases/active.json''"

definition bundle_entry :: "str \<times> str \<Rightarrow> json" where
  "bundle_entry e = JObj [(''key'', JStr (fst e)), (''checksum'', JStr (snd e))]"

definition release_manifest :: "str \<Rightarrow> str \<Rightarrow> str option \<Rightarrow> (str \<times> str \<times> str) list \<Rightarrow> dict" where
  "release_manifest release_id commit ref bundles =
     [(''release_id'', JStr release_id), (''commit'', jopt (opt_text commit)), (''ref'', jopt ref),
      (''platform_config_key'', JStr (release_config_key release_id)),
      (''bundles'', JObj (map (\<lambda>(w, e). (w, bundle_entry e)) bundles))]"

definition pointer_text :: "str \<Rightarrow> str" where
  "pointer_text release_id = json_dumps_sorted (JObj [(''manifest_key'', JStr (release_manifest_key release_id))])"

fun put_all :: "(str \<Rightarrow> str \<Rightarrow> objects_map \<Rightarrow> unit res \<times> objects_map) \<Rightarrow> (str \<times> str) list \<Rightarrow> objects_map \<Rightarrow> unit res \<times> objects_map" where
  "put_all put [] b = (Inr (), b)"
| "put_all put ((k, c) # xs) b = (case put k c b of (Inl e, b') \<Rightarrow> (Inl e, b') | (Inr _, b') \<Rightarrow> put_all put xs b')"

definition publish_object_store_release ::
    "repo_env \<Rightarrow> str \<Rightarrow> str \<Rightarrow> (str \<times> str \<times> str) list \<Rightarrow> str \<Rightarrow> str option \<Rightarrow> objects_map \<Rightarrow> unit res \<times> objects_map" where
  "publish_object_store_release env release_id platform_config bundles commit ref b =
     put_all (rv_put env)
       [(release_config_key release_id, platform_config),
        (release_manifest_key release_id, json_dumps_sorted (JObj (release_manifest release_id commit ref bundles))),
        (ACTIVE_KEY, pointer_text release_id)] b"

definition platform_config_source_path :: "repo_settings \<Rightarrow> str" where
  "platform_config_source_path s =
     (if remote_repo s then rs_workflow_repo_local_path s @ ''/platform-config.yaml'' else rs_platform_config_file s)"

definition publish_platform_config_snapshot :: "repo_settings \<Rightarrow> repo_env \<Rightarrow> str \<Rightarrow> str res" where
  "publish_platform_config_snapshot s env head =
     (case rv_file env head (platform_config_source_path s) of
        None \<Rightarrow> Inl (OSError (''Workflow repo platform config was not found: '' @ platform_config_source_path s))
      | Some content \<Rightarrow> Inr content)"

section \<open>The pipeline\<close>

record workflow_sync_result =
  wy_status :: str
  wy_synced_ref :: "str option"
  wy_commit :: "str option"
  wy_discovered_workflows :: "str list"
  wy_bundle_errors :: "(str \<times> str) list"
  wy_compatibility_warnings :: "(str \<times> str) list"
  wy_error :: "str option"

text \<open>The working copy, the bucket, and the bundle root: its bundle directories and its snapshot.\<close>

record release_world =
  rw_head :: str
  rw_bucket :: objects_map
  rw_dirs :: "(str \<times> files) list"
  rw_snapshot :: "str option"

record bundling =
  bg_head :: str
  bg_dirs :: "(str \<times> files) list"
  bg_bucket :: objects_map
  bg_errors :: "(str \<times> str) list"
  bg_warnings :: "(str \<times> str) list"
  bg_bundles :: "(str \<times> str \<times> str) list"

definition bundle_failed :: "str \<Rightarrow> str \<Rightarrow> bundling \<Rightarrow> bundling" where
  "bundle_failed name detail g = g\<lparr>bg_errors := AList.update name detail (bg_errors g)\<rparr>"

definition upload_bundle :: "repo_settings \<Rightarrow> repo_env \<Rightarrow> str \<Rightarrow> str \<Rightarrow> bundle_build \<Rightarrow> bundling \<Rightarrow> bundling" where
  "upload_bundle s env release_id name bb g =
     (if py_strip (rs_runtime_bundle_object_store_bucket s) = [] then g
      else let key = release_bundle_key release_id name
           in case rv_put env key (rv_tar env (bb_files bb)) (bg_bucket g) of
                (Inl e, b') \<Rightarrow> bundle_failed name (rv_text env e) (g\<lparr>bg_bucket := b'\<rparr>)
              | (Inr _, b') \<Rightarrow> g\<lparr>bg_bucket := b',
                   bg_bundles := AList.update name (key, ''sha256:'' @ sha256_hexdigest (bb_manifest_text bb)) (bg_bundles g)\<rparr>)"

definition check_built :: "str \<Rightarrow> str \<Rightarrow> bundle_build \<Rightarrow> bundling \<Rightarrow> bundling + bundling" where
  "check_built running_version name bb g =
     (let version = dget (bb_manifest bb) ''platform_version''; compatibility = check_bundle_compatibility (text_or_empty version) running_version
      in if compatibility = ''incompatible''
         then Inl (bundle_failed name (''Bundle platform_version '' @ py_repr version @ '' is newer than running platform '' @ repr_str running_version) g)
         else Inr (if compatibility = ''warning''
           then g\<lparr>bg_warnings := AList.update name
             (''Bundle platform_version '' @ py_repr version @ '' is older than running platform '' @ repr_str running_version) (bg_warnings g)\<rparr>
           else g))"

definition bundle_package ::
    "repo_settings \<Rightarrow> repo_env \<Rightarrow> str \<Rightarrow> str option \<Rightarrow> str \<Rightarrow> str \<Rightarrow> str \<Rightarrow> bundling \<Rightarrow> bundling" where
  "bundle_package s env release_id ref commit running_version name g =
     (case configured_workflow_roots s env (bg_head g) of
        (Inl e, h) \<Rightarrow> bundle_failed name (rv_text env e) (g\<lparr>bg_head := h\<rparr>)
      | (Inr roots, h) \<Rightarrow>
          let (found, h') = discover_packages s env roots h;
              (built, dirs') = build_workflow_bundle (rv_build env h') found
                \<lparr>rm_name = (if rs_workflow_repo_url s \<noteq> [] then rs_workflow_repo_url s else ''local''), rm_url = rs_workflow_repo_url s,
                 rm_ref = opt_str ref, rm_commit = commit\<rparr> name (bg_dirs g);
              g1 = g\<lparr>bg_head := h', bg_dirs := dirs'\<rparr>
          in case built of
               Inl e \<Rightarrow> bundle_failed name (rv_text env e) g1
             | Inr bb \<Rightarrow> (case check_built running_version name bb g1 of Inl g2 \<Rightarrow> g2 | Inr g2 \<Rightarrow> upload_bundle s env release_id name bb g2))"

text \<open>Without an error the snapshot is written and the release published; a failure of either is recorded.\<close>

definition publish_release ::
    "repo_settings \<Rightarrow> repo_env \<Rightarrow> str \<Rightarrow> str option \<Rightarrow> str \<Rightarrow> bundling \<Rightarrow> bundling \<times> str option" where
  "publish_release s env release_id ref commit g =
     (if bg_errors g \<noteq> [] then (g, None)
      else case publish_platform_config_snapshot s env (bg_head g) of
        Inl e \<Rightarrow> (bundle_failed ''platform-config'' (rv_text env e) g, None)
      | Inr snapshot \<Rightarrow>
          if py_strip (rs_runtime_bundle_object_store_bucket s) = [] then (g, Some snapshot)
          else (case publish_object_store_release env release_id snapshot (bg_bundles g) commit ref (bg_bucket g) of
                  (Inl e, b') \<Rightarrow> (bundle_failed ''platform-config'' (rv_text env e) (g\<lparr>bg_bucket := b'\<rparr>), Some snapshot)
                | (Inr _, b') \<Rightarrow> (g\<lparr>bg_bucket := b'\<rparr>, Some snapshot)))"

definition bundle_all ::
    "repo_settings \<Rightarrow> repo_env \<Rightarrow> str option \<Rightarrow> str \<Rightarrow> str \<Rightarrow> workflow_package list \<Rightarrow> release_world \<Rightarrow> bundling \<times> release_world" where
  "bundle_all s env ref commit head packages w =
     (let bundle_root = py_strip (rs_runtime_bundle_root s);
          release_id = release_id_text (rv_now env) commit ref;
          running_version = platform_version_for_root (be_pyproject (rv_build env head));
          g0 = \<lparr>bg_head = head, bg_dirs = (if bundle_root \<noteq> [] then rw_dirs w else []), bg_bucket = rw_bucket w, bg_errors = [],
                bg_warnings = [], bg_bundles = []\<rparr>
      in if bundle_root = [] \<and> py_strip (rs_runtime_bundle_object_store_bucket s) = [] then (g0, w\<lparr>rw_head := head\<rparr>)
         else let g1 = fold (bundle_package s env release_id ref commit running_version) (map wp_name packages) g0;
                  (g2, snapshot) = publish_release s env release_id ref commit g1
              in (g2, \<lparr>rw_head = bg_head g2, rw_bucket = bg_bucket g2,
                       rw_dirs = (if bundle_root \<noteq> [] then bg_dirs g2 else rw_dirs w),
                       rw_snapshot = (if bundle_root \<noteq> [] \<and> snapshot \<noteq> None then snapshot else rw_snapshot w)\<rparr>))"

definition run_sync_pipeline :: "repo_settings \<Rightarrow> repo_env \<Rightarrow> str option \<Rightarrow> release_world \<Rightarrow> workflow_sync_result res \<times> release_world" where
  "run_sync_pipeline s env ref w =
     (case (if remote_repo s then sync_workflow_repo_to_ref s env ref (rw_head w) else (Inr False, rw_head w)) of
        (Inl e, h) \<Rightarrow> (Inl e, w\<lparr>rw_head := h\<rparr>)
      | (Inr _, h) \<Rightarrow>
          (case discover_packages s env [] h of
             (Inl e, h') \<Rightarrow> (Inl e, w\<lparr>rw_head := h'\<rparr>)
           | (Inr packages, h') \<Rightarrow>
               let commit = rv_commit env h'; (g, w') = bundle_all s env ref commit h' packages w
               in (Inr \<lparr>wy_status = (if bg_errors g = [] then ''ok'' else ''partial_error''), wy_synced_ref = ref,
                        wy_commit = opt_text commit, wy_discovered_workflows = sort (map wp_name packages),
                        wy_bundle_errors = bg_errors g, wy_compatibility_warnings = bg_warnings g, wy_error = None\<rparr>, w')))"

definition record_sync :: "time \<Rightarrow> workflow_sync_result \<Rightarrow> workflow_repo_state \<Rightarrow> workflow_repo_state" where
  "record_sync now r st = st\<lparr>wr_last_synced_ref := wy_synced_ref r, wr_last_synced_commit := wy_commit r, wr_last_synced_at := Some now,
     wr_last_sync_status := Some (wy_status r), wr_last_sync_error := wy_error r, wr_discovered_workflows := wy_discovered_workflows r,
     wr_bundle_errors := wy_bundle_errors r\<rparr>"

definition sync_workflow_repo :: "repo_settings \<Rightarrow> repo_env \<Rightarrow> db \<Rightarrow> release_world \<Rightarrow> workflow_sync_result \<times> db \<times> release_world" where
  "sync_workflow_repo s env d w =
     (let st = load_state d; ref = effective_ref s (wr_pinned_ref st); (r, w') = run_sync_pipeline s env ref w;
          result = (case r of
            Inr x \<Rightarrow> x
          | Inl e \<Rightarrow> \<lparr>wy_status = ''error'', wy_synced_ref = ref, wy_commit = None, wy_discovered_workflows = [], wy_bundle_errors = [],
                      wy_compatibility_warnings = [], wy_error = Some (rv_text env e)\<rparr>)
      in (result, d\<lparr>workflow_repo := Some (record_sync (rv_now env) result st)\<rparr>, w'))"

section \<open>The handlers of the API\<close>

definition workflow_repo_response :: "repo_settings \<Rightarrow> workflow_repo_state option \<Rightarrow> json" where
  "workflow_repo_response s state =
     (let remote_source_url = opt_text (py_strip (rs_workflow_repo_url s)); field = (\<lambda>f. case state of None \<Rightarrow> JNull | Some st \<Rightarrow> f st)
      in JObj [(''source_url'', jopt remote_source_url),
          (''source_path'', jopt (if remote_source_url \<noteq> None then None else opt_text (py_strip (rs_workflow_repo_display_path s)))),
          (''source_mode'', JStr (if remote_source_url \<noteq> None then ''remote'' else ''local'')),
          (''default_ref'', jopt (opt_text (py_strip (rs_workflow_repo_ref s)))),
          (''pinned_ref'', field (\<lambda>st. jopt (wr_pinned_ref st))),
          (''last_synced_ref'', field (\<lambda>st. jopt (wr_last_synced_ref st))),
          (''last_synced_commit'', field (\<lambda>st. jopt (wr_last_synced_commit st))),
          (''last_synced_at'', field (\<lambda>st. iso_opt (wr_last_synced_at st))),
          (''last_sync_status'', field (\<lambda>st. jopt (wr_last_sync_status st))),
          (''last_sync_error'', field (\<lambda>st. jopt (wr_last_sync_error st))),
          (''discovered_workflows'', JList (case state of None \<Rightarrow> [] | Some st \<Rightarrow> map JStr (wr_discovered_workflows st))),
          (''bundle_errors'', JObj (case state of None \<Rightarrow> [] | Some st \<Rightarrow> map (\<lambda>(k, v). (k, JStr v)) (wr_bundle_errors st)))])"

definition get_workflow_repo_status :: "repo_settings \<Rightarrow> db \<Rightarrow> json" where
  "get_workflow_repo_status s d = workflow_repo_response s (workflow_repo d)"

definition trigger_workflow_repo_sync :: "repo_settings \<Rightarrow> repo_env \<Rightarrow> db \<Rightarrow> release_world \<Rightarrow> json res \<times> db \<times> release_world" where
  "trigger_workflow_repo_sync s env d w =
     (let (result, d1, w1) = sync_workflow_repo s env d w
      in if wy_status result \<noteq> ''ok'' then (Inr (get_workflow_repo_status s d1), d1, w1)
         else case discover_packages s env [] (rw_head w1) of
           (Inl e, h) \<Rightarrow> (Inl e, d1, w1\<lparr>rw_head := h\<rparr>)
         | (Inr packages, h) \<Rightarrow>
             (case run_provisioner_scan (rv_now env) (scan_workflows packages) d1 of
                Inl e \<Rightarrow> (Inl e, d1, w1\<lparr>rw_head := h\<rparr>)
              | Inr d2 \<Rightarrow> (Inr (get_workflow_repo_status s d2), d2, w1\<lparr>rw_head := h\<rparr>)))"

definition pin_workflow_repo_version :: "repo_settings \<Rightarrow> str \<Rightarrow> db \<Rightarrow> (json \<times> db) res" where
  "pin_workflow_repo_version s ref d =
     (if py_strip ref = [] then Inl (HTTPException 400 ''ref must not be empty'')
      else let (_, d') = pin_workflow_repo_ref (py_strip ref) d in Inr (get_workflow_repo_status s d', d'))"

section \<open>What the session manager reads\<close>

text \<open>\<open>presign\<close> gives the short-lived address of an object, \<open>local\<close> what is resolved without a release.\<close>

definition resolve_workflow_bundle ::
    "str \<Rightarrow> (str \<Rightarrow> str) \<Rightarrow> (str option \<times> str option \<times> str option) res \<Rightarrow> str \<Rightarrow> dict option
       \<Rightarrow> (str option \<times> str option \<times> str option) res" where
  "resolve_workflow_bundle bucket presign local workflow release =
     (case release of
        None \<Rightarrow> local
      | Some m \<Rightarrow>
          if m = [] then local
          else bind_res (attr_get (py_or (dget m ''bundles'') (JObj [])) workflow) (\<lambda>found.
            case found of
              JObj e \<Rightarrow>
                if py_strip bucket \<noteq> [] \<and> truthy (dget e ''key'')
                then Inr (None, Some (presign (py_str (dget e ''key''))), opt_text (text_or_empty (dget e ''checksum'')))
                else local
            | _ \<Rightarrow> local))"

section \<open>Complete releases\<close>

text \<open>A put of the object store is atomic: other objects stay, and one that fails leaves the old or the new object.\<close>

definition atomic_put :: "(str \<Rightarrow> str \<Rightarrow> objects_map \<Rightarrow> unit res \<times> objects_map) \<Rightarrow> bool" where
  "atomic_put put \<longleftrightarrow> (\<forall>k c b r b'. put k c b = (r, b') \<longrightarrow> (\<forall>k'. k' \<noteq> k \<longrightarrow> map_of b' k' = map_of b k')
     \<and> (map_of b' k = Some c \<or> r \<noteq> Inr () \<and> map_of b' k = map_of b k))"

definition release_ok :: "objects_map \<Rightarrow> str \<Rightarrow> bool" where
  "release_ok b i \<longleftrightarrow> i \<noteq> [] \<and> map_of b (release_config_key i) \<noteq> None
     \<and> (\<exists>commit ref bundles. map_of b (release_manifest_key i) = Some (json_dumps_sorted (JObj (release_manifest i commit ref bundles)))
          \<and> distinct (map fst bundles) \<and> (\<forall>(w, key, c) \<in> set bundles. key \<noteq> [] \<and> c \<noteq> [] \<and> map_of b key \<noteq> None))"

definition complete_bucket :: "objects_map \<Rightarrow> bool" where
  "complete_bucket b \<longleftrightarrow> (\<forall>ptr. map_of b ACTIVE_KEY = Some ptr \<longrightarrow> (\<exists>i. ptr = pointer_text i \<and> release_ok b i))"

definition keeps_objects :: "objects_map \<Rightarrow> objects_map \<Rightarrow> bool" where
  "keeps_objects b b' \<longleftrightarrow> (\<forall>k. map_of b k \<noteq> None \<longrightarrow> map_of b' k \<noteq> None)"

lemma keeps_objects_refl [simp]: "keeps_objects b b" by (simp add: keeps_objects_def)

lemma keeps_objects_trans: "keeps_objects a b \<Longrightarrow> keeps_objects b c \<Longrightarrow> keeps_objects a c" by (simp add: keeps_objects_def)

lemma atomic_putD:
  assumes "atomic_put put" "put k c b = (r, b')"
  shows "keeps_objects b b'" "k' \<noteq> k \<Longrightarrow> map_of b' k' = map_of b k'" "r = Inr u \<Longrightarrow> map_of b' k = Some c"
    "map_of b' k = Some c \<or> map_of b' k = map_of b k"
proof -
  from assms have p: "\<forall>k'. k' \<noteq> k \<longrightarrow> map_of b' k' = map_of b k'" "map_of b' k = Some c \<or> r \<noteq> Inr () \<and> map_of b' k = map_of b k"
    unfolding atomic_put_def by blast+
  show "keeps_objects b b'" unfolding keeps_objects_def
  proof (intro allI impI)
    fix x assume "map_of b x \<noteq> None"
    with p show "map_of b' x \<noteq> None" by (cases "x = k") auto
  qed
  show "k' \<noteq> k \<Longrightarrow> map_of b' k' = map_of b k'" "map_of b' k = Some c \<or> map_of b' k = map_of b k" using p by auto
  show "r = Inr u \<Longrightarrow> map_of b' k = Some c" using p by (cases u) auto
qed

lemma active_not_manifest [simp]: "ACTIVE_KEY \<noteq> release_manifest_key i" "release_manifest_key i \<noteq> ACTIVE_KEY"
proof -
  have "length (release_manifest_key i) = length ACTIVE_KEY \<longrightarrow> False" by (simp add: release_manifest_key_def ACTIVE_KEY_def)
  then show "ACTIVE_KEY \<noteq> release_manifest_key i" "release_manifest_key i \<noteq> ACTIVE_KEY" by metis+
qed

lemma key_ends: "last (release_bundle_key i w) = CHR ''z''" "last (release_manifest_key i) = CHR ''n''"
  "last (release_config_key i) = CHR ''l''" "last ACTIVE_KEY = CHR ''n''"
  by (simp_all add: release_bundle_key_def release_manifest_key_def release_config_key_def ACTIVE_KEY_def)

lemma differ_by_last: "last a \<noteq> last b \<Longrightarrow> a \<noteq> b"
  by auto

lemma keys_differ [simp]:
  "release_manifest_key j \<noteq> release_bundle_key i w" "ACTIVE_KEY \<noteq> release_bundle_key i w"
  "release_manifest_key j \<noteq> release_config_key i" "ACTIVE_KEY \<noteq> release_config_key i"
  by (rule differ_by_last, simp add: key_ends)+

lemma manifest_key_inj [simp]: "release_manifest_key i = release_manifest_key j \<longleftrightarrow> i = j"
  by (simp add: release_manifest_key_def)

lemma release_ok_mono:
  assumes "release_ok b i" "keeps_objects b b'" "map_of b' (release_manifest_key i) = map_of b (release_manifest_key i)"
  shows "release_ok b' i"
proof -
  from assms(1) obtain commit ref bundles where m: "i \<noteq> []" "map_of b (release_config_key i) \<noteq> None"
    "map_of b (release_manifest_key i) = Some (json_dumps_sorted (JObj (release_manifest i commit ref bundles)))"
    "distinct (map fst bundles)" "\<forall>(w, key, c) \<in> set bundles. key \<noteq> [] \<and> c \<noteq> [] \<and> map_of b key \<noteq> None"
    unfolding release_ok_def by blast
  moreover from m(5) assms(2) have "\<forall>(w, key, c) \<in> set bundles. key \<noteq> [] \<and> c \<noteq> [] \<and> map_of b' key \<noteq> None"
    unfolding keeps_objects_def by blast
  moreover from m(2) assms(2) have "map_of b' (release_config_key i) \<noteq> None" unfolding keeps_objects_def by blast
  ultimately show ?thesis unfolding release_ok_def assms(3) by blast
qed

lemma complete_mono:
  assumes "complete_bucket b" "keeps_objects b b'" "map_of b' ACTIVE_KEY = map_of b ACTIVE_KEY"
    "\<And>i. map_of b' (release_manifest_key i) = map_of b (release_manifest_key i)"
  shows "complete_bucket b'"
  using assms release_ok_mono [OF _ assms(2,4)] unfolding complete_bucket_def by metis

section \<open>One bundle\<close>

definition bundles_ok :: "str \<Rightarrow> bundling \<Rightarrow> bool" where
  "bundles_ok release_id g \<longleftrightarrow> distinct (map fst (bg_bundles g))
     \<and> (\<forall>(w, key, c) \<in> set (bg_bundles g). key = release_bundle_key release_id w \<and> c \<noteq> [] \<and> map_of (bg_bucket g) key \<noteq> None)"

definition same_releases :: "objects_map \<Rightarrow> objects_map \<Rightarrow> bool" where
  "same_releases b b' \<longleftrightarrow> keeps_objects b b' \<and> map_of b' ACTIVE_KEY = map_of b ACTIVE_KEY
     \<and> (\<forall>i. map_of b' (release_manifest_key i) = map_of b (release_manifest_key i))"

lemma same_releases_refl [simp]: "same_releases b b" by (simp add: same_releases_def)

lemma same_releases_trans: "same_releases a b \<Longrightarrow> same_releases b c \<Longrightarrow> same_releases a c"
  by (auto simp: same_releases_def intro: keeps_objects_trans)

text \<open>What bundling a package adds: the entry of its bundle, or an error under its name.\<close>

definition bundled :: "repo_settings \<Rightarrow> str \<Rightarrow> bundling \<Rightarrow> bool" where
  "bundled s name g \<longleftrightarrow> name \<in> fst ` set (bg_errors g) \<or> py_strip (rs_runtime_bundle_object_store_bucket s) = []
     \<or> name \<in> fst ` set (bg_bundles g)"

definition extends_bundling :: "str \<Rightarrow> bundling \<Rightarrow> bundling \<Rightarrow> bool" where
  "extends_bundling release_id g g' \<longleftrightarrow> same_releases (bg_bucket g) (bg_bucket g') \<and> (bundles_ok release_id g \<longrightarrow> bundles_ok release_id g')
     \<and> fst ` set (bg_errors g) \<subseteq> fst ` set (bg_errors g') \<and> fst ` set (bg_bundles g) \<subseteq> fst ` set (bg_bundles g')"

lemma extends_bundling_trans:
  "extends_bundling i a b \<Longrightarrow> extends_bundling i b c \<Longrightarrow> extends_bundling i a c"
  unfolding extends_bundling_def using same_releases_trans [of "bg_bucket a" "bg_bucket b" "bg_bucket c"] by (meson subset_trans)

lemma bundled_extends: "bundled s n g \<Longrightarrow> extends_bundling i g g' \<Longrightarrow> bundled s n g'"
  unfolding bundled_def extends_bundling_def by blast

lemma set_update_subset_entry: "set (AList.update k v xs) \<subseteq> insert (k, v) (set xs)"
  by (induction xs) auto

lemma fst_set_update: "fst ` set (AList.update k v xs) = insert k (fst ` set xs)"
  by (simp add: dom_map_of_conv_image_fst [symmetric] update_conv')

lemma bundles_ok_keeps: "bundles_ok i g \<Longrightarrow> bg_bundles g' = bg_bundles g \<Longrightarrow> keeps_objects (bg_bucket g) (bg_bucket g') \<Longrightarrow> bundles_ok i g'"
  unfolding bundles_ok_def keeps_objects_def by (auto 0 3)

lemma extends_same_bucket:
  "bg_bucket g' = bg_bucket g \<Longrightarrow> bg_bundles g' = bg_bundles g \<Longrightarrow> fst ` set (bg_errors g) \<subseteq> fst ` set (bg_errors g') \<Longrightarrow> extends_bundling i g g'"
  by (auto simp: extends_bundling_def intro: bundles_ok_keeps)

lemma extends_failed: "extends_bundling i g (bundle_failed name t g)"
  by (rule extends_same_bucket) (simp_all add: bundle_failed_def fst_set_update subset_insertI)

lemma bundled_failed: "bundled s name (bundle_failed name t g)"
  by (simp add: bundle_failed_def bundled_def fst_set_update)

lemma put_bundle_same:
  assumes "atomic_put put" "put (release_bundle_key i name) c b = (r, b')"
  shows "same_releases b b'"
  using atomic_putD (1,2) [OF assms] by (auto simp: same_releases_def)

lemma upload_bundle_extends:
  assumes "atomic_put (rv_put env)"
  shows "extends_bundling i g (upload_bundle s env i name bb g)" "bundled s name (upload_bundle s env i name bb g)"
proof -
  let ?key = "release_bundle_key i name"
  obtain r b' where p: "rv_put env ?key (rv_tar env (bb_files bb)) (bg_bucket g) = (r, b')" by fastforce
  note same = put_bundle_same [OF assms p]
  have k: "keeps_objects (bg_bucket g) b'" using same by (simp add: same_releases_def)
  have failed: "extends_bundling i g (bundle_failed name t (g\<lparr>bg_bucket := b'\<rparr>))" for t
    using same k bundles_ok_keeps [of i g "bundle_failed name t (g\<lparr>bg_bucket := b'\<rparr>)"]
    by (simp add: extends_bundling_def bundle_failed_def fst_set_update subset_insertI)
  have added: "extends_bundling i g (g\<lparr>bg_bucket := b', bg_bundles := AList.update name (?key, x) (bg_bundles g)\<rparr>)"
    if r: "r = Inr u" and x: "x \<noteq> []" for u x
  proof -
    have "map_of b' ?key \<noteq> None" using atomic_putD (3) [OF assms p r] by simp
    moreover have "set (AList.update name (?key, x) (bg_bundles g)) \<subseteq> insert (name, ?key, x) (set (bg_bundles g))" by (rule set_update_subset_entry)
    ultimately have "bundles_ok i (g\<lparr>bg_bucket := b', bg_bundles := AList.update name (?key, x) (bg_bundles g)\<rparr>)" if "bundles_ok i g"
      using that k x unfolding bundles_ok_def keeps_objects_def by (auto 0 3 simp: distinct_update)
    then show ?thesis using same by (simp add: extends_bundling_def fst_set_update subset_insertI)
  qed
  show "extends_bundling i g (upload_bundle s env i name bb g)"
    using failed added by (auto simp: upload_bundle_def p Let_def intro: extends_same_bucket split: sum.split)
  show "bundled s name (upload_bundle s env i name bb g)"
    by (auto simp: upload_bundle_def p Let_def bundled_def bundle_failed_def fst_set_update split: sum.split)
qed

lemma bundle_package_extends:
  assumes "atomic_put (rv_put env)"
  shows "extends_bundling i g (bundle_package s env i ref commit v name g)" "bundled s name (bundle_package s env i ref commit v name g)"
proof -
  have same: "extends_bundling i g g1"
    if "bg_bucket g1 = bg_bucket g" "bg_bundles g1 = bg_bundles g" "bg_errors g1 = bg_errors g" for g1
    using that by (intro extends_same_bucket) simp_all
  have failed: "extends_bundling i g (bundle_failed name t g1)"
    if "bg_bucket g1 = bg_bucket g" "bg_bundles g1 = bg_bundles g" "bg_errors g1 = bg_errors g" for t g1
    by (rule extends_bundling_trans [OF same [OF that] extends_failed])
  have uploaded: "extends_bundling i g (upload_bundle s env i name bb g1)"
    if "bg_bucket g1 = bg_bucket g" "bg_bundles g1 = bg_bundles g" "bg_errors g1 = bg_errors g" for bb g1
    by (rule extends_bundling_trans [OF same [OF that] upload_bundle_extends (1) [OF assms]])
  show "extends_bundling i g (bundle_package s env i ref commit v name g)"
    by (auto simp: bundle_package_def Let_def check_built_def intro!: failed uploaded split: prod.splits sum.splits if_splits)
  show "bundled s name (bundle_package s env i ref commit v name g)"
    by (auto simp: bundle_package_def Let_def check_built_def intro!: bundled_failed upload_bundle_extends (2) [OF assms]
        split: prod.splits sum.splits if_splits)
qed

lemma bundle_packages_extend:
  assumes "atomic_put (rv_put env)"
  shows "extends_bundling i g (fold (bundle_package s env i ref commit v) names g)
     \<and> (\<forall>n \<in> set names. bundled s n (fold (bundle_package s env i ref commit v) names g))"
proof (induction names arbitrary: g)
  case Nil
  then show ?case by (simp add: extends_same_bucket)
next
  case (Cons n names)
  let ?g = "bundle_package s env i ref commit v n g"
  have e: "extends_bundling i g ?g" "bundled s n ?g" by (rule bundle_package_extends [OF assms])+
  have c: "extends_bundling i ?g (fold (bundle_package s env i ref commit v) names ?g)" using Cons by blast
  from Cons extends_bundling_trans [OF e(1) c] bundled_extends [OF e(2) c] show ?case by simp
qed

section \<open>Publishing\<close>

lemma release_manifest_put:
  assumes "atomic_put put" "put (release_manifest_key i) (json_dumps_sorted (JObj (release_manifest i commit ref bundles))) b = (r, b')"
    and "complete_bucket b" "i \<noteq> []" "map_of b (release_config_key i) \<noteq> None" "distinct (map fst bundles)"
    and "\<forall>(w, key, c) \<in> set bundles. key \<noteq> [] \<and> c \<noteq> [] \<and> map_of b key \<noteq> None"
  shows "complete_bucket b'" "r = Inr u \<Longrightarrow> release_ok b' i"
proof -
  note p = atomic_putD [OF assms(1,2)]
  have new: "release_ok b' i" if "map_of b' (release_manifest_key i) = Some (json_dumps_sorted (JObj (release_manifest i commit ref bundles)))"
  proof -
    from assms(7) p(1) have "\<forall>(w, key, c) \<in> set bundles. key \<noteq> [] \<and> c \<noteq> [] \<and> map_of b' key \<noteq> None"
      unfolding keeps_objects_def by blast
    moreover from assms(5) p(1) have "map_of b' (release_config_key i) \<noteq> None" unfolding keeps_objects_def by blast
    ultimately show ?thesis using that assms(4,6) unfolding release_ok_def by blast
  qed
  then show "r = Inr u \<Longrightarrow> release_ok b' i" using p(3) by blast
  have kept: "release_ok b' j" if "release_ok b j" for j
  proof (cases "j = i")
    case True
    with p(4) new that release_ok_mono [OF that p(1)] show ?thesis by auto
  next
    case False
    then show ?thesis using release_ok_mono [OF that p(1)] p(2) by simp
  qed
  moreover have "map_of b' ACTIVE_KEY = map_of b ACTIVE_KEY" using p(2) by simp
  ultimately show "complete_bucket b'" using assms(3) unfolding complete_bucket_def by metis
qed

lemma active_put:
  assumes "atomic_put put" "put ACTIVE_KEY (pointer_text i) b = (r, b')" "complete_bucket b" "release_ok b i"
  shows "complete_bucket b'"
proof -
  note p = atomic_putD [OF assms(1,2)]
  have "release_ok b' j" if "release_ok b j" for j using release_ok_mono [OF that p(1)] p(2) by simp
  with p(4) assms(3,4) show ?thesis unfolding complete_bucket_def by (metis option.inject)
qed

definition entries_ok :: "objects_map \<Rightarrow> (str \<times> str \<times> str) list \<Rightarrow> bool" where
  "entries_ok b bundles \<longleftrightarrow> distinct (map fst bundles) \<and> (\<forall>(w, key, c) \<in> set bundles. key \<noteq> [] \<and> c \<noteq> [] \<and> map_of b key \<noteq> None)"

text \<open>The active release is the one with this manifest.\<close>

definition is_active :: "objects_map \<Rightarrow> str \<Rightarrow> str \<Rightarrow> str option \<Rightarrow> (str \<times> str \<times> str) list \<Rightarrow> bool" where
  "is_active b i commit ref bundles \<longleftrightarrow> i \<noteq> [] \<and> map_of b ACTIVE_KEY = Some (pointer_text i)
     \<and> map_of b (release_manifest_key i) = Some (json_dumps_sorted (JObj (release_manifest i commit ref bundles)))
     \<and> map_of b (release_config_key i) \<noteq> None \<and> entries_ok b bundles"

lemma entries_ok_keeps: "entries_ok b bundles \<Longrightarrow> keeps_objects b b' \<Longrightarrow> entries_ok b' bundles"
  unfolding entries_ok_def keeps_objects_def by blast

lemma complete_active:
  assumes "complete_bucket b" "map_of b ACTIVE_KEY \<noteq> None"
  obtains i commit ref bundles where "is_active b i commit ref bundles"
  using assms unfolding complete_bucket_def is_active_def release_ok_def entries_ok_def by blast

lemma publish_complete:
  assumes "atomic_put (rv_put env)" "complete_bucket b" "i \<noteq> []" "entries_ok b bundles"
    and "publish_object_store_release env i cfg bundles commit ref b = (r, b')"
  shows "complete_bucket b' \<and> (r = Inr () \<longrightarrow> is_active b' i commit ref bundles)"
proof -
  let ?m = "json_dumps_sorted (JObj (release_manifest i commit ref bundles))"
  obtain r1 b1 where p1: "rv_put env (release_config_key i) cfg b = (r1, b1)" by fastforce
  obtain r2 b2 where p2: "rv_put env (release_manifest_key i) ?m b1 = (r2, b2)" by fastforce
  obtain r3 b3 where p3: "rv_put env ACTIVE_KEY (pointer_text i) b2 = (r3, b3)" by fastforce
  note q1 = atomic_putD [OF assms(1) p1] and q2 = atomic_putD [OF assms(1) p2] and q3 = atomic_putD [OF assms(1) p3]
  have c1: "complete_bucket b1" by (rule complete_mono [OF assms(2) q1(1)]) (simp_all add: q1(2))
  have e1: "entries_ok b1 bundles" by (rule entries_ok_keeps [OF assms(4) q1(1)])
  have cfg: "map_of b1 (release_config_key i) \<noteq> None" if "r1 = Inr ()" using q1(3) [OF that] by simp
  have m2: "complete_bucket b2" "r2 = Inr () \<Longrightarrow> release_ok b2 i" if "r1 = Inr ()"
    using release_manifest_put [OF assms(1) p2 c1 assms(3) cfg [OF that]] e1 unfolding entries_ok_def by blast+
  have m3: "complete_bucket b3" if "r1 = Inr ()" "r2 = Inr ()"
    by (rule active_put [OF assms(1) p3 m2(1) [OF that(1)] m2(2) [OF that]])
  have "is_active b3 i commit ref bundles" if "r1 = Inr ()" "r2 = Inr ()" "r3 = Inr ()"
  proof -
    have "map_of b3 (release_config_key i) \<noteq> None" using cfg [OF that(1)] q2(1) q3(1) unfolding keeps_objects_def by blast
    moreover have "entries_ok b3 bundles" by (rule entries_ok_keeps [OF entries_ok_keeps [OF e1 q2(1)] q3(1)])
    moreover have "map_of b3 (release_manifest_key i) = Some ?m" using q3(2) [of "release_manifest_key i"] q2(3) [OF that(2)] by simp
    ultimately show ?thesis using q3(3) [OF that(3)] assms(3) by (simp add: is_active_def)
  qed
  then show ?thesis
    using assms(5) c1 m2 m3 by (cases r1; cases r2; cases r3) (auto simp: publish_object_store_release_def p1 p2 p3)
qed

section \<open>What the session manager finds\<close>

declare sort_keys.simps(2) [simp del]

lemma plain_sort_keys: "plain_json v \<Longrightarrow> plain_json (sort_keys v)"
proof (induction v)
  case (JList xs)
  then show ?case by (auto simp: list_all_iff)
next
  case (JObj d)
  have "map fst (map (\<lambda>(k, v). (k, sort_keys v)) d) = map fst d" by (simp add: case_prod_beta o_def)
  then have "distinct (map fst (map (\<lambda>(k, v). (k, sort_keys v)) d))" using JObj.prems by (metis plain_json.simps(3))
  then have "distinct (map fst (sorted_dict d))" by (simp only: sorted_dict_def distinct_map distinct_sort set_sort)
  moreover have "plain_json v" if "(k, v) \<in> set (sorted_dict d)" for k v
    using that JObj by (fastforce simp: sorted_dict_def list_all_iff)
  ultimately show ?case by (auto simp: list_all_iff)
qed simp_all

lemma loads_sorted: "plain_json v \<Longrightarrow> json_loads (json_dumps_sorted v) = Some (sort_keys v)"
  unfolding json_dumps_sorted_def by (rule json_roundtrip) (rule plain_sort_keys)

lemma map_fst_entries: "map fst (map (\<lambda>(w, e). (w, bundle_entry e)) bundles) = map fst bundles"
  by (simp add: case_prod_beta o_def)

lemma plain_manifest: "distinct (map fst bundles) \<Longrightarrow> plain_json (JObj (release_manifest i commit ref bundles))"
  using map_fst_entries [of bundles]
  by (auto simp: release_manifest_def jopt_def opt_text_def bundle_entry_def list_all_iff o_def case_prod_beta split: option.split)

lemma manifest_keys: "distinct (map fst (release_manifest i commit ref bundles))"
  by (simp add: release_manifest_def)

lemma entry_present: "entries_ok b bundles \<Longrightarrow> (w, key, c) \<in> set bundles \<Longrightarrow> map_of b key \<noteq> None"
  by (auto simp: entries_ok_def)

lemma load_active:
  assumes "is_active b i commit ref bundles" "py_strip bucket \<noteq> []"
  shows "load_active_release bucket (map_of b) = Inr (Some (sorted_dict (release_manifest i commit ref bundles)))"
proof -
  have d: "distinct (map fst bundles)" using assms(1) by (simp add: is_active_def entries_ok_def)
  have ptr: "json_loads (pointer_text i) = Some (JObj [(''manifest_key'', JStr (release_manifest_key i))])"
    unfolding pointer_text_def by (subst loads_sorted) (simp_all add: sorted_dict_def)
  have m: "json_loads (json_dumps_sorted (JObj (release_manifest i commit ref bundles)))
      = Some (JObj (sorted_dict (release_manifest i commit ref bundles)))"
    by (subst loads_sorted [OF plain_manifest [OF d]]) simp
  have ne: "json_dumps_sorted (JObj (release_manifest i commit ref bundles)) \<noteq> []" by (simp add: json_dumps_sorted_def)
  have key: "release_manifest_key i \<noteq> []" by (simp add: release_manifest_key_def)
  have id: "dget (sorted_dict (release_manifest i commit ref bundles)) ''release_id'' = JStr i"
    by (simp add: dget_sorted_dict [OF manifest_keys]) (simp add: release_manifest_def dget_literal)
  show ?thesis
    using assms key ne unfolding load_active_release_def is_active_def ACTIVE_KEY_def
    by (simp add: ptr m id attr_get_def dget_literal Let_def)
qed

lemma resolve_released:
  assumes "entries_ok b bundles" "(w, key, c) \<in> set bundles" "py_strip bucket \<noteq> []"
  shows "resolve_workflow_bundle bucket presign local w (Some (sorted_dict (release_manifest i commit ref bundles))) = Inr (None, Some (presign key), Some c)"
proof -
  let ?bs = "map (\<lambda>(w, e). (w, bundle_entry e)) bundles"
  have d: "distinct (map fst ?bs)" unfolding map_fst_entries using assms(1) by (simp add: entries_ok_def)
  have ne: "key \<noteq> []" "c \<noteq> []" using assms(1,2) by (auto simp: entries_ok_def)
  have "(w, bundle_entry (key, c)) \<in> set ?bs" using assms(2) by force
  then have w: "dget ?bs w = bundle_entry (key, c)" using d by (simp add: dget_def get_default_def map_of_is_SomeI del: map_map)
  have bs: "dget (sorted_dict (release_manifest i commit ref bundles)) ''bundles'' = JObj (sorted_dict ?bs)"
    by (simp add: dget_sorted_dict [OF manifest_keys]) (simp add: release_manifest_def dget_literal)
  have "fst ` set (sorted_dict ?bs) \<noteq> {}" unfolding fst_sorted_dict using assms(2) by auto
  then have t: "sorted_dict ?bs \<noteq> []" by auto
  have e: "dget (sorted_dict ?bs) w = JObj (sorted_dict [(''key'', JStr key), (''checksum'', JStr c)])"
    unfolding dget_sorted_dict [OF d] w by (simp add: bundle_entry_def)
  have f: "dget (sorted_dict [(''key'', JStr key), (''checksum'', JStr c)]) ''key'' = JStr key"
    "dget (sorted_dict [(''key'', JStr key), (''checksum'', JStr c)]) ''checksum'' = JStr c"
    by (simp_all add: dget_sorted_dict dget_literal)
  have "sorted_dict (release_manifest i commit ref bundles) \<noteq> []" using bs by (auto simp: dget_literal)
  with t ne assms(3) show ?thesis
    by (simp add: resolve_workflow_bundle_def bs py_or_def attr_get_def e f py_str_def opt_text_def)
qed

section \<open>A synchronisation\<close>

lemma bundles_ok_entries: "bundles_ok i g \<Longrightarrow> entries_ok (bg_bucket g) (bg_bundles g)"
  by (auto simp: bundles_ok_def entries_ok_def release_bundle_key_def)

lemma release_id_nonempty: "release_id_text now commit ref \<noteq> []"
  by (simp add: release_id_text_def timestamp_text_def Let_def split: prod.split)

lemma failed_errors [simp]: "bg_errors (bundle_failed n t g) \<noteq> []" "bg_bucket (bundle_failed n t g) = bg_bucket g"
  using fst_set_update [of n t "bg_errors g"] by (auto simp: bundle_failed_def)

lemma publish_release_complete:
  assumes "atomic_put (rv_put env)" "complete_bucket (bg_bucket g)" "i \<noteq> []" "bundles_ok i g"
    and "publish_release s env i ref commit g = (g', snapshot)"
  shows "complete_bucket (bg_bucket g')
     \<and> (bg_errors g' = [] \<longrightarrow> bg_errors g = [] \<and> (py_strip (rs_runtime_bundle_object_store_bucket s) \<noteq> []
          \<longrightarrow> is_active (bg_bucket g') i commit ref (bg_bundles g)))"
proof (cases "bg_errors g = [] \<and> py_strip (rs_runtime_bundle_object_store_bucket s) \<noteq> []")
  case False
  with assms(2,5) show ?thesis by (auto simp: publish_release_def split: if_splits sum.splits)
next
  case True
  show ?thesis
  proof (cases "publish_platform_config_snapshot s env (bg_head g)")
    case (Inl e)
    with True assms(2,5) show ?thesis by (auto simp: publish_release_def)
  next
    case (Inr cfg)
    obtain r b' where p: "publish_object_store_release env i cfg (bg_bundles g) commit ref (bg_bucket g) = (r, b')" by fastforce
    from publish_complete [OF assms(1-3) bundles_ok_entries [OF assms(4)] p] True Inr assms(5) show ?thesis
      by (auto simp: publish_release_def p split: sum.splits)
  qed
qed

lemma bundle_all_complete:
  assumes "atomic_put (rv_put env)" "complete_bucket (rw_bucket w)" "bundle_all s env ref commit head packages w = (g, w')"
  shows "complete_bucket (rw_bucket w')
     \<and> (bg_errors g = [] \<and> py_strip (rs_runtime_bundle_object_store_bucket s) \<noteq> []
         \<longrightarrow> (\<exists>i bundles. is_active (rw_bucket w') i commit ref bundles \<and> wp_name ` set packages \<subseteq> fst ` set bundles))"
proof (cases "py_strip (rs_runtime_bundle_root s) = [] \<and> py_strip (rs_runtime_bundle_object_store_bucket s) = []")
  case True
  with assms(2,3) show ?thesis by (auto simp: bundle_all_def Let_def)
next
  case False
  let ?i = "release_id_text (rv_now env) commit ref"
  let ?v = "platform_version_for_root (be_pyproject (rv_build env head))"
  let ?g0 = "\<lparr>bg_head = head, bg_dirs = (if py_strip (rs_runtime_bundle_root s) \<noteq> [] then rw_dirs w else []), bg_bucket = rw_bucket w,
     bg_errors = [], bg_warnings = [], bg_bundles = []\<rparr>"
  define g1 where "g1 = fold (bundle_package s env ?i ref commit ?v) (map wp_name packages) ?g0"
  have e: "extends_bundling ?i ?g0 g1" "\<forall>n \<in> set (map wp_name packages). bundled s n g1"
    using bundle_packages_extend [OF assms(1), of ?i ?g0 s ref commit ?v "map wp_name packages"] unfolding g1_def by blast+
  have "bundles_ok ?i ?g0" by (simp add: bundles_ok_def)
  with e(1) have b: "bundles_ok ?i g1" "same_releases (rw_bucket w) (bg_bucket g1)" by (auto simp: extends_bundling_def)
  then have c: "complete_bucket (bg_bucket g1)" using complete_mono [OF assms(2)] by (simp add: same_releases_def)
  obtain g2 snapshot where p: "publish_release s env ?i ref commit g1 = (g2, snapshot)" by fastforce
  from False assms(3) have r: "g = g2" "rw_bucket w' = bg_bucket g2"
    by (auto simp: bundle_all_def Let_def g1_def [symmetric] p split: if_splits)
  from publish_release_complete [OF assms(1) c release_id_nonempty b(1) p] e(2) show ?thesis
    unfolding r bundled_def by (auto 0 4)
qed

lemma pipeline_complete:
  assumes "atomic_put (rv_put env)" "complete_bucket (rw_bucket w)" "run_sync_pipeline s env ref w = (r, w')"
  shows "complete_bucket (rw_bucket w')
     \<and> (\<forall>x. r = Inr x \<and> wy_status x = ''ok'' \<and> py_strip (rs_runtime_bundle_object_store_bucket s) \<noteq> []
         \<longrightarrow> (\<exists>i commit bundles. is_active (rw_bucket w') i commit ref bundles
                \<and> set (wy_discovered_workflows x) \<subseteq> fst ` set bundles \<and> wy_commit x = opt_text commit))"
proof -
  obtain q h where q: "(if remote_repo s then sync_workflow_repo_to_ref s env ref (rw_head w) else (Inr False, rw_head w)) = (q, h)" by fastforce
  obtain p h' where p: "discover_packages s env [] h = (p, h')" by fastforce
  show ?thesis
  proof (cases "\<exists>e. q = Inl e \<or> p = Inl e")
    case True
    with assms(2,3) q p show ?thesis by (auto simp: run_sync_pipeline_def split: sum.splits)
  next
    case False
    then obtain u packages where i: "q = Inr u" "p = Inr packages" by (cases q; cases p) auto
    obtain g w1 where b: "bundle_all s env ref (rv_commit env h') h' packages w = (g, w1)" by fastforce
    from assms(3) have "w' = w1" "r = Inr \<lparr>wy_status = (if bg_errors g = [] then ''ok'' else ''partial_error''), wy_synced_ref = ref,
        wy_commit = opt_text (rv_commit env h'), wy_discovered_workflows = sort (map wp_name packages), wy_bundle_errors = bg_errors g,
        wy_compatibility_warnings = bg_warnings g, wy_error = None\<rparr>"
      unfolding run_sync_pipeline_def q by (simp_all add: i p b Let_def)
    with bundle_all_complete [OF assms(1,2) b] show ?thesis by (auto split: if_splits)
  qed
qed

section \<open>Releases over any course of synchronisations\<close>

inductive release_step :: "db \<times> release_world \<Rightarrow> db \<times> release_world \<Rightarrow> bool" where
  synced: "atomic_put (rv_put env) \<Longrightarrow> sync_workflow_repo s env d w = (x, d', w') \<Longrightarrow> release_step (d, w) (d', w')"
| triggered: "atomic_put (rv_put env) \<Longrightarrow> trigger_workflow_repo_sync s env d w = (j, d', w') \<Longrightarrow> release_step (d, w) (d', w')"
| pinned: "pin_workflow_repo_version s ref d = Inr (j, d') \<Longrightarrow> release_step (d, w) (d', w)"

lemma sync_complete:
  assumes "atomic_put (rv_put env)" "sync_workflow_repo s env d w = (x, d', w')" "complete_bucket (rw_bucket w)"
  shows "complete_bucket (rw_bucket w')"
proof -
  obtain r w1 where p: "run_sync_pipeline s env (effective_ref s (wr_pinned_ref (load_state d))) w = (r, w1)" by fastforce
  with assms(2) have "w' = w1" by (auto simp: sync_workflow_repo_def Let_def)
  with pipeline_complete [OF assms(1,3) p] show ?thesis by blast
qed

lemma release_step_complete: "release_step x y \<Longrightarrow> complete_bucket (rw_bucket (snd x)) \<Longrightarrow> complete_bucket (rw_bucket (snd y))"
proof (induction rule: release_step.induct)
  case (synced env s d w x d' w')
  then show ?case using sync_complete by auto
next
  case (triggered env s d w j d' w')
  obtain x d1 w1 where p: "sync_workflow_repo s env d w = (x, d1, w1)" by (metis prod.exhaust)
  with triggered(2) have "rw_bucket w' = rw_bucket w1"
    by (auto simp: trigger_workflow_repo_sync_def split: if_splits sum.splits prod.splits)
  with sync_complete [OF triggered(1) p] triggered(3) show ?case by simp
next
  case (pinned s ref d j d' w)
  then show ?case by simp
qed

lemma release_steps_complete: "release_step\<^sup>*\<^sup>* x y \<Longrightarrow> complete_bucket (rw_bucket (snd x)) \<Longrightarrow> complete_bucket (rw_bucket (snd y))"
  by (induction rule: rtranclp_induct) (auto dest: release_step_complete)

text \<open>
  C10. Whatever synchronisations and pins happen from a bucket without an active release on, and
  whichever uploads fail, as long as a put of the store is atomic: once there is an active release, the
  session manager loads its manifest, its configuration is in the bucket, and every workflow the
  manifest lists resolves to the address of a bundle that is in the bucket.
\<close>

theorem active_release_complete:
  assumes "release_step\<^sup>*\<^sup>* (d0, w0) (d, w)" "map_of (rw_bucket w0) ACTIVE_KEY = None"
    and "map_of (rw_bucket w) ACTIVE_KEY \<noteq> None" "py_strip bucket \<noteq> []"
  shows "\<exists>m bs key0. load_active_release bucket (map_of (rw_bucket w)) = Inr (Some m) \<and> dget m ''bundles'' = JObj bs
     \<and> dget m ''platform_config_key'' = JStr key0 \<and> map_of (rw_bucket w) key0 \<noteq> None
     \<and> (\<forall>n \<in> fst ` set bs. \<exists>key c. map_of (rw_bucket w) key \<noteq> None
          \<and> resolve_workflow_bundle bucket presign local n (Some m) = Inr (None, Some (presign key), Some c))"
proof -
  have "complete_bucket (rw_bucket w0)" using assms(2) by (simp add: complete_bucket_def)
  with release_steps_complete [OF assms(1)] have "complete_bucket (rw_bucket w)" by simp
  then obtain i commit ref bundles where a: "is_active (rw_bucket w) i commit ref bundles"
    using assms(3) by (rule complete_active)
  let ?m = "release_manifest i commit ref bundles" and ?bs = "map (\<lambda>(w, e). (w, bundle_entry e)) bundles"
  have e: "entries_ok (rw_bucket w) bundles" "map_of (rw_bucket w) (release_config_key i) \<noteq> None" using a by (simp_all add: is_active_def)
  have f: "dget (sorted_dict ?m) ''bundles'' = JObj (sorted_dict ?bs)" "dget (sorted_dict ?m) ''platform_config_key'' = JStr (release_config_key i)"
    unfolding dget_sorted_dict [OF manifest_keys] by (simp_all add: release_manifest_def dget_literal)
  have "\<exists>key c. map_of (rw_bucket w) key \<noteq> None
      \<and> resolve_workflow_bundle bucket presign local n (Some (sorted_dict ?m)) = Inr (None, Some (presign key), Some c)"
    if "n \<in> fst ` set (sorted_dict ?bs)" for n
  proof -
    from that obtain key c where "(n, key, c) \<in> set bundles" unfolding fst_sorted_dict by force
    from entry_present [OF e(1) this] resolve_released [OF e(1) this assms(4)] show ?thesis by (intro exI conjI)
  qed
  with load_active [OF a assms(4)] f e(2) show ?thesis by blast
qed

text \<open>
  C38. A synchronisation of status ok, with a bucket configured, makes its release the active one: the
  session manager loads a manifest with the commit and the reference of the synchronisation, and each
  workflow it discovered resolves to the address of a bundle in the bucket with its checksum.
\<close>

theorem released_bundles_resolve:
  assumes "run_sync_pipeline s env ref w = (Inr x, w')" "wy_status x = ''ok''" "atomic_put (rv_put env)" "complete_bucket (rw_bucket w)"
    and "py_strip (rs_runtime_bundle_object_store_bucket s) \<noteq> []"
  shows "\<exists>m. load_active_release (rs_runtime_bundle_object_store_bucket s) (map_of (rw_bucket w')) = Inr (Some m)
     \<and> dget m ''commit'' = jopt (wy_commit x) \<and> dget m ''ref'' = jopt ref
     \<and> (\<forall>n \<in> set (wy_discovered_workflows x). \<exists>key c. map_of (rw_bucket w') key \<noteq> None
          \<and> resolve_workflow_bundle (rs_runtime_bundle_object_store_bucket s) presign local n (Some m) = Inr (None, Some (presign key), Some c))"
proof -
  from pipeline_complete [OF assms(3,4,1)] assms(2,5) obtain i commit bundles where
    a: "is_active (rw_bucket w') i commit ref bundles" "set (wy_discovered_workflows x) \<subseteq> fst ` set bundles" "wy_commit x = opt_text commit" by blast
  let ?m = "release_manifest i commit ref bundles"
  have e: "entries_ok (rw_bucket w') bundles" using a(1) by (simp add: is_active_def)
  have f: "dget (sorted_dict ?m) ''commit'' = jopt (wy_commit x)" "dget (sorted_dict ?m) ''ref'' = jopt ref"
    unfolding dget_sorted_dict [OF manifest_keys] a(3) by (auto simp: release_manifest_def dget_literal jopt_def split: option.split)
  have "\<exists>key c. map_of (rw_bucket w') key \<noteq> None \<and> resolve_workflow_bundle (rs_runtime_bundle_object_store_bucket s) presign local n
      (Some (sorted_dict ?m)) = Inr (None, Some (presign key), Some c)" if "n \<in> set (wy_discovered_workflows x)" for n
  proof -
    from that a(2) obtain key c where "(n, key, c) \<in> set bundles" by force
    from entry_present [OF e this] resolve_released [OF e this assms(5)] show ?thesis by (intro exI conjI)
  qed
  with load_active [OF a(1) assms(5)] f show ?thesis by blast
qed

section \<open>An example\<close>

definition demo_repo_settings :: "str \<Rightarrow> repo_settings" where
  "demo_repo_settings url = \<lparr>rs_workflow_repo_url = url, rs_workflow_repo_source = [], rs_workflow_repo_ref = ''main'',
     rs_workflow_repo_local_path = ''/repo'', rs_workflow_repo_display_path = [], rs_platform_config_file = ''/config'',
     rs_runtime_bundle_root = [], rs_runtime_bundle_object_store_bucket = ''bundles''\<rparr>"

definition demo_dir :: workflow_dir where
  "demo_dir = \<lparr>wd_path = ''/team/workflows/sre'', wd_name = ''sre'', wd_yaml = Some (''name: sre'', JObj [(''name'', JStr ''sre'')])\<rparr>"

text \<open>A working copy whose head is the name last checked out.\<close>

definition demo_repo :: repo_env where
  "demo_repo = \<lparr>rv_git = True, rv_token = Inr (), rv_fetch = Inr (), rv_checkout = \<lambda>ref h. Inr ref, rv_tree = \<lambda>h. Some [],
     rv_roots = \<lambda>h. [(''/team'', Some [demo_dir])], rv_commit = \<lambda>h. h, rv_file = \<lambda>h p. Some ''cfg'', rv_build = \<lambda>h. demo_build,
     rv_now = 0, rv_tar = \<lambda>fs. ''tar'', rv_put = \<lambda>k c b. (Inr (), AList.update k c b), rv_text = \<lambda>e. ''error''\<rparr>"

definition empty_world :: release_world where
  "empty_world = \<lparr>rw_head = ''head'', rw_bucket = [], rw_dirs = [], rw_snapshot = None\<rparr>"

lemma demo_put: "atomic_put (rv_put demo_repo)"
  by (simp add: atomic_put_def demo_repo_def update_conv')

lemma demo_discovered: "discover_workflow_packages [Some [demo_dir]] = Inr [demo_package]"
  by (simp add: discover_workflow_packages_def demo_dir_def demo_package_def py_or_def dget_def get_default_def)

lemma demo_roots: "configured_workflow_roots (demo_repo_settings []) demo_repo h = (Inr [(''/team'', Some [demo_dir])], h)"
  by (simp add: configured_workflow_roots_def sync_configured_workflow_repo_def remote_repo_def demo_repo_settings_def demo_repo_def py_strip_def
      py_lstrip_def py_rstrip_def)

lemma demo_discover: "discover_packages (demo_repo_settings []) demo_repo [] h = (Inr [demo_package], h)"
  "discover_packages (demo_repo_settings []) demo_repo [(''/team'', Some [demo_dir])] h = (Inr [demo_package], h)"
  by (simp_all add: discover_packages_def demo_roots demo_discovered)

lemma built_version:
  assumes "build_workflow_bundle env found md n dirs = (Inr bb, dirs')"
  shows "dget (bb_manifest bb) ''platform_version'' = JStr (platform_version_for_root (be_pyproject env))"
proof -
  from assms obtain p core team own a where "bb_manifest bb = bundle_manifest_of env p md core team own a"
    by (auto simp: build_workflow_bundle_def Let_def split: sum.splits option.splits prod.splits if_splits)
  then show ?thesis by (simp add: bundle_manifest_of_def dget_literal)
qed

text \<open>
  The bundle carries the version of the platform that builds it, which is the running one, so the
  compatibility check of the pipeline never finds a difference.
\<close>

lemma compatibility_never_fails:
  assumes "build_workflow_bundle env found md n dirs = (Inr bb, dirs')"
  shows "check_built (platform_version_for_root (be_pyproject env)) name bb g = Inr g"
  using built_version [OF assms] by (auto simp: check_built_def Let_def check_bundle_compatibility_def split: option.split)

lemma demo_bundle_package:
  assumes "bg_errors g = []"
  shows "bg_errors (bundle_package (demo_repo_settings []) demo_repo i ref commit (platform_version_for_root (be_pyproject demo_build)) ''sre'' g) = []"
proof -
  obtain bb dirs' where b: "build_workflow_bundle demo_build (Inr [demo_package])
      \<lparr>rm_name = ''local'', rm_url = [], rm_ref = opt_str ref, rm_commit = commit\<rparr> ''sre'' (bg_dirs g) = (Inr bb, dirs')"
    using demo_built by blast
  have "rv_build demo_repo h = demo_build" "rs_workflow_repo_url (demo_repo_settings []) = []" for h by (simp_all add: demo_repo_def demo_repo_settings_def)
  then show ?thesis
    using assms by (simp add: bundle_package_def demo_roots demo_discover b compatibility_never_fails [OF b] upload_bundle_def Let_def)
      (simp add: demo_repo_def)
qed

lemma demo_synced: "\<exists>x w'. run_sync_pipeline (demo_repo_settings []) demo_repo (Some ''main'') empty_world = (Inr x, w') \<and> wy_status x = ''ok''
    \<and> wy_discovered_workflows x = [''sre'']"
proof -
  let ?s = "demo_repo_settings []"
  let ?i = "release_id_text (rv_now demo_repo) ''head'' (Some ''main'')"
  let ?v = "platform_version_for_root (be_pyproject demo_build)"
  obtain g w' where b: "bundle_all ?s demo_repo (Some ''main'') ''head'' ''head'' [demo_package] empty_world = (g, w')" by fastforce
  let ?g0 = "\<lparr>bg_head = ''head'', bg_dirs = [], bg_bucket = [], bg_errors = [], bg_warnings = [], bg_bundles = []\<rparr>"
  define g1 where "g1 = bundle_package ?s demo_repo ?i (Some ''main'') ''head'' ?v ''sre'' ?g0"
  have e: "bg_errors g1 = []" unfolding g1_def by (rule demo_bundle_package) simp
  obtain g2 sn where p: "publish_release ?s demo_repo ?i (Some ''main'') ''head'' g1 = (g2, sn)" by fastforce
  have s: "py_strip (rs_runtime_bundle_object_store_bucket ?s) \<noteq> []" "py_strip (rs_runtime_bundle_root ?s) = []"
    by (simp_all add: demo_repo_settings_def py_strip_def py_lstrip_def py_rstrip_def py_isspace_def)
  have put: "rv_put demo_repo = (\<lambda>k c b. (Inr (), AList.update k c b))" "rv_file demo_repo = (\<lambda>h p. Some ''cfg'')" by (simp_all add: demo_repo_def)
  have "bg_errors g2 = []"
    using p e s(1) by (auto simp: publish_release_def publish_platform_config_snapshot_def publish_object_store_release_def put)
  moreover have "g = g2"
  proof -
    have "wp_name demo_package = ''sre''" "rv_build demo_repo ''head'' = demo_build" "rw_bucket empty_world = []"
      by (simp_all add: demo_package_def demo_repo_def empty_world_def)
    with b s show ?thesis by (simp add: bundle_all_def Let_def g1_def [symmetric] p)
  qed
  moreover have "\<not> remote_repo ?s" by (simp add: remote_repo_def demo_repo_settings_def py_strip_def py_lstrip_def py_rstrip_def)
  moreover have "rw_head empty_world = ''head''" "rv_commit demo_repo ''head'' = ''head''" "wp_name demo_package = ''sre''"
    by (simp_all add: empty_world_def demo_repo_def demo_package_def)
  ultimately show ?thesis using b by (simp add: run_sync_pipeline_def demo_discover Let_def)
qed

theorem released_bundles_resolve_witness:
  "\<exists>x w' m key c. run_sync_pipeline (demo_repo_settings []) demo_repo (Some ''main'') empty_world = (Inr x, w')
     \<and> load_active_release ''bundles'' (map_of (rw_bucket w')) = Inr (Some m) \<and> map_of (rw_bucket w') key \<noteq> None
     \<and> resolve_workflow_bundle ''bundles'' id (Inl AssertionError) ''sre'' (Some m) = Inr (None, Some key, Some c)"
proof -
  from demo_synced obtain x w' where r: "run_sync_pipeline (demo_repo_settings []) demo_repo (Some ''main'') empty_world = (Inr x, w')"
    "wy_status x = ''ok''" "wy_discovered_workflows x = [''sre'']" by blast
  have b: "rs_runtime_bundle_object_store_bucket (demo_repo_settings []) = ''bundles''" "py_strip ''bundles'' \<noteq> []" "complete_bucket (rw_bucket empty_world)"
    by (simp_all add: demo_repo_settings_def py_strip_def py_lstrip_def py_rstrip_def py_isspace_def complete_bucket_def empty_world_def)
  from released_bundles_resolve [OF r(1,2) demo_put b(3), unfolded b(1) r(3), OF b(2), of id "Inl AssertionError"] r(1) show ?thesis by auto
qed

theorem active_release_complete_witness:
  "\<exists>d w m. release_step\<^sup>*\<^sup>* (empty_db 0, empty_world) (d, w) \<and> load_active_release ''bundles'' (map_of (rw_bucket w)) = Inr (Some m)"
proof -
  from demo_synced obtain x w' where r: "run_sync_pipeline (demo_repo_settings []) demo_repo (Some ''main'') empty_world = (Inr x, w')"
    "wy_status x = ''ok''" by blast
  have ref: "effective_ref (demo_repo_settings []) (wr_pinned_ref (load_state (empty_db 0))) = Some ''main''"
    by (simp add: effective_ref_def load_state_def new_repo_state_def empty_db_def demo_repo_settings_def opt_text_def opt_str_def py_strip_def
        py_lstrip_def py_rstrip_def py_isspace_def)
  obtain d where "sync_workflow_repo (demo_repo_settings []) demo_repo (empty_db 0) empty_world = (x, d, w')"
    using r(1) ref by (simp add: sync_workflow_repo_def Let_def)
  then have st: "release_step\<^sup>*\<^sup>* (empty_db 0, empty_world) (d, w')" by (intro r_into_rtranclp synced [OF demo_put])
  have b: "rs_runtime_bundle_object_store_bucket (demo_repo_settings []) = ''bundles''" "py_strip ''bundles'' \<noteq> []" "complete_bucket (rw_bucket empty_world)"
    "map_of (rw_bucket empty_world) ACTIVE_KEY = None"
    by (simp_all add: demo_repo_settings_def py_strip_def py_lstrip_def py_rstrip_def py_isspace_def complete_bucket_def empty_world_def)
  have "map_of (rw_bucket w') ACTIVE_KEY \<noteq> None"
    using pipeline_complete [OF demo_put b(3) r(1)] r(2) b(1,2) by (auto simp: is_active_def)
  from active_release_complete [OF st b(4) this b(2)] st show ?thesis by blast
qed

section \<open>The pinned reference\<close>

lemma discovery_checks_out:
  assumes "remote_repo s" "rv_git env" "rv_token env = Inr ()" "rv_fetch env = Inr ()" "py_strip (rs_workflow_repo_ref s) \<noteq> []"
    and "\<And>ref h. rv_checkout env ref h = Inr (commit_of ref)"
  shows "snd (configured_workflow_roots s env h) = commit_of (py_strip (rs_workflow_repo_ref s))"
    "snd (discover_packages s env [] h) = commit_of (py_strip (rs_workflow_repo_ref s))"
    "snd (discover_packages s env roots (commit_of (py_strip (rs_workflow_repo_ref s)))) = commit_of (py_strip (rs_workflow_repo_ref s))"
  using assms by (auto simp: discover_packages_def configured_workflow_roots_def sync_configured_workflow_repo_def Let_def split: prod.splits sum.splits)

lemma upload_head [simp]: "bg_head (bundle_failed n t g) = bg_head g" "bg_head (upload_bundle s env i n bb g) = bg_head g"
  by (simp_all add: bundle_failed_def upload_bundle_def Let_def split: prod.split sum.split)

lemma publish_release_head: "publish_release s env i ref commit g = (g', sn) \<Longrightarrow> bg_head g' = bg_head g"
  by (auto simp: publish_release_def split: if_splits sum.splits prod.splits)

lemma bundling_head:
  assumes "\<And>h. snd (configured_workflow_roots s env h) = r" "\<And>roots. snd (discover_packages s env roots r) = r" "bg_head g = r"
  shows "bg_head (fold (bundle_package s env i ref commit v) names g) = r"
  using assms(3)
proof (induction names arbitrary: g)
  case (Cons n names)
  obtain roots where c: "configured_workflow_roots s env (bg_head g) = (roots, r)" using assms(1) by (metis prod.collapse)
  have "bg_head (bundle_package s env i ref commit v n g) = r"
  proof (cases roots)
    case (Inr rs)
    obtain found where "discover_packages s env rs r = (found, r)" using assms(2) by (metis prod.collapse)
    with c Inr show ?thesis by (auto simp: bundle_package_def Let_def check_built_def split: prod.splits sum.splits if_splits)
  qed (simp add: bundle_package_def c)
  with Cons.IH show ?case by simp
qed simp

lemma bundle_all_head:
  assumes "\<And>h. snd (configured_workflow_roots s env h) = r" "\<And>roots. snd (discover_packages s env roots r) = r"
    and "bundle_all s env ref commit r packages w = (g, w')"
  shows "rw_head w' = r"
proof -
  have h: "bg_head (fold (bundle_package s env i ref commit v) names \<lparr>bg_head = r, bg_dirs = ds, bg_bucket = b, bg_errors = [],
      bg_warnings = [], bg_bundles = []\<rparr>) = r" for i v names ds b
    by (rule bundling_head [OF assms(1,2)]) simp
  show ?thesis using assms(3) h by (auto simp: bundle_all_def Let_def split: if_splits prod.splits dest!: publish_release_head)
qed

text \<open>
  C39. With a remote repository, a configured reference and a git that works, a synchronisation under a
  pinned reference checks the configured one out again when it discovers the workflows, and builds
  everything from that: the row says the pinned reference was synchronised, the commit is the one of
  the configured reference, and the working copy is left there.
\<close>

theorem pinned_ref_not_built:
  assumes "remote_repo s" "rv_git env" "rv_token env = Inr ()" "rv_fetch env = Inr ()" "py_strip (rs_workflow_repo_ref s) \<noteq> []"
    and "\<And>ref h. rv_checkout env ref h = Inr (commit_of ref)"
    and "workflow_repo d = Some st" "wr_pinned_ref st = Some p" "py_strip p \<noteq> []"
    and "sync_workflow_repo s env d w = (x, d', w')" "wy_status x \<noteq> ''error''"
  shows "\<exists>st'. workflow_repo d' = Some st' \<and> wr_last_synced_ref st' = Some (py_strip p)
     \<and> wr_last_synced_commit st' = opt_text (rv_commit env (commit_of (py_strip (rs_workflow_repo_ref s))))
     \<and> rw_head w' = commit_of (py_strip (rs_workflow_repo_ref s))"
proof -
  let ?r = "commit_of (py_strip (rs_workflow_repo_ref s))"
  note out = discovery_checks_out [OF assms(1-6)]
  have ref: "effective_ref s (wr_pinned_ref (load_state d)) = Some (py_strip p)"
    using assms(7-9) by (simp add: effective_ref_def load_state_def opt_text_def opt_str_def)
  obtain q w1 where run: "run_sync_pipeline s env (Some (py_strip p)) w = (q, w1)" by fastforce
  with assms(10) ref have d': "d' = d\<lparr>workflow_repo := Some (record_sync (rv_now env) x (load_state d))\<rparr>" "w' = w1"
    by (auto simp: sync_workflow_repo_def Let_def)
  from assms(10,11) run ref have q: "q = Inr x" by (auto simp: sync_workflow_repo_def Let_def split: sum.splits)
  have h: "sync_workflow_repo_to_ref s env (Some (py_strip p)) (rw_head w) = (Inr True, commit_of (py_strip p))"
    using assms(1-6,9) by (simp add: sync_workflow_repo_to_ref_def sync_configured_workflow_repo_def Let_def)
  obtain found where f: "discover_packages s env [] (commit_of (py_strip p)) = (found, ?r)" using out(2) by (metis prod.collapse)
  with run q h assms(1) obtain packages where packages: "found = Inr packages" by (auto simp: run_sync_pipeline_def split: sum.splits)
  obtain g w2 where b: "bundle_all s env (Some (py_strip p)) (rv_commit env ?r) ?r packages w = (g, w2)" by fastforce
  from run q h f packages b assms(1) have "w1 = w2" "wy_commit x = opt_text (rv_commit env ?r)" "wy_synced_ref x = Some (py_strip p)"
    by (auto simp: run_sync_pipeline_def Let_def)
  with bundle_all_head [OF out(1,3) b] d' show ?thesis by (simp add: record_sync_def)
qed

theorem pinned_ref_not_built_witness:
  "\<exists>x d' w' st'. sync_workflow_repo (demo_repo_settings ''https://git'') demo_repo
      ((empty_db 0)\<lparr>workflow_repo := Some ((new_repo_state (empty_db 0))\<lparr>wr_pinned_ref := Some ''v1''\<rparr>)\<rparr>) empty_world = (x, d', w')
     \<and> workflow_repo d' = Some st' \<and> wr_last_synced_ref st' = Some ''v1'' \<and> wr_last_synced_commit st' = Some ''main''"
proof -
  let ?s = "demo_repo_settings ''https://git''" and ?st = "(new_repo_state (empty_db 0))\<lparr>wr_pinned_ref := Some ''v1''\<rparr>"
  let ?d = "(empty_db 0)\<lparr>workflow_repo := Some ?st\<rparr>"
  obtain x d' w' where sync: "sync_workflow_repo ?s demo_repo ?d empty_world = (x, d', w')" by (metis prod.exhaust)
  have strip: "py_strip ''v1'' = ''v1''" "py_strip ''main'' = ''main''" "py_strip ''https://git'' \<noteq> []" "py_strip [] = []"
    by (simp_all add: py_strip_def py_lstrip_def py_rstrip_def py_isspace_def)
  have s: "remote_repo ?s" "py_strip (rs_workflow_repo_ref ?s) = ''main''"
    using strip by (simp_all add: remote_repo_def demo_repo_settings_def py_lower_def)
  have env: "rv_git demo_repo" "rv_token demo_repo = Inr ()" "rv_fetch demo_repo = Inr ()" "\<And>ref h. rv_checkout demo_repo ref h = Inr (id ref)"
    "\<And>h. rv_tree demo_repo h = Some []" "\<And>h. rv_roots demo_repo h = [(''/team'', Some [demo_dir])]" "\<And>h. rv_commit demo_repo h = h"
    by (simp_all add: demo_repo_def)
  have "configured_workflow_roots ?s demo_repo h = (Inr [(''/repo'', Some []), (''/team'', Some [demo_dir])], ''main'')" for h
    using s env by (simp add: configured_workflow_roots_def sync_configured_workflow_repo_def Let_def strip) (simp add: demo_repo_settings_def)
  moreover have "discover_workflow_packages [Some [], Some [demo_dir]] = Inr [demo_package]"
    using demo_discovered by (simp add: discover_workflow_packages_def)
  ultimately have found: "discover_packages ?s demo_repo [] h = (Inr [demo_package], ''main'')" for h by (simp add: discover_packages_def)
  have "\<exists>y w1. run_sync_pipeline ?s demo_repo ref empty_world = (Inr y, w1) \<and> wy_status y \<noteq> ''error''" for ref
    using s(1) env by (simp add: run_sync_pipeline_def sync_workflow_repo_to_ref_def sync_configured_workflow_repo_def found Let_def split: prod.split)
  then obtain y w1 where y: "run_sync_pipeline ?s demo_repo (effective_ref ?s (wr_pinned_ref (load_state ?d))) empty_world = (Inr y, w1)"
    "wy_status y \<noteq> ''error''" by blast
  from sync have "x = y" unfolding sync_workflow_repo_def Let_def y(1) by simp
  with y(2) have "wy_status x \<noteq> ''error''" by simp
  from pinned_ref_not_built [OF s(1) env(1-3) _ env(4) _ _ _ sync this, of ?st "''v1''"] sync show ?thesis
    by (auto simp: s(2) strip env(7) opt_text_def)
qed

end
