(* ===== verification/Spec2Isabelle.thy ===== *)
theory Spec2Isabelle
  imports Platform Session_Loop Workflow_Releases
begin

text \<open>
  Agentic Ops Platform: a verification library for its control plane.

  \<^bold>\<open>The program.\<close> The platform runs AI agent sessions on behalf of operators. A gateway process
  (\<open>src/gateway\<close>) receives chat messages, cron ticks and HTTP calls and turns them into rows of a
  task queue in Postgres. A session manager (\<open>src/session-manager\<close>) takes tasks from the queue under
  concurrency limits, starts one runtime per task through a launcher, watches heartbeats and exits,
  and reports back. A running session posts events to the gateway, which move its task between
  running and waiting states and open approvals that an operator resolves by pressing a button in
  the chat. All processes share the database; the code common to them is in \<open>src/shared/lib\<close>.

  \<^bold>\<open>State.\<close> The database is one record (\<open>db\<close> in \<open>Models\<close>) with a list of rows per table, one
  record type per mapped class of \<open>models.py\<close> and one field per column. A transaction is a function
  from the database to a result, \<open>Inl\<close> for the exception it raises (\<open>py_error\<close>), in which case
  nothing is committed, or \<open>Inr\<close> with the database after the commit. Where the code commits
  more than once before it raises, the operation returns the pair of result and database. Time is
  microseconds since the epoch as \<open>int\<close>; an operation reads its clock once (\<open>now\<close>), and the clock of
  the database server is the field \<open>db_now\<close>. Identifiers come from the supply \<open>uuid_gen\<close>.

  \<^bold>\<open>Theories.\<close>
  \<^item> \<open>Prelude\<close>: Python's strings, JSON values, truth, conversions, ISO dates, UUID texts, errors.
  \<^item> \<open>Tables\<close>: lists as tables, and three interfaces as locales: \<open>row_sweep\<close> (an update of the rows a
    predicate selects), \<open>exclusive_claim\<close> (a claim that at most one caller wins) and \<open>preserved\<close> (a
    family of operations with an invariant). Each is interpreted on the queue, the jobs, the
    approvals or the event collector.
  \<^item> \<open>Models\<close>: \<open>shared/lib/models.py\<close> and the well-formedness of the database.
  \<^item> \<open>Task_Queue\<close>: \<open>shared/lib/task_queue.py\<close>. Dequeueing is proved to hand out the best eligible
    task, to respect the limits and to give a task to one claimant; creation with coalescing,
    the sweeps, paging and archiving follow.
  \<^item> \<open>Approvals\<close>: \<open>shared/lib/approvals.py\<close>, \<open>gateway/approval_broker.py\<close>, \<open>gateway/message.py\<close>.
  \<^item> \<open>Background_Jobs\<close>: \<open>shared/lib/background_jobs.py\<close> as a state machine.
  \<^item> \<open>Json_Text\<close>: \<open>json.loads\<close>, \<open>json.dumps\<close> and \<open>ast.literal_eval\<close> with the round trip the event
    collector relies on. \<open>Event_Collector\<close>: \<open>gateway/event_collector.py\<close>.
  \<^item> \<open>Heartbeat\<close> and \<open>Lifecycle\<close>: \<open>session-manager/heartbeat.py\<close>, \<open>container_lifecycle.py\<close>,
    \<open>main.py\<close>: both sweeps as set-based updates, the session environment, launches and exits, one
    turn of the consumer loop.
  \<^item> \<open>Message_Apis\<close>: \<open>mattermost_api.py\<close>, \<open>slack_api.py\<close>, \<open>message_bus.py\<close>, with the interface of a bus
    as the locale \<open>thread_bus\<close>, interpreted on both providers. \<open>Sha256\<close>, \<open>Message_Ingress\<close> and
    \<open>Regex\<close>: \<open>alert_envelope.py\<close>, the parsers of \<open>shared/lib/message_ingress.py\<close>, and the regular
    expressions a routing rule may use. \<open>Message_Routing\<close>: the routes of \<open>gateway/plugin_dir.py\<close> and
    \<open>gateway/message_ingress.py\<close>.
  \<^item> \<open>Control_Plane\<close>: \<open>workflow_paths.py\<close>, \<open>provisioner.py\<close>, \<open>scheduler.py\<close>, \<open>connector_state.py\<close>;
    \<open>Task_Api\<close>: the handlers of \<open>gateway/api.py\<close> over agents, schedules, tasks, sessions and approvals.
  \<^item> \<open>Json_Order\<close>: sorted printing and Python's equality of JSON values. \<open>Session_Settings\<close>,
    \<open>Tool_Patterns\<close>, \<open>Session_Gate\<close> and \<open>Session_Loop\<close>: \<open>runtime/session_entrypoint.py\<close>, the process in
    the container. Settings and credential denials; approval patterns, whose regular expressions
    are proved to match what the glob says; the permission callback and the question hook, whose
    polling loops are interpretations of the locale \<open>poll_loop\<close>; the message loop, whose invariants
    are interpretations of \<open>turn_invariant\<close>: what is reported of the transcript, and what is injected.
    \<open>gated_tool_needs_approved_record\<close> composes the callback with the gateway's handler.
  \<^item> \<open>Knowledge_Bundle\<close>: \<open>knowledge_source_graphify.py\<close> and the publication of
    \<open>knowledge_source_publication.py\<close>: the check of what the extractor left, the bundle with its
    manifest, its verification, and publication through a store that is a parameter.
    \<open>Knowledge_Sources\<close>: the handlers of the API over knowledge sources and background jobs,
    promotion and failure, \<open>knowledge_source_indexer.py\<close> as one synchronisation with its phases, and the
    worker of \<open>knowledge-indexer/main.py\<close>. Operators, worker and synchronisations are one step
    relation on database and bucket, and what a source serves is its invariant.
  \<^item> \<open>Housekeeping\<close>: \<open>shared/lib/housekeeping.py\<close> and the loop of \<open>session-manager/housekeeping.py\<close>:
    archiving, deletion and the four retention rules; what a pass leaves alone, what it removes, and
    what a deletion that fails half-way does to a version that a source may serve again.
  \<^item> \<open>Workflow_Bundles\<close>: \<open>workflow_bundles.py\<close>, the bundle of a workflow from three layers of files, with
    the scan for secrets. \<open>Workflow_Releases\<close>: \<open>workflow_repo_sync.py\<close>, the checkout of
    \<open>workflow_paths.py\<close>, the handlers over the repository, and what the session manager reads of a
    release. The active release is proved complete whichever uploads fail, and found by the session
    manager; a pinned reference is proved not to be what is built.
  \<^item> \<open>Platform\<close>: all of them as one step relation on the database, and the invariant that every
    step keeps. This theory states what follows for the whole.

  \<^bold>\<open>Parameters.\<close> Code outside the repository is an argument: the HTTP server of the chat provider (its
  answers may depend on every earlier request), the runtime launcher, the cron library, the object store,
  the code extractor, secret decryption, the file system (a workflow directory is what reading and parsing its file gives),
  Postgres' row locks (\<open>locked\<close>) and collation. Hypotheses on them are stated with each property.

  \<^bold>\<open>Fuel and termination.\<close> The dequeue loop terminates because every round excludes a further
  workflow; the JSON parsers carry the length of the text as fuel, which is proved to suffice for
  what \<open>json.dumps\<close> prints; the Slack channel lookup may run forever and is a
  \<open>partial_function (option)\<close>; the glob matchers terminate by the lengths of pattern and text; the polling
  loops of a session count the seconds that are left; all other loops are structural.

  \<^bold>\<open>Simplifications.\<close> Strings are lists of characters below 256, so an em dash in a text of the program
  is written \<open>--\<close>. Floats are rationals. The 32-bit range of an integer column is modelled where a
  value comes from outside (the event collector) and not elsewhere. A call reads the clock once even
  where the code calls \<open>now()\<close> twice. Operations on the database are atomic; the interleavings that
  matter to the queue are the row locks of \<open>SKIP LOCKED\<close>. A synchronisation of a knowledge source is one
  step too: it holds the lock of its source, and what it meets in its phases is its environment. Log
  output is left out.

  \<^bold>\<open>Not modelled.\<close> The agent SDK that the session runtime drives (its messages and hook calls are
  an arbitrary course of activities), the unpacking of the workflow bundle and the sandbox probe; the
  git checkout of a knowledge source, the extractor and the archive format, which are parameters of
  the synchronisation; the cache and the queries over published graphs; the MCP servers and
  connectors, which forward to external services; the trace view and analytics; the decryption of
  secrets; process start-up and deployment.
\<close>

section \<open>What holds of the whole platform\<close>

text \<open>
  C1. Whatever the platform does, from an empty database on, in any order and with any
  answers from its environment: identifiers stay unique and events refer to tasks that exist, a
  task has at most one open approval per tool and at most one session row, a task with a session
  carries the identifier of its runtime, and so the session view never meets two rows. The only
  assumption is that the launcher never returns an empty runtime identifier.
\<close>

theorem platform_invariant:
  assumes "reachable d"
  shows "wf_db d \<and> wf_approvals d \<and> one_session d \<and> session_rows s d \<noteq> Inl MultipleResultsFound"
proof -
  from inv_reachable [OF assms] have i: "wf_db d" "wf_approvals d" "one_session d" by (simp_all add: platform_inv_def)
  have "one_or_none (filter (\<lambda>s. s_task_id s = Some k) (sessions d)) \<noteq> Inl e" for k e
    using filter_owner [of d k] i(3) by (cases "filter (\<lambda>s. s_task_id s = Some k) (sessions d)" rule: one_or_none.cases)
      (auto simp: one_session_def)
  then have "session_rows s d \<noteq> Inl MultipleResultsFound"
    by (auto simp: session_rows_def bind_res_def parse_task_id_def Let_def split: option.splits sum.splits if_splits)
  with i show ?thesis by blast
qed

theorem platform_invariant_witness:
  "\<exists>d t. reachable d \<and> tasks d = [t] \<and> one_session d \<and> session_rows (uuid_str (t_id t)) d \<noteq> Inl MultipleResultsFound"
proof -
  from create_task_uncoalesced [of "\<lambda>_. Inr None" "''sre''" None 7 "''check''" None None None None 300 "empty_db 5"]
  obtain t d where c: "create_task (\<lambda>_. Inr None) 7 ''sre'' ''check'' None None None None None 300 (empty_db 5) = Inr (t, d)"
    and d: "tasks d = tasks (empty_db 5) @ [t]" by auto
  have r: "reachable d" by (rule reachable.step [OF reachable.initial task_created [OF c]])
  have "tasks d = [t]" using d by (simp add: empty_db_def)
  with platform_invariant [OF r] r show ?thesis by blast
qed

text \<open>
  C2. A task's runtime is started once: when a turn of the consumer reports a launched
  runtime for a task, the task had no session row before, and afterwards exactly the one of this
  runtime. The hypothesis is the invariant that every reachable database satisfies.
\<close>

theorem runtime_started_once:
  assumes "platform_inv d" "consumer_pass sp pkg pm locked now clock discover live c d = (Inr (Spawned i (Some h)), c', d')"
  shows "filter (\<lambda>s. s_task_id s = Some i) (sessions d) = []
    \<and> (\<exists>s. filter (\<lambda>s. s_task_id s = Some i) (sessions d') = [s] \<and> s_container_id s = Some (fst h))"
proof -
  note iv = assms(1)
  from assms(2) obtain a t e rc rc' where q: "dequeue_task a locked now d = Inr (Some (t, e))"
    and co: "consume_task sp pkg now live t rc e = Inr (Spawned i (Some h), rc', d')"
    unfolding consumer_pass_def by (auto simp: Let_def split: sum.splits prod.splits option.splits)
  from q obtain u where lp: "dequeue_loop a locked 0 [] d = Some u" and cl: "(t, e) = claim_task now u d"
    by (rule dequeue_task_SomeE)
  from dequeue_loop_sound [OF lp] have u: "u \<in> set (tasks d)" by simp
  have t: "t_id t = t_id u" "t_container_id t = t_container_id u" using tasks_claim_task [OF cl [symmetric]] by simp_all
  have se: "sessions e = sessions d" using cl by (auto simp: claim_task_def Let_def)
  from co have i: "i = t_id t" and nc: "\<not> opt_truthy (t_container_id t)" and
    sp: "spawn_agent_session sp pkg now t rc e = Inr (Some h, rc', d')"
    by (auto simp: consume_task_def bind_res_Inr_iff split: if_splits)
  from sp have rl: "record_launch now i h e = Inr d'"
    by (auto simp: i spawn_agent_session_def spawn_failed_def Let_def bind_res_Inr_iff split: sum.splits)
  have "Some i \<notin> set (owners d)"
  proof
    assume "Some i \<in> set (owners d)"
    with iv obtain v where v: "v \<in> set (tasks d)" "t_id v = i" "opt_truthy (t_container_id v)"
      by (auto simp: platform_inv_def one_session_def places_def)
    then have "v = u" using u t(1) i iv by (auto simp: platform_inv_def wf_db_def task_ids_def distinct_map inj_on_def)
    with v nc t(2) show False by simp
  qed
  then have none: "filter (\<lambda>s. s_task_id s = Some i) (sessions d) = []"
    by (auto simp: filter_empty_conv owners_def) (metis image_eqI)
  moreover have "sessions d' = sessions e @ [new_session
      (update_tasks (\<lambda>t. t_id t = i) (\<lambda>t. t\<lparr>t_container_id := Some (fst h), t_session_id := Some (snd h)\<rparr>) e) now i (fst h)]"
    using rl by (auto simp: record_launch_def Let_def split: if_splits)
  ultimately show ?thesis by (simp add: se new_session_def)
qed


text \<open>
  C29. Deleting a task stops its runtime first, and only when that succeeds removes the
  task with everything that refers to it: afterwards no row of any table mentions the task, all
  rows of other tasks are untouched, and the database is still well-formed. When the runtime
  cannot be stopped the answer is an error and nothing is removed.
\<close>

theorem delete_leaves_nothing:
  assumes "platform_inv d" "uuid_of_str s = Some i" "get_task d i = Some t"
  shows "case (if opt_truthy (t_container_id t) then cancel (opt_str (t_container_id t)) else Inr False) of
      Inl exc \<Rightarrow> delete_task_api cancel s d = Inl (HTTPException 502 (''Failed to remove task runtime: '' @ exc))
    | Inr removed \<Rightarrow> \<exists>j d'. delete_task_api cancel s d = Inr (j, d') \<and> platform_inv d'
        \<and> tasks d' = filter (\<lambda>u. t_id u \<noteq> i) (tasks d) \<and> sessions d' = filter (\<lambda>x. s_task_id x \<noteq> Some i) (sessions d)
        \<and> task_events d' = filter (\<lambda>e. te_task_id e \<noteq> i) (task_events d)
        \<and> session_events d' = filter (\<lambda>e. se_task_id e \<noteq> Some i) (session_events d)
        \<and> approvals d' = filter (\<lambda>a. a_task_id a \<noteq> i) (approvals d)
        \<and> agents d' = agents d \<and> schedules d' = schedules d \<and> background_job_runs d' = background_job_runs d"
proof -
  let ?d' = "delete_task_row i (drop_runs i d)"
  have tables: "tasks ?d' = filter (\<lambda>u. t_id u \<noteq> i) (tasks d)" "sessions ?d' = filter (\<lambda>x. s_task_id x \<noteq> Some i) (sessions d)"
    "task_events ?d' = filter (\<lambda>e. te_task_id e \<noteq> i) (task_events d)"
    "session_events ?d' = filter (\<lambda>e. se_task_id e \<noteq> Some i) (session_events d)"
    "approvals ?d' = filter (\<lambda>a. a_task_id a \<noteq> i) (approvals d)"
    "agents ?d' = agents d" "schedules ?d' = schedules d" "background_job_runs ?d' = background_job_runs d"
    by (simp_all add: delete_task_row_def drop_runs_def delete_where_def)
  have stop: "stop_and_remove_task_container cancel (t_container_id t) =
      (case (if opt_truthy (t_container_id t) then cancel (opt_str (t_container_id t)) else Inr False) of
         Inl exc \<Rightarrow> Inl (HTTPException 502 (''Failed to remove task runtime: '' @ exc)) | Inr b \<Rightarrow> Inr b)"
    by (simp add: stop_and_remove_task_container_def split: sum.split)
  have "\<exists>j. delete_task_api cancel s d = Inr (j, ?d')" if "stop_and_remove_task_container cancel (t_container_id t) = Inr b" for b
    using that assms(2,3) by (simp add: delete_task_api_def parse_task_id_def)
  moreover have "platform_inv ?d'" if "delete_task_api cancel s d = Inr (j, ?d')" for j using inv_delete [OF assms(1) that] .
  ultimately show ?thesis
    using assms(2,3) stop tables
    by (auto simp: delete_task_api_def parse_task_id_def split: sum.split)
qed

section \<open>Concrete instances\<close>

definition demo_failed :: db where
  "demo_failed = demo_db [demo_task 12 ''a'' failed 2]"

lemma demo_inv: "platform_inv demo_queue" "platform_inv demo_failed"
  by (simp_all add: platform_inv_def one_session_def wf_approvals_def open_unique_def wf_db_def task_ids_def owners_def
      demo_queue_def demo_failed_def demo_defs)

lemma demo_launch: "launch_session demo_spawn (\<lambda>_. Inr (Some demo_config)) (fst (claim_task 7 (demo_task 12 ''a'' queued 2) demo_queue))
    = Inr (''c1'', ''c'')"
  by (simp add: launch_session_def load_agent_yaml_def session_spec_def session_environment_def obj_get_default_def
      reminder_section_def demo_config_def demo_spawn_def get_default_def get_session_model_selector_def
      get_agent_env_vars_def has_plain_secret_def dget_def claim_task_def py_or_def Let_def)

lemma demo_started:
  "\<exists>c' d'. consumer_pass demo_spawn (\<lambda>_. Inr (Some demo_config)) 3 (\<lambda>_ _. False) 7 0 [(''a'', JObj [])] []
     \<lparr>co_cache = \<lparr>wc_table = [(''a'', 1, 1)], wc_loaded_at = 0\<rparr>, co_running = []\<rparr> demo_queue
       = (Inr (Spawned 12 (Some (''c1'', ''c''))), c', d')"
proof -
  let ?t = "demo_task 12 ''a'' queued 2"
  let ?c = "claim_task 7 ?t demo_queue"
  have r: "refresh_plugin_worker_cache False 0 [(''a'', JObj [])] \<lparr>wc_table = [(''a'', 1, 1)], wc_loaded_at = 0\<rparr>
      = Inr ([(''a'', 1, 1)], \<lparr>wc_table = [(''a'', 1, 1)], wc_loaded_at = 0\<rparr>)"
    by (simp add: refresh_plugin_worker_cache_def PLUGIN_SCAN_INTERVAL_SEC_def)
  have q: "dequeue_task (consumer_args 3 (enabled_plugins [(''a'', 1, 1)] demo_queue)) (\<lambda>_ _. False) 7 demo_queue = Inr (Some ?c)"
    by (simp add: dequeue_eval consumer_args_def enabled_plugins_def demo_queue_def demo_agent_def demo_defs)
  have id: "t_id (fst ?c) = 12" "\<not> opt_truthy (t_container_id (fst ?c))" "sp_restore_memory demo_spawn (t_workflow (fst ?c)) = Inr ()"
    by (simp_all add: claim_task_def Let_def demo_defs opt_truthy_def demo_spawn_def)
  have "12 \<in> set (task_ids (snd ?c))"
    by (simp add: claim_task_def Let_def demo_queue_def demo_defs) (simp add: task_ids_def)
  then have "\<exists>rc' d'. spawn_agent_session demo_spawn (\<lambda>_. Inr (Some demo_config)) 7 (fst ?c) [] (snd ?c)
      = Inr (Some (''c1'', ''c''), rc', d')"
    unfolding spawn_agent_session_def demo_launch sum.case id(1) by (simp add: record_launch_def Let_def)
  then have "\<exists>rc' d'. consume_task demo_spawn (\<lambda>_. Inr (Some demo_config)) 7 [] (fst ?c) [] (snd ?c)
      = Inr (Spawned 12 (Some (''c1'', ''c'')), rc', d')"
    using id by (auto simp: consume_task_def)
  then show ?thesis by (auto simp: consumer_pass_def r q split_beta Let_def)
qed

theorem runtime_started_once_witness:
  "\<exists>c' d' s. consumer_pass demo_spawn (\<lambda>_. Inr (Some demo_config)) 3 (\<lambda>_ _. False) 7 0 [(''a'', JObj [])] []
     \<lparr>co_cache = \<lparr>wc_table = [(''a'', 1, 1)], wc_loaded_at = 0\<rparr>, co_running = []\<rparr> demo_queue
       = (Inr (Spawned 12 (Some (''c1'', ''c''))), c', d')
     \<and> filter (\<lambda>s. s_task_id s = Some 12) (sessions d') = [s] \<and> s_container_id s = Some ''c1''"
  using demo_started runtime_started_once [OF demo_inv(1)] by fastforce

lemma demo_task_id: "uuid_of_str (uuid_str 12) = Some 12"
  by (rule uuid_roundtrip) simp


theorem delete_leaves_nothing_witness:
  "\<exists>j d'. delete_task_api (\<lambda>_. Inr True) (uuid_str 12) demo_failed = Inr (j, d') \<and> platform_inv d' \<and> tasks d' = []"
proof -
  have t: "get_task demo_failed 12 = Some (demo_task 12 ''a'' failed 2)" "\<not> opt_truthy (t_container_id (demo_task 12 ''a'' failed 2))"
    "filter (\<lambda>u. t_id u \<noteq> 12) (tasks demo_failed) = []"
    by (simp_all add: get_task_def demo_failed_def demo_defs opt_truthy_def)
  from delete_leaves_nothing [OF demo_inv(2) demo_task_id t(1), of "\<lambda>_. Inr True"] t(2,3) show ?thesis by auto
qed

end
